(* ===== verification/Prelude.thy ===== *)
theory Prelude
  imports Main "HOL-Library.Word" "HOL-Library.List_Lexorder" "HOL-Library.Product_Lexorder"
begin

text \<open>
  Shared vocabulary of the development: the Rust types every component uses and the
  generic lemmas that carry the component proofs.

  \<^item> \<open>'n barray\<close> is Rust's \<open>[u8; N]\<close> (a byte list whose length is fixed by the type), with
    equality and the lexicographic order Rust derives for arrays;
  \<^item> \<open>('e, 'a) result\<close> is the outcome of a fallible function: \<open>Ok\<close>, \<open>Err\<close>, or \<open>Panic\<close> for a
    slice or index expression out of range;
  \<^item> \<open>slice32\<close>, \<open>le_bytes\<close>, \<open>be_bytes\<close>, \<open>position\<close>, \<open>update_first\<close>, \<open>push_unique\<close> and
    \<open>find_map\<close> are the slice, integer and iterator operations of the standard library that
    the code uses;
  \<^item> the collection \<open>byte_simps\<close> evaluates concatenated fixed-width fields.
\<close>

named_theorems byte_simps \<open>lengths and reads of concatenated fixed-width fields\<close>
named_theorems view_simps \<open>unfolding rules of the projection folds\<close>

type_synonym u8 = "8 word"
type_synonym u32 = "32 word"
type_synonym u64 = "64 word"

section \<open>Fixed-size byte arrays\<close>

typedef (overloaded) 'n barray = "{xs :: u8 list. length xs = LENGTH('n::len)}"
  morphisms bytes Barray
  by (rule exI [of _ "replicate LENGTH('n) 0"]) simp

lemma Barray_bytes [code abstype]: "Barray (bytes a) = a"
  by (rule bytes_inverse)

type_synonym b32 = "32 barray"
type_synonym b64 = "64 barray"

text \<open>\<open>[b; N]\<close> and \<open>let mut out = [0u8; N]; out.copy_from_slice(xs)\<close> (the latter panics
  unless \<open>xs\<close> has length \<open>N\<close>; \<open>barray_of\<close> is only applied to lists of that length).\<close>

definition bfill :: "u8 \<Rightarrow> 'n::len barray" where
  "bfill b = Barray (replicate LENGTH('n) b)"

definition barray_of :: "u8 list \<Rightarrow> 'n::len barray" where
  "barray_of xs = Barray (take LENGTH('n) (xs @ replicate LENGTH('n) 0))"

lemma bytes_bfill [simp, code abstract]: "bytes (bfill b :: 'n::len barray) = replicate LENGTH('n) b"
  by (simp add: bfill_def Barray_inverse)

lemma bytes_barray_of_padded [code abstract]:
  "bytes (barray_of xs :: 'n::len barray) = take LENGTH('n) (xs @ replicate LENGTH('n) 0)"
  by (simp add: barray_of_def Barray_inverse)

lemma length_bytes [simp, byte_simps]: "length (bytes (a :: 'n::len barray)) = LENGTH('n)"
  using bytes [of a] by simp

lemma bytes_eq_iff [simp]: "bytes a = bytes b \<longleftrightarrow> a = b"
  by (rule bytes_inject)

lemma bytes_ne_Nil [simp]: "bytes (a :: 'n::len barray) \<noteq> []"
  using length_bytes [of a] by (metis len_not_eq_0 list.size(3))

lemma bytes_barray_of [simp]:
  "length xs = LENGTH('n::len) \<Longrightarrow> bytes (barray_of xs :: 'n barray) = xs"
  by (simp add: bytes_barray_of_padded)

lemma barray_of_bytes [simp]: "barray_of (bytes a) = a"
  by (metis bytes_barray_of length_bytes bytes_eq_iff)

lemma barray_of_inject:
  "length xs = LENGTH('n::len) \<Longrightarrow> length ys = LENGTH('n) \<Longrightarrow>
    (barray_of xs :: 'n barray) = barray_of ys \<longleftrightarrow> xs = ys"
  by (metis bytes_barray_of)

lemma bfill_eq_iff [simp]: "(bfill a :: 'n::len barray) = bfill b \<longleftrightarrow> a = b"
  by (simp flip: bytes_eq_iff add: replicate_eq_replicate del: bytes_eq_iff)

instantiation barray :: (len) equal
begin

definition equal_barray :: "'a barray \<Rightarrow> 'a barray \<Rightarrow> bool" where
  "equal_barray a b \<longleftrightarrow> bytes a = bytes b"

instance
  by standard (simp add: equal_barray_def)

end

text \<open>Arrays are compared lexicographically (\<open>Ord for [T; N]\<close>).\<close>

instantiation barray :: (len) linorder
begin

definition less_eq_barray :: "'a barray \<Rightarrow> 'a barray \<Rightarrow> bool" where
  "less_eq_barray a b \<longleftrightarrow> bytes a \<le> bytes b"

definition less_barray :: "'a barray \<Rightarrow> 'a barray \<Rightarrow> bool" where
  "less_barray a b \<longleftrightarrow> bytes a < bytes b"

instance
  by standard (auto simp: less_eq_barray_def less_barray_def less_le)

end

section \<open>Fallible functions\<close>

datatype ('e, 'a) result = Ok 'a | Err 'e | Panic

fun and_then :: "('e, 'a) result \<Rightarrow> ('a \<Rightarrow> ('e, 'b) result) \<Rightarrow> ('e, 'b) result" where
  "and_then (Ok x) f = f x"
| "and_then (Err e) f = Err e"
| "and_then Panic f = Panic"

text \<open>\<open>Result::ok\<close> and \<open>map_err\<close>. A panic unwinds through both; the payload readers whose
  results are passed to \<open>ok\<close> are proved never to panic.\<close>

fun ok :: "('e, 'a) result \<Rightarrow> 'a option" where
  "ok (Ok x) = Some x"
| "ok _ = None"

fun map_err :: "('e \<Rightarrow> 'f) \<Rightarrow> ('e, 'a) result \<Rightarrow> ('f, 'a) result" where
  "map_err f (Ok x) = Ok x"
| "map_err f (Err e) = Err (f e)"
| "map_err f Panic = Panic"

fun ok_or :: "'a option \<Rightarrow> 'e \<Rightarrow> ('e, 'a) result" where
  "ok_or (Some x) e = Ok x"
| "ok_or None e = Err e"

lemma and_then_eq_Ok [simp]:
  "and_then r f = Ok y \<longleftrightarrow> (\<exists>x. r = Ok x \<and> f x = Ok y)"
  by (cases r) auto

lemma and_then_eq_Panic:
  "and_then r f = Panic \<longleftrightarrow> r = Panic \<or> (\<exists>x. r = Ok x \<and> f x = Panic)"
  by (cases r) auto

lemma map_err_eq_Ok [simp]: "map_err f r = Ok x \<longleftrightarrow> r = Ok x"
  by (cases r) auto

lemma ok_eq_Some [simp]: "ok r = Some x \<longleftrightarrow> r = Ok x"
  by (cases r) auto

lemma ok_or_eq_Ok [simp]: "ok_or o' e = Ok x \<longleftrightarrow> o' = Some x"
  by (cases o') auto

lemma ok_or_not_Panic [simp]: "ok_or o' e \<noteq> Panic"
  by (cases o') auto

section \<open>Slices and integers\<close>

text \<open>\<open>let mut out = [0u8; 32]; out.copy_from_slice(&bytes[start..start + 32])\<close>: slicing out
  of range panics.\<close>

definition slice_array :: "u8 list \<Rightarrow> nat \<Rightarrow> (string, 'n::len barray) result" where
  "slice_array bs start =
    (if start + LENGTH('n) \<le> length bs
     then Ok (barray_of (take LENGTH('n) (drop start bs))) else Panic)"

text \<open>\<open>bytes[i]\<close>.\<close>

definition index_byte :: "u8 list \<Rightarrow> nat \<Rightarrow> (string, u8) result" where
  "index_byte bs i = (if i < length bs then Ok (bs ! i) else Panic)"

lemma slice_array_Ok:
  "start + LENGTH('n::len) \<le> length bs \<Longrightarrow>
    slice_array bs start = Ok (barray_of (take LENGTH('n) (drop start bs)) :: 'n barray)"
  by (simp add: slice_array_def)

lemma slice_array_append [byte_simps]:
  "start = length xs \<Longrightarrow> slice_array (xs @ bytes a @ ys) start = Ok (a :: 'n::len barray)"
  by (simp add: slice_array_def)

lemma slice_array_append_end [byte_simps]:
  "start = length xs \<Longrightarrow> slice_array (xs @ bytes a) start = Ok (a :: 'n::len barray)"
  by (simp add: slice_array_def)

lemma slice_array_0 [byte_simps]: "slice_array (bytes a @ ys) 0 = Ok (a :: 'n::len barray)"
  by (simp add: slice_array_def)

lemma slice_array_whole [byte_simps]: "slice_array (bytes a) 0 = Ok (a :: 'n::len barray)"
  by (simp add: slice_array_def)

lemma index_byte_Ok: "i < length bs \<Longrightarrow> index_byte bs i = Ok (bs ! i)"
  by (simp add: index_byte_def)

text \<open>Little- and big-endian bytes of an unsigned integer (\<open>to_le_bytes\<close>, \<open>to_be_bytes\<close>).\<close>

definition le_bytes :: "nat \<Rightarrow> 'a::len word \<Rightarrow> u8 list" where
  "le_bytes n w = map (\<lambda>i. ucast (drop_bit (8 * i) w)) [0..<n]"

definition be_bytes :: "nat \<Rightarrow> 'a::len word \<Rightarrow> u8 list" where
  "be_bytes n w = rev (le_bytes n w)"

lemma length_le_bytes [simp, byte_simps]: "length (le_bytes n w) = n"
  by (simp add: le_bytes_def)

lemma length_be_bytes [simp, byte_simps]: "length (be_bytes n w) = n"
  by (simp add: be_bytes_def)

lemma le_bytes_inject:
  fixes v w :: "'a::len word"
  assumes "LENGTH('a) \<le> 8 * n"
  shows "le_bytes n v = le_bytes n w \<longleftrightarrow> v = w"
proof
  assume eq: "le_bytes n v = le_bytes n w"
  show "v = w"
  proof (rule bit_word_eqI)
    fix i assume i: "i < LENGTH('a)"
    let ?k = "i div 8" and ?j = "i mod 8"
    have k: "?k < n" using i assms by (simp add: less_mult_imp_div_less mult.commute)
    have "(ucast (drop_bit (8 * ?k) v) :: u8) = ucast (drop_bit (8 * ?k) w)"
      using arg_cong [OF eq, of "\<lambda>l. l ! ?k"] k by (simp add: le_bytes_def)
    then have "bit (ucast (drop_bit (8 * ?k) v) :: u8) ?j
        = bit (ucast (drop_bit (8 * ?k) w) :: u8) ?j"
      by simp
    then show "bit v i = bit w i"
      by (simp add: bit_ucast_iff bit_drop_bit_eq)
  qed
qed simp

lemma be_bytes_inject:
  fixes v w :: "'a::len word"
  assumes "LENGTH('a) \<le> 8 * n"
  shows "be_bytes n v = be_bytes n w \<longleftrightarrow> v = w"
  using le_bytes_inject [OF assms] by (simp add: be_bytes_def)

section \<open>Iterators and vectors\<close>

fun position :: "('a \<Rightarrow> bool) \<Rightarrow> 'a list \<Rightarrow> nat option" where
  "position p [] = None"
| "position p (x # xs) = (if p x then Some 0 else map_option Suc (position p xs))"

fun find_map :: "('a \<Rightarrow> 'b option) \<Rightarrow> 'a list \<Rightarrow> 'b option" where
  "find_map f [] = None"
| "find_map f (x # xs) = (case f x of Some y \<Rightarrow> Some y | None \<Rightarrow> find_map f xs)"

text \<open>\<open>if let Some(x) = xs.iter_mut().find(p) { *x = f(x) }\<close>\<close>

fun update_first :: "('a \<Rightarrow> bool) \<Rightarrow> ('a \<Rightarrow> 'a) \<Rightarrow> 'a list \<Rightarrow> 'a list" where
  "update_first p f [] = []"
| "update_first p f (x # xs) = (if p x then f x # xs else x # update_first p f xs)"

text \<open>\<open>if !values.contains(&value) { values.push(value) }\<close>\<close>

definition push_unique :: "'a list \<Rightarrow> 'a \<Rightarrow> 'a list" where
  "push_unique xs x = (if x \<in> set xs then xs else xs @ [x])"

text \<open>\<open>xs.last()\<close>\<close>

definition last_opt :: "'a list \<Rightarrow> 'a option" where
  "last_opt xs = (if xs = [] then None else Some (last xs))"

lemma last_opt_simps [simp]:
  "last_opt [] = None" "last_opt (xs @ [x]) = Some x"
  "last_opt xs = None \<longleftrightarrow> xs = []" "last_opt xs = Some x \<longleftrightarrow> xs \<noteq> [] \<and> x = last xs"
  by (auto simp: last_opt_def)

lemma position_None: "position p xs = None \<longleftrightarrow> (\<forall>x\<in>set xs. \<not> p x)"
  by (induction xs) auto

lemma position_Some:
  "position p xs = Some i \<longleftrightarrow> i < length xs \<and> p (xs ! i) \<and> (\<forall>j<i. \<not> p (xs ! j))"
proof (induction xs arbitrary: i)
  case Nil
  then show ?case by simp
next
  case (Cons x xs)
  then show ?case
    by (cases i) (auto simp: less_Suc_eq_0_disj nth_Cons')
qed

lemma position_SomeD: "position p xs = Some i \<Longrightarrow> i < length xs \<and> p (xs ! i)"
  by (simp add: position_Some)

lemma find_map_None: "find_map f xs = None \<longleftrightarrow> (\<forall>x\<in>set xs. f x = None)"
  by (induction xs) (auto split: option.splits)

lemma find_map_SomeD: "find_map f xs = Some y \<Longrightarrow> \<exists>x\<in>set xs. f x = Some y"
  by (induction xs) (auto split: option.splits)

lemma length_update_first [simp]: "length (update_first p f xs) = length xs"
  by (induction xs) auto

lemma map_update_first:
  "(\<And>x. p x \<Longrightarrow> g (f x) = g x) \<Longrightarrow> map g (update_first p f xs) = map g xs"
  by (induction xs) auto

lemma update_first_id: "\<forall>x\<in>set xs. \<not> p x \<Longrightarrow> update_first p f xs = xs"
  by (induction xs) auto

lemma set_update_first:
  "y \<in> set (update_first p f xs) \<Longrightarrow> y \<in> set xs \<or> (\<exists>x\<in>set xs. p x \<and> y = f x)"
  by (induction xs) (auto split: if_splits)

lemma find_update_first_other:
  "(\<And>x. p x \<Longrightarrow> \<not> q x \<and> \<not> q (f x)) \<Longrightarrow> find q (update_first p f xs) = find q xs"
  by (induction xs) auto

lemma find_update_first_same:
  "(\<And>x. p x \<Longrightarrow> p (f x)) \<Longrightarrow> find p (update_first p f xs) = map_option f (find p xs)"
  by (induction xs) auto

lemma find_append: "find p (xs @ ys) = (case find p xs of None \<Rightarrow> find p ys | Some x \<Rightarrow> Some x)"
  by (induction xs) auto

lemma find_SomeD: "find p xs = Some x \<Longrightarrow> x \<in> set xs \<and> p x"
  by (induction xs) (auto split: if_splits)

lemma set_push_unique [simp]: "set (push_unique xs x) = insert x (set xs)"
  by (auto simp: push_unique_def)

lemma distinct_push_unique [simp]: "distinct (push_unique xs x) \<longleftrightarrow> distinct xs"
  by (auto simp: push_unique_def)

lemma distinct_map_find:
  assumes "distinct (map f xs)" "x \<in> set xs"
  shows "find (\<lambda>y. f y = f x) xs = Some x"
  using assms by (induction xs) auto

lemma foldl_invariant:
  assumes "I s" and "\<And>s x. I s \<Longrightarrow> x \<in> set xs \<Longrightarrow> I (f s x)"
  shows "I (foldl f s xs)"
  using assms by (induction xs arbitrary: s) auto

text \<open>Functional refinement of a fold: each step commutes with the abstraction.\<close>

lemma foldl_refines:
  assumes "I s" and "\<And>s x. I s \<Longrightarrow> x \<in> set xs \<Longrightarrow> I (f s x) \<and> absf (f s x) = g (absf s) x"
  shows "I (foldl f s xs) \<and> absf (foldl f s xs) = foldl g (absf s) xs"
  using assms
proof (induction xs arbitrary: s)
  case (Cons x xs)
  then have "I (f s x)" and step: "absf (f s x) = g (absf s) x"
    by auto
  with Cons.IH [of "f s x"] Cons.prems(2) show ?case
    by simp
qed simp

section \<open>Saturating arithmetic\<close>

definition sat_add :: "'a::len word \<Rightarrow> 'a word \<Rightarrow> 'a word" where
  "sat_add a b = (if unat a + unat b < 2 ^ LENGTH('a) then a + b else - 1)"

definition sat_sub :: "'a::len word \<Rightarrow> 'a word \<Rightarrow> 'a word" where
  "sat_sub a b = (if b \<le> a then a - b else 0)"

definition sat_mul :: "'a::len word \<Rightarrow> 'a word \<Rightarrow> 'a word" where
  "sat_mul a b = (if unat a * unat b < 2 ^ LENGTH('a) then a * b else - 1)"

lemma sat_sub_unat: "unat (sat_sub a b) = unat a - unat b"
  by (auto simp: sat_sub_def unat_sub word_le_nat_alt)

lemma unat_sat_add: "unat (sat_add a (b :: 'a::len word)) = min (unat a + unat b) (2 ^ LENGTH('a) - 1)"
  by (auto simp: sat_add_def unat_plus_if' unsigned_minus_1_eq_mask mask_eq_exp_minus_1 min_def)

lemma unat_sat_mul: "unat (sat_mul a (b :: 'a::len word)) = min (unat a * unat b) (2 ^ LENGTH('a) - 1)"
proof (cases "unat a * unat b < 2 ^ LENGTH('a)")
  case True
  then show ?thesis by (simp add: sat_mul_def unat_mult_lem [THEN iffD1])
next
  case False
  then have "2 ^ LENGTH('a) - 1 \<le> unat a * unat b" by simp
  with False show ?thesis
    by (simp add: sat_mul_def unsigned_minus_1_eq_mask mask_eq_exp_minus_1 min_absorb2)
qed

section \<open>Decimal numbers\<close>

fun decimal :: "nat \<Rightarrow> u8 list" where
  "decimal n = (if n < 10 then [of_nat (48 + n)] else decimal (n div 10) @ [of_nat (48 + n mod 10)])"

declare decimal.simps [simp del]

end
