(* ===== verification/Primitives.thy ===== *)
theory Primitives
  imports Prelude
begin

text \<open>
  \<open>core/hivra-core/src/primitives.rs\<close>: the newtypes of keys, identifiers and timestamps, the
  starter kinds, the networks and the slot index, with their byte codecs. A Rust newtype is a
  one-constructor datatype, so that a key cannot be used where an identifier is expected.
\<close>

datatype pub_key = PubKey (pub_key_as_bytes: b32)
datatype signature = Signature (signature_as_bytes: b64)
datatype starter_id = StarterId (starter_id_as_bytes: b32)
datatype timestamp = Timestamp (as_u64: u64)

text \<open>\<open>#[derive(PartialOrd, Ord)]\<close> on \<open>Timestamp\<close>.\<close>

instantiation timestamp :: linorder
begin

definition less_eq_timestamp :: "timestamp \<Rightarrow> timestamp \<Rightarrow> bool" where
  "less_eq_timestamp a b \<longleftrightarrow> as_u64 a \<le> as_u64 b"

definition less_timestamp :: "timestamp \<Rightarrow> timestamp \<Rightarrow> bool" where
  "less_timestamp a b \<longleftrightarrow> as_u64 a < as_u64 b"

instance
  by standard (auto simp: less_eq_timestamp_def less_timestamp_def timestamp.expand)

end

lemma timestamp_le_iff [simp]: "Timestamp a \<le> Timestamp b \<longleftrightarrow> a \<le> b"
  by (simp add: less_eq_timestamp_def)

lemma timestamp_less_iff [simp]: "Timestamp a < Timestamp b \<longleftrightarrow> a < b"
  by (simp add: less_timestamp_def)

datatype starter_kind = Juice | Spark | Seed | Pulse | Kick

fun starter_kind_to_byte :: "starter_kind \<Rightarrow> u8" where
  "starter_kind_to_byte Juice = 0"
| "starter_kind_to_byte Spark = 1"
| "starter_kind_to_byte Seed = 2"
| "starter_kind_to_byte Pulse = 3"
| "starter_kind_to_byte Kick = 4"

definition starter_kind_from_u8 :: "u8 \<Rightarrow> starter_kind option" where
  "starter_kind_from_u8 value =
    (if value = 0 then Some Juice
     else if value = 1 then Some Spark
     else if value = 2 then Some Seed
     else if value = 3 then Some Pulse
     else if value = 4 then Some Kick
     else None)"

datatype network = Hood | Neste

fun network_to_byte :: "network \<Rightarrow> u8" where
  "network_to_byte Hood = 0"
| "network_to_byte Neste = 1"

definition network_from_u8 :: "u8 \<Rightarrow> network option" where
  "network_from_u8 value =
    (if value = 0 then Some Hood else if value = 1 then Some Neste else None)"

text \<open>The field of \<open>SlotIndex\<close> is private: values are made by \<open>SlotIndex::new\<close> only.\<close>

datatype slot_index = SlotIndex (slot_index_as_u8: u8)

definition slot_index_new :: "u8 \<Rightarrow> slot_index option" where
  "slot_index_new value = (if value < 5 then Some (SlotIndex value) else None)"

section \<open>Codecs of the primitive enumerations\<close>

lemma starter_kind_from_to_byte [simp]: "starter_kind_from_u8 (starter_kind_to_byte k) = Some k"
  by (cases k) (simp_all add: starter_kind_from_u8_def)

lemma starter_kind_to_byte_from:
  "starter_kind_from_u8 b = Some k \<Longrightarrow> starter_kind_to_byte k = b"
  by (auto simp: starter_kind_from_u8_def split: if_splits)

lemma starter_kind_to_byte_less: "unat (starter_kind_to_byte k) < 5"
  by (cases k) simp_all

lemma starter_kind_to_byte_inject [simp]:
  "starter_kind_to_byte a = starter_kind_to_byte b \<longleftrightarrow> a = b"
  by (metis starter_kind_from_to_byte option.inject)

lemma network_from_to_byte [simp]: "network_from_u8 (network_to_byte n) = Some n"
  by (cases n) (simp_all add: network_from_u8_def)

lemma slot_index_new_nat:
  "i < 5 \<Longrightarrow> slot_index_new (of_nat i) = Some (SlotIndex (of_nat i))"
  by (simp add: slot_index_new_def word_less_nat_alt take_bit_nat_eq_self unsigned_of_nat)

lemma slot_index_new_SomeD:
  "slot_index_new b = Some s \<Longrightarrow> s = SlotIndex b \<and> unat b < 5"
  by (auto simp: slot_index_new_def word_less_nat_alt split: if_splits)

end
