(* ===== verification/Event.thy ===== *)
theory Event
  imports Primitives
begin

text \<open>
  \<open>core/hivra-core/src/event.rs\<close>: event kinds, signed events and the deterministic event
  identifier. SHA-256 is a third-party crate, so it is the parameter \<open>H\<close>: a function from
  byte strings to 32 bytes.

  The lemmas show which fields the identifier commits to: under protocol v4 the kind and the
  payload only, under protocol v5 also the timestamp and the signer.
\<close>

definition PROTOCOL_VERSION :: u8 where
  "PROTOCOL_VERSION = 4"

definition CONTINUOUS_LEDGER_PROTOCOL_VERSION :: u8 where
  "CONTINUOUS_LEDGER_PROTOCOL_VERSION = 5"

text \<open>A byte-string literal \<open>b"..."\<close>.\<close>

definition ascii :: "string \<Rightarrow> u8 list" where
  "ascii s = map (\<lambda>c. of_nat (of_char c)) s"

definition V5_DOMAIN_EVENT_TAG :: "u8 list" where
  "V5_DOMAIN_EVENT_TAG = ascii ''hivra/domain-event/v5''"

datatype event_kind =
    CapsuleCreated
  | InvitationSent
  | InvitationAccepted
  | InvitationRejected
  | InvitationExpired
  | StarterCreated
  | StarterBurned
  | RelationshipEstablished
  | RelationshipBroken
  | InvitationReceived

fun event_kind_to_u8 :: "event_kind \<Rightarrow> u8" where
  "event_kind_to_u8 CapsuleCreated = 0"
| "event_kind_to_u8 InvitationSent = 1"
| "event_kind_to_u8 InvitationAccepted = 2"
| "event_kind_to_u8 InvitationRejected = 3"
| "event_kind_to_u8 InvitationExpired = 4"
| "event_kind_to_u8 StarterCreated = 5"
| "event_kind_to_u8 StarterBurned = 6"
| "event_kind_to_u8 RelationshipEstablished = 7"
| "event_kind_to_u8 RelationshipBroken = 8"
| "event_kind_to_u8 InvitationReceived = 9"

lemma event_kind_to_u8_inject [simp]:
  "event_kind_to_u8 a = event_kind_to_u8 b \<longleftrightarrow> a = b"
  by (cases a; cases b) simp_all

record event =
  ev_version :: u8
  ev_kind :: event_kind
  ev_payload :: "u8 list"
  ev_timestamp :: timestamp
  ev_signature :: signature
  ev_signer :: pub_key

definition event_new ::
  "event_kind \<Rightarrow> u8 list \<Rightarrow> timestamp \<Rightarrow> signature \<Rightarrow> pub_key \<Rightarrow> event" where
  "event_new kind payload ts sig signer =
    \<lparr> ev_version = PROTOCOL_VERSION, ev_kind = kind, ev_payload = payload,
      ev_timestamp = ts, ev_signature = sig, ev_signer = signer \<rparr>"

definition event_new_v5 ::
  "event_kind \<Rightarrow> u8 list \<Rightarrow> timestamp \<Rightarrow> signature \<Rightarrow> pub_key \<Rightarrow> event" where
  "event_new_v5 kind payload ts sig signer =
    \<lparr> ev_version = CONTINUOUS_LEDGER_PROTOCOL_VERSION, ev_kind = kind, ev_payload = payload,
      ev_timestamp = ts, ev_signature = sig, ev_signer = signer \<rparr>"

lemma event_new_sel [simp]:
  "ev_version (event_new k p t s r) = PROTOCOL_VERSION"
  "ev_kind (event_new k p t s r) = k"
  "ev_payload (event_new k p t s r) = p"
  "ev_timestamp (event_new k p t s r) = t"
  "ev_signature (event_new k p t s r) = s"
  "ev_signer (event_new k p t s r) = r"
  by (simp_all add: event_new_def)

lemma event_new_v5_sel [simp]:
  "ev_version (event_new_v5 k p t s r) = CONTINUOUS_LEDGER_PROTOCOL_VERSION"
  "ev_kind (event_new_v5 k p t s r) = k"
  "ev_payload (event_new_v5 k p t s r) = p"
  "ev_timestamp (event_new_v5 k p t s r) = t"
  "ev_signature (event_new_v5 k p t s r) = s"
  "ev_signer (event_new_v5 k p t s r) = r"
  by (simp_all add: event_new_v5_def)

lemma protocol_versions_differ [simp]:
  "PROTOCOL_VERSION \<noteq> CONTINUOUS_LEDGER_PROTOCOL_VERSION"
  "CONTINUOUS_LEDGER_PROTOCOL_VERSION \<noteq> PROTOCOL_VERSION"
  by (simp_all add: PROTOCOL_VERSION_def CONTINUOUS_LEDGER_PROTOCOL_VERSION_def)

section \<open>Event identifiers\<close>

text \<open>The bytes \<open>Event::event_id\<close> feeds to the hasher, by protocol version. A length is cast
  with \<open>as u64\<close>.\<close>

definition event_id_preimage :: "event \<Rightarrow> u8 list" where
  "event_id_preimage e =
    (if ev_version e = PROTOCOL_VERSION then
       [ev_version e] @ [event_kind_to_u8 (ev_kind e)] @ ev_payload e
     else if ev_version e = CONTINUOUS_LEDGER_PROTOCOL_VERSION then
       V5_DOMAIN_EVENT_TAG @ [ev_version e] @ [event_kind_to_u8 (ev_kind e)]
       @ be_bytes 8 (of_nat (length (ev_payload e)) :: u64) @ ev_payload e
       @ be_bytes 8 (as_u64 (ev_timestamp e))
       @ bytes (pub_key_as_bytes (ev_signer e))
     else
       [ev_version e] @ [event_kind_to_u8 (ev_kind e)] @ ev_payload e
       @ be_bytes 8 (as_u64 (ev_timestamp e))
       @ bytes (pub_key_as_bytes (ev_signer e)))"

definition event_id :: "(u8 list \<Rightarrow> b32) \<Rightarrow> event \<Rightarrow> b32" where
  "event_id H e = H (event_id_preimage e)"

text \<open>The fields of an event that are not its signature.\<close>

definition event_core :: "event \<Rightarrow> u8 \<times> event_kind \<times> u8 list \<times> timestamp \<times> pub_key" where
  "event_core e = (ev_version e, ev_kind e, ev_payload e, ev_timestamp e, ev_signer e)"

lemma event_core_eq_iff:
  "event_core a = event_core b \<longleftrightarrow>
    ev_version a = ev_version b \<and> ev_kind a = ev_kind b \<and> ev_payload a = ev_payload b
    \<and> ev_timestamp a = ev_timestamp b \<and> ev_signer a = ev_signer b"
  by (auto simp: event_core_def)

lemma event_eqI_core:
  "event_core a = event_core b \<Longrightarrow> ev_signature a = ev_signature b \<Longrightarrow> a = (b :: event)"
  by (simp add: event_core_def)

lemma event_id_signature [simp]: "event_id H (e\<lparr>ev_signature := s\<rparr>) = event_id H e"
  by (simp add: event_id_def event_id_preimage_def)

lemma event_id_v4_ignores:
  "ev_version e = PROTOCOL_VERSION \<Longrightarrow>
    event_id H (e\<lparr>ev_timestamp := t, ev_signature := s, ev_signer := r\<rparr>) = event_id H e"
  by (simp add: event_id_def event_id_preimage_def)

text \<open>The v5 preimage determines every field it is built from: the fixed-width fields at both
  ends delimit the payload.\<close>

lemma event_id_preimage_v5_inject:
  assumes va: "ev_version a = CONTINUOUS_LEDGER_PROTOCOL_VERSION"
    and vb: "ev_version b = CONTINUOUS_LEDGER_PROTOCOL_VERSION"
    and eq: "event_id_preimage a = event_id_preimage b"
  shows "event_core a = event_core b"
proof -
  let ?p = "\<lambda>e. be_bytes 8 (of_nat (length (ev_payload e)) :: u64)"
  let ?t = "\<lambda>e. be_bytes 8 (as_u64 (ev_timestamp e))"
  let ?s = "\<lambda>e. bytes (pub_key_as_bytes (ev_signer e))"
  from eq have body: "event_kind_to_u8 (ev_kind a) # ?p a @ ev_payload a @ ?t a @ ?s a
      = event_kind_to_u8 (ev_kind b) # ?p b @ ev_payload b @ ?t b @ ?s b"
    by (simp add: event_id_preimage_def va vb)
  then have rest: "?p a @ (ev_payload a @ ?t a @ ?s a) = ?p b @ (ev_payload b @ ?t b @ ?s b)"
    by simp
  then have rest2: "ev_payload a @ (?t a @ ?s a) = ev_payload b @ (?t b @ ?s b)"
    by (simp add: append_eq_append_conv)
  then have pay: "ev_payload a = ev_payload b" and tail: "?t a @ ?s a = ?t b @ ?s b"
    by (simp_all add: append_eq_append_conv)
  from tail have "?t a = ?t b" and "?s a = ?s b"
    by (simp_all add: append_eq_append_conv)
  then have "ev_timestamp a = ev_timestamp b" "ev_signer a = ev_signer b"
    by (simp_all add: be_bytes_inject timestamp.expand pub_key.expand)
  with body pay va vb show ?thesis
    by (simp add: event_core_eq_iff)
qed

end
