(* ===== verification/Ledger_V5.thy ===== *)
theory Ledger_V5
  imports Event
begin

text \<open>
  \<open>core/hivra-core/src/ledger_v5.rs\<close>: the anchor a continuous history starts from, the entry
  that accepts one event at one position, and their SHA-256 commitments (\<open>H\<close> as in \<open>Event\<close>).

  The lemmas show what a commitment binds: the preimages of anchors and entries are disjoint
  and determine their fields, the signatures apart.
\<close>

definition FRESH_ANCHOR_TAG :: "u8 list" where
  "FRESH_ANCHOR_TAG = ascii ''hivra/ledger-anchor/v5''"

definition LEGACY_ANCHOR_TAG :: "u8 list" where
  "LEGACY_ANCHOR_TAG = ascii ''hivra/legacy-v4-anchor/v5''"

definition LEGACY_SNAPSHOT_TAG :: "u8 list" where
  "LEGACY_SNAPSHOT_TAG = ascii ''hivra/legacy-v4-snapshot/v1''"

definition LEDGER_ENTRY_TAG :: "u8 list" where
  "LEDGER_ENTRY_TAG = ascii ''hivra/ledger-entry/v5''"

type_synonym commitment = b32

datatype ledger_anchor_v5 =
    Fresh pub_key
  | LegacyV4 pub_key commitment signature

definition anchor_fresh :: "pub_key \<Rightarrow> ledger_anchor_v5" where
  "anchor_fresh owner = Fresh owner"

definition legacy_snapshot_commitment :: "(u8 list \<Rightarrow> b32) \<Rightarrow> u8 list \<Rightarrow> commitment" where
  "legacy_snapshot_commitment H canonical_v4_ledger_bytes =
    H (LEGACY_SNAPSHOT_TAG
       @ be_bytes 8 (of_nat (length canonical_v4_ledger_bytes) :: u64)
       @ canonical_v4_ledger_bytes)"

definition anchor_legacy :: "pub_key \<Rightarrow> commitment \<Rightarrow> signature \<Rightarrow> ledger_anchor_v5" where
  "anchor_legacy owner snapshot sig = LegacyV4 owner snapshot sig"

fun anchor_owner :: "ledger_anchor_v5 \<Rightarrow> pub_key" where
  "anchor_owner (Fresh owner) = owner"
| "anchor_owner (LegacyV4 owner snapshot sig) = owner"

fun anchor_signature :: "ledger_anchor_v5 \<Rightarrow> signature option" where
  "anchor_signature (Fresh owner) = None"
| "anchor_signature (LegacyV4 owner snapshot sig) = Some sig"

fun anchor_preimage :: "ledger_anchor_v5 \<Rightarrow> u8 list" where
  "anchor_preimage (Fresh owner) = FRESH_ANCHOR_TAG @ bytes (pub_key_as_bytes owner)"
| "anchor_preimage (LegacyV4 owner snapshot sig) =
     LEGACY_ANCHOR_TAG @ bytes (pub_key_as_bytes owner) @ bytes snapshot"

definition anchor_commitment :: "(u8 list \<Rightarrow> b32) \<Rightarrow> ledger_anchor_v5 \<Rightarrow> commitment" where
  "anchor_commitment H a = H (anchor_preimage a)"

record ledger_entry_v5 =
  le_owner :: pub_key
  le_sequence :: u64
  le_previous_commitment :: commitment
  le_event :: event
  le_signature :: signature

definition entry_unsigned :: "pub_key \<Rightarrow> u64 \<Rightarrow> commitment \<Rightarrow> event \<Rightarrow> ledger_entry_v5" where
  "entry_unsigned owner sequence previous_commitment event =
    \<lparr> le_owner = owner, le_sequence = sequence,
      le_previous_commitment = previous_commitment, le_event = event,
      le_signature = Signature (bfill 0) \<rparr>"

definition entry_with_signature :: "ledger_entry_v5 \<Rightarrow> signature \<Rightarrow> ledger_entry_v5" where
  "entry_with_signature entry sig = entry\<lparr>le_signature := sig\<rparr>"

definition entry_preimage :: "(u8 list \<Rightarrow> b32) \<Rightarrow> ledger_entry_v5 \<Rightarrow> u8 list" where
  "entry_preimage H entry =
    LEDGER_ENTRY_TAG @ bytes (pub_key_as_bytes (le_owner entry))
    @ be_bytes 8 (le_sequence entry) @ bytes (le_previous_commitment entry)
    @ bytes (event_id H (le_event entry))"

definition entry_commitment :: "(u8 list \<Rightarrow> b32) \<Rightarrow> ledger_entry_v5 \<Rightarrow> commitment" where
  "entry_commitment H entry = H (entry_preimage H entry)"

datatype ledger_v5_error =
    NotContinuousLedger
  | AnchorOwnerMismatch
  | EntryOwnerMismatch
  | InvalidSequence
  | InvalidPreviousCommitment
  | DuplicateDomainEvent
  | WrongEventVersion

section \<open>What commitments bind\<close>

lemma entry_sel [simp]:
  "le_owner (entry_unsigned r n p e) = r"
  "le_sequence (entry_unsigned r n p e) = n"
  "le_previous_commitment (entry_unsigned r n p e) = p"
  "le_event (entry_unsigned r n p e) = e"
  "le_owner (entry_with_signature x s) = le_owner x"
  "le_sequence (entry_with_signature x s) = le_sequence x"
  "le_previous_commitment (entry_with_signature x s) = le_previous_commitment x"
  "le_event (entry_with_signature x s) = le_event x"
  "le_signature (entry_with_signature x s) = s"
  by (simp_all add: entry_unsigned_def entry_with_signature_def)

lemma entry_commitment_signature [simp]:
  "entry_commitment H (entry_with_signature x s) = entry_commitment H x"
  by (simp add: entry_commitment_def entry_preimage_def)

text \<open>The tags of anchors and entries differ within their common length, so no anchor and no
  entry have the same preimage.\<close>

lemma anchor_entry_preimage_differ: "anchor_preimage a \<noteq> entry_preimage H x"
proof -
  have tags: "take 21 FRESH_ANCHOR_TAG \<noteq> take 21 LEDGER_ENTRY_TAG"
    "take 21 LEGACY_ANCHOR_TAG \<noteq> take 21 LEDGER_ENTRY_TAG"
    "length FRESH_ANCHOR_TAG \<ge> 21" "length LEGACY_ANCHOR_TAG \<ge> 21" "length LEDGER_ENTRY_TAG \<ge> 21"
    by (simp_all add: FRESH_ANCHOR_TAG_def LEGACY_ANCHOR_TAG_def LEDGER_ENTRY_TAG_def ascii_def)
  have "take 21 (anchor_preimage a) \<noteq> take 21 (entry_preimage H x)"
    using tags by (cases a) (simp_all add: entry_preimage_def)
  then show ?thesis by metis
qed

lemma fresh_legacy_preimage_differ:
  "anchor_preimage (Fresh r) \<noteq> anchor_preimage (LegacyV4 r' sn sg)"
proof -
  have "length (anchor_preimage (Fresh r)) \<noteq> length (anchor_preimage (LegacyV4 r' sn sg))"
    by (simp add: FRESH_ANCHOR_TAG_def LEGACY_ANCHOR_TAG_def ascii_def)
  then show ?thesis by metis
qed

text \<open>Anchors are determined by their preimage up to the migration signature.\<close>

fun anchor_core :: "ledger_anchor_v5 \<Rightarrow> pub_key \<times> commitment option" where
  "anchor_core (Fresh owner) = (owner, None)"
| "anchor_core (LegacyV4 owner snapshot sig) = (owner, Some snapshot)"

lemma anchor_preimage_inject: "anchor_preimage a = anchor_preimage b \<Longrightarrow> anchor_core a = anchor_core b"
  using fresh_legacy_preimage_differ
  by (cases a; cases b) (auto simp: pub_key.expand append_eq_append_conv dest: sym)

lemma entry_preimage_inject:
  assumes "entry_preimage H x = entry_preimage H' y"
  shows "le_owner x = le_owner y" "le_sequence x = le_sequence y"
    "le_previous_commitment x = le_previous_commitment y"
    "event_id H (le_event x) = event_id H' (le_event y)"
  using assms
  by (simp_all add: entry_preimage_def append_eq_append_conv be_bytes_inject pub_key.expand)

end
