(* ===== verification/Ledger.thy ===== *)
theory Ledger
  imports Ledger_V5
begin

text \<open>
  \<open>core/hivra-core/src/ledger.rs\<close>: the append-only journal. A v4 ledger is a list of events
  with a 64-bit replay checksum; a v5 ledger adds an anchor and one receipt per event accepted
  since the anchor.

  \<open>H\<close> is SHA-256; \<open>U\<close> is the size of \<open>usize\<close> in bytes (8 on the 64-bit targets of the
  toolchain file, 4 on armv7), which the standard library's \<open>Hash\<close> for slices writes as a
  length prefix. Integers are hashed in native byte order, little-endian on all targets.

  The lemmas relate the operations to declarative descriptions: \<open>v4_valid\<close> (versions,
  no duplicates, ordered timestamps, checksum) and \<open>v5_chain\<close> (contiguous sequence numbers,
  linked commitments), and give the ledgers the append operations can build.
\<close>

section \<open>State\<close>

datatype ledger_error =
    InvalidOrder
  | WrongVersion
  | DuplicateEvent
  | Continuous ledger_v5_error

record ledger_v5_receipt =
  rc_sequence :: u64
  rc_previous_commitment :: commitment
  rc_signature :: signature

record continuous_ledger_v5 =
  cl_anchor :: ledger_anchor_v5
  cl_legacy_event_count :: nat
  cl_receipts :: "ledger_v5_receipt list"

record ledger =
  l_events :: "event list"
  l_owner :: pub_key
  l_last_hash :: u64
  l_continuity_v5 :: "continuous_ledger_v5 option"

section \<open>The replay checksum\<close>

text \<open>\<open>SimpleHasher::write\<close>.\<close>

definition hasher_write_byte :: "u64 \<Rightarrow> u8 \<Rightarrow> u64" where
  "hasher_write_byte h b = xor (h * 0x9e3779b97f4a7c15) (ucast b)"

definition hasher_write :: "u64 \<Rightarrow> u8 list \<Rightarrow> u64" where
  "hasher_write h bs = foldl hasher_write_byte h bs"

text \<open>\<open>Hash for u64\<close>, \<open>Hash for [u8]\<close> (a \<open>usize\<close> length prefix, then the bytes) and
  \<open>Hash for Event\<close>.\<close>

definition hash_u64 :: "u64 \<Rightarrow> u64 \<Rightarrow> u64" where
  "hash_u64 h v = hasher_write h (le_bytes 8 v)"

definition hash_slice :: "nat \<Rightarrow> u64 \<Rightarrow> u8 list \<Rightarrow> u64" where
  "hash_slice U h bs = hasher_write (hasher_write h (le_bytes U (of_nat (length bs) :: u64))) bs"

definition hash_event :: "nat \<Rightarrow> u64 \<Rightarrow> event \<Rightarrow> u64" where
  "hash_event U h e =
    (let h = hasher_write h [event_kind_to_u8 (ev_kind e)];
         h = hash_slice U h (ev_payload e);
         h = hash_u64 h (as_u64 (ev_timestamp e));
         h = hash_slice U h (bytes (signature_as_bytes (ev_signature e)));
         h = hash_slice U h (bytes (pub_key_as_bytes (ev_signer e)))
     in h)"

text \<open>One step of the checksum: \<open>SimpleHasher::new()\<close>, the previous hash, then the event.\<close>

definition next_hash :: "nat \<Rightarrow> u64 \<Rightarrow> event \<Rightarrow> u64" where
  "next_hash U last_hash e = hash_event U (hash_u64 0 last_hash) e"

section \<open>Construction and accessors\<close>

definition ledger_new :: "pub_key \<Rightarrow> ledger" where
  "ledger_new owner =
    \<lparr> l_events = [], l_owner = owner, l_last_hash = 0, l_continuity_v5 = None \<rparr>"

definition fresh_v5 :: "pub_key \<Rightarrow> ledger" where
  "fresh_v5 owner =
    \<lparr> l_events = [], l_owner = owner, l_last_hash = 0,
      l_continuity_v5 = Some \<lparr> cl_anchor = anchor_fresh owner, cl_legacy_event_count = 0,
                               cl_receipts = [] \<rparr> \<rparr>"

definition is_continuous_v5 :: "ledger \<Rightarrow> bool" where
  "is_continuous_v5 l \<longleftrightarrow> l_continuity_v5 l \<noteq> None"

definition anchor_v5 :: "ledger \<Rightarrow> ledger_anchor_v5 option" where
  "anchor_v5 l = map_option cl_anchor (l_continuity_v5 l)"

definition next_sequence_v5 :: "ledger \<Rightarrow> (ledger_v5_error, u64) result" where
  "next_sequence_v5 l =
    ok_or (map_option (\<lambda>c. of_nat (length (cl_receipts c))) (l_continuity_v5 l))
      NotContinuousLedger"

text \<open>The entry a receipt and its event stand for.\<close>

definition receipt_entry :: "pub_key \<Rightarrow> ledger_v5_receipt \<Rightarrow> event \<Rightarrow> ledger_entry_v5" where
  "receipt_entry owner r e =
    entry_with_signature
      (entry_unsigned owner (rc_sequence r) (rc_previous_commitment r) e) (rc_signature r)"

definition tail_commitment_v5 ::
  "(u8 list \<Rightarrow> b32) \<Rightarrow> ledger \<Rightarrow> (ledger_v5_error, commitment) result" where
  "tail_commitment_v5 H l =
    and_then (ok_or (l_continuity_v5 l) NotContinuousLedger) (\<lambda>c.
      Ok (case (last_opt (cl_receipts c), last_opt (l_events l)) of
            (Some r, Some e) \<Rightarrow> entry_commitment H (receipt_entry (l_owner l) r e)
          | _ \<Rightarrow> anchor_commitment H (cl_anchor c)))"

definition head_commitment_v5 :: "(u8 list \<Rightarrow> b32) \<Rightarrow> ledger \<Rightarrow> commitment option" where
  "head_commitment_v5 H l = ok (tail_commitment_v5 H l)"

text \<open>\<open>self.events[legacy_event_count..]\<close> panics when the count exceeds the number of events.\<close>

definition v5_entries :: "ledger \<Rightarrow> (unit, ledger_entry_v5 list option) result" where
  "v5_entries l =
    (case l_continuity_v5 l of
       None \<Rightarrow> Ok None
     | Some c \<Rightarrow>
         if cl_legacy_event_count c \<le> length (l_events l)
         then Ok (Some (map (\<lambda>(r, e). receipt_entry (l_owner l) r e)
                (zip (cl_receipts c) (drop (cl_legacy_event_count c) (l_events l)))))
         else Panic)"

definition events_in_range :: "ledger \<Rightarrow> timestamp \<Rightarrow> timestamp \<Rightarrow> event list" where
  "events_in_range l from_ts to_ts =
    filter (\<lambda>e. ev_timestamp e \<ge> from_ts \<and> ev_timestamp e \<le> to_ts) (l_events l)"

definition events_of_kind :: "ledger \<Rightarrow> event_kind \<Rightarrow> event list" where
  "events_of_kind l kind = filter (\<lambda>e. ev_kind e = kind) (l_events l)"

section \<open>Appending\<close>

definition ledger_append :: "nat \<Rightarrow> ledger \<Rightarrow> event \<Rightarrow> (ledger_error, ledger) result" where
  "ledger_append U l e =
    (if is_continuous_v5 l then Err (Continuous WrongEventVersion)
     else if ev_version e \<noteq> PROTOCOL_VERSION then Err WrongVersion
     else if list_ex (\<lambda>existing. existing = e) (l_events l) then Err DuplicateEvent
     else if (case last_opt (l_events l) of
                Some newest \<Rightarrow> ev_timestamp e < ev_timestamp newest | None \<Rightarrow> False)
       then Err InvalidOrder
     else Ok (l\<lparr> l_last_hash := next_hash U (l_last_hash l) e,
                 l_events := l_events l @ [e] \<rparr>))"

definition append_v5 ::
  "(u8 list \<Rightarrow> b32) \<Rightarrow> ledger \<Rightarrow> ledger_entry_v5 \<Rightarrow> (ledger_error, ledger) result" where
  "append_v5 H l entry =
    (case l_continuity_v5 l of
       None \<Rightarrow> Err (Continuous NotContinuousLedger)
     | Some c \<Rightarrow>
         if anchor_owner (cl_anchor c) \<noteq> l_owner l then Err (Continuous AnchorOwnerMismatch)
         else if le_owner entry \<noteq> l_owner l then Err (Continuous EntryOwnerMismatch)
         else if ev_version (le_event entry) \<noteq> CONTINUOUS_LEDGER_PROTOCOL_VERSION
           then Err (Continuous WrongEventVersion)
         else if le_sequence entry \<noteq> of_nat (length (cl_receipts c))
           then Err (Continuous InvalidSequence)
         else and_then (map_err Continuous (tail_commitment_v5 H l)) (\<lambda>tail.
           if le_previous_commitment entry \<noteq> tail
             then Err (Continuous InvalidPreviousCommitment)
           else if list_ex (\<lambda>existing. event_id H existing = event_id H (le_event entry))
                  (l_events l)
             then Err DuplicateEvent
           else Ok (l\<lparr> l_events := l_events l @ [le_event entry],
                       l_continuity_v5 := Some (c\<lparr> cl_receipts := cl_receipts c @
                         [\<lparr> rc_sequence = le_sequence entry,
                            rc_previous_commitment = le_previous_commitment entry,
                            rc_signature = le_signature entry \<rparr>] \<rparr>) \<rparr>)))"

section \<open>Verification\<close>

text \<open>The loop of \<open>verify_v4_events\<close> (and of \<open>Ledger::verify\<close> for v4): \<open>seen\<close> is
  \<open>events[..index]\<close>.\<close>

fun verify_v4_loop :: "nat \<Rightarrow> event list \<Rightarrow> timestamp option \<Rightarrow> u64 \<Rightarrow> event list \<Rightarrow> u64 option" where
  "verify_v4_loop U seen last_ts h [] = Some h"
| "verify_v4_loop U seen last_ts h (e # es) =
    (if ev_version e \<noteq> PROTOCOL_VERSION then None
     else if list_ex (\<lambda>existing. existing = e) seen then None
     else if (case last_ts of Some ts \<Rightarrow> ev_timestamp e < ts | None \<Rightarrow> False) then None
     else verify_v4_loop U (seen @ [e]) (Some (ev_timestamp e)) (next_hash U h e) es)"

definition verify_v4_events :: "nat \<Rightarrow> event list \<Rightarrow> u64 \<Rightarrow> bool" where
  "verify_v4_events U events expected_hash \<longleftrightarrow>
    verify_v4_loop U [] None 0 events = Some expected_hash"

text \<open>The loop of \<open>verify_v5_structure\<close>: \<open>events\<close> are all events of the ledger, \<open>index\<close>
  counts the receipts.\<close>

fun verify_v5_loop ::
  "(u8 list \<Rightarrow> b32) \<Rightarrow> pub_key \<Rightarrow> event list \<Rightarrow> nat \<Rightarrow> commitment \<Rightarrow>
    (ledger_v5_receipt \<times> event) list \<Rightarrow> (ledger_v5_error, unit) result" where
  "verify_v5_loop H owner events index previous [] = Ok ()"
| "verify_v5_loop H owner events index previous ((receipt, e) # rest) =
    (if ev_version e \<noteq> CONTINUOUS_LEDGER_PROTOCOL_VERSION then Err WrongEventVersion
     else if rc_sequence receipt \<noteq> of_nat index then Err InvalidSequence
     else if rc_previous_commitment receipt \<noteq> previous then Err InvalidPreviousCommitment
     else if list_ex (\<lambda>existing. event_id H existing = event_id H e) (take index events)
       then Err DuplicateDomainEvent
     else verify_v5_loop H owner events (Suc index)
            (entry_commitment H (receipt_entry owner receipt e)) rest)"

definition verify_v5_structure ::
  "(u8 list \<Rightarrow> b32) \<Rightarrow> nat \<Rightarrow> ledger \<Rightarrow> (ledger_v5_error, unit) result" where
  "verify_v5_structure H U l =
    (case l_continuity_v5 l of
       None \<Rightarrow> Err NotContinuousLedger
     | Some c \<Rightarrow>
         if anchor_owner (cl_anchor c) \<noteq> l_owner l then Err AnchorOwnerMismatch
         else if cl_legacy_event_count c > length (l_events l)
              \<or> length (cl_receipts c) \<noteq> length (l_events l) - cl_legacy_event_count c
           then Err InvalidSequence
         else if cl_legacy_event_count c > 0
              \<and> \<not> verify_v4_events U (take (cl_legacy_event_count c) (l_events l)) (l_last_hash l)
           then Err InvalidPreviousCommitment
         else verify_v5_loop H (l_owner l) (l_events l) 0 (anchor_commitment H (cl_anchor c))
                (zip (cl_receipts c) (drop (cl_legacy_event_count c) (l_events l))))"

text \<open>\<open>Ledger::verify\<close>. Its v4 branch repeats the loop of \<open>verify_v4_events\<close>.\<close>

definition ledger_verify :: "(u8 list \<Rightarrow> b32) \<Rightarrow> nat \<Rightarrow> ledger \<Rightarrow> bool" where
  "ledger_verify H U l \<longleftrightarrow>
    (if is_continuous_v5 l then verify_v5_structure H U l = Ok ()
     else verify_v4_loop U [] None 0 (l_events l) = Some (l_last_hash l))"

definition migrate_v4 ::
  "(u8 list \<Rightarrow> b32) \<Rightarrow> nat \<Rightarrow> ledger \<Rightarrow> ledger_anchor_v5 \<Rightarrow> (ledger_v5_error, ledger) result" where
  "migrate_v4 H U l anchor =
    (if is_continuous_v5 l then Err NotContinuousLedger
     else if anchor_owner anchor \<noteq> l_owner l then Err AnchorOwnerMismatch
     else if \<not> ledger_verify H U l then Err InvalidPreviousCommitment
     else Ok (l\<lparr> l_continuity_v5 := Some \<lparr> cl_anchor = anchor,
                  cl_legacy_event_count = length (l_events l), cl_receipts = [] \<rparr> \<rparr>))"

section \<open>v4 ledgers: what verification means\<close>

definition checksum :: "nat \<Rightarrow> u64 \<Rightarrow> event list \<Rightarrow> u64" where
  "checksum U h es = foldl (next_hash U) h es"

definition v4_valid :: "event list \<Rightarrow> bool" where
  "v4_valid es \<longleftrightarrow>
    list_all (\<lambda>e. ev_version e = PROTOCOL_VERSION) es \<and> distinct es
    \<and> sorted (map ev_timestamp es)"

lemma v4_valid_snoc:
  "v4_valid (es @ [e]) \<longleftrightarrow>
    v4_valid es \<and> ev_version e = PROTOCOL_VERSION \<and> e \<notin> set es
    \<and> (es = [] \<or> ev_timestamp (last es) \<le> ev_timestamp e)"
proof (cases es rule: rev_cases)
  case (snoc xs x)
  then show ?thesis
    by (auto simp: v4_valid_def sorted_append intro: order_trans)
qed (auto simp: v4_valid_def)

lemma checksum_snoc [simp]: "checksum U h (es @ [e]) = next_hash U (checksum U h es) e"
  by (simp add: checksum_def)

lemma verify_v4_loop_eq:
  assumes "v4_valid seen"
  shows "verify_v4_loop U seen (map_option ev_timestamp (last_opt seen)) (checksum U 0 seen) es =
    (if v4_valid (seen @ es) then Some (checksum U 0 (seen @ es)) else None)"
  using assms
proof (induction es arbitrary: seen)
  case Nil
  then show ?case by simp
next
  case (Cons e es)
  have step: "v4_valid (seen @ [e]) \<longleftrightarrow>
      ev_version e = PROTOCOL_VERSION \<and> e \<notin> set seen
      \<and> (seen = [] \<or> ev_timestamp (last seen) \<le> ev_timestamp e)"
    using Cons.prems by (simp add: v4_valid_snoc)
  show ?case
  proof (cases "v4_valid (seen @ [e])")
    case True
    with Cons.IH [OF True] step show ?thesis
      by (auto simp: list_ex_iff last_opt_def)
  next
    case False
    then have "\<not> v4_valid (seen @ e # es)"
      by (auto simp: v4_valid_def sorted_append)
    with False step show ?thesis
      by (auto simp: list_ex_iff last_opt_def not_le)
  qed
qed

lemma verify_v4_events_iff:
  "verify_v4_events U es h \<longleftrightarrow> v4_valid es \<and> h = checksum U 0 es"
proof -
  have "v4_valid []" "checksum U 0 [] = 0"
    by (simp_all add: v4_valid_def checksum_def)
  then show ?thesis
    using verify_v4_loop_eq [of "[]" U es] by (auto simp: verify_v4_events_def)
qed

lemma ledger_verify_v4_iff:
  "l_continuity_v5 l = None \<Longrightarrow>
    ledger_verify H U l \<longleftrightarrow> v4_valid (l_events l) \<and> l_last_hash l = checksum U 0 (l_events l)"
  using verify_v4_events_iff [of U "l_events l" "l_last_hash l"]
  by (simp add: ledger_verify_def is_continuous_v5_def verify_v4_events_def)

lemma ledger_append_Ok_iff:
  "ledger_append U l e = Ok l' \<longleftrightarrow>
    l_continuity_v5 l = None \<and> ev_version e = PROTOCOL_VERSION \<and> e \<notin> set (l_events l)
    \<and> (l_events l = [] \<or> ev_timestamp (last (l_events l)) \<le> ev_timestamp e)
    \<and> l' = l\<lparr> l_last_hash := next_hash U (l_last_hash l) e, l_events := l_events l @ [e] \<rparr>"
  by (auto simp: ledger_append_def is_continuous_v5_def list_ex_iff last_opt_def not_le
      split: option.splits)

lemma ledger_append_not_Panic [simp]: "ledger_append U l e \<noteq> Panic"
  by (simp add: ledger_append_def)

text \<open>The ledgers that \<open>new\<close> and successful appends build.\<close>

inductive v4_reachable :: "nat \<Rightarrow> ledger \<Rightarrow> bool" for U where
  new: "v4_reachable U (ledger_new owner)"
| append: "v4_reachable U l \<Longrightarrow> ledger_append U l e = Ok l' \<Longrightarrow> v4_reachable U l'"

lemma v4_reachable_sound:
  "v4_reachable U l \<Longrightarrow>
    l_continuity_v5 l = None \<and> v4_valid (l_events l) \<and> l_last_hash l = checksum U 0 (l_events l)"
proof (induction rule: v4_reachable.induct)
  case (new owner)
  then show ?case by (simp add: ledger_new_def v4_valid_def checksum_def)
next
  case (append l e l')
  then show ?case by (auto simp: ledger_append_Ok_iff v4_valid_snoc)
qed

lemma v4_reachable_complete:
  "v4_valid es \<Longrightarrow> v4_reachable U
    \<lparr> l_events = es, l_owner = owner, l_last_hash = checksum U 0 es, l_continuity_v5 = None \<rparr>"
proof (induction es rule: rev_induct)
  case Nil
  then show ?case
    using v4_reachable.new [of U owner] by (simp add: ledger_new_def checksum_def)
next
  case (snoc e es)
  then show ?case
    by (auto simp: v4_valid_snoc ledger_append_Ok_iff intro: v4_reachable.append)
qed

section \<open>v5 ledgers: chains of receipts\<close>

text \<open>The commitment after a list of receipts, as \<open>previous\<close> holds it in the loop.\<close>

definition chain_tip ::
  "(u8 list \<Rightarrow> b32) \<Rightarrow> pub_key \<Rightarrow> commitment \<Rightarrow> (ledger_v5_receipt \<times> event) list \<Rightarrow> commitment" where
  "chain_tip H owner base rs =
    (case last_opt rs of None \<Rightarrow> base | Some (r, e) \<Rightarrow> entry_commitment H (receipt_entry owner r e))"

lemma chain_tip_simps [simp]:
  "chain_tip H owner base [] = base"
  "chain_tip H owner base (rs @ [(r, e)]) = entry_commitment H (receipt_entry owner r e)"
  by (simp_all add: chain_tip_def)

lemma chain_tip_Cons:
  "chain_tip H owner base ((r, e) # rs) =
    chain_tip H owner (entry_commitment H (receipt_entry owner r e)) rs"
  by (cases rs rule: rev_cases) (auto simp: chain_tip_def last_opt_def)

lemma verify_v5_loop_not_Panic [simp]: "verify_v5_loop H owner es n p rs \<noteq> Panic"
  by (induction H owner es n p rs rule: verify_v5_loop.induct) auto

lemma verify_v5_structure_not_Panic [simp]: "verify_v5_structure H U l \<noteq> Panic"
  by (simp add: verify_v5_structure_def split: option.splits)

lemma verify_v5_loop_snoc:
  "verify_v5_loop H owner es n p (rs @ [(r, e)]) = Ok () \<longleftrightarrow>
    verify_v5_loop H owner es n p rs = Ok ()
    \<and> ev_version e = CONTINUOUS_LEDGER_PROTOCOL_VERSION
    \<and> rc_sequence r = of_nat (n + length rs)
    \<and> rc_previous_commitment r = chain_tip H owner p rs
    \<and> (\<forall>x\<in>set (take (n + length rs) es). event_id H x \<noteq> event_id H e)"
  by (induction H owner es n p rs rule: verify_v5_loop.induct)
    (auto simp: list_ex_iff chain_tip_Cons split: if_splits)

lemma verify_v5_loop_extend:
  "n + length rs \<le> Suc (length es) \<Longrightarrow>
    verify_v5_loop H owner (es @ [x]) n p rs = verify_v5_loop H owner es n p rs"
  by (induction H owner es n p rs rule: verify_v5_loop.induct) auto

definition suffix_receipts :: "ledger \<Rightarrow> (ledger_v5_receipt \<times> event) list" where
  "suffix_receipts l =
    (case l_continuity_v5 l of
       None \<Rightarrow> []
     | Some c \<Rightarrow> zip (cl_receipts c) (drop (cl_legacy_event_count c) (l_events l)))"


text \<open>The structural part of \<open>verify_v5_structure\<close>, read declaratively.\<close>

lemma verify_v5_structure_iff:
  "verify_v5_structure H U l = Ok () \<longleftrightarrow>
    (\<exists>c. l_continuity_v5 l = Some c
      \<and> anchor_owner (cl_anchor c) = l_owner l
      \<and> length (l_events l) = cl_legacy_event_count c + length (cl_receipts c)
      \<and> (cl_legacy_event_count c = 0
         \<or> verify_v4_events U (take (cl_legacy_event_count c) (l_events l)) (l_last_hash l))
      \<and> verify_v5_loop H (l_owner l) (l_events l) 0 (anchor_commitment H (cl_anchor c))
          (suffix_receipts l) = Ok ())"
  by (auto simp: verify_v5_structure_def suffix_receipts_def split: option.splits if_splits)

lemma suffix_receipts_snoc:
  assumes "l_continuity_v5 l = Some c"
    and "length (l_events l) = cl_legacy_event_count c + length (cl_receipts c)"
  shows "suffix_receipts (l\<lparr> l_events := l_events l @ [e],
            l_continuity_v5 := Some (c\<lparr> cl_receipts := cl_receipts c @ [r] \<rparr>) \<rparr>)
      = suffix_receipts l @ [(r, e)]"
  using assms by (simp add: suffix_receipts_def)

lemma tail_commitment_v5_eq:
  assumes "l_continuity_v5 l = Some c"
    and "length (l_events l) = cl_legacy_event_count c + length (cl_receipts c)"
  shows "tail_commitment_v5 H l
      = Ok (chain_tip H (l_owner l) (anchor_commitment H (cl_anchor c)) (suffix_receipts l))"
proof (cases "cl_receipts c" rule: rev_cases)
  case Nil
  with assms show ?thesis
    by (simp add: tail_commitment_v5_def suffix_receipts_def)
next
  case (snoc rs r)
  with assms(2) obtain es e where es: "l_events l = es @ [e]"
    by (cases "l_events l" rule: rev_cases) auto
  with snoc assms show ?thesis
    by (simp add: tail_commitment_v5_def suffix_receipts_def)
qed

lemma append_v5_Ok_iff:
  "append_v5 H l x = Ok l' \<longleftrightarrow>
    (\<exists>c. l_continuity_v5 l = Some c
      \<and> anchor_owner (cl_anchor c) = l_owner l \<and> le_owner x = l_owner l
      \<and> ev_version (le_event x) = CONTINUOUS_LEDGER_PROTOCOL_VERSION
      \<and> le_sequence x = of_nat (length (cl_receipts c))
      \<and> tail_commitment_v5 H l = Ok (le_previous_commitment x)
      \<and> (\<forall>e\<in>set (l_events l). event_id H e \<noteq> event_id H (le_event x))
      \<and> l' = l\<lparr> l_events := l_events l @ [le_event x],
               l_continuity_v5 := Some (c\<lparr> cl_receipts := cl_receipts c @
                 [\<lparr> rc_sequence = le_sequence x, rc_previous_commitment = le_previous_commitment x,
                    rc_signature = le_signature x \<rparr>] \<rparr>) \<rparr>)"
  by (auto simp: append_v5_def list_ex_iff split: option.splits if_splits)

lemma tail_commitment_v5_not_Panic [simp]: "tail_commitment_v5 H l \<noteq> Panic"
  by (auto simp: tail_commitment_v5_def and_then_eq_Panic)

lemma map_err_eq_Panic [simp]: "map_err f r = Panic \<longleftrightarrow> r = Panic"
  by (cases r) auto

lemma append_v5_not_Panic [simp]: "append_v5 H l x \<noteq> Panic"
  by (auto simp: append_v5_def and_then_eq_Panic split: option.splits)

text \<open>Appending keeps a verified ledger verified.\<close>

lemma append_v5_preserves:
  assumes ok: "verify_v5_structure H U l = Ok ()" and app: "append_v5 H l x = Ok l'"
  shows "verify_v5_structure H U l' = Ok ()"
proof -
  from ok obtain c where c: "l_continuity_v5 l = Some c"
    and own: "anchor_owner (cl_anchor c) = l_owner l"
    and len: "length (l_events l) = cl_legacy_event_count c + length (cl_receipts c)"
    and leg: "cl_legacy_event_count c = 0
        \<or> verify_v4_events U (take (cl_legacy_event_count c) (l_events l)) (l_last_hash l)"
    and loop: "verify_v5_loop H (l_owner l) (l_events l) 0 (anchor_commitment H (cl_anchor c))
        (suffix_receipts l) = Ok ()"
    by (auto simp: verify_v5_structure_iff)
  let ?r = "\<lparr> rc_sequence = le_sequence x, rc_previous_commitment = le_previous_commitment x,
      rc_signature = le_signature x \<rparr>"
  from app c have l': "l' = l\<lparr> l_events := l_events l @ [le_event x],
        l_continuity_v5 := Some (c\<lparr> cl_receipts := cl_receipts c @ [?r] \<rparr>) \<rparr>"
    and facts: "ev_version (le_event x) = CONTINUOUS_LEDGER_PROTOCOL_VERSION"
      "le_sequence x = of_nat (length (cl_receipts c))"
      "tail_commitment_v5 H l = Ok (le_previous_commitment x)"
      "\<forall>e\<in>set (l_events l). event_id H e \<noteq> event_id H (le_event x)"
    by (auto simp: append_v5_Ok_iff)
  have n: "length (suffix_receipts l) = length (cl_receipts c)"
    using c len by (simp add: suffix_receipts_def)
  have s: "suffix_receipts l' = suffix_receipts l @ [(?r, le_event x)]"
    unfolding l' by (rule suffix_receipts_snoc [OF c len])
  have tip: "le_previous_commitment x
      = chain_tip H (l_owner l) (anchor_commitment H (cl_anchor c)) (suffix_receipts l)"
    using facts(3) tail_commitment_v5_eq [OF c len, of H] by simp
  have new: "verify_v5_loop H (l_owner l) (l_events l @ [le_event x]) 0
      (anchor_commitment H (cl_anchor c)) (suffix_receipts l @ [(?r, le_event x)]) = Ok ()"
    using loop facts tip len n
    by (auto simp: verify_v5_loop_snoc verify_v5_loop_extend dest: in_set_takeD)
  show ?thesis
    using own len leg new s by (auto simp: verify_v5_structure_iff l')
qed

lemma migrate_v4_Ok_iff:
  "migrate_v4 H U l a = Ok l' \<longleftrightarrow>
    l_continuity_v5 l = None \<and> anchor_owner a = l_owner l \<and> ledger_verify H U l
    \<and> l' = l\<lparr> l_continuity_v5 := Some \<lparr> cl_anchor = a,
                cl_legacy_event_count = length (l_events l), cl_receipts = [] \<rparr> \<rparr>"
  by (auto simp: migrate_v4_def is_continuous_v5_def)

lemma migrate_v4_verifies:
  "migrate_v4 H U l a = Ok l' \<Longrightarrow> verify_v5_structure H U l' = Ok ()"
  by (auto simp: migrate_v4_Ok_iff verify_v5_structure_iff suffix_receipts_def
      ledger_verify_v4_iff verify_v4_events_iff)

lemma fresh_v5_verifies: "verify_v5_structure H U (fresh_v5 owner) = Ok ()"
  by (simp add: verify_v5_structure_iff fresh_v5_def suffix_receipts_def anchor_fresh_def)

text \<open>The ledgers built from an empty v5 ledger or from a migrated v4 ledger.\<close>

inductive v5_reachable :: "(u8 list \<Rightarrow> b32) \<Rightarrow> nat \<Rightarrow> ledger \<Rightarrow> bool" for H U where
  fresh: "v5_reachable H U (fresh_v5 owner)"
| migrate: "v4_reachable U l \<Longrightarrow> migrate_v4 H U l a = Ok l' \<Longrightarrow> v5_reachable H U l'"
| append: "v5_reachable H U l \<Longrightarrow> append_v5 H l x = Ok l' \<Longrightarrow> v5_reachable H U l'"

lemma v5_reachable_verifies: "v5_reachable H U l \<Longrightarrow> verify_v5_structure H U l = Ok ()"
  by (induction rule: v5_reachable.induct)
    (auto intro: fresh_v5_verifies migrate_v4_verifies append_v5_preserves)

end
