(* ===== verification/Ledger_History.thy ===== *)
theory Ledger_History
  imports Ledger
begin

text \<open>
  Consequences of the ledger operations of \<open>core/hivra-core/src/ledger.rs\<close> over whole
  histories.

  \<^item> The locale \<open>journal\<close> is what the callers of a ledger rely on: a successful append adds one
    event at the end, keeps the ledger valid and never repeats a key. It is interpreted for
    \<open>append\<close> (v4) and \<open>append_v5\<close>.
  \<^item> Verification accepts exactly the ledgers the operations build (v4, and v5 in the fresh form: no
    migrated prefix and the initial checksum).
  \<^item> The head commitment of a verified v5 ledger determines its history up to signatures, the migrated
    events included when the anchor commits to their serialized ledger.
  \<^item> Two boundary behaviours: a repeated event after a migration, and the dependence of the v4
    checksum on the pointer width.
\<close>

section \<open>The journal contract\<close>

fun append_all :: "('s \<Rightarrow> 'x \<Rightarrow> ('e, 's) result) \<Rightarrow> 's \<Rightarrow> 'x list \<Rightarrow> ('e, 's) result" where
  "append_all app s [] = Ok s"
| "append_all app s (x # xs) = and_then (app s x) (\<lambda>s'. append_all app s' xs)"

locale journal =
  fixes entries :: "'s \<Rightarrow> event list"
    and app :: "'s \<Rightarrow> 'x \<Rightarrow> ('e, 's) result"
    and event_of :: "'x \<Rightarrow> event"
    and key :: "event \<Rightarrow> 'k"
    and valid :: "'s \<Rightarrow> bool"
  assumes app_extends: "app s x = Ok s' \<Longrightarrow> entries s' = entries s @ [event_of x]"
    and app_valid: "valid s \<Longrightarrow> app s x = Ok s' \<Longrightarrow> valid s'"
    and app_fresh: "app s x = Ok s' \<Longrightarrow> key (event_of x) \<notin> key ` set (entries s)"
    and app_not_Panic: "app s x \<noteq> Panic"
begin

lemma app_prefix: "app s x = Ok s' \<Longrightarrow> take (length (entries s)) (entries s') = entries s"
  by (simp add: app_extends)

lemma append_all_entries: "append_all app s xs = Ok s' \<Longrightarrow> entries s' = entries s @ map event_of xs"
  by (induction xs arbitrary: s) (auto simp: app_extends)

lemma append_all_valid: "valid s \<Longrightarrow> append_all app s xs = Ok s' \<Longrightarrow> valid s'"
  by (induction xs arbitrary: s) (auto dest: app_valid)

lemma append_all_distinct:
  "distinct (map key (entries s)) \<Longrightarrow> append_all app s xs = Ok s' \<Longrightarrow> distinct (map key (entries s'))"
proof (induction xs arbitrary: s)
  case (Cons x xs)
  then obtain s1 where s1: "app s x = Ok s1" and rest: "append_all app s1 xs = Ok s'"
    by auto
  have "distinct (map key (entries s1))"
    using Cons.prems(1) app_fresh [OF s1] by (simp add: app_extends [OF s1])
  then show ?case by (rule Cons.IH [OF _ rest])
qed simp

lemma append_all_not_Panic: "append_all app s xs \<noteq> Panic"
  by (induction xs arbitrary: s) (auto simp: and_then_eq_Panic app_not_Panic)

text \<open>The events recorded first are never changed by what is appended later.\<close>

lemma append_all_prefix:
  "append_all app s xs = Ok s' \<Longrightarrow> take (length (entries s)) (entries s') = entries s"
  by (simp add: append_all_entries)

end

interpretation v4_journal: journal l_events "ledger_append U" "\<lambda>e. e" "\<lambda>e. e"
    "\<lambda>l. l_continuity_v5 l = None \<and> ledger_verify H U l"
  by unfold_locales
    (auto simp: ledger_append_Ok_iff ledger_verify_v4_iff v4_valid_snoc)

interpretation v5_journal: journal l_events "append_v5 H" le_event "event_id H"
    "\<lambda>l. verify_v5_structure H U l = Ok ()"
proof unfold_locales
  fix s x s' assume "verify_v5_structure H U s = Ok ()" "append_v5 H s x = Ok s'"
  then show "verify_v5_structure H U s' = Ok ()" by (rule append_v5_preserves)
qed (auto simp: append_v5_Ok_iff)

section \<open>Verification accepts what the operations build\<close>

text \<open>C2: A v4 ledger passes \<open>verify\<close> exactly when \<open>new\<close> and successful \<open>append\<close>s build it:
  the checksum, version, duplicate and ordering checks of \<open>verify\<close> replay the checks of
  \<open>append\<close> and nothing else.\<close>

theorem v4_verify_iff_reachable:
  "v4_reachable U l \<longleftrightarrow> l_continuity_v5 l = None \<and> ledger_verify H U l"
proof
  assume "v4_reachable U l"
  then show "l_continuity_v5 l = None \<and> ledger_verify H U l"
    using v4_reachable_sound by (auto simp: ledger_verify_v4_iff)
next
  assume "l_continuity_v5 l = None \<and> ledger_verify H U l"
  then show "v4_reachable U l"
    using v4_reachable_complete [of "l_events l" U "l_owner l"]
    by (cases l) (auto simp: ledger_verify_v4_iff)
qed

text \<open>For v5 ledgers without a migrated prefix the same holds.\<close>

inductive v5_fresh_reachable :: "(u8 list \<Rightarrow> b32) \<Rightarrow> ledger \<Rightarrow> bool" for H where
  fresh: "v5_fresh_reachable H (fresh_v5 owner)"
| append: "v5_fresh_reachable H l \<Longrightarrow> append_v5 H l x = Ok l' \<Longrightarrow> v5_fresh_reachable H l'"

definition v5_fresh_form :: "ledger \<Rightarrow> bool" where
  "v5_fresh_form l \<longleftrightarrow> l_last_hash l = 0
    \<and> (case l_continuity_v5 l of None \<Rightarrow> False
        | Some c \<Rightarrow> cl_anchor c = anchor_fresh (l_owner l) \<and> cl_legacy_event_count c = 0)"

lemma append_v5_fresh_form: "v5_fresh_form l \<Longrightarrow> append_v5 H l x = Ok l' \<Longrightarrow> v5_fresh_form l'"
  by (auto simp: v5_fresh_form_def append_v5_Ok_iff)

lemma v5_fresh_reachable_sound:
  "v5_fresh_reachable H l \<Longrightarrow> v5_fresh_form l \<and> verify_v5_structure H U l = Ok ()"
proof (induction rule: v5_fresh_reachable.induct)
  case (fresh owner)
  then show ?case
    using fresh_v5_verifies by (simp add: v5_fresh_form_def fresh_v5_def)
next
  case (append l x l')
  then show ?case
    by (blast intro: append_v5_fresh_form append_v5_preserves)
qed

lemma v5_fresh_reachable_complete:
  assumes "length rs = length es"
    and "verify_v5_loop H owner es 0 (anchor_commitment H (anchor_fresh owner)) (zip rs es) = Ok ()"
  shows "v5_fresh_reachable H
    \<lparr> l_events = es, l_owner = owner, l_last_hash = 0,
      l_continuity_v5 = Some \<lparr> cl_anchor = anchor_fresh owner, cl_legacy_event_count = 0,
                               cl_receipts = rs \<rparr> \<rparr>"
  using assms
proof (induction es arbitrary: rs rule: rev_induct)
  case Nil
  then show ?case
    using v5_fresh_reachable.fresh [of H owner] by (simp add: fresh_v5_def)
next
  case (snoc e es)
  then obtain rs' r where rs: "rs = rs' @ [r]" and len: "length rs' = length es"
    by (cases rs rule: rev_cases) auto
  let ?l = "\<lparr> l_events = es, l_owner = owner, l_last_hash = 0,
      l_continuity_v5 = Some \<lparr> cl_anchor = anchor_fresh owner, cl_legacy_event_count = 0,
                               cl_receipts = rs' \<rparr> \<rparr>"
  have z: "zip rs (es @ [e]) = zip rs' es @ [(r, e)]"
    using rs len by simp
  from snoc.prems(2) have facts:
    "verify_v5_loop H owner es 0 (anchor_commitment H (anchor_fresh owner)) (zip rs' es) = Ok ()"
    "ev_version e = CONTINUOUS_LEDGER_PROTOCOL_VERSION"
    "rc_sequence r = of_nat (length rs')"
    "rc_previous_commitment r
      = chain_tip H owner (anchor_commitment H (anchor_fresh owner)) (zip rs' es)"
    "\<forall>x\<in>set es. event_id H x \<noteq> event_id H e"
    unfolding z using len by (auto simp: verify_v5_loop_snoc verify_v5_loop_extend)
  have IH: "v5_fresh_reachable H ?l"
    by (rule snoc.IH [OF len facts(1)])
  have tail: "tail_commitment_v5 H ?l = Ok (rc_previous_commitment r)"
    by (subst tail_commitment_v5_eq)
      (use facts(4) len in \<open>auto simp: suffix_receipts_def\<close>)
  show ?case
    using facts tail rs
    by (intro v5_fresh_reachable.append [OF IH, of "receipt_entry owner r e"])
      (simp add: append_v5_Ok_iff receipt_entry_def anchor_fresh_def)
qed

text \<open>C3: A v5 ledger in fresh form (its anchor is the fresh anchor of its owner, no event counts as migrated, and
  the v4 checksum is 0) passes the structural verification exactly when \<open>fresh_v5\<close> and successful \<open>append_v5\<close>s
  build it; what they build is in that form. So sequence numbers are contiguous, each receipt names the commitment
  before it, and no event id repeats.\<close>

theorem v5_verify_iff_reachable:
  "v5_fresh_reachable H l \<longleftrightarrow> v5_fresh_form l \<and> verify_v5_structure H U l = Ok ()"
proof
  assume r: "v5_fresh_form l \<and> verify_v5_structure H U l = Ok ()"
  then obtain rs where l: "l = \<lparr> l_events = l_events l, l_owner = l_owner l, l_last_hash = 0,
      l_continuity_v5 = Some \<lparr> cl_anchor = anchor_fresh (l_owner l), cl_legacy_event_count = 0,
                               cl_receipts = rs \<rparr> \<rparr>"
    and "length rs = length (l_events l)"
    and "verify_v5_loop H (l_owner l) (l_events l) 0
        (anchor_commitment H (anchor_fresh (l_owner l))) (zip rs (l_events l)) = Ok ()"
    by (cases l; cases "the (l_continuity_v5 l)")
      (auto simp: v5_fresh_form_def verify_v5_structure_iff suffix_receipts_def
        split: option.splits)
  from v5_fresh_reachable_complete [OF this(2,3)] show "v5_fresh_reachable H l"
    by (subst l)
qed (rule v5_fresh_reachable_sound)

section \<open>The head commitment determines the history\<close>

text \<open>Everything a ledger hashes: its anchor, and for each receipt the entry and the event.\<close>

definition commit_preimages :: "(u8 list \<Rightarrow> b32) \<Rightarrow> ledger \<Rightarrow> u8 list set" where
  "commit_preimages H l =
    (case l_continuity_v5 l of None \<Rightarrow> {} | Some c \<Rightarrow> {anchor_preimage (cl_anchor c)})
    \<union> (\<Union>(r, e) \<in> set (suffix_receipts l).
         {entry_preimage H (receipt_entry (l_owner l) r e), event_id_preimage e})"

text \<open>What a history records beside its signatures.\<close>

definition receipt_core ::
  "ledger_v5_receipt \<times> event \<Rightarrow> (u64 \<times> commitment) \<times> (u8 \<times> event_kind \<times> u8 list \<times> timestamp \<times> pub_key)"
  where
  "receipt_core = (\<lambda>(r, e). ((rc_sequence r, rc_previous_commitment r), event_core e))"

text \<open>The events before the anchor, and the v4 ledger they are.\<close>

definition legacy_events :: "ledger \<Rightarrow> event list" where
  "legacy_events l =
    (case l_continuity_v5 l of None \<Rightarrow> [] | Some c \<Rightarrow> take (cl_legacy_event_count c) (l_events l))"

definition legacy_part :: "ledger \<Rightarrow> ledger" where
  "legacy_part l = l\<lparr> l_events := legacy_events l, l_continuity_v5 := None \<rparr>"

definition legacy_snapshot_preimage :: "u8 list \<Rightarrow> u8 list" where
  "legacy_snapshot_preimage bs = LEGACY_SNAPSHOT_TAG @ be_bytes 8 (of_nat (length bs) :: u64) @ bs"

lemma legacy_snapshot_commitment_eq: "legacy_snapshot_commitment H bs = H (legacy_snapshot_preimage bs)"
  by (simp add: legacy_snapshot_commitment_def legacy_snapshot_preimage_def)

lemma legacy_snapshot_preimage_inject:
  "legacy_snapshot_preimage bs = legacy_snapshot_preimage bs' \<Longrightarrow> bs = bs'"
  by (simp add: legacy_snapshot_preimage_def append_eq_append_conv)

text \<open>The anchor says what is before it: nothing, or the v4 ledger that serializes (\<open>enc\<close>) to the bytes it commits
  to, as in \<open>import_runtime_ledger\<close>.\<close>

definition anchors_legacy :: "(u8 list \<Rightarrow> b32) \<Rightarrow> (ledger \<Rightarrow> u8 list option) \<Rightarrow> ledger \<Rightarrow> bool" where
  "anchors_legacy H enc l \<longleftrightarrow>
    (case map_option cl_anchor (l_continuity_v5 l) of
       None \<Rightarrow> False
     | Some (Fresh owner) \<Rightarrow> legacy_events l = []
     | Some (LegacyV4 owner snapshot sig) \<Rightarrow>
         \<exists>bs. enc (legacy_part l) = Some bs \<and> snapshot = legacy_snapshot_commitment H bs)"

lemma anchors_legacy_fresh: "anchors_legacy H enc (fresh_v5 owner)"
  by (simp add: anchors_legacy_def fresh_v5_def anchor_fresh_def legacy_events_def)

lemma anchors_legacy_migrate:
  assumes "migrate_v4 H U l (anchor_legacy owner (legacy_snapshot_commitment H bs) sig) = Ok l'" and "enc l = Some bs"
  shows "anchors_legacy H enc l'"
proof -
  have "legacy_part l' = l"
    using assms(1) by (cases l) (auto simp: migrate_v4_Ok_iff legacy_part_def legacy_events_def is_continuous_v5_def)
  then show ?thesis using assms by (auto simp: migrate_v4_Ok_iff anchors_legacy_def anchor_legacy_def)
qed

lemma anchors_legacy_append:
  assumes "anchors_legacy H enc l" and "append_v5 H l x = Ok l'" and "verify_v5_structure H U l = Ok ()"
  shows "anchors_legacy H enc l'"
proof -
  obtain c where c: "l_continuity_v5 l = Some c" and le: "cl_legacy_event_count c \<le> length (l_events l)"
    using assms(3) by (auto simp: verify_v5_structure_iff)
  obtain c' where c': "l_continuity_v5 l' = Some c'" and same: "cl_anchor c' = cl_anchor c"
    "legacy_events l' = legacy_events l" "legacy_part l' = legacy_part l"
    using assms(2) c le by (cases l) (auto simp: append_v5_Ok_iff legacy_events_def legacy_part_def)
  then show ?thesis using assms(1) c by (cases "cl_anchor c") (simp_all add: anchors_legacy_def)
qed

text \<open>What two ledgers with the same history agree on: the owner, the anchor, the events before it as they are, and
  for every later event its receipt and its content.\<close>

definition history_core where
  "history_core l =
    (l_owner l, map_option (anchor_core \<circ> cl_anchor) (l_continuity_v5 l), legacy_events l,
     map receipt_core (suffix_receipts l))"

definition snapshot_preimages :: "(ledger \<Rightarrow> u8 list option) \<Rightarrow> ledger \<Rightarrow> u8 list set" where
  "snapshot_preimages enc l = legacy_snapshot_preimage ` set_option (enc (legacy_part l))"

lemma anchored_legacy_inject:
  assumes a: "anchors_legacy H enc l1" "anchors_legacy H enc l2"
    and c: "l_continuity_v5 l1 = Some c1" "l_continuity_v5 l2 = Some c2"
    and core: "anchor_core (cl_anchor c1) = anchor_core (cl_anchor c2)"
    and inj: "inj_on H (snapshot_preimages enc l1 \<union> snapshot_preimages enc l2)"
    and enc: "inj_on enc {legacy_part l1, legacy_part l2}"
  shows "legacy_events l1 = legacy_events l2"
proof (cases "cl_anchor c1")
  case (Fresh owner)
  then show ?thesis using a core by (cases "cl_anchor c2") (auto simp: anchors_legacy_def c)
next
  case (LegacyV4 owner snapshot sig)
  then obtain sig' where c2: "cl_anchor c2 = LegacyV4 owner snapshot sig'"
    using core by (cases "cl_anchor c2") auto
  obtain b1 b2 where b: "enc (legacy_part l1) = Some b1" "enc (legacy_part l2) = Some b2"
    and same: "legacy_snapshot_commitment H b1 = legacy_snapshot_commitment H b2"
    using a by (auto simp: anchors_legacy_def c c2 LegacyV4)
  have "legacy_snapshot_preimage b1 = legacy_snapshot_preimage b2"
    by (rule inj_onD [OF inj]) (simp_all add: snapshot_preimages_def b same flip: legacy_snapshot_commitment_eq)
  then have "b1 = b2" by (rule legacy_snapshot_preimage_inject)
  then have "enc (legacy_part l1) = enc (legacy_part l2)" by (simp add: b)
  then have "legacy_part l1 = legacy_part l2" by (rule inj_onD [OF enc]) simp_all
  then have "l_events (legacy_part l1) = l_events (legacy_part l2)" by (rule arg_cong)
  then show ?thesis by (simp add: legacy_part_def)
qed

lemma entry_of_receipt_inject:
  assumes "entry_preimage H (receipt_entry o1 r e) = entry_preimage H (receipt_entry o2 r' e')"
  shows "o1 = o2" "rc_sequence r = rc_sequence r'"
    "rc_previous_commitment r = rc_previous_commitment r'" "event_id H e = event_id H e'"
  using entry_preimage_inject [OF assms] by (simp_all add: receipt_entry_def)

text \<open>The induction over two chains: \<open>S\<close> is a set of byte strings on which the hash function
  has no collision.\<close>

lemma chain_tip_inject:
  assumes inj: "inj_on H S"
    and "verify_v5_loop H o1 es1 0 (anchor_commitment H a1) rs1 = Ok ()"
    and "verify_v5_loop H o2 es2 0 (anchor_commitment H a2) rs2 = Ok ()"
    and "insert (anchor_preimage a1) (\<Union>(r, e) \<in> set rs1.
        {entry_preimage H (receipt_entry o1 r e), event_id_preimage e}) \<subseteq> S"
    and "insert (anchor_preimage a2) (\<Union>(r, e) \<in> set rs2.
        {entry_preimage H (receipt_entry o2 r e), event_id_preimage e}) \<subseteq> S"
    and "chain_tip H o1 (anchor_commitment H a1) rs1 = chain_tip H o2 (anchor_commitment H a2) rs2"
  shows "anchor_core a1 = anchor_core a2 \<and> map receipt_core rs1 = map receipt_core rs2"
  using assms(2-)
proof (induction rs1 arbitrary: rs2 rule: rev_induct)
  case Nil
  show ?case
  proof (cases rs2 rule: rev_cases)
    case Nil
    with Nil.prems inj show ?thesis
      by (auto simp: anchor_commitment_def inj_on_eq_iff intro: anchor_preimage_inject)
  next
    case (snoc xs x)
    with Nil.prems inj show ?thesis
      by (cases x) (auto simp: anchor_commitment_def entry_commitment_def inj_on_eq_iff
          anchor_entry_preimage_differ)
  qed
next
  case (snoc x1 xs1)
  obtain r1 e1 where x1: "x1 = (r1, e1)" by (cases x1)
  show ?case
  proof (cases rs2 rule: rev_cases)
    case Nil
    with snoc.prems inj show ?thesis
      by (auto simp: x1 anchor_commitment_def entry_commitment_def inj_on_eq_iff
          anchor_entry_preimage_differ [symmetric])
  next
    case (snoc xs2 x2)
    obtain r2 e2 where x2: "x2 = (r2, e2)" by (cases x2)
    note rs2 = \<open>rs2 = xs2 @ [x2]\<close> [unfolded x2]
    have pre: "entry_preimage H (receipt_entry o1 r1 e1) = entry_preimage H (receipt_entry o2 r2 e2)"
      using snoc.prems inj by (auto simp: x1 rs2 entry_commitment_def inj_on_eq_iff)
    note same = entry_of_receipt_inject [OF pre]
    have ev: "event_id_preimage e1 = event_id_preimage e2"
      using same(4) snoc.prems(3,4) inj by (auto simp: x1 rs2 event_id_def inj_on_eq_iff)
    have core: "event_core e1 = event_core e2"
      using snoc.prems(1,2) ev
      by (intro event_id_preimage_v5_inject) (simp_all add: x1 rs2 verify_v5_loop_snoc)
    have "anchor_core a1 = anchor_core a2 \<and> map receipt_core xs1 = map receipt_core xs2"
      using snoc.prems same(3)
      by (intro snoc.IH) (auto simp: x1 rs2 verify_v5_loop_snoc)
    with core same show ?thesis
      by (simp add: x1 rs2 receipt_core_def)
  qed
qed

lemma anchor_core_owner: "anchor_core a = anchor_core b \<Longrightarrow> anchor_owner a = anchor_owner b"
  by (cases a; cases b) auto

text \<open>C1: Tamper evidence of the continuous ledger. Two ledgers that pass the structural verification, whose anchors
  commit to what precedes them, and that publish the same head commitment record the same history: same owner, same
  anchor, the same events before it (none for a fresh anchor), and after it the same number of receipts with the
  same sequence numbers and back links, and the same version, kind, payload, timestamp and signer in every event. The
  hypotheses on SHA-256 and on the serializer of the migrated ledger are that they have no collision among the byte
  strings, and among the two v4 ledgers, at hand.\<close>

theorem head_commitment_determines_history:
  assumes "verify_v5_structure H U l1 = Ok ()" and "verify_v5_structure H U l2 = Ok ()"
    and "anchors_legacy H enc l1" and "anchors_legacy H enc l2"
    and "head_commitment_v5 H l1 = head_commitment_v5 H l2"
    and "inj_on H (commit_preimages H l1 \<union> commit_preimages H l2 \<union> snapshot_preimages enc l1 \<union> snapshot_preimages enc l2)"
    and "inj_on enc {legacy_part l1, legacy_part l2}"
  shows "history_core l1 = history_core l2"
proof -
  obtain c1 c2 where c: "l_continuity_v5 l1 = Some c1" "l_continuity_v5 l2 = Some c2"
    and own: "anchor_owner (cl_anchor c1) = l_owner l1" "anchor_owner (cl_anchor c2) = l_owner l2"
    and len: "length (l_events l1) = cl_legacy_event_count c1 + length (cl_receipts c1)"
      "length (l_events l2) = cl_legacy_event_count c2 + length (cl_receipts c2)"
    and loops:
      "verify_v5_loop H (l_owner l1) (l_events l1) 0 (anchor_commitment H (cl_anchor c1))
        (suffix_receipts l1) = Ok ()"
      "verify_v5_loop H (l_owner l2) (l_events l2) 0 (anchor_commitment H (cl_anchor c2))
        (suffix_receipts l2) = Ok ()"
    using assms(1,2) by (auto simp: verify_v5_structure_iff)
  have tips: "chain_tip H (l_owner l1) (anchor_commitment H (cl_anchor c1)) (suffix_receipts l1)
      = chain_tip H (l_owner l2) (anchor_commitment H (cl_anchor c2)) (suffix_receipts l2)"
    using assms(5)
    by (simp add: head_commitment_v5_def tail_commitment_v5_eq [OF c(1) len(1)]
        tail_commitment_v5_eq [OF c(2) len(2)])
  have "anchor_core (cl_anchor c1) = anchor_core (cl_anchor c2)
      \<and> map receipt_core (suffix_receipts l1) = map receipt_core (suffix_receipts l2)"
    by (rule chain_tip_inject [OF assms(6) loops _ _ tips]) (auto simp: commit_preimages_def c)
  moreover from this have "legacy_events l1 = legacy_events l2"
    using inj_on_subset [OF assms(6)] by (intro anchored_legacy_inject [OF assms(3,4) c _ _ assms(7)]) auto
  ultimately show ?thesis
    using own by (auto simp: history_core_def c dest: anchor_core_owner)
qed

text \<open>Two migrated ledgers of one event each before and after the anchor, which differ in the signatures of the
  anchor, the later event and its receipt, under a hash function that separates the byte strings they hash.\<close>

definition length_hash :: "u8 list \<Rightarrow> b32" where
  "length_hash xs = bfill (of_nat (length xs))"

definition signed_once :: "u8 \<Rightarrow> ledger" where
  "signed_once s =
    (let e4 = event_new CapsuleCreated [] (Timestamp 0) (Signature (bfill 0)) (PubKey (bfill 7));
         a = LegacyV4 (PubKey (bfill 7)) (legacy_snapshot_commitment length_hash [1]) (Signature (bfill s))
     in \<lparr> l_events = [e4, event_new_v5 InvitationSent [] (Timestamp 0) (Signature (bfill s)) (PubKey (bfill 7))],
          l_owner = PubKey (bfill 7), l_last_hash = checksum 8 0 [e4],
          l_continuity_v5 = Some \<lparr> cl_anchor = a, cl_legacy_event_count = 1,
            cl_receipts = [\<lparr> rc_sequence = 0, rc_previous_commitment = anchor_commitment length_hash a,
              rc_signature = Signature (bfill s) \<rparr>] \<rparr> \<rparr>)"

lemma signed_once_preimages:
  "commit_preimages length_hash (signed_once s) = commit_preimages length_hash (signed_once 0)"
  "legacy_part (signed_once s) = legacy_part (signed_once 0)"
  "inj_on length_hash (commit_preimages length_hash (signed_once 0) \<union> snapshot_preimages (\<lambda>_. Some [1]) (signed_once 0))"
proof -
  show "commit_preimages length_hash (signed_once s) = commit_preimages length_hash (signed_once 0)"
    by (simp add: commit_preimages_def signed_once_def Let_def suffix_receipts_def entry_preimage_def
        receipt_entry_def event_id_def event_id_preimage_def anchor_commitment_def)
  show "legacy_part (signed_once s) = legacy_part (signed_once 0)"
    by (simp add: legacy_part_def legacy_events_def signed_once_def Let_def)
  have "length_hash x = length_hash y \<Longrightarrow> x = y"
    if "x \<in> commit_preimages length_hash (signed_once 0) \<union> snapshot_preimages (\<lambda>_. Some [1]) (signed_once 0)"
      and "y \<in> commit_preimages length_hash (signed_once 0) \<union> snapshot_preimages (\<lambda>_. Some [1]) (signed_once 0)" for x y
    using that
    by (auto simp: commit_preimages_def snapshot_preimages_def legacy_snapshot_preimage_def signed_once_def Let_def
      suffix_receipts_def length_hash_def entry_preimage_def event_id_preimage_def LEGACY_ANCHOR_TAG_def
      LEGACY_SNAPSHOT_TAG_def LEDGER_ENTRY_TAG_def V5_DOMAIN_EVENT_TAG_def ascii_def)
  then show "inj_on length_hash (commit_preimages length_hash (signed_once 0) \<union> snapshot_preimages (\<lambda>_. Some [1]) (signed_once 0))"
    by (rule inj_onI)
qed

lemma signed_once_verifies: "verify_v5_structure length_hash 8 (signed_once s) = Ok ()"
  by (simp add: signed_once_def Let_def verify_v5_structure_def verify_v4_events_iff v4_valid_def)

lemma signed_once_anchored: "anchors_legacy length_hash (\<lambda>_. Some [1]) (signed_once s)"
  by (simp add: anchors_legacy_def signed_once_def Let_def)

lemma signed_once_head:
  "head_commitment_v5 length_hash (signed_once s) = head_commitment_v5 length_hash (signed_once 0)"
  by (simp add: head_commitment_v5_def tail_commitment_v5_def signed_once_def Let_def entry_commitment_def
      entry_preimage_def receipt_entry_def event_id_def event_id_preimage_def last_opt_def anchor_commitment_def)

theorem head_commitment_determines_history_witness:
  "signed_once 1 \<noteq> signed_once 2 \<and> history_core (signed_once 1) = history_core (signed_once 2)"
proof
  show "signed_once 1 \<noteq> signed_once 2"
    by (simp add: signed_once_def Let_def event_new_v5_def)
  note same = signed_once_preimages(1) [of 1] signed_once_preimages(1) [of 2] signed_once_preimages(2) [of 1]
    signed_once_preimages(2) [of 2]
  show "history_core (signed_once 1) = history_core (signed_once 2)"
  proof (rule head_commitment_determines_history [of length_hash 8 _ _ "\<lambda>_. Some [1]"])
    show "inj_on length_hash (commit_preimages length_hash (signed_once 1) \<union> commit_preimages length_hash (signed_once 2)
        \<union> snapshot_preimages (\<lambda>_. Some [1]) (signed_once 1) \<union> snapshot_preimages (\<lambda>_. Some [1]) (signed_once 2))"
      using signed_once_preimages(3) by (simp add: same snapshot_preimages_def Un_commute)
    show "inj_on (\<lambda>_. Some [1 :: u8]) {legacy_part (signed_once 1), legacy_part (signed_once 2)}"
      by (simp add: same)
  qed (simp_all add: signed_once_verifies signed_once_anchored signed_once_head [of 1] signed_once_head [of 2])
qed

section \<open>Two boundary behaviours\<close>

text \<open>A migrated ledger in which one v5 event was accepted twice, the receipts linked
  correctly.\<close>

definition repeated_event_ledger ::
  "(u8 list \<Rightarrow> b32) \<Rightarrow> nat \<Rightarrow> pub_key \<Rightarrow> event \<Rightarrow> event \<Rightarrow> ledger" where
  "repeated_event_ledger H U owner e4 e5 =
    (let a = LegacyV4 owner (bfill 0) (Signature (bfill 0));
         r1 = \<lparr> rc_sequence = 0, rc_previous_commitment = anchor_commitment H a,
                rc_signature = Signature (bfill 0) \<rparr>;
         r2 = \<lparr> rc_sequence = 1,
                rc_previous_commitment = entry_commitment H (receipt_entry owner r1 e5),
                rc_signature = Signature (bfill 0) \<rparr>
     in \<lparr> l_events = [e4, e5, e5], l_owner = owner, l_last_hash = checksum U 0 [e4],
          l_continuity_v5 = Some \<lparr> cl_anchor = a, cl_legacy_event_count = 1,
                                   cl_receipts = [r1, r2] \<rparr> \<rparr>)"

text \<open>C33: After a migration the duplicate check of \<open>verify_v5_structure\<close> looks at
  \<open>events[..index]\<close>, where \<open>index\<close> counts receipts from 0 and not events from the legacy prefix:
  a ledger whose history repeats a v5 event passes verification (as soon as the event is not the
  legacy one), although no append can build it.\<close>

theorem migrated_verify_misses_duplicate:
  "verify_v5_structure H U (repeated_event_ledger H U owner
      (event_new k4 p4 t4 s4 r4) (event_new_v5 k5 p5 t5 s5 r5)) = Ok ()
    \<longleftrightarrow> event_id H (event_new k4 p4 t4 s4 r4) \<noteq> event_id H (event_new_v5 k5 p5 t5 s5 r5)"
  by (auto simp: repeated_event_ledger_def Let_def verify_v5_structure_def
      verify_v4_events_iff v4_valid_def)

text \<open>No sequence of appends builds a ledger whose v5 events repeat an identifier, so the
  ledger of the previous property is accepted by \<open>verify\<close> only.\<close>

theorem v5_reachable_distinct_events:
  "\<not> v5_reachable H U (repeated_event_ledger H U owner e4 e5)"
proof
  let ?P = "\<lambda>l. \<forall>c. l_continuity_v5 l = Some c \<longrightarrow>
      distinct (map (event_id H) (drop (cl_legacy_event_count c) (l_events l)))
      \<and> cl_legacy_event_count c \<le> length (l_events l)"
  assume "v5_reachable H U (repeated_event_ledger H U owner e4 e5)"
  then have "?P (repeated_event_ledger H U owner e4 e5)"
  proof (induction rule: v5_reachable.induct)
    case (append l x l')
    then show ?case by (fastforce simp: append_v5_Ok_iff dest: in_set_dropD)
  qed (auto simp: fresh_v5_def migrate_v4_Ok_iff)
  then show False by (simp add: repeated_event_ledger_def Let_def)
qed

text \<open>The v4 checksum is not portable: the ledger one 64-bit build makes by appending one
  event to an empty ledger is not verified by a 32-bit build (the standard library hashes a
  slice with a \<open>usize\<close> length prefix).\<close>

definition sample_event :: event where
  "sample_event = event_new InvitationSent [] (Timestamp 0) (Signature (bfill 0)) (PubKey (bfill 0))"

lemma next_hash_sample:
  "next_hash 8 0 sample_event \<noteq> next_hash 4 0 sample_event"
  by code_simp

theorem checksum_depends_on_pointer_width:
  "\<exists>l. ledger_append 8 (ledger_new owner) sample_event = Ok l
     \<and> ledger_verify H 8 l \<and> \<not> ledger_verify H 4 l"
  using next_hash_sample
  by (simp add: ledger_append_Ok_iff ledger_new_def ledger_verify_v4_iff v4_valid_def checksum_def
      sample_event_def)

end
