(* ===== verification/Payloads.thy ===== *)
theory Payloads
  imports Event
begin

text \<open>
  \<open>core/hivra-core/src/event_payloads.rs\<close>: the nine binary payload schemas. Each payload is
  a record with \<open>to_bytes\<close> and \<open>from_bytes\<close>, the two methods of the \<open>EventPayload\<close> trait;
  \<open>from_bytes\<close> returns \<open>Err\<close> with the source's message, and every slice it takes is written
  with \<open>read_fixed_32\<close> or \<open>index_byte\<close>, which are \<open>Panic\<close> out of range.

  The locale \<open>payload_codec\<close> is the contract of the trait: canonical payloads are read back,
  reading never panics, an accepted byte string starts with the encoding of its payload.
  It is interpreted for all nine schemas, and the components above use its facts.
\<close>

section \<open>The payload contract\<close>

locale payload_codec =
  fixes to_bytes :: "'p \<Rightarrow> u8 list"
    and from_bytes :: "u8 list \<Rightarrow> (string, 'p) result"
    and canonical :: "'p \<Rightarrow> bool"
    and lens :: "nat set"
  assumes roundtrip: "canonical p \<Longrightarrow> from_bytes (to_bytes p) = Ok p"
    and not_Panic: "from_bytes bs \<noteq> Panic"
    and wrong_length: "length bs \<notin> lens \<Longrightarrow> \<exists>e. from_bytes bs = Err e"
    and from_bytes_canonical: "from_bytes bs = Ok p \<Longrightarrow> canonical p"
    and from_bytes_prefix: "from_bytes bs = Ok p \<Longrightarrow> \<exists>rest. bs = to_bytes p @ rest"
begin

lemma to_bytes_inj: "canonical p \<Longrightarrow> canonical q \<Longrightarrow> to_bytes p = to_bytes q \<Longrightarrow> p = q"
  by (metis roundtrip result.inject(1))

lemma from_bytes_length: "from_bytes bs = Ok p \<Longrightarrow> length bs \<in> lens"
  using wrong_length by (metis result.distinct(1))

lemma to_bytes_length: "canonical p \<Longrightarrow> length (to_bytes p) \<in> lens"
  using roundtrip by (blast intro: from_bytes_length)

lemma reencode: "from_bytes bs = Ok p \<Longrightarrow> from_bytes (to_bytes p) = Ok p"
  using from_bytes_canonical roundtrip by blast

lemma Ok_or_Err: "(\<exists>p. from_bytes bs = Ok p) \<or> (\<exists>e. from_bytes bs = Err e)"
  using not_Panic by (cases "from_bytes bs") auto

end

section \<open>Reading fixed fields\<close>

lemma take_drop_step: "take n (drop s bs) @ drop (s + n) bs = drop s bs"
  by (metis append_take_drop_id drop_drop add.commute)

definition read_fixed_32 :: "u8 list \<Rightarrow> nat \<Rightarrow> (string, b32) result" where
  "read_fixed_32 bs start = slice_array bs start"

text \<open>Reading out of an encoding: skip the fields before the offset.\<close>

lemma read_fixed_32_here [byte_simps]:
  "read_fixed_32 (bytes a @ rest) 0 = Ok a" "read_fixed_32 (bytes a) 0 = Ok a"
  by (simp_all add: read_fixed_32_def byte_simps)

lemma read_fixed_32_skip [byte_simps]:
  "32 \<le> s \<Longrightarrow> read_fixed_32 (bytes (a :: b32) @ rest) s = read_fixed_32 rest (s - 32)"
  by (auto simp: read_fixed_32_def slice_array_def)

lemma read_fixed_32_skip_byte [byte_simps]:
  "1 \<le> s \<Longrightarrow> read_fixed_32 (x # rest) s = read_fixed_32 rest (s - 1)"
  by (cases s) (auto simp: read_fixed_32_def slice_array_def)

lemma index_byte_here [byte_simps]: "index_byte (x # rest) 0 = Ok x"
  by (simp add: index_byte_def)

lemma index_byte_skip [byte_simps]:
  "32 \<le> s \<Longrightarrow> index_byte (bytes (a :: b32) @ rest) s = index_byte rest (s - 32)"
  by (auto simp: index_byte_def nth_append)

lemma index_byte_skip_byte [byte_simps]:
  "1 \<le> s \<Longrightarrow> index_byte (x # rest) s = index_byte rest (s - 1)"
  by (cases s) (auto simp: index_byte_def)

text \<open>Conversely, a successful read says what stands at the offset.\<close>

lemma read_fixed_32_OkD: "read_fixed_32 bs s = Ok a \<Longrightarrow> drop s bs = bytes a @ drop (s + 32) bs"
  using take_drop_step [of 32 s bs]
  by (auto simp: read_fixed_32_def slice_array_def split: if_splits)

lemma read_fixed_32_0D: "read_fixed_32 bs 0 = Ok a \<Longrightarrow> bs = bytes a @ drop 32 bs"
  using read_fixed_32_OkD [of bs 0 a] by simp

lemma index_byte_OkD: "index_byte bs i = Ok b \<Longrightarrow> drop i bs = b # drop (i + 1) bs"
  by (auto simp: index_byte_def Cons_nth_drop_Suc split: if_splits)

lemma read_fixed_32_eq_Panic: "read_fixed_32 bs s = Panic \<longleftrightarrow> length bs < s + 32"
  by (auto simp: read_fixed_32_def slice_array_def)

lemma read_fixed_32_not_Err [simp]: "read_fixed_32 bs s \<noteq> Err e"
  by (simp add: read_fixed_32_def slice_array_def)

lemma index_byte_eq_Panic: "index_byte bs i = Panic \<longleftrightarrow> length bs \<le> i"
  by (auto simp: index_byte_def)

lemmas panic_simps = and_then_eq_Panic read_fixed_32_eq_Panic index_byte_eq_Panic

section \<open>Capsule birth\<close>

datatype reject_reason = EmptySlot | Other

fun reject_reason_to_u8 :: "reject_reason \<Rightarrow> u8" where
  "reject_reason_to_u8 EmptySlot = 0"
| "reject_reason_to_u8 Other = 1"

definition reject_reason_from_u8 :: "u8 \<Rightarrow> (string, reject_reason) result" where
  "reject_reason_from_u8 value =
    (if value = 0 then Ok EmptySlot
     else if value = 1 then Ok Other
     else Err ''invalid reject reason'')"

lemma reject_reason_from_to [simp]: "reject_reason_from_u8 (reject_reason_to_u8 r) = Ok r"
  by (cases r) (simp_all add: reject_reason_from_u8_def)

lemma reject_reason_to_from:
  "reject_reason_from_u8 b = Ok r \<Longrightarrow> reject_reason_to_u8 r = b"
  by (auto simp: reject_reason_from_u8_def split: if_splits)

lemma reject_reason_from_not_Panic [simp]: "reject_reason_from_u8 b \<noteq> Panic"
  by (simp add: reject_reason_from_u8_def)

record capsule_created_payload =
  cc_network :: u8
  cc_capsule_type :: u8

definition capsule_created_payload_new :: "u8 \<Rightarrow> u8 \<Rightarrow> b32 \<Rightarrow> capsule_created_payload" where
  "capsule_created_payload_new network capsule_type _ =
    \<lparr> cc_network = network, cc_capsule_type = capsule_type \<rparr>"

definition capsule_created_to_bytes :: "capsule_created_payload \<Rightarrow> u8 list" where
  "capsule_created_to_bytes p = [cc_network p, cc_capsule_type p]"

definition capsule_created_from_bytes ::
  "u8 list \<Rightarrow> (string, capsule_created_payload) result" where
  "capsule_created_from_bytes bs =
    (if length bs \<noteq> 2 then Err ''invalid capsule_created payload length''
     else and_then (index_byte bs 0) (\<lambda>n.
          and_then (index_byte bs 1) (\<lambda>t.
          Ok \<lparr> cc_network = n, cc_capsule_type = t \<rparr>)))"

interpretation capsule_created_codec: payload_codec
  capsule_created_to_bytes capsule_created_from_bytes "\<lambda>_. True" "{2}"
proof
  fix bs p assume "capsule_created_from_bytes bs = Ok p"
  then show "\<exists>rest. bs = capsule_created_to_bytes p @ rest"
    by (cases bs; cases "tl bs")
      (auto simp: capsule_created_from_bytes_def capsule_created_to_bytes_def index_byte_def
        split: if_splits)
qed (auto simp: capsule_created_to_bytes_def capsule_created_from_bytes_def index_byte_def)

section \<open>Invitations\<close>

record invitation_sent_payload =
  sent_invitation_id :: b32
  sent_starter_id :: starter_id
  sent_to_pubkey :: pub_key
  sent_sender_root_pubkey :: "pub_key option"

text \<open>\<open>if let Some(root) = ... { out.extend_from_slice(root.as_bytes()) }\<close>\<close>

definition opt_key_bytes :: "pub_key option \<Rightarrow> u8 list" where
  "opt_key_bytes k = (case k of Some root \<Rightarrow> bytes (pub_key_as_bytes root) | None \<Rightarrow> [])"

definition invitation_sent_to_bytes :: "invitation_sent_payload \<Rightarrow> u8 list" where
  "invitation_sent_to_bytes p =
    bytes (sent_invitation_id p)
    @ bytes (starter_id_as_bytes (sent_starter_id p))
    @ bytes (pub_key_as_bytes (sent_to_pubkey p))
    @ opt_key_bytes (sent_sender_root_pubkey p)"

text \<open>\<open>if len >= n { Some(PubKey::from(read_fixed_32(bytes, start))) } else { None }\<close>\<close>

definition read_opt_key :: "u8 list \<Rightarrow> nat \<Rightarrow> nat \<Rightarrow> (string, pub_key option) result" where
  "read_opt_key bs n start =
    (if length bs \<ge> n then and_then (read_fixed_32 bs start) (\<lambda>k. Ok (Some (PubKey k)))
     else Ok None)"

lemma read_opt_key_bytes [byte_simps]:
  "length pre = 96 \<Longrightarrow> read_opt_key (pre @ opt_key_bytes k) 128 96 = Ok k"
  by (cases k) (simp_all add: read_opt_key_def opt_key_bytes_def read_fixed_32_def byte_simps)

lemma read_opt_key_OkD:
  "read_opt_key bs n s = Ok k \<Longrightarrow> \<exists>rest. drop s bs = opt_key_bytes k @ rest"
  by (auto simp: read_opt_key_def opt_key_bytes_def dest: read_fixed_32_OkD split: if_splits)

lemma read_opt_key_eq_Panic:
  "read_opt_key bs n s = Panic \<longleftrightarrow> n \<le> length bs \<and> length bs < s + 32"
  by (auto simp: read_opt_key_def panic_simps)

lemma length_opt_key_bytes [byte_simps]:
  "length (opt_key_bytes k) = (case k of None \<Rightarrow> 0 | Some _ \<Rightarrow> 32)"
  by (simp add: opt_key_bytes_def split: option.splits)

definition invitation_sent_from_bytes ::
  "u8 list \<Rightarrow> (string, invitation_sent_payload) result" where
  "invitation_sent_from_bytes bs =
    (if length bs \<noteq> 96 \<and> length bs \<noteq> 97 \<and> length bs \<noteq> 128 \<and> length bs \<noteq> 129
        \<and> length bs \<noteq> 161 \<and> length bs \<noteq> 225
     then Err ''invalid invitation_sent payload length''
     else and_then (read_fixed_32 bs 0) (\<lambda>invitation_id.
          and_then (read_fixed_32 bs 32) (\<lambda>starter.
          and_then (read_fixed_32 bs 64) (\<lambda>to_pubkey.
          and_then (read_opt_key bs 128 96) (\<lambda>sender_root.
          Ok \<lparr> sent_invitation_id = invitation_id,
               sent_starter_id = StarterId starter,
               sent_to_pubkey = PubKey to_pubkey,
               sent_sender_root_pubkey = sender_root \<rparr>)))))"

record invitation_accepted_payload =
  acc_invitation_id :: b32
  acc_from_pubkey :: pub_key
  acc_created_starter_id :: starter_id
  acc_accepter_root_pubkey :: "pub_key option"

definition invitation_accepted_to_bytes :: "invitation_accepted_payload \<Rightarrow> u8 list" where
  "invitation_accepted_to_bytes p =
    bytes (acc_invitation_id p)
    @ bytes (pub_key_as_bytes (acc_from_pubkey p))
    @ bytes (starter_id_as_bytes (acc_created_starter_id p))
    @ opt_key_bytes (acc_accepter_root_pubkey p)"

definition invitation_accepted_from_bytes ::
  "u8 list \<Rightarrow> (string, invitation_accepted_payload) result" where
  "invitation_accepted_from_bytes bs =
    (if length bs \<noteq> 96 \<and> length bs \<noteq> 128 then Err ''invalid invitation_accepted payload length''
     else and_then (read_fixed_32 bs 0) (\<lambda>invitation_id.
          and_then (read_fixed_32 bs 32) (\<lambda>from_pubkey.
          and_then (read_fixed_32 bs 64) (\<lambda>starter.
          and_then (read_opt_key bs 128 96) (\<lambda>accepter_root.
          Ok \<lparr> acc_invitation_id = invitation_id,
               acc_from_pubkey = PubKey from_pubkey,
               acc_created_starter_id = StarterId starter,
               acc_accepter_root_pubkey = accepter_root \<rparr>)))))"

record invitation_rejected_payload =
  rej_invitation_id :: b32
  rej_reason :: reject_reason

definition invitation_rejected_to_bytes :: "invitation_rejected_payload \<Rightarrow> u8 list" where
  "invitation_rejected_to_bytes p =
    bytes (rej_invitation_id p) @ [reject_reason_to_u8 (rej_reason p)]"

definition invitation_rejected_from_bytes ::
  "u8 list \<Rightarrow> (string, invitation_rejected_payload) result" where
  "invitation_rejected_from_bytes bs =
    (if length bs \<noteq> 33 then Err ''invalid invitation_rejected payload length''
     else and_then (read_fixed_32 bs 0) (\<lambda>invitation_id.
          and_then (index_byte bs 32) (\<lambda>b.
          and_then (reject_reason_from_u8 b) (\<lambda>reason.
          Ok \<lparr> rej_invitation_id = invitation_id, rej_reason = reason \<rparr>))))"

record invitation_expired_payload =
  exp_invitation_id :: b32

definition invitation_expired_to_bytes :: "invitation_expired_payload \<Rightarrow> u8 list" where
  "invitation_expired_to_bytes p = bytes (exp_invitation_id p)"

definition invitation_expired_from_bytes ::
  "u8 list \<Rightarrow> (string, invitation_expired_payload) result" where
  "invitation_expired_from_bytes bs =
    (if length bs \<noteq> 32 then Err ''invalid invitation_expired payload length''
     else and_then (read_fixed_32 bs 0) (\<lambda>invitation_id.
          Ok \<lparr> exp_invitation_id = invitation_id \<rparr>))"

interpretation invitation_sent_codec: payload_codec
  invitation_sent_to_bytes invitation_sent_from_bytes "\<lambda>_. True" "{96, 97, 128, 129, 161, 225}"
proof
  fix p
  have "read_opt_key (invitation_sent_to_bytes p) 128 96 = Ok (sent_sender_root_pubkey p)"
    using read_opt_key_bytes [of "bytes (sent_invitation_id p)
        @ bytes (starter_id_as_bytes (sent_starter_id p))
        @ bytes (pub_key_as_bytes (sent_to_pubkey p))"]
    by (simp add: invitation_sent_to_bytes_def)
  then show "invitation_sent_from_bytes (invitation_sent_to_bytes p) = Ok p"
    by (simp add: invitation_sent_from_bytes_def invitation_sent_to_bytes_def byte_simps
        split: option.splits)
next
  fix bs
  show "invitation_sent_from_bytes bs \<noteq> Panic"
    by (auto simp: invitation_sent_from_bytes_def panic_simps read_opt_key_eq_Panic)
next
  fix bs p assume "invitation_sent_from_bytes bs = Ok p"
  then obtain a b c k where p: "p = \<lparr> sent_invitation_id = a, sent_starter_id = StarterId b,
      sent_to_pubkey = PubKey c, sent_sender_root_pubkey = k \<rparr>"
    and r: "read_fixed_32 bs 0 = Ok a" "read_fixed_32 bs 32 = Ok b" "read_fixed_32 bs 64 = Ok c"
      "read_opt_key bs 128 96 = Ok k"
    by (auto simp: invitation_sent_from_bytes_def split: if_splits)
  obtain rest where "drop 96 bs = opt_key_bytes k @ rest"
    using read_opt_key_OkD [OF r(4)] by auto
  then have "bs = invitation_sent_to_bytes p @ rest"
    using read_fixed_32_0D [OF r(1)] read_fixed_32_OkD [OF r(2)] read_fixed_32_OkD [OF r(3)]
    by (simp add: p invitation_sent_to_bytes_def)
  then show "\<exists>rest. bs = invitation_sent_to_bytes p @ rest" ..
qed (auto simp: invitation_sent_from_bytes_def)

interpretation invitation_accepted_codec: payload_codec
  invitation_accepted_to_bytes invitation_accepted_from_bytes "\<lambda>_. True" "{96, 128}"
proof
  fix p
  have "read_opt_key (invitation_accepted_to_bytes p) 128 96 = Ok (acc_accepter_root_pubkey p)"
    using read_opt_key_bytes [of "bytes (acc_invitation_id p)
        @ bytes (pub_key_as_bytes (acc_from_pubkey p))
        @ bytes (starter_id_as_bytes (acc_created_starter_id p))"]
    by (simp add: invitation_accepted_to_bytes_def)
  then show "invitation_accepted_from_bytes (invitation_accepted_to_bytes p) = Ok p"
    by (simp add: invitation_accepted_from_bytes_def invitation_accepted_to_bytes_def byte_simps
        split: option.splits)
next
  fix bs
  show "invitation_accepted_from_bytes bs \<noteq> Panic"
    by (auto simp: invitation_accepted_from_bytes_def panic_simps read_opt_key_eq_Panic)
next
  fix bs p assume "invitation_accepted_from_bytes bs = Ok p"
  then obtain a b c k where p: "p = \<lparr> acc_invitation_id = a, acc_from_pubkey = PubKey b,
      acc_created_starter_id = StarterId c, acc_accepter_root_pubkey = k \<rparr>"
    and r: "read_fixed_32 bs 0 = Ok a" "read_fixed_32 bs 32 = Ok b" "read_fixed_32 bs 64 = Ok c"
      "read_opt_key bs 128 96 = Ok k"
    by (auto simp: invitation_accepted_from_bytes_def split: if_splits)
  obtain rest where "drop 96 bs = opt_key_bytes k @ rest"
    using read_opt_key_OkD [OF r(4)] by auto
  then have "bs = invitation_accepted_to_bytes p @ rest"
    using read_fixed_32_0D [OF r(1)] read_fixed_32_OkD [OF r(2)] read_fixed_32_OkD [OF r(3)]
    by (simp add: p invitation_accepted_to_bytes_def)
  then show "\<exists>rest. bs = invitation_accepted_to_bytes p @ rest" ..
qed (auto simp: invitation_accepted_from_bytes_def)

interpretation invitation_rejected_codec: payload_codec
  invitation_rejected_to_bytes invitation_rejected_from_bytes "\<lambda>_. True" "{33}"
proof
  fix bs p assume "invitation_rejected_from_bytes bs = Ok p"
  then show "\<exists>rest. bs = invitation_rejected_to_bytes p @ rest"
    by (auto simp: invitation_rejected_from_bytes_def invitation_rejected_to_bytes_def
        dest!: read_fixed_32_0D index_byte_OkD reject_reason_to_from split: if_splits)
qed (auto simp: invitation_rejected_from_bytes_def invitation_rejected_to_bytes_def panic_simps
    byte_simps)

interpretation invitation_expired_codec: payload_codec
  invitation_expired_to_bytes invitation_expired_from_bytes "\<lambda>_. True" "{32}"
proof
  fix bs p assume "invitation_expired_from_bytes bs = Ok p"
  then show "\<exists>rest. bs = invitation_expired_to_bytes p @ rest"
    by (auto simp: invitation_expired_from_bytes_def invitation_expired_to_bytes_def
        dest!: read_fixed_32_0D split: if_splits)
qed (auto simp: invitation_expired_from_bytes_def invitation_expired_to_bytes_def panic_simps
    byte_simps)

section \<open>Starters\<close>

record starter_created_payload =
  cr_starter_id :: starter_id
  cr_nonce :: b32
  cr_kind :: starter_kind
  cr_network :: u8

definition starter_created_to_bytes :: "starter_created_payload \<Rightarrow> u8 list" where
  "starter_created_to_bytes p =
    bytes (starter_id_as_bytes (cr_starter_id p))
    @ bytes (cr_nonce p)
    @ [starter_kind_to_byte (cr_kind p), cr_network p]"

definition starter_created_from_bytes ::
  "u8 list \<Rightarrow> (string, starter_created_payload) result" where
  "starter_created_from_bytes bs =
    (if length bs \<noteq> 66 then Err ''invalid starter_created payload length''
     else and_then (index_byte bs 64) (\<lambda>k.
          and_then (ok_or (starter_kind_from_u8 k) ''invalid starter kind'') (\<lambda>kind.
          and_then (read_fixed_32 bs 0) (\<lambda>starter.
          and_then (read_fixed_32 bs 32) (\<lambda>nonce.
          and_then (index_byte bs 65) (\<lambda>network.
          Ok \<lparr> cr_starter_id = StarterId starter, cr_nonce = nonce,
               cr_kind = kind, cr_network = network \<rparr>))))))"

record starter_burned_payload =
  bu_starter_id :: starter_id
  bu_reason :: u8

definition starter_burned_to_bytes :: "starter_burned_payload \<Rightarrow> u8 list" where
  "starter_burned_to_bytes p = bytes (starter_id_as_bytes (bu_starter_id p)) @ [bu_reason p]"

definition starter_burned_from_bytes ::
  "u8 list \<Rightarrow> (string, starter_burned_payload) result" where
  "starter_burned_from_bytes bs =
    (if length bs \<noteq> 33 then Err ''invalid starter_burned payload length''
     else and_then (read_fixed_32 bs 0) (\<lambda>starter.
          and_then (index_byte bs 32) (\<lambda>reason.
          Ok \<lparr> bu_starter_id = StarterId starter, bu_reason = reason \<rparr>)))"

interpretation starter_created_codec: payload_codec
  starter_created_to_bytes starter_created_from_bytes "\<lambda>_. True" "{66}"
proof
  fix bs p assume ok: "starter_created_from_bytes bs = Ok p"
  then obtain a n k kind nw where p: "p = \<lparr> cr_starter_id = StarterId a, cr_nonce = n,
      cr_kind = kind, cr_network = nw \<rparr>" and len: "length bs = 66"
    and r: "read_fixed_32 bs 0 = Ok a" "read_fixed_32 bs 32 = Ok n"
      "index_byte bs 64 = Ok k" "index_byte bs 65 = Ok nw" "starter_kind_from_u8 k = Some kind"
    by (auto simp: starter_created_from_bytes_def split: if_splits)
  have "bs = starter_created_to_bytes p @ drop 66 bs"
    using read_fixed_32_0D [OF r(1)] read_fixed_32_OkD [OF r(2)] index_byte_OkD [OF r(3)]
      index_byte_OkD [OF r(4)] starter_kind_to_byte_from [OF r(5)]
    by (simp add: p starter_created_to_bytes_def)
  then show "\<exists>rest. bs = starter_created_to_bytes p @ rest" ..
qed (auto simp: starter_created_from_bytes_def starter_created_to_bytes_def panic_simps
    byte_simps)

interpretation starter_burned_codec: payload_codec
  starter_burned_to_bytes starter_burned_from_bytes "\<lambda>_. True" "{33}"
proof
  fix bs p assume "starter_burned_from_bytes bs = Ok p"
  then show "\<exists>rest. bs = starter_burned_to_bytes p @ rest"
    by (auto simp: starter_burned_from_bytes_def starter_burned_to_bytes_def
        dest!: read_fixed_32_0D index_byte_OkD split: if_splits)
qed (auto simp: starter_burned_from_bytes_def starter_burned_to_bytes_def panic_simps
    byte_simps)

section \<open>Relationships\<close>

record relationship_established_payload =
  est_peer_pubkey :: pub_key
  est_own_starter_id :: starter_id
  est_peer_starter_id :: starter_id
  est_kind :: starter_kind
  est_invitation_id :: b32
  est_sender_pubkey :: pub_key
  est_sender_starter_type :: starter_kind
  est_sender_starter_id :: starter_id
  est_peer_root_pubkey :: "pub_key option"
  est_sender_root_pubkey :: "pub_key option"

definition relationship_established_to_bytes :: "relationship_established_payload \<Rightarrow> u8 list" where
  "relationship_established_to_bytes p =
    bytes (pub_key_as_bytes (est_peer_pubkey p))
    @ bytes (starter_id_as_bytes (est_own_starter_id p))
    @ bytes (starter_id_as_bytes (est_peer_starter_id p))
    @ [starter_kind_to_byte (est_kind p)]
    @ bytes (est_invitation_id p)
    @ bytes (pub_key_as_bytes (est_sender_pubkey p))
    @ [starter_kind_to_byte (est_sender_starter_type p)]
    @ bytes (starter_id_as_bytes (est_sender_starter_id p))
    @ (case est_peer_root_pubkey p of
         Some peer_root \<Rightarrow>
           bytes (pub_key_as_bytes peer_root) @ opt_key_bytes (est_sender_root_pubkey p)
       | None \<Rightarrow> [])"

definition relationship_established_from_bytes ::
  "u8 list \<Rightarrow> (string, relationship_established_payload) result" where
  "relationship_established_from_bytes bs =
    (if length bs \<noteq> 194 \<and> length bs \<noteq> 226 \<and> length bs \<noteq> 258
     then Err ''invalid relationship_established payload length''
     else and_then (index_byte bs 96) (\<lambda>k.
          and_then (ok_or (starter_kind_from_u8 k) ''invalid starter kind'') (\<lambda>kind.
          and_then (index_byte bs 161) (\<lambda>sk.
          and_then (ok_or (starter_kind_from_u8 sk) ''invalid sender starter kind'') (\<lambda>sender_kind.
          and_then (read_fixed_32 bs 0) (\<lambda>peer.
          and_then (read_fixed_32 bs 32) (\<lambda>own_starter.
          and_then (read_fixed_32 bs 64) (\<lambda>peer_starter.
          and_then (read_fixed_32 bs 97) (\<lambda>invitation_id.
          and_then (read_fixed_32 bs 129) (\<lambda>sender.
          and_then (read_fixed_32 bs 162) (\<lambda>sender_starter.
          and_then (read_opt_key bs 226 194) (\<lambda>peer_root.
          and_then (read_opt_key bs 258 226) (\<lambda>sender_root.
          Ok \<lparr> est_peer_pubkey = PubKey peer,
               est_own_starter_id = StarterId own_starter,
               est_peer_starter_id = StarterId peer_starter,
               est_kind = kind,
               est_invitation_id = invitation_id,
               est_sender_pubkey = PubKey sender,
               est_sender_starter_type = sender_kind,
               est_sender_starter_id = StarterId sender_starter,
               est_peer_root_pubkey = peer_root,
               est_sender_root_pubkey = sender_root \<rparr>)))))))))))))"

record relationship_broken_payload =
  brk_peer_pubkey :: pub_key
  brk_own_starter_id :: starter_id
  brk_peer_root_pubkey :: "pub_key option"

definition relationship_broken_to_bytes :: "relationship_broken_payload \<Rightarrow> u8 list" where
  "relationship_broken_to_bytes p =
    bytes (pub_key_as_bytes (brk_peer_pubkey p))
    @ bytes (starter_id_as_bytes (brk_own_starter_id p))
    @ opt_key_bytes (brk_peer_root_pubkey p)"

definition relationship_broken_from_bytes ::
  "u8 list \<Rightarrow> (string, relationship_broken_payload) result" where
  "relationship_broken_from_bytes bs =
    (if length bs \<noteq> 64 \<and> length bs \<noteq> 96 then Err ''invalid relationship_broken payload length''
     else and_then (read_fixed_32 bs 0) (\<lambda>peer.
          and_then (read_fixed_32 bs 32) (\<lambda>own_starter.
          and_then (read_opt_key bs 96 64) (\<lambda>peer_root.
          Ok \<lparr> brk_peer_pubkey = PubKey peer,
               brk_own_starter_id = StarterId own_starter,
               brk_peer_root_pubkey = peer_root \<rparr>))))"

text \<open>A sender root is written only after a peer root, so a payload with a sender root and no
  peer root loses it.\<close>

definition established_canonical :: "relationship_established_payload \<Rightarrow> bool" where
  "established_canonical p \<longleftrightarrow>
    (est_peer_root_pubkey p = None \<longrightarrow> est_sender_root_pubkey p = None)"

definition established_fixed_bytes :: "relationship_established_payload \<Rightarrow> u8 list" where
  "established_fixed_bytes p =
    bytes (pub_key_as_bytes (est_peer_pubkey p))
    @ bytes (starter_id_as_bytes (est_own_starter_id p))
    @ bytes (starter_id_as_bytes (est_peer_starter_id p))
    @ [starter_kind_to_byte (est_kind p)]
    @ bytes (est_invitation_id p)
    @ bytes (pub_key_as_bytes (est_sender_pubkey p))
    @ [starter_kind_to_byte (est_sender_starter_type p)]
    @ bytes (starter_id_as_bytes (est_sender_starter_id p))"

lemma established_to_bytes_fixed:
  "relationship_established_to_bytes p = established_fixed_bytes p
    @ (case est_peer_root_pubkey p of
         Some peer_root \<Rightarrow>
           bytes (pub_key_as_bytes peer_root) @ opt_key_bytes (est_sender_root_pubkey p)
       | None \<Rightarrow> [])"
  by (simp add: relationship_established_to_bytes_def established_fixed_bytes_def)

lemma length_established_fixed_bytes [byte_simps]: "length (established_fixed_bytes p) = 194"
  by (simp add: established_fixed_bytes_def)

lemma established_opt_roots:
  assumes "established_canonical p"
  shows "read_opt_key (relationship_established_to_bytes p) 226 194 = Ok (est_peer_root_pubkey p)"
    and "read_opt_key (relationship_established_to_bytes p) 258 226 = Ok (est_sender_root_pubkey p)"
  using assms
  by (cases "est_peer_root_pubkey p"; cases "est_sender_root_pubkey p";
      simp add: established_to_bytes_fixed established_canonical_def read_opt_key_def
        read_fixed_32_def slice_array_def opt_key_bytes_def byte_simps)+

lemma established_to_bytes_from_bytes:
  assumes "established_canonical p"
  shows "relationship_established_from_bytes (relationship_established_to_bytes p) = Ok p"
proof -
  have len: "length (relationship_established_to_bytes p) \<in> {194, 226, 258}"
    by (simp add: established_to_bytes_fixed byte_simps split: option.splits)
  let ?b = "relationship_established_to_bytes p"
  have "index_byte ?b 96 = Ok (starter_kind_to_byte (est_kind p))"
    "index_byte ?b 161 = Ok (starter_kind_to_byte (est_sender_starter_type p))"
    "read_fixed_32 ?b 0 = Ok (pub_key_as_bytes (est_peer_pubkey p))"
    "read_fixed_32 ?b 32 = Ok (starter_id_as_bytes (est_own_starter_id p))"
    "read_fixed_32 ?b 64 = Ok (starter_id_as_bytes (est_peer_starter_id p))"
    "read_fixed_32 ?b 97 = Ok (est_invitation_id p)"
    "read_fixed_32 ?b 129 = Ok (pub_key_as_bytes (est_sender_pubkey p))"
    "read_fixed_32 ?b 162 = Ok (starter_id_as_bytes (est_sender_starter_id p))"
    by (simp_all add: relationship_established_to_bytes_def byte_simps)
  with len show ?thesis
    by (auto simp: relationship_established_from_bytes_def established_opt_roots [OF assms])
qed

interpretation relationship_established_codec: payload_codec
  relationship_established_to_bytes relationship_established_from_bytes
  established_canonical "{194, 226, 258}"
proof
  fix p assume "established_canonical p"
  then show "relationship_established_from_bytes (relationship_established_to_bytes p) = Ok p"
    by (rule established_to_bytes_from_bytes)
next
  fix bs
  show "relationship_established_from_bytes bs \<noteq> Panic"
    by (auto simp: relationship_established_from_bytes_def panic_simps read_opt_key_eq_Panic)
next
  fix bs p assume ok: "relationship_established_from_bytes bs = Ok p"
  then show "established_canonical p"
    by (auto simp: relationship_established_from_bytes_def established_canonical_def
        read_opt_key_def split: if_splits)
next
  fix bs p assume ok: "relationship_established_from_bytes bs = Ok p"
  then obtain a b c d e f k sk where
    fixed: "read_fixed_32 bs 0 = Ok a" "read_fixed_32 bs 32 = Ok b" "read_fixed_32 bs 64 = Ok c"
      "index_byte bs 96 = Ok k" "read_fixed_32 bs 97 = Ok d" "read_fixed_32 bs 129 = Ok e"
      "index_byte bs 161 = Ok sk" "read_fixed_32 bs 162 = Ok f"
      "starter_kind_from_u8 k = Some (est_kind p)"
      "starter_kind_from_u8 sk = Some (est_sender_starter_type p)"
    and opt: "read_opt_key bs 226 194 = Ok (est_peer_root_pubkey p)"
      "read_opt_key bs 258 226 = Ok (est_sender_root_pubkey p)"
    and p: "est_peer_pubkey p = PubKey a" "est_own_starter_id p = StarterId b"
      "est_peer_starter_id p = StarterId c" "est_invitation_id p = d"
      "est_sender_pubkey p = PubKey e" "est_sender_starter_id p = StarterId f"
    by (auto simp: relationship_established_from_bytes_def split: if_splits)
  have front: "bs = established_fixed_bytes p @ drop 194 bs"
    using fixed(1) [THEN read_fixed_32_0D] fixed(2,3,5,6,8) [THEN read_fixed_32_OkD]
      fixed(4,7) [THEN index_byte_OkD] fixed(9,10) [THEN starter_kind_to_byte_from]
    by (simp add: p established_fixed_bytes_def)
  obtain roots rest where "drop 194 bs = roots @ rest"
    and "relationship_established_to_bytes p = established_fixed_bytes p @ roots"
  proof (cases "est_peer_root_pubkey p")
    case None
    with that [of "[]"] show ?thesis by (simp add: established_to_bytes_fixed)
  next
    case (Some g)
    with opt(1) have "drop 194 bs = bytes (pub_key_as_bytes g) @ drop 226 bs"
      by (auto simp: read_opt_key_def dest: read_fixed_32_OkD split: if_splits)
    moreover obtain rest where "drop 226 bs = opt_key_bytes (est_sender_root_pubkey p) @ rest"
      using read_opt_key_OkD [OF opt(2)] by blast
    ultimately show ?thesis
      using that [of "bytes (pub_key_as_bytes g) @ opt_key_bytes (est_sender_root_pubkey p)" rest]
      by (simp add: established_to_bytes_fixed Some)
  qed
  with front have "bs = relationship_established_to_bytes p @ rest"
    by simp
  then show "\<exists>rest. bs = relationship_established_to_bytes p @ rest" ..
qed (auto simp: relationship_established_from_bytes_def)

interpretation relationship_broken_codec: payload_codec
  relationship_broken_to_bytes relationship_broken_from_bytes "\<lambda>_. True" "{64, 96}"
proof
  fix p
  have "read_opt_key (relationship_broken_to_bytes p) 96 64 = Ok (brk_peer_root_pubkey p)"
    by (cases "brk_peer_root_pubkey p")
      (simp_all add: relationship_broken_to_bytes_def read_opt_key_def opt_key_bytes_def byte_simps)
  then show "relationship_broken_from_bytes (relationship_broken_to_bytes p) = Ok p"
    by (simp add: relationship_broken_from_bytes_def relationship_broken_to_bytes_def byte_simps
        split: option.splits)
next
  fix bs
  show "relationship_broken_from_bytes bs \<noteq> Panic"
    by (auto simp: relationship_broken_from_bytes_def panic_simps read_opt_key_eq_Panic)
next
  fix bs p assume "relationship_broken_from_bytes bs = Ok p"
  then obtain a b k where p: "p = \<lparr> brk_peer_pubkey = PubKey a, brk_own_starter_id = StarterId b,
      brk_peer_root_pubkey = k \<rparr>"
    and r: "read_fixed_32 bs 0 = Ok a" "read_fixed_32 bs 32 = Ok b" "read_opt_key bs 96 64 = Ok k"
    by (auto simp: relationship_broken_from_bytes_def split: if_splits)
  obtain rest where "drop 64 bs = opt_key_bytes k @ rest"
    using read_opt_key_OkD [OF r(3)] by auto
  then have "bs = relationship_broken_to_bytes p @ rest"
    using read_fixed_32_0D [OF r(1)] read_fixed_32_OkD [OF r(2)]
    by (simp add: p relationship_broken_to_bytes_def)
  then show "\<exists>rest. bs = relationship_broken_to_bytes p @ rest" ..
qed (auto simp: relationship_broken_from_bytes_def)

lemmas payload_roundtrip [simp] =
  capsule_created_codec.roundtrip [simplified]
  invitation_sent_codec.roundtrip [simplified]
  invitation_accepted_codec.roundtrip [simplified]
  invitation_rejected_codec.roundtrip [simplified]
  invitation_expired_codec.roundtrip [simplified]
  starter_created_codec.roundtrip [simplified]
  starter_burned_codec.roundtrip [simplified]
  relationship_established_codec.roundtrip
  relationship_broken_codec.roundtrip [simplified]

lemmas payload_not_Panic [simp] =
  capsule_created_codec.not_Panic invitation_sent_codec.not_Panic
  invitation_accepted_codec.not_Panic invitation_rejected_codec.not_Panic
  invitation_expired_codec.not_Panic starter_created_codec.not_Panic
  starter_burned_codec.not_Panic relationship_established_codec.not_Panic
  relationship_broken_codec.not_Panic

section \<open>Properties\<close>

lemma established_roundtrip_iff:
  "relationship_established_from_bytes (relationship_established_to_bytes p) = Ok p
    \<longleftrightarrow> established_canonical p"
  using relationship_established_codec.from_bytes_canonical by auto

text \<open>C31: Every payload schema reads back exactly what it wrote. For
  \<open>RelationshipEstablished\<close> this holds for exactly the payloads that do not carry a sender
  root without a peer root, because the encoder drops the sender root of those.\<close>

theorem payloads_read_back:
  "capsule_created_from_bytes (capsule_created_to_bytes cc) = Ok cc
   \<and> invitation_sent_from_bytes (invitation_sent_to_bytes sent) = Ok sent
   \<and> invitation_accepted_from_bytes (invitation_accepted_to_bytes acc) = Ok acc
   \<and> invitation_rejected_from_bytes (invitation_rejected_to_bytes rej) = Ok rej
   \<and> invitation_expired_from_bytes (invitation_expired_to_bytes ex) = Ok ex
   \<and> starter_created_from_bytes (starter_created_to_bytes cr) = Ok cr
   \<and> starter_burned_from_bytes (starter_burned_to_bytes bu) = Ok bu
   \<and> (relationship_established_from_bytes (relationship_established_to_bytes est) = Ok est
       \<longleftrightarrow> established_canonical est)
   \<and> relationship_broken_from_bytes (relationship_broken_to_bytes brk) = Ok brk"
  by (simp add: established_roundtrip_iff)

text \<open>C32: Decoding untrusted bytes never indexes out of range: for every byte string and every
  schema, \<open>from_bytes\<close> returns a payload or an error, it does not panic.\<close>

theorem payload_decoding_never_panics:
  "capsule_created_from_bytes bs \<noteq> Panic \<and> invitation_sent_from_bytes bs \<noteq> Panic
   \<and> invitation_accepted_from_bytes bs \<noteq> Panic \<and> invitation_rejected_from_bytes bs \<noteq> Panic
   \<and> invitation_expired_from_bytes bs \<noteq> Panic \<and> starter_created_from_bytes bs \<noteq> Panic
   \<and> starter_burned_from_bytes bs \<noteq> Panic \<and> relationship_established_from_bytes bs \<noteq> Panic
   \<and> relationship_broken_from_bytes bs \<noteq> Panic"
  by simp

end
