(* ===== verification/Slot.thy ===== *)
theory Slot
  imports Ledger Payloads
begin

text \<open>
  \<open>core/hivra-core/src/slot.rs\<close>: the projection of a ledger onto five starter slots. The loop
  of \<open>from_ledger\<close> is a fold over the events, then the locks of pending outgoing invitations
  are applied. \<open>continue\<close> is "the state unchanged".

  The lemmas show the type invariant (five slots, no starter twice), that the slot array
  implements a set of live starters bounded by five (functional refinement), and which slots
  are locked.
\<close>

section \<open>Slots\<close>

datatype slot_state = Empty | Occupied starter_id | Locked starter_id

record slot_layout =
  sl_slots :: "slot_state list"

record slot_entry =
  se_index :: slot_index
  se_state :: slot_state
  se_starter_kind :: "starter_kind option"

fun slot_starter :: "slot_state \<Rightarrow> starter_id option" where
  "slot_starter Empty = None"
| "slot_starter (Occupied i) = Some i"
| "slot_starter (Locked i) = Some i"

definition is_empty_slot :: "slot_state \<Rightarrow> bool" where
  "is_empty_slot st = (case st of Empty \<Rightarrow> True | _ \<Rightarrow> False)"

definition layout_empty :: slot_layout where
  "layout_empty = \<lparr> sl_slots = [Empty, Empty, Empty, Empty, Empty] \<rparr>"

definition slot_states :: "slot_layout \<Rightarrow> slot_state list" where
  "slot_states layout = sl_slots layout"

definition state_at :: "slot_layout \<Rightarrow> slot_index \<Rightarrow> slot_state" where
  "state_at layout index = sl_slots layout ! unat (slot_index_as_u8 index)"

definition starter_id_at :: "slot_layout \<Rightarrow> slot_index \<Rightarrow> starter_id option" where
  "starter_id_at layout index =
    (case state_at layout index of Empty \<Rightarrow> None | Occupied i \<Rightarrow> Some i | Locked i \<Rightarrow> Some i)"

definition starter_ids :: "slot_layout \<Rightarrow> starter_id option list" where
  "starter_ids layout =
    map (\<lambda>st. case st of Empty \<Rightarrow> None | Occupied i \<Rightarrow> Some i | Locked i \<Rightarrow> Some i)
      (sl_slots layout)"

text \<open>\<open>slots.iter().position(..)\<close> then \<open>slots[idx] = ..\<close>: the first matching slot is replaced.\<close>

definition occupy_first_free :: "slot_layout \<Rightarrow> starter_id \<Rightarrow> slot_layout" where
  "occupy_first_free layout starter_id =
    (case position is_empty_slot (sl_slots layout) of
       Some idx \<Rightarrow> layout\<lparr> sl_slots := (sl_slots layout)[idx := Occupied starter_id] \<rparr>
     | None \<Rightarrow> layout)"

definition free_starter :: "slot_layout \<Rightarrow> starter_id \<Rightarrow> slot_layout" where
  "free_starter layout starter_id =
    (case position (\<lambda>st. slot_starter st = Some starter_id) (sl_slots layout) of
       Some idx \<Rightarrow> layout\<lparr> sl_slots := (sl_slots layout)[idx := Empty] \<rparr>
     | None \<Rightarrow> layout)"

definition lock_starter :: "slot_layout \<Rightarrow> starter_id \<Rightarrow> slot_layout" where
  "lock_starter layout starter_id =
    (case position (\<lambda>st. st = Occupied starter_id) (sl_slots layout) of
       Some idx \<Rightarrow> layout\<lparr> sl_slots := (sl_slots layout)[idx := Locked starter_id] \<rparr>
     | None \<Rightarrow> layout)"

definition contains_starter :: "slot_layout \<Rightarrow> starter_id \<Rightarrow> bool" where
  "contains_starter layout starter_id \<longleftrightarrow>
    list_ex (\<lambda>st. slot_starter st = Some starter_id) (sl_slots layout)"

definition find_first_empty :: "slot_layout \<Rightarrow> slot_index option" where
  "find_first_empty layout =
    Option.bind (position is_empty_slot (sl_slots layout)) (\<lambda>idx. slot_index_new (of_nat idx))"

definition find_by_starter :: "slot_layout \<Rightarrow> starter_id \<Rightarrow> slot_index option" where
  "find_by_starter layout starter_id =
    Option.bind (position (\<lambda>st. slot_starter st = Some starter_id) (sl_slots layout))
      (\<lambda>idx. slot_index_new (of_nat idx))"

section \<open>Facts read from the ledger\<close>

text \<open>\<open>let Ok(payload) = P::from_bytes(event.payload()) else { continue }\<close>: the payload, if it
  decodes. The readers never panic, so nothing is lost by \<open>ok\<close>.\<close>

definition starter_kind_for_id :: "ledger \<Rightarrow> starter_id \<Rightarrow> starter_kind option" where
  "starter_kind_for_id l starter_id =
    find_map (\<lambda>e.
      if ev_signer e \<noteq> l_owner l then None
      else if ev_kind e \<noteq> StarterCreated then None
      else case ok (starter_created_from_bytes (ev_payload e)) of
             None \<Rightarrow> None
           | Some p \<Rightarrow> if cr_starter_id p = starter_id then Some (cr_kind p) else None)
      (rev (l_events l))"

text \<open>The offer of a revoke: an \<open>InvitationReceived\<close> by the same signer whose payload starts
  with the invitation id (\<open>payload().get(..32)\<close>).\<close>

definition sender_signed_offer :: "b32 \<Rightarrow> pub_key \<Rightarrow> event \<Rightarrow> bool" where
  "sender_signed_offer invitation_id signer offer \<longleftrightarrow>
    (if ev_kind offer \<noteq> InvitationReceived \<or> ev_signer offer \<noteq> signer then False
     else 32 \<le> length (ev_payload offer) \<and> take 32 (ev_payload offer) = bytes invitation_id)"

definition expired_step :: "event list \<Rightarrow> b32 list \<Rightarrow> event \<Rightarrow> b32 list" where
  "expired_step events acc e =
    (if ev_kind e \<noteq> InvitationExpired then acc
     else case ok (invitation_expired_from_bytes (ev_payload e)) of
            None \<Rightarrow> acc
          | Some p \<Rightarrow>
              if list_ex (sender_signed_offer (exp_invitation_id p) (ev_signer e)) events
                 \<and> exp_invitation_id p \<notin> set acc
              then acc @ [exp_invitation_id p] else acc)"

definition revoked_step :: "b32 list \<Rightarrow> starter_id list \<Rightarrow> event \<Rightarrow> starter_id list" where
  "revoked_step expired acc e =
    (if ev_kind e \<noteq> InvitationAccepted then acc
     else case ok (invitation_accepted_from_bytes (ev_payload e)) of
            None \<Rightarrow> acc
          | Some p \<Rightarrow>
              if acc_invitation_id p \<in> set expired \<and> acc_created_starter_id p \<notin> set acc
              then acc @ [acc_created_starter_id p] else acc)"

definition revoked_created_starter_ids :: "ledger \<Rightarrow> starter_id list" where
  "revoked_created_starter_ids l =
    (let expired = foldl (expired_step (l_events l)) [] (l_events l)
     in foldl (revoked_step expired) [] (l_events l))"

definition clear_pending :: "(b32 \<times> starter_id) list \<Rightarrow> b32 \<Rightarrow> (b32 \<times> starter_id) list" where
  "clear_pending pending invitation_id = filter (\<lambda>(i, _). i \<noteq> invitation_id) pending"

definition pending_step ::
  "pub_key \<Rightarrow> (b32 \<times> starter_id) list \<Rightarrow> event \<Rightarrow> (b32 \<times> starter_id) list" where
  "pending_step owner pending e =
    (case ev_kind e of
       InvitationSent \<Rightarrow>
         if ev_signer e \<noteq> owner then pending
         else (case ok (invitation_sent_from_bytes (ev_payload e)) of
                 None \<Rightarrow> pending
               | Some p \<Rightarrow> pending @ [(sent_invitation_id p, sent_starter_id p)])
     | InvitationAccepted \<Rightarrow>
         (case ok (invitation_accepted_from_bytes (ev_payload e)) of
            None \<Rightarrow> pending | Some p \<Rightarrow> clear_pending pending (acc_invitation_id p))
     | InvitationRejected \<Rightarrow>
         (case ok (invitation_rejected_from_bytes (ev_payload e)) of
            None \<Rightarrow> pending | Some p \<Rightarrow> clear_pending pending (rej_invitation_id p))
     | InvitationExpired \<Rightarrow>
         (case ok (invitation_expired_from_bytes (ev_payload e)) of
            None \<Rightarrow> pending | Some p \<Rightarrow> clear_pending pending (exp_invitation_id p))
     | _ \<Rightarrow> pending)"

text \<open>The array \<open>unique_starters\<close> with its cursor is the list of its filled cells.\<close>

fun unique_starters :: "starter_id list \<Rightarrow> (b32 \<times> starter_id) list \<Rightarrow> starter_id list" where
  "unique_starters filled [] = filled"
| "unique_starters filled ((_, starter_id) # rest) =
    (if starter_id \<in> set filled then unique_starters filled rest
     else if length filled \<ge> 5 then filled
     else unique_starters (filled @ [starter_id]) rest)"

definition locked_starter_ids :: "ledger \<Rightarrow> starter_id option list" where
  "locked_starter_ids l =
    (let filled = unique_starters [] (foldl (pending_step (l_owner l)) [] (l_events l))
     in map Some filled @ replicate (5 - length filled) None)"

section \<open>The projection\<close>

text \<open>One event of the loop of \<open>from_ledger\<close>; the state is \<open>(layout, burned_starters)\<close>.\<close>

definition slot_step ::
  "pub_key \<Rightarrow> starter_id list \<Rightarrow> slot_layout \<times> starter_id list \<Rightarrow> event
    \<Rightarrow> slot_layout \<times> starter_id list" where
  "slot_step owner revoked = (\<lambda>(layout, burned) e.
    if ev_signer e \<noteq> owner then (layout, burned)
    else case ev_kind e of
      StarterCreated \<Rightarrow>
        (case ok (starter_created_from_bytes (ev_payload e)) of
           None \<Rightarrow> (layout, burned)
         | Some p \<Rightarrow>
             if cr_starter_id p \<in> set burned then (layout, burned)
             else if cr_starter_id p \<in> set revoked then (layout, burned)
             else if contains_starter layout (cr_starter_id p) then (layout, burned)
             else (occupy_first_free layout (cr_starter_id p), burned))
    | StarterBurned \<Rightarrow>
        (case ok (starter_burned_from_bytes (ev_payload e)) of
           None \<Rightarrow> (layout, burned)
         | Some p \<Rightarrow>
             (free_starter layout (bu_starter_id p), push_unique burned (bu_starter_id p)))
    | _ \<Rightarrow> (layout, burned))"

definition occupied_from_ledger :: "ledger \<Rightarrow> slot_layout" where
  "occupied_from_ledger l =
    fst (foldl (slot_step (l_owner l) (revoked_created_starter_ids l)) (layout_empty, [])
      (l_events l))"

definition layout_from_ledger :: "ledger \<Rightarrow> slot_layout" where
  "layout_from_ledger l =
    foldl lock_starter (occupied_from_ledger l) (List.map_filter id (locked_starter_ids l))"

definition entries_with_kinds :: "slot_layout \<Rightarrow> ledger \<Rightarrow> slot_entry list" where
  "entries_with_kinds layout l =
    map (\<lambda>(idx, st).
      \<lparr> se_index = SlotIndex (of_nat idx), se_state = st,
        se_starter_kind = (case st of Empty \<Rightarrow> None
                           | Occupied i \<Rightarrow> starter_kind_for_id l i
                           | Locked i \<Rightarrow> starter_kind_for_id l i) \<rparr>)
      (zip [0..<5] (sl_slots layout))"

definition has_matching_starter :: "slot_layout \<Rightarrow> ledger \<Rightarrow> starter_kind \<Rightarrow> bool" where
  "has_matching_starter layout l kind \<longleftrightarrow>
    list_ex (\<lambda>entry. se_starter_kind entry = Some kind) (entries_with_kinds layout l)"

section \<open>The slot array implements a bounded set\<close>

definition layout_ids :: "slot_layout \<Rightarrow> starter_id list" where
  "layout_ids layout = List.map_filter slot_starter (sl_slots layout)"

text \<open>The type invariant: five cells, no starter in two of them.\<close>

definition slot_inv :: "slot_layout \<Rightarrow> bool" where
  "slot_inv layout \<longleftrightarrow> length (sl_slots layout) = 5 \<and> distinct (layout_ids layout)"

lemma map_filter_split_at:
  "i < length xs \<Longrightarrow>
    List.map_filter f xs = List.map_filter f (take i xs)
      @ (case f (xs ! i) of None \<Rightarrow> [] | Some y \<Rightarrow> [y]) @ List.map_filter f (drop (Suc i) xs)"
proof -
  assume i: "i < length xs"
  have "List.map_filter f xs = List.map_filter f (take i xs @ xs ! i # drop (Suc i) xs)"
    using i by (simp add: id_take_nth_drop [symmetric])
  then show ?thesis
    by (simp add: List.map_filter_def split: option.splits)
qed

lemma map_filter_update_at:
  "i < length xs \<Longrightarrow>
    List.map_filter f (xs[i := y]) = List.map_filter f (take i xs)
      @ (case f y of None \<Rightarrow> [] | Some z \<Rightarrow> [z]) @ List.map_filter f (drop (Suc i) xs)"
  by (simp add: map_filter_split_at [of i "xs[i := y]"])

lemma slot_starter_eq_None: "slot_starter st = None \<longleftrightarrow> is_empty_slot st"
  by (cases st) (auto simp: is_empty_slot_def)

lemma mem_layout_ids:
  "i \<in> set (layout_ids layout) \<longleftrightarrow> (\<exists>st\<in>set (sl_slots layout). slot_starter st = Some i)"
  by (force simp: layout_ids_def List.map_filter_def)

lemma contains_starter_iff [simp]: "contains_starter layout i \<longleftrightarrow> i \<in> set (layout_ids layout)"
  by (simp add: contains_starter_def list_ex_iff mem_layout_ids)

lemma length_map_filter: "length (List.map_filter f xs) = length (filter (\<lambda>x. f x \<noteq> None) xs)"
  by (simp add: List.map_filter_def)

lemma no_free_slot:
  "position is_empty_slot (sl_slots layout) = None \<longleftrightarrow>
    length (layout_ids layout) = length (sl_slots layout)"
  unfolding layout_ids_def length_map_filter position_None
  by (metis (mono_tags, lifting) filter_id_conv length_filter_less nat_neq_iff slot_starter_eq_None)

lemma occupy_first_free_full:
  "length (layout_ids layout) = length (sl_slots layout) \<Longrightarrow> occupy_first_free layout i = layout"
  using no_free_slot [of layout] by (simp add: occupy_first_free_def)

lemma length_layout_ids_le: "length (layout_ids layout) \<le> length (sl_slots layout)"
  by (simp add: layout_ids_def length_map_filter)

lemma occupy_first_free_ids:
  assumes "length (layout_ids layout) < length (sl_slots layout)"
  shows "set (layout_ids (occupy_first_free layout i)) = insert i (set (layout_ids layout))"
    and "i \<notin> set (layout_ids layout) \<Longrightarrow> distinct (layout_ids layout) \<Longrightarrow>
      distinct (layout_ids (occupy_first_free layout i))"
proof -
  obtain k where k: "position is_empty_slot (sl_slots layout) = Some k"
    using assms no_free_slot [of layout] by (cases "position is_empty_slot (sl_slots layout)") auto
  then have len: "k < length (sl_slots layout)" and "is_empty_slot (sl_slots layout ! k)"
    by (simp_all add: position_Some)
  then have "slot_starter (sl_slots layout ! k) = None"
    by (simp add: slot_starter_eq_None)
  then have old: "layout_ids layout = List.map_filter slot_starter (take k (sl_slots layout))
      @ List.map_filter slot_starter (drop (Suc k) (sl_slots layout))"
    unfolding layout_ids_def by (subst map_filter_split_at [OF len]) simp
  have new: "layout_ids (occupy_first_free layout i)
      = List.map_filter slot_starter (take k (sl_slots layout))
        @ [i] @ List.map_filter slot_starter (drop (Suc k) (sl_slots layout))"
    using k len by (simp add: occupy_first_free_def layout_ids_def map_filter_update_at)
  show "set (layout_ids (occupy_first_free layout i)) = insert i (set (layout_ids layout))"
    by (auto simp: old new)
  show "i \<notin> set (layout_ids layout) \<Longrightarrow> distinct (layout_ids layout) \<Longrightarrow>
      distinct (layout_ids (occupy_first_free layout i))"
    by (auto simp: old new)
qed

lemma free_starter_ids:
  assumes "distinct (layout_ids layout)"
  shows "set (layout_ids (free_starter layout i)) = set (layout_ids layout) - {i}"
    and "distinct (layout_ids (free_starter layout i))"
proof -
  have "set (layout_ids (free_starter layout i)) = set (layout_ids layout) - {i}
      \<and> distinct (layout_ids (free_starter layout i))"
  proof (cases "position (\<lambda>st. slot_starter st = Some i) (sl_slots layout)")
    case None
    then have "i \<notin> set (layout_ids layout)"
      by (auto simp: position_None mem_layout_ids)
    with None assms show ?thesis by (simp add: free_starter_def)
  next
    case (Some k)
    then have len: "k < length (sl_slots layout)"
      and at: "slot_starter (sl_slots layout ! k) = Some i"
      by (simp_all add: position_Some)
    have old: "layout_ids layout = List.map_filter slot_starter (take k (sl_slots layout))
        @ [i] @ List.map_filter slot_starter (drop (Suc k) (sl_slots layout))"
      unfolding layout_ids_def by (subst map_filter_split_at [OF len]) (simp add: at)
    have new: "layout_ids (free_starter layout i)
        = List.map_filter slot_starter (take k (sl_slots layout))
          @ List.map_filter slot_starter (drop (Suc k) (sl_slots layout))"
      using Some len by (simp add: free_starter_def layout_ids_def map_filter_update_at)
    show ?thesis using assms by (auto simp: old new)
  qed
  then show "set (layout_ids (free_starter layout i)) = set (layout_ids layout) - {i}"
    "distinct (layout_ids (free_starter layout i))" by simp_all
qed

text \<open>Locking changes no starter.\<close>

lemma lock_starter_ids [simp]: "layout_ids (lock_starter layout i) = layout_ids layout"
proof (cases "position (\<lambda>st. st = Occupied i) (sl_slots layout)")
  case (Some k)
  then have len: "k < length (sl_slots layout)" and at: "sl_slots layout ! k = Occupied i"
    by (simp_all add: position_Some)
  show ?thesis
    unfolding layout_ids_def map_filter_split_at [OF len, of slot_starter]
    using Some len by (simp add: at lock_starter_def map_filter_update_at)
qed (simp add: lock_starter_def)

lemma length_slots [simp]:
  "length (sl_slots (occupy_first_free layout i)) = length (sl_slots layout)"
  "length (sl_slots (free_starter layout i)) = length (sl_slots layout)"
  "length (sl_slots (lock_starter layout i)) = length (sl_slots layout)"
  by (simp_all add: occupy_first_free_def free_starter_def lock_starter_def split: option.splits)

lemma lock_all_ids [simp]:
  "layout_ids (foldl lock_starter layout is) = layout_ids layout"
  "length (sl_slots (foldl lock_starter layout is)) = length (sl_slots layout)"
  by (induction "is" arbitrary: layout) simp_all

section \<open>The abstract slot machine\<close>

text \<open>A set of live starters bounded by five, and the set of burned ones: what the projection
  promises of each event, without positions.\<close>

definition slot_spec_step ::
  "pub_key \<Rightarrow> starter_id set \<Rightarrow> starter_id set \<times> starter_id set \<Rightarrow> event
    \<Rightarrow> starter_id set \<times> starter_id set" where
  "slot_spec_step owner revoked = (\<lambda>(live, burned) e.
    if ev_signer e = owner \<and> ev_kind e = StarterCreated then
      (case starter_created_from_bytes (ev_payload e) of
         Ok p \<Rightarrow> (if cr_starter_id p \<in> burned \<union> revoked \<or> 5 \<le> card live then live
                  else insert (cr_starter_id p) live, burned)
       | _ \<Rightarrow> (live, burned))
    else if ev_signer e = owner \<and> ev_kind e = StarterBurned then
      (case starter_burned_from_bytes (ev_payload e) of
         Ok p \<Rightarrow> (live - {bu_starter_id p}, insert (bu_starter_id p) burned)
       | _ \<Rightarrow> (live, burned))
    else (live, burned))"

definition slot_spec :: "ledger \<Rightarrow> starter_id set" where
  "slot_spec l = fst (foldl (slot_spec_step (l_owner l) (set (revoked_created_starter_ids l)))
    ({}, {}) (l_events l))"

definition slot_abs :: "slot_layout \<times> starter_id list \<Rightarrow> starter_id set \<times> starter_id set" where
  "slot_abs s = (set (layout_ids (fst s)), set (snd s))"

lemma slot_step_refines:
  assumes "slot_inv (fst s)"
  shows "slot_inv (fst (slot_step owner revoked s e))
    \<and> slot_abs (slot_step owner revoked s e) = slot_spec_step owner (set revoked) (slot_abs s) e"
proof -
  obtain layout burned where s: "s = (layout, burned)" by (cases s)
  have inv: "length (sl_slots layout) = 5" "distinct (layout_ids layout)"
    using assms by (simp_all add: s slot_inv_def)
  have card: "card (set (layout_ids layout)) = length (layout_ids layout)"
    using inv(2) by (rule distinct_card)
  have occ: "slot_inv (occupy_first_free layout i)
      \<and> set (layout_ids (occupy_first_free layout i)) =
        (if 5 \<le> length (layout_ids layout) then set (layout_ids layout)
         else insert i (set (layout_ids layout)))" if "i \<notin> set (layout_ids layout)" for i
    using that inv occupy_first_free_ids [of layout i] occupy_first_free_full [of layout i]
      length_layout_ids_le [of layout]
    by (auto simp: slot_inv_def)
  show ?thesis
    using inv occ free_starter_ids [OF inv(2)]
    by (auto simp: s slot_step_def slot_spec_step_def slot_abs_def slot_inv_def card insert_absorb
        split: event_kind.splits option.splits result.splits)
qed

lemma layout_empty_inv [simp]: "slot_inv layout_empty" "layout_ids layout_empty = []"
  by (simp_all add: slot_inv_def layout_ids_def layout_empty_def List.map_filter_simps)

lemma occupied_from_ledger_refines:
  "slot_inv (occupied_from_ledger l) \<and> set (layout_ids (occupied_from_ledger l)) = slot_spec l"
proof -
  let ?step = "slot_step (l_owner l) (revoked_created_starter_ids l)"
  have "slot_inv (fst (foldl ?step (layout_empty, []) (l_events l)))
      \<and> slot_abs (foldl ?step (layout_empty, []) (l_events l))
        = foldl (slot_spec_step (l_owner l) (set (revoked_created_starter_ids l)))
            (slot_abs (layout_empty, [])) (l_events l)"
    by (rule foldl_refines [where I = "\<lambda>s. slot_inv (fst s)"]) (auto intro!: slot_step_refines)
  then show ?thesis
    by (auto simp: occupied_from_ledger_def slot_spec_def slot_abs_def dest: arg_cong [where f = fst])
qed

section \<open>Locks\<close>

lemma map_update_unique:
  assumes "i < length xs" and "\<And>j. j < length xs \<Longrightarrow> P (xs ! j) \<longleftrightarrow> j = i"
  shows "xs[i := y] = map (\<lambda>x. if P x then y else x) xs"
  by (rule nth_equalityI) (use assms in \<open>auto simp: nth_list_update\<close>)

lemma distinct_layout_ids_unique:
  assumes "distinct (layout_ids layout)" "j < length (sl_slots layout)" "k < length (sl_slots layout)"
    and "slot_starter (sl_slots layout ! j) = Some i" "slot_starter (sl_slots layout ! k) = Some i"
  shows "j = k"
proof (rule ccontr)
  assume "j \<noteq> k"
  have *: False if lt: "a < b" and len: "b < length (sl_slots layout)"
    and at: "slot_starter (sl_slots layout ! a) = Some i" "slot_starter (sl_slots layout ! b) = Some i"
    for a b
  proof -
    have "sl_slots layout ! a \<in> set (take b (sl_slots layout))"
      using lt len by (auto simp: in_set_conv_nth intro: exI [of _ a])
    then have "i \<in> set (List.map_filter slot_starter (take b (sl_slots layout)))"
      using at(1) by (force simp: List.map_filter_def)
    with assms(1) show False
      unfolding layout_ids_def map_filter_split_at [OF len, of slot_starter]
      by (auto simp: at(2))
  qed
  from \<open>j \<noteq> k\<close> show False
    using * [of j k] * [of k j] assms by (cases "j < k") auto
qed

definition lock_view :: "starter_id set \<Rightarrow> slot_state \<Rightarrow> slot_state" where
  "lock_view L st = (case st of Occupied i \<Rightarrow> if i \<in> L then Locked i else st | _ \<Rightarrow> st)"

lemma lock_starter_view:
  assumes "distinct (layout_ids layout)"
  shows "sl_slots (lock_starter layout i) = map (lock_view {i}) (sl_slots layout)"
proof (cases "position (\<lambda>st. st = Occupied i) (sl_slots layout)")
  case None
  then have "map (lock_view {i}) (sl_slots layout) = sl_slots layout"
    by (intro map_idI) (auto simp: position_None lock_view_def split: slot_state.splits)
  with None show ?thesis by (simp add: lock_starter_def)
next
  case (Some k)
  then have len: "k < length (sl_slots layout)" and at: "sl_slots layout ! k = Occupied i"
    by (simp_all add: position_Some)
  have "sl_slots layout ! j = Occupied i \<longleftrightarrow> j = k" if "j < length (sl_slots layout)" for j
    using distinct_layout_ids_unique [OF assms that len] at by auto
  from map_update_unique [OF len this, of "Locked i"]
  have "sl_slots (lock_starter layout i)
      = map (\<lambda>st. if st = Occupied i then Locked i else st) (sl_slots layout)"
    using Some by (simp add: lock_starter_def)
  then show ?thesis
    by (simp add: lock_view_def split: slot_state.splits)
qed

lemma lock_view_comp: "lock_view L (lock_view K st) = lock_view (K \<union> L) st"
  by (cases st) (simp_all add: lock_view_def)

lemma lock_all_view:
  "distinct (layout_ids layout) \<Longrightarrow>
    sl_slots (foldl lock_starter layout is) = map (lock_view (set is)) (sl_slots layout)"
proof (induction "is" arbitrary: layout)
  case Nil
  have "lock_view {} st = st" for st by (cases st) (simp_all add: lock_view_def)
  then show ?case by (simp add: map_idI)
next
  case (Cons i "is")
  then show ?case
    by (simp add: lock_starter_view lock_view_comp comp_def)
qed

text \<open>The starters of pending outgoing offers, each once, the first five.\<close>

definition pending_locks :: "ledger \<Rightarrow> starter_id list" where
  "pending_locks l = unique_starters [] (foldl (pending_step (l_owner l)) [] (l_events l))"

lemma map_filter_id_padded [simp]:
  "List.map_filter id (map Some xs @ replicate n None) = xs"
  by (induction xs) (simp_all add: List.map_filter_def)

lemma locked_starter_ids_flatten:
  "List.map_filter id (locked_starter_ids l) = pending_locks l"
  by (simp add: locked_starter_ids_def pending_locks_def Let_def)

lemma slot_step_no_locks:
  assumes "\<forall>st\<in>set (sl_slots (fst s)). \<forall>i. st \<noteq> Locked i"
  shows "\<forall>st\<in>set (sl_slots (fst (slot_step owner revoked s e))). \<forall>i. st \<noteq> Locked i"
  using assms
  by (cases s) (auto simp: slot_step_def occupy_first_free_def free_starter_def
      split: event_kind.splits option.splits dest!: set_update_subset_insert [THEN subsetD])

lemma occupied_from_ledger_no_locks: "Locked i \<notin> set (sl_slots (occupied_from_ledger l))"
proof -
  have "\<forall>st\<in>set (sl_slots (occupied_from_ledger l)). \<forall>i. st \<noteq> Locked i"
    unfolding occupied_from_ledger_def
    by (rule foldl_invariant [where I = "\<lambda>s. \<forall>st\<in>set (sl_slots (fst s)). \<forall>i. st \<noteq> Locked i"])
      (auto simp: layout_empty_def intro!: slot_step_no_locks)
  then show ?thesis by blast
qed

lemma layout_from_ledger_view:
  "sl_slots (layout_from_ledger l)
    = map (lock_view (set (pending_locks l))) (sl_slots (occupied_from_ledger l))"
  using occupied_from_ledger_refines [of l]
  by (simp add: layout_from_ledger_def locked_starter_ids_flatten lock_all_view slot_inv_def)

lemma layout_from_ledger_ids [simp]:
  "layout_ids (layout_from_ledger l) = layout_ids (occupied_from_ledger l)"
  by (simp add: layout_from_ledger_def)

lemma layout_from_ledger_length [simp]: "length (sl_slots (layout_from_ledger l)) = 5"
  using occupied_from_ledger_refines [of l] by (simp add: layout_from_ledger_def slot_inv_def)

lemma slots_refine_bounded_set_ids:
  "slot_spec l = set (layout_ids (layout_from_ledger l))"
  using occupied_from_ledger_refines [of l] by simp

text \<open>C27: The slot projection implements a set of live starters bounded by five: it has five
  cells, no starter occupies two of them, and the starters in them are those of the abstract
  machine that inserts on creation (unless burned before, revoked, or full) and removes on
  burning.\<close>

theorem slots_refine_bounded_set:
  "length (slot_states (layout_from_ledger l)) = 5
    \<and> distinct (layout_ids (layout_from_ledger l))
    \<and> set (layout_ids (layout_from_ledger l)) = slot_spec l"
  using occupied_from_ledger_refines [of l] by (simp add: slot_states_def slot_inv_def)

lemma unique_starters_eq:
  "distinct filled \<Longrightarrow> length filled \<le> 5 \<Longrightarrow>
    unique_starters filled ps
      = take 5 (foldl push_unique filled (map snd ps))"
proof (induction filled ps rule: unique_starters.induct)
  case (2 filled i s ps)
  have grow: "\<exists>zs. foldl push_unique xs ys = xs @ zs" for xs ys :: "starter_id list"
  proof (induction ys arbitrary: xs)
    case (Cons y ys)
    show ?case
      using Cons.IH [of "push_unique xs y"] by (auto simp: push_unique_def split: if_splits)
  qed simp
  show ?case
  proof (cases "s \<notin> set filled \<and> 5 \<le> length filled")
    case True
    then show ?thesis
      using "2.prems" grow [of "filled @ [s]" "map snd ps"]
      by (auto simp: push_unique_def [of filled s])
  next
    case False
    then show ?thesis using 2 by (auto simp: push_unique_def)
  qed
qed simp

text \<open>A starter is shown locked exactly when it is live and one of the first five
  distinct starters of the outgoing offers without an answer; every other live starter is shown
  occupied.\<close>

theorem slots_locked_iff_pending_offer:
  "(Locked i \<in> set (slot_states (layout_from_ledger l)) \<longleftrightarrow>
      i \<in> slot_spec l
      \<and> i \<in> set (take 5 (foldl push_unique []
          (map snd (foldl (pending_step (l_owner l)) [] (l_events l))))))
    \<and> (Occupied i \<in> set (slot_states (layout_from_ledger l)) \<longleftrightarrow>
      i \<in> slot_spec l
      \<and> i \<notin> set (take 5 (foldl push_unique []
          (map snd (foldl (pending_step (l_owner l)) [] (l_events l))))))"
proof -
  have locks: "pending_locks l = take 5 (foldl push_unique []
      (map snd (foldl (pending_step (l_owner l)) [] (l_events l))))"
    by (simp add: pending_locks_def unique_starters_eq)
  have live: "i \<in> slot_spec l \<longleftrightarrow> Occupied i \<in> set (sl_slots (occupied_from_ledger l))"
    using occupied_from_ledger_refines [of l] occupied_from_ledger_no_locks [of _ l]
      mem_layout_ids [of i "occupied_from_ledger l"]
    by (metis option.inject slot_starter.elims slot_starter.simps(2) option.distinct(1))
  have iff: "Locked i = lock_view L st \<longleftrightarrow> st = Locked i \<or> st = Occupied i \<and> i \<in> L"
    "Occupied i = lock_view L st \<longleftrightarrow> st = Occupied i \<and> i \<notin> L" for st L
    by (cases st; auto simp: lock_view_def)+
  show ?thesis
    using occupied_from_ledger_no_locks [of i l]
    by (auto simp: slot_states_def layout_from_ledger_view image_iff iff live simp flip: locks)
qed

section \<open>Lookups\<close>

lemma unat_of_nat_slot [simp]: "k < 5 \<Longrightarrow> unat (of_nat k :: u8) = k"
  by (simp add: unsigned_of_nat take_bit_nat_eq_self)

lemma is_empty_slot_iff: "is_empty_slot st \<longleftrightarrow> st = Empty"
  by (cases st) (simp_all add: is_empty_slot_def)

text \<open>Both lookups return the index of the first matching cell.\<close>

lemma first_index_bind:
  assumes "length xs = 5"
  shows "Option.bind (position P xs) (\<lambda>idx. slot_index_new (of_nat idx))
    = map_option (\<lambda>idx. SlotIndex (of_nat idx)) (position P xs)"
proof (cases "position P xs")
  case (Some k)
  then have "k < 5" using assms by (simp add: position_Some)
  with Some show ?thesis by (simp add: slot_index_new_nat)
qed simp

lemma find_first_empty_None:
  "length (sl_slots layout) = 5 \<Longrightarrow>
    find_first_empty layout = None \<longleftrightarrow> length (layout_ids layout) = 5"
  using no_free_slot [of layout] by (simp add: find_first_empty_def first_index_bind)

lemma find_first_empty_SomeD:
  assumes "length (sl_slots layout) = 5" and "find_first_empty layout = Some index"
  shows "state_at layout index = Empty" and "unat (slot_index_as_u8 index) < 5"
  using assms
  by (auto simp: find_first_empty_def first_index_bind position_Some state_at_def is_empty_slot_iff)

lemma find_by_starter_None:
  "length (sl_slots layout) = 5 \<Longrightarrow>
    find_by_starter layout i = None \<longleftrightarrow> i \<notin> set (layout_ids layout)"
  by (auto simp: find_by_starter_def first_index_bind position_None mem_layout_ids)

lemma starter_id_at_eq: "starter_id_at layout index = slot_starter (state_at layout index)"
  by (cases "state_at layout index") (simp_all add: starter_id_at_def)

lemma find_by_starter_SomeD:
  assumes "length (sl_slots layout) = 5" and "find_by_starter layout i = Some index"
  shows "starter_id_at layout index = Some i"
  using assms
  by (auto simp: find_by_starter_def first_index_bind position_Some starter_id_at_eq state_at_def)

text \<open>Capacity and lookup of the projected slots: a free slot is found exactly when fewer
  than five starters are live, a starter is found exactly when it is live, and \<open>starter_id_at\<close>
  reads it back at the index found.\<close>

theorem slot_lookup_correct:
  "(find_first_empty (layout_from_ledger l) = None \<longleftrightarrow> card (slot_spec l) = 5)
    \<and> (find_by_starter (layout_from_ledger l) i = None \<longleftrightarrow> i \<notin> slot_spec l)
    \<and> Option.bind (find_by_starter (layout_from_ledger l) i)
        (starter_id_at (layout_from_ledger l)) = (if i \<in> slot_spec l then Some i else None)"
proof -
  have ids: "distinct (layout_ids (layout_from_ledger l))"
    "slot_spec l = set (layout_ids (layout_from_ledger l))"
    using occupied_from_ledger_refines [of l] by (simp_all add: slot_inv_def)
  note none = find_by_starter_None [OF layout_from_ledger_length, of l i]
  show ?thesis
    using none find_by_starter_SomeD [OF layout_from_ledger_length, of l i]
    by (cases "find_by_starter (layout_from_ledger l) i")
      (simp_all add: find_first_empty_None ids distinct_card del: layout_from_ledger_ids)
qed

end
