(* ===== verification/Keyed_Projection.thy ===== *)
theory Keyed_Projection
  imports Prelude
begin

text \<open>
  The projections of the core fold the events over a vector of records: an event either offers a
  record (pushed when its key is new, otherwise merged into the record it finds) or updates the
  record with a given key. The locale \<open>keyed_projection\<close> is that discipline; its lemmas show that
  such a vector is a family of independent automata, one per key. It is interpreted for the
  invitation and the relationship projections.
\<close>

definition keyed_step ::
  "('r \<Rightarrow> 'k) \<Rightarrow> ('e \<Rightarrow> 'r option) \<Rightarrow> ('e \<Rightarrow> 'r \<Rightarrow> 'r) \<Rightarrow> ('e \<Rightarrow> ('k \<times> ('r \<Rightarrow> 'r)) option)
    \<Rightarrow> 'r list \<Rightarrow> 'e \<Rightarrow> 'r list" where
  "keyed_step key offer merge update rs e =
    (case offer e of
       Some r \<Rightarrow>
         if list_ex (\<lambda>x. key x = key r) rs then update_first (\<lambda>x. key x = key r) (merge e) rs
         else rs @ [r]
     | None \<Rightarrow>
         (case update e of
            Some (k, f) \<Rightarrow> update_first (\<lambda>x. key x = k) f rs
          | None \<Rightarrow> rs))"

definition keyed_automaton ::
  "('r \<Rightarrow> 'k) \<Rightarrow> ('e \<Rightarrow> 'r option) \<Rightarrow> ('e \<Rightarrow> 'r \<Rightarrow> 'r) \<Rightarrow> ('e \<Rightarrow> ('k \<times> ('r \<Rightarrow> 'r)) option)
    \<Rightarrow> 'k \<Rightarrow> 'r option \<Rightarrow> 'e \<Rightarrow> 'r option" where
  "keyed_automaton key offer merge update k r e =
    (case offer e of
       Some r' \<Rightarrow>
         if key r' = k then Some (case r of None \<Rightarrow> r' | Some x \<Rightarrow> merge e x) else r
     | None \<Rightarrow>
         (case update e of
            Some (k', f) \<Rightarrow> if k' = k then map_option f r else r
          | None \<Rightarrow> r))"

lemma list_ex_find: "list_ex P xs \<longleftrightarrow> find P xs \<noteq> None"
  by (induction xs) auto

lemma find_update_first_key:
  assumes "\<And>x. key x = j \<Longrightarrow> key (f x) = j"
  shows "find (\<lambda>x. key x = i) (update_first (\<lambda>x. key x = j) f xs)
    = (if j = i then map_option f (find (\<lambda>x. key x = i) xs) else find (\<lambda>x. key x = i) xs)"
  using assms by (induction xs) auto

lemma map_key_update_first:
  assumes "\<And>x. key x = j \<Longrightarrow> key (f x) = j"
  shows "map key (update_first (\<lambda>x. key x = j) f xs) = map key xs"
  using assms by (induction xs) auto

lemma map_of_find:
  "map_of (map (\<lambda>r. (key r, r)) rs) i = find (\<lambda>r. key r = i) rs"
  by (induction rs) auto

locale keyed_projection =
  fixes key :: "'r \<Rightarrow> 'k"
    and offer :: "'e \<Rightarrow> 'r option"
    and merge :: "'e \<Rightarrow> 'r \<Rightarrow> 'r"
    and update :: "'e \<Rightarrow> ('k \<times> ('r \<Rightarrow> 'r)) option"
    and step :: "'r list \<Rightarrow> 'e \<Rightarrow> 'r list"
  assumes step_keyed: "step rs e = keyed_step key offer merge update rs e"
    and merge_key: "offer e = Some r \<Longrightarrow> key x = key r \<Longrightarrow> key (merge e x) = key r"
    and update_key: "update e = Some (k, f) \<Longrightarrow> key x = k \<Longrightarrow> key (f x) = k"
begin

lemma step_find:
  "find (\<lambda>x. key x = k) (step rs e)
    = keyed_automaton key offer merge update k (find (\<lambda>x. key x = k) rs) e"
proof (cases "offer e")
  case None
  then show ?thesis
    using find_update_first_key [of key] update_key
    by (auto simp: step_keyed keyed_step_def keyed_automaton_def split: option.splits)
next
  case (Some r)
  note upd = find_update_first_key [of key "key r" "merge e", OF merge_key [OF Some]]
  show ?thesis
    using Some
    by (auto simp: step_keyed keyed_step_def keyed_automaton_def upd find_append list_ex_find
        split: option.splits)
qed

lemma fold_find:
  "find (\<lambda>x. key x = k) (foldl step rs es)
    = foldl (keyed_automaton key offer merge update k) (find (\<lambda>x. key x = k) rs) es"
  by (induction es arbitrary: rs) (simp_all add: step_find)

lemma fold_lookup:
  "map_of (map (\<lambda>x. (key x, x)) (foldl step [] es)) k
    = foldl (keyed_automaton key offer merge update k) None es"
  by (simp add: map_of_find fold_find)

lemma step_distinct: "distinct (map key rs) \<Longrightarrow> distinct (map key (step rs e))"
proof (cases "offer e")
  case None
  then show "distinct (map key rs) \<Longrightarrow> ?thesis"
    using map_key_update_first [of key] update_key
    by (auto simp: step_keyed keyed_step_def split: option.splits)
next
  case (Some r)
  note upd = map_key_update_first [of key "key r" "merge e", OF merge_key [OF Some]]
  show "distinct (map key rs) \<Longrightarrow> ?thesis"
    using Some by (auto simp: step_keyed keyed_step_def upd list_ex_iff)
qed

lemma fold_distinct: "distinct (map key (foldl step [] es))"
  by (rule foldl_invariant [where I = "\<lambda>rs. distinct (map key rs)"]) (auto intro: step_distinct)

text \<open>An invariant of single records.\<close>

lemma fold_all:
  assumes "\<And>e r. offer e = Some r \<Longrightarrow> P r"
    and "\<And>e r x. offer e = Some r \<Longrightarrow> P x \<Longrightarrow> P (merge e x)"
    and "\<And>e k f x. update e = Some (k, f) \<Longrightarrow> P x \<Longrightarrow> P (f x)"
  shows "\<forall>x\<in>set (foldl step [] es). P x"
proof (rule foldl_invariant [where I = "\<lambda>rs. \<forall>x\<in>set rs. P x"])
  fix rs e assume rs: "\<forall>x\<in>set rs. P x"
  show "\<forall>x\<in>set (step rs e). P x"
    unfolding step_keyed keyed_step_def
    using rs assms by (auto split: option.splits dest!: set_update_first)
qed simp

end

end
