(* ===== verification/Invitation.thy ===== *)
theory Invitation
  imports Slot Keyed_Projection
begin

text \<open>
  \<open>core/hivra-core/src/invitation.rs\<close>: the invitation projection. \<open>invitations_with_status\<close> is
  a fold over the events that keeps a vector of records; an answer looks its offer up by id and
  changes it in place.

  The lemmas show that the vector is a family of independent automata, one per invitation id
  (\<open>invitation_automaton\<close>), that the automaton only makes the steps of the relation
  \<open>invitation_step\<close> (so an answer is final, but for the sender's revoke of an accepted incoming
  offer), who may expire an invitation, and what \<open>plan_accept_for_kind\<close> decides.
\<close>

section \<open>Records\<close>

datatype invitation_status =
    Pending
  | Accepted (st_created_starter_id: starter_id) (st_from_pubkey: pub_key)
      (st_accepter_root_pubkey: "pub_key option")
  | Rejected (st_reason: reject_reason)
  | Expired

datatype invitation_direction = Outgoing | Incoming

record invitation_record =
  ir_invitation_id :: b32
  ir_starter_id :: starter_id
  ir_starter_kind_hint :: "starter_kind option"
  ir_peer_pubkey :: pub_key
  ir_direction :: invitation_direction
  ir_offer_signer :: pub_key
  ir_sender_root_pubkey :: "pub_key option"
  ir_sender_transport_pubkey :: pub_key
  ir_sender_card_signature :: "b64 option"
  ir_recipient_pubkey :: pub_key
  ir_sent_at :: timestamp
  ir_responded_at :: "timestamp option"
  ir_responded_signer :: "pub_key option"
  ir_has_local_terminal :: bool
  ir_status :: invitation_status

record planned_starter_creation =
  ps_slot :: slot_index
  ps_kind :: starter_kind

datatype accept_plan =
    UseExistingStarter starter_id "planned_starter_creation option"
  | CreateStarterInEmptySlot slot_index starter_kind
  | NoCapacity

section \<open>Reading offers and answers\<close>

definition terminal_status :: "event_kind \<Rightarrow> u8 list \<Rightarrow> (b32 \<times> invitation_status) option" where
  "terminal_status kind bs =
    (case kind of
       InvitationAccepted \<Rightarrow>
         map_option (\<lambda>p. (acc_invitation_id p,
             Accepted (acc_created_starter_id p) (acc_from_pubkey p) (acc_accepter_root_pubkey p)))
           (ok (invitation_accepted_from_bytes bs))
     | InvitationRejected \<Rightarrow>
         map_option (\<lambda>p. (rej_invitation_id p, Rejected (rej_reason p)))
           (ok (invitation_rejected_from_bytes bs))
     | InvitationExpired \<Rightarrow>
         map_option (\<lambda>p. (exp_invitation_id p, Expired)) (ok (invitation_expired_from_bytes bs))
     | _ \<Rightarrow> None)"

definition invitation_starter_kind_hint :: "u8 list \<Rightarrow> starter_kind option" where
  "invitation_starter_kind_hint bs =
    (if length bs = 97 then starter_kind_from_u8 (bs ! 96)
     else if length bs = 129 \<or> length bs = 161 \<or> length bs = 225
       then starter_kind_from_u8 (bs ! 128)
     else None)"

definition invitation_sender_transport :: "u8 list \<Rightarrow> pub_key option" where
  "invitation_sender_transport bs =
    (if length bs \<ge> 161 then Some (PubKey (barray_of (take 32 (drop 129 bs)))) else None)"

definition invitation_sender_card_signature :: "u8 list \<Rightarrow> b64 option" where
  "invitation_sender_card_signature bs =
    (if length bs = 225 then Some (barray_of (take 64 (drop 161 bs))) else None)"

definition unwrap_or :: "'a option \<Rightarrow> 'a \<Rightarrow> 'a" where
  "unwrap_or o' d = (case o' of Some x \<Rightarrow> x | None \<Rightarrow> d)"

definition valid_expiry_signer :: "pub_key \<Rightarrow> invitation_record \<Rightarrow> pub_key \<Rightarrow> bool" where
  "valid_expiry_signer owner record signer \<longleftrightarrow>
    (case ir_direction record of
       Outgoing \<Rightarrow> signer = owner
     | Incoming \<Rightarrow> signer = ir_offer_signer record)"

section \<open>The projection\<close>

text \<open>The record pushed for an offer.\<close>

definition offered_record :: "event \<Rightarrow> invitation_sent_payload \<Rightarrow> invitation_record" where
  "offered_record e p =
    (let direction = (if ev_kind e = InvitationReceived then Incoming else Outgoing)
     in \<lparr> ir_invitation_id = sent_invitation_id p,
          ir_starter_id = sent_starter_id p,
          ir_starter_kind_hint = invitation_starter_kind_hint (ev_payload e),
          ir_peer_pubkey =
            (if direction = Incoming
             then unwrap_or (invitation_sender_transport (ev_payload e)) (ev_signer e)
             else sent_to_pubkey p),
          ir_direction = direction,
          ir_offer_signer = ev_signer e,
          ir_sender_root_pubkey = sent_sender_root_pubkey p,
          ir_sender_transport_pubkey =
            unwrap_or (invitation_sender_transport (ev_payload e)) (ev_signer e),
          ir_sender_card_signature = invitation_sender_card_signature (ev_payload e),
          ir_recipient_pubkey = sent_to_pubkey p,
          ir_sent_at = ev_timestamp e,
          ir_responded_at = None,
          ir_responded_signer = None,
          ir_has_local_terminal = False,
          ir_status = Pending \<rparr>)"

text \<open>What an answer does to the record it finds (the body after the lookup).\<close>

definition is_accepted :: "invitation_status \<Rightarrow> bool" where
  "is_accepted st = (case st of Accepted _ _ _ \<Rightarrow> True | _ \<Rightarrow> False)"

definition is_rejected :: "invitation_status \<Rightarrow> bool" where
  "is_rejected st = (case st of Rejected _ \<Rightarrow> True | _ \<Rightarrow> False)"

definition respond ::
  "event \<Rightarrow> invitation_status \<Rightarrow> invitation_record \<Rightarrow> invitation_record" where
  "respond e terminal record =
    record\<lparr> ir_status := terminal, ir_responded_at := Some (ev_timestamp e),
            ir_responded_signer := Some (ev_signer e) \<rparr>"

definition apply_terminal ::
  "pub_key \<Rightarrow> event \<Rightarrow> invitation_status \<Rightarrow> invitation_record \<Rightarrow> invitation_record" where
  "apply_terminal owner e terminal record =
    (if terminal = Expired \<and> \<not> valid_expiry_signer owner record (ev_signer e) then record
     else
       let record =
             (if ev_signer e = owner
                 \<and> (ir_direction record = Incoming
                      \<and> (is_accepted terminal \<or> is_rejected terminal)
                    \<or> ir_direction record = Outgoing \<and> terminal = Expired)
              then record\<lparr> ir_has_local_terminal := True \<rparr> else record)
       in if ir_status record = Pending then respond e terminal record
          else if ir_direction record = Incoming \<and> is_accepted (ir_status record)
                  \<and> terminal = Expired
            then respond e Expired record
          else record)"

definition invitation_event_step ::
  "pub_key \<Rightarrow> invitation_record list \<Rightarrow> event \<Rightarrow> invitation_record list" where
  "invitation_event_step owner invitations e =
    (if ev_kind e = InvitationSent \<or> ev_kind e = InvitationReceived then
       (case ok (invitation_sent_from_bytes (ev_payload e)) of
          None \<Rightarrow> invitations
        | Some p \<Rightarrow>
            if list_ex (\<lambda>record. ir_invitation_id record = sent_invitation_id p) invitations
            then invitations
            else invitations @ [offered_record e p])
     else if ev_kind e = InvitationAccepted \<or> ev_kind e = InvitationRejected
          \<or> ev_kind e = InvitationExpired then
       (case terminal_status (ev_kind e) (ev_payload e) of
          None \<Rightarrow> invitations
        | Some (invitation_id, terminal) \<Rightarrow>
            update_first (\<lambda>record. ir_invitation_id record = invitation_id)
              (apply_terminal owner e terminal) invitations)
     else invitations)"

definition invitations_with_status :: "ledger \<Rightarrow> invitation_record list" where
  "invitations_with_status l = foldl (invitation_event_step (l_owner l)) [] (l_events l)"

definition pending_invitations :: "ledger \<Rightarrow> invitation_record list" where
  "pending_invitations l =
    filter (\<lambda>invitation. ir_status invitation = Pending) (invitations_with_status l)"

definition pending_invitation_count :: "ledger \<Rightarrow> nat" where
  "pending_invitation_count l = length (pending_invitations l)"

definition find_invitation :: "ledger \<Rightarrow> b32 \<Rightarrow> invitation_record option" where
  "find_invitation l invitation_id =
    find (\<lambda>invitation. ir_invitation_id invitation = invitation_id) (invitations_with_status l)"

definition find_invitation_by_direction ::
  "ledger \<Rightarrow> b32 \<Rightarrow> invitation_direction \<Rightarrow> invitation_record option" where
  "find_invitation_by_direction l invitation_id direction =
    find (\<lambda>invitation. ir_invitation_id invitation = invitation_id
        \<and> ir_direction invitation = direction)
      (invitations_with_status l)"

definition invitation_status_of :: "ledger \<Rightarrow> b32 \<Rightarrow> invitation_status" where
  "invitation_status_of l invitation_id =
    unwrap_or (map_option ir_status (find_invitation l invitation_id)) Pending"

section \<open>Planning an acceptance\<close>

text \<open>\<open>[bool; 5]\<close> indexed by the kind's byte.\<close>

definition active_starter_kinds :: "slot_layout \<Rightarrow> ledger \<Rightarrow> bool list" where
  "active_starter_kinds slots l =
    foldl (\<lambda>kinds entry.
        case se_starter_kind entry of
          Some kind \<Rightarrow> kinds[unat (starter_kind_to_byte kind) := True]
        | None \<Rightarrow> kinds)
      [False, False, False, False, False] (entries_with_kinds slots l)"

definition first_missing_kind :: "bool list \<Rightarrow> starter_kind option" where
  "first_missing_kind active_kinds =
    find (\<lambda>kind. \<not> active_kinds ! unat (starter_kind_to_byte kind))
      [Juice, Spark, Seed, Pulse, Kick]"

definition plan_accept_for_kind ::
  "ledger \<Rightarrow> slot_layout \<Rightarrow> starter_kind \<Rightarrow> accept_plan" where
  "plan_accept_for_kind l slots kind =
    (let starter_kinds = active_starter_kinds slots l;
         matching_starter_id =
           Option.bind
             (find_map (\<lambda>entry. if se_starter_kind entry = Some kind
                 then Some (se_state entry) else None) (entries_with_kinds slots l))
             (\<lambda>st. case st of Occupied i \<Rightarrow> Some i | Locked i \<Rightarrow> Some i | Empty \<Rightarrow> None);
         empty_slot = find_first_empty slots
     in case matching_starter_id of
          Some relationship_starter_id \<Rightarrow>
            UseExistingStarter relationship_starter_id
              (Option.bind empty_slot (\<lambda>slot.
                 map_option (\<lambda>kind. \<lparr> ps_slot = slot, ps_kind = kind \<rparr>)
                   (first_missing_kind starter_kinds)))
        | None \<Rightarrow>
            (case empty_slot of
               Some slot \<Rightarrow> CreateStarterInEmptySlot slot kind
             | None \<Rightarrow> NoCapacity))"

section \<open>The current view\<close>

record invitation_current_item =
  ii_invitation_id :: b32
  ii_starter_id :: b32
  ii_direction :: string
  ii_from_pubkey :: b32
  ii_from_root_pubkey :: "b32 option"
  ii_from_card_signature :: "u8 list option"
  ii_to_pubkey :: "b32 option"
  ii_starter_kind :: "u8 option"
  ii_starter_slot :: "u8 option"
  ii_status :: string
  ii_sent_at :: u64
  ii_responded_at :: "u64 option"
  ii_has_local_terminal :: bool
  ii_rejection_reason :: "string option"

record invitation_current_view =
  iv_schema :: string
  iv_version :: "16 word"
  iv_ledger_version :: nat
  iv_invitations :: "invitation_current_item list"

fun status_text :: "invitation_status \<Rightarrow> string \<times> string option" where
  "status_text Pending = (''pending'', None)"
| "status_text (Accepted _ _ _) = (''accepted'', None)"
| "status_text (Rejected EmptySlot) = (''rejected'', Some ''empty_slot'')"
| "status_text (Rejected Other) = (''rejected'', Some ''other'')"
| "status_text Expired = (''expired'', None)"

definition or_else :: "'a option \<Rightarrow> 'a option \<Rightarrow> 'a option" where
  "or_else a b = (case a of Some x \<Rightarrow> Some x | None \<Rightarrow> b)"

definition invitation_current_item_of ::
  "ledger \<Rightarrow> slot_layout \<Rightarrow> invitation_record \<Rightarrow> invitation_current_item" where
  "invitation_current_item_of l slots record =
    (let starter_kind = or_else (ir_starter_kind_hint record)
           (starter_kind_for_id l (ir_starter_id record));
         incoming = (ir_direction record = Incoming)
     in \<lparr> ii_invitation_id = ir_invitation_id record,
          ii_starter_id = starter_id_as_bytes (ir_starter_id record),
          ii_direction = (if incoming then ''incoming'' else ''outgoing''),
          ii_from_pubkey =
            (if incoming then pub_key_as_bytes (ir_sender_transport_pubkey record)
             else pub_key_as_bytes (ir_offer_signer record)),
          ii_from_root_pubkey =
            (if incoming then map_option pub_key_as_bytes (ir_sender_root_pubkey record) else None),
          ii_from_card_signature =
            (if incoming then map_option bytes (ir_sender_card_signature record) else None),
          ii_to_pubkey =
            (if incoming then None else Some (pub_key_as_bytes (ir_recipient_pubkey record))),
          ii_starter_kind = map_option starter_kind_to_byte starter_kind,
          ii_starter_slot =
            (if incoming then None
             else map_option slot_index_as_u8 (find_by_starter slots (ir_starter_id record))),
          ii_status = fst (status_text (ir_status record)),
          ii_sent_at = as_u64 (ir_sent_at record),
          ii_responded_at = map_option as_u64 (ir_responded_at record),
          ii_has_local_terminal = ir_has_local_terminal record,
          ii_rejection_reason = snd (status_text (ir_status record)) \<rparr>)"

definition invitation_current_view_v1 :: "ledger \<Rightarrow> invitation_current_view" where
  "invitation_current_view_v1 l =
    \<lparr> iv_schema = ''hivra.invitation_current_view'', iv_version = 1,
      iv_ledger_version = length (l_events l),
      iv_invitations = map (invitation_current_item_of l (layout_from_ledger l))
        (invitations_with_status l) \<rparr>"

section \<open>One automaton per invitation\<close>

definition offer_of :: "event \<Rightarrow> invitation_sent_payload option" where
  "offer_of e =
    (if ev_kind e = InvitationSent \<or> ev_kind e = InvitationReceived
     then ok (invitation_sent_from_bytes (ev_payload e)) else None)"

definition answer_of :: "event \<Rightarrow> (b32 \<times> invitation_status) option" where
  "answer_of e = terminal_status (ev_kind e) (ev_payload e)"

definition invitation_automaton ::
  "pub_key \<Rightarrow> b32 \<Rightarrow> invitation_record option \<Rightarrow> event \<Rightarrow> invitation_record option" where
  "invitation_automaton owner i r e =
    (case offer_of e of
       Some p \<Rightarrow> if sent_invitation_id p = i \<and> r = None then Some (offered_record e p) else r
     | None \<Rightarrow>
         (case answer_of e of
            Some (j, terminal) \<Rightarrow> if j = i then map_option (apply_terminal owner e terminal) r else r
          | None \<Rightarrow> r))"

lemma respond_sel [simp]:
  "ir_invitation_id (respond e t r) = ir_invitation_id r"
  "ir_status (respond e t r) = t" "ir_direction (respond e t r) = ir_direction r"
  "ir_offer_signer (respond e t r) = ir_offer_signer r"
  "ir_responded_at (respond e t r) = Some (ev_timestamp e)"
  "ir_responded_signer (respond e t r) = Some (ev_signer e)"
  by (simp_all add: respond_def)

lemma apply_terminal_id [simp]:
  "ir_invitation_id (apply_terminal owner e t r) = ir_invitation_id r"
  by (simp add: apply_terminal_def Let_def)

lemma offered_record_id [simp]:
  "ir_invitation_id (offered_record e p) = sent_invitation_id p"
  by (simp add: offered_record_def Let_def)

lemma invitation_event_step_eq:
  "invitation_event_step owner rs e =
    (case offer_of e of
       Some p \<Rightarrow>
         if list_ex (\<lambda>r. ir_invitation_id r = sent_invitation_id p) rs then rs
         else rs @ [offered_record e p]
     | None \<Rightarrow>
         (case answer_of e of
            Some (j, terminal) \<Rightarrow>
              update_first (\<lambda>r. ir_invitation_id r = j) (apply_terminal owner e terminal) rs
          | None \<Rightarrow> rs))"
  by (auto simp: invitation_event_step_def offer_of_def answer_of_def terminal_status_def
      split: event_kind.splits option.splits)

interpretation invitation_projection: keyed_projection ir_invitation_id
  "\<lambda>e. map_option (offered_record e) (offer_of e)" "\<lambda>_ r. r"
  "\<lambda>e. map_option (\<lambda>(j, t). (j, apply_terminal owner e t)) (answer_of e)"
  "invitation_event_step owner"
proof unfold_locales
  fix rs :: "invitation_record list" and e
  have "update_first P (\<lambda>r. r) rs = rs" for P by (induction rs) auto
  then show "invitation_event_step owner rs e = keyed_step ir_invitation_id
      (\<lambda>e. map_option (offered_record e) (offer_of e)) (\<lambda>_ r. r)
      (\<lambda>e. map_option (\<lambda>(j, t). (j, apply_terminal owner e t)) (answer_of e)) rs e"
    by (simp add: invitation_event_step_eq keyed_step_def split: option.splits)
qed (auto split: option.splits)

lemma invitation_automaton_eq:
  "invitation_automaton owner i = keyed_automaton ir_invitation_id
      (\<lambda>e. map_option (offered_record e) (offer_of e)) (\<lambda>_ r. r)
      (\<lambda>e. map_option (\<lambda>(j, t). (j, apply_terminal owner e t)) (answer_of e)) i"
  by (intro ext) (auto simp: invitation_automaton_def keyed_automaton_def split: option.splits)

lemma find_invitation_eq:
  "find_invitation l i = foldl (invitation_automaton (l_owner l) i) None (l_events l)"
  by (simp add: find_invitation_def invitations_with_status_def invitation_automaton_eq
      invitation_projection.fold_find)

lemma invitations_distinct: "distinct (map ir_invitation_id (invitations_with_status l))"
  unfolding invitations_with_status_def by (rule invitation_projection.fold_distinct)

text \<open>C29: The vector of invitation records is a family of independent automata: each
  invitation id has at most one record, and its record is what the automaton of that id makes of
  the events, whatever the other invitations do.\<close>

theorem invitations_are_independent_automata:
  "distinct (map ir_invitation_id (invitations_with_status l))
    \<and> map_of (map (\<lambda>r. (ir_invitation_id r, r)) (invitations_with_status l)) i
      = foldl (invitation_automaton (l_owner l) i) None (l_events l)"
  by (simp add: invitations_with_status_def invitation_automaton_eq
      invitation_projection.fold_distinct invitation_projection.fold_lookup)

section \<open>The life of an invitation\<close>

text \<open>The steps an invitation can make: it is offered, answered once, marked as answered
  locally, and an accepted incoming one may be revoked by the signer of its offer.\<close>

inductive invitation_step ::
  "pub_key \<Rightarrow> invitation_record option \<Rightarrow> invitation_record option \<Rightarrow> bool" for owner where
  offer: "ir_status r = Pending \<Longrightarrow> ir_responded_at r = None \<Longrightarrow> ir_responded_signer r = None \<Longrightarrow>
    \<not> ir_has_local_terminal r \<Longrightarrow> invitation_step owner None (Some r)"
| answer: "ir_status r = Pending \<Longrightarrow> t \<noteq> Pending \<Longrightarrow>
    (t = Expired \<longrightarrow> valid_expiry_signer owner r s) \<Longrightarrow> (ir_has_local_terminal r \<longrightarrow> b) \<Longrightarrow>
    invitation_step owner (Some r) (Some (r\<lparr> ir_status := t, ir_responded_at := Some ts,
      ir_responded_signer := Some s, ir_has_local_terminal := b \<rparr>))"
| revoke: "ir_direction r = Incoming \<Longrightarrow> is_accepted (ir_status r) \<Longrightarrow> s = ir_offer_signer r \<Longrightarrow>
    invitation_step owner (Some r) (Some (r\<lparr> ir_status := Expired, ir_responded_at := Some ts,
      ir_responded_signer := Some s \<rparr>))"
| mark: "ir_status r \<noteq> Pending \<Longrightarrow>
    invitation_step owner (Some r) (Some (r\<lparr> ir_has_local_terminal := True \<rparr>))"

lemma status_kind_simps [simp]:
  "is_accepted Pending = False" "is_accepted (Accepted a b c) = True"
  "is_accepted (Rejected x) = False" "is_accepted Expired = False"
  "is_rejected Pending = False" "is_rejected (Accepted a b c) = False"
  "is_rejected (Rejected x) = True" "is_rejected Expired = False"
  by (simp_all add: is_accepted_def is_rejected_def)


lemma answer_of_not_Pending: "answer_of e = Some (j, t) \<Longrightarrow> t \<noteq> Pending"
  by (auto simp: answer_of_def terminal_status_def split: event_kind.splits)

lemma offer_step: "invitation_step owner None (Some (offered_record e p))"
  by (rule invitation_step.offer) (simp_all add: offered_record_def Let_def)

text \<open>What an answer does to a record is one step or nothing.\<close>

definition marks_local :: "pub_key \<Rightarrow> event \<Rightarrow> invitation_status \<Rightarrow> invitation_record \<Rightarrow> bool" where
  "marks_local owner e t r \<longleftrightarrow> ev_signer e = owner
    \<and> (ir_direction r = Incoming \<and> (is_accepted t \<or> is_rejected t)
       \<or> ir_direction r = Outgoing \<and> t = Expired)"

lemma mark_eq:
  "(if c then r\<lparr> ir_has_local_terminal := True \<rparr> else r)
    = r\<lparr> ir_has_local_terminal := ir_has_local_terminal r \<or> c \<rparr>"
  by (cases r) simp

lemma apply_terminal_eq:
  "apply_terminal owner e t r =
    (let r' = r\<lparr> ir_has_local_terminal := ir_has_local_terminal r \<or> marks_local owner e t r \<rparr>
     in if t = Expired \<and> \<not> valid_expiry_signer owner r (ev_signer e) then r
        else if ir_status r = Pending then respond e t r'
        else if ir_direction r = Incoming \<and> is_accepted (ir_status r) \<and> t = Expired
          then respond e Expired r'
        else r')"
  unfolding apply_terminal_def marks_local_def [symmetric] mark_eq Let_def by simp

lemma local_terminal_self: "r\<lparr> ir_has_local_terminal := ir_has_local_terminal r \<rparr> = r"
  by (cases r) simp

lemma apply_terminal_step:
  assumes "t \<noteq> Pending"
  shows "apply_terminal owner e t r = r
    \<or> invitation_step owner (Some r) (Some (apply_terminal owner e t r))"
proof -
  let ?m = "ir_has_local_terminal r \<or> marks_local owner e t r"
  consider (invalid) "t = Expired \<and> \<not> valid_expiry_signer owner r (ev_signer e)"
    | (answer) "\<not> (t = Expired \<and> \<not> valid_expiry_signer owner r (ev_signer e))"
        "ir_status r = Pending"
    | (revoke) "valid_expiry_signer owner r (ev_signer e)" "ir_status r \<noteq> Pending"
        "ir_direction r = Incoming" "is_accepted (ir_status r)" "t = Expired"
    | (other) "\<not> (t = Expired \<and> \<not> valid_expiry_signer owner r (ev_signer e))"
        "ir_status r \<noteq> Pending"
        "\<not> (ir_direction r = Incoming \<and> is_accepted (ir_status r) \<and> t = Expired)"
    by blast
  then show ?thesis
  proof cases
    case invalid
    then show ?thesis by (simp add: apply_terminal_eq Let_def)
  next
    case answer
    then have "apply_terminal owner e t r = r\<lparr> ir_status := t,
        ir_responded_at := Some (ev_timestamp e), ir_responded_signer := Some (ev_signer e),
        ir_has_local_terminal := ?m \<rparr>"
      by (simp add: apply_terminal_eq Let_def respond_def if_not_P)
    moreover have "invitation_step owner (Some r) (Some (r\<lparr> ir_status := t,
        ir_responded_at := Some (ev_timestamp e), ir_responded_signer := Some (ev_signer e),
        ir_has_local_terminal := ?m \<rparr>))"
      by (rule invitation_step.answer) (use answer assms in simp_all)
    ultimately show ?thesis by simp
  next
    case revoke
    then have "?m = ir_has_local_terminal r" by (simp add: marks_local_def)
    with revoke have "apply_terminal owner e t r = r\<lparr> ir_status := Expired,
        ir_responded_at := Some (ev_timestamp e), ir_responded_signer := Some (ev_signer e) \<rparr>"
      by (simp add: apply_terminal_eq Let_def respond_def local_terminal_self)
    moreover have "invitation_step owner (Some r) (Some (r\<lparr> ir_status := Expired,
        ir_responded_at := Some (ev_timestamp e), ir_responded_signer := Some (ev_signer e) \<rparr>))"
      by (rule invitation_step.revoke) (use revoke in \<open>simp_all add: valid_expiry_signer_def\<close>)
    ultimately show ?thesis by simp
  next
    case other
    then have eq: "apply_terminal owner e t r = r\<lparr> ir_has_local_terminal := ?m \<rparr>"
      by (simp only: apply_terminal_eq Let_def if_False)
    show ?thesis
    proof (cases ?m)
      case True
      with eq invitation_step.mark [OF other(2), of owner] show ?thesis by simp
    next
      case False
      then have "?m = ir_has_local_terminal r" by blast
      with eq show ?thesis by (simp only: local_terminal_self simp_thms)
    qed
  qed
qed

lemma automaton_step:
  "invitation_automaton owner i r e = r \<or> invitation_step owner r (invitation_automaton owner i r e)"
proof (cases "offer_of e")
  case (Some p)
  then show ?thesis by (simp add: invitation_automaton_def offer_step)
next
  case no_offer: None
  show ?thesis
  proof (cases "answer_of e")
    case (Some a)
    obtain j t where a: "a = (j, t)" by (cases a)
    with Some answer_of_not_Pending have "t \<noteq> Pending" by blast
    then show ?thesis
      using apply_terminal_step [of t owner e "the r"] no_offer Some
      by (cases r) (simp_all add: invitation_automaton_def a)
  qed (use no_offer in \<open>simp add: invitation_automaton_def\<close>)
qed

lemma automaton_run:
  "(invitation_step owner)\<^sup>*\<^sup>* r (foldl (invitation_automaton owner i) r es)"
proof (induction es rule: rev_induct)
  case (snoc e es)
  then show ?case
    using automaton_step [of owner i "foldl (invitation_automaton owner i) r es" e]
    by (metis foldl_append foldl_Cons foldl_Nil rtranclp.rtrancl_into_rtrancl)
qed simp

text \<open>Whatever events are appended to a ledger, an invitation changes by steps of the life
  cycle only: offered once, answered once while pending, expired only by a signer entitled to,
  revoked after an accepted incoming offer only.\<close>

theorem invitation_life_cycle:
  "(invitation_step (l_owner l))\<^sup>*\<^sup>*
    (find_invitation l i) (find_invitation (l\<lparr> l_events := l_events l @ es \<rparr>) i)"
  by (simp add: find_invitation_eq automaton_run)

text \<open>The fields of the offer and of the answer.\<close>

definition same_offer :: "invitation_record \<Rightarrow> invitation_record \<Rightarrow> bool" where
  "same_offer r r' \<longleftrightarrow>
    r\<lparr> ir_responded_at := None, ir_responded_signer := None, ir_has_local_terminal := False,
       ir_status := Pending \<rparr>
    = r'\<lparr> ir_responded_at := None, ir_responded_signer := None, ir_has_local_terminal := False,
       ir_status := Pending \<rparr>"

definition same_answer :: "invitation_record \<Rightarrow> invitation_record \<Rightarrow> bool" where
  "same_answer r r' \<longleftrightarrow> ir_status r = ir_status r' \<and> ir_responded_at r = ir_responded_at r'
    \<and> ir_responded_signer r = ir_responded_signer r'"

definition revoked_by_sender :: "invitation_record \<Rightarrow> invitation_record \<Rightarrow> bool" where
  "revoked_by_sender r r' \<longleftrightarrow> ir_direction r = Incoming \<and> is_accepted (ir_status r)
    \<and> ir_status r' = Expired \<and> ir_responded_signer r' = Some (ir_offer_signer r)"

text \<open>How a later state of an invitation relates to an earlier one.\<close>

fun answer_kept :: "invitation_record option \<Rightarrow> invitation_record option \<Rightarrow> bool" where
  "answer_kept None x = True"
| "answer_kept (Some r) None = False"
| "answer_kept (Some r) (Some r') \<longleftrightarrow> same_offer r r'
    \<and> (ir_has_local_terminal r \<longrightarrow> ir_has_local_terminal r')
    \<and> (ir_status r = Pending \<or> same_answer r r' \<or> revoked_by_sender r r')"


lemma same_offer_sel:
  assumes "same_offer r r'"
  shows "ir_direction r = ir_direction r'" "ir_offer_signer r = ir_offer_signer r'"
  using arg_cong [OF assms [unfolded same_offer_def], of ir_direction]
    arg_cong [OF assms [unfolded same_offer_def], of ir_offer_signer] by simp_all

lemma answer_kept_refl: "answer_kept x x"
  by (cases x) (simp_all add: same_offer_def same_answer_def)

lemma answer_kept_step:
  assumes kept: "answer_kept x y" and step: "invitation_step owner y z"
  shows "answer_kept x z"
proof (cases x)
  case (Some r)
  with kept obtain r1 where y: "y = Some r1" and off: "same_offer r r1"
    and loc: "ir_has_local_terminal r \<longrightarrow> ir_has_local_terminal r1"
    and ans: "ir_status r = Pending \<or> same_answer r r1 \<or> revoked_by_sender r r1"
    by (cases y) auto
  note sel = same_offer_sel [OF off]
  from step [unfolded y] show ?thesis
  proof (cases rule: invitation_step.cases)
    case answer
    then have "ir_status r = Pending"
      using ans by (auto simp: same_answer_def revoked_by_sender_def)
    with answer off loc show ?thesis by (auto simp: Some same_offer_def)
  next
    case revoke
    then have "ir_status r = Pending \<or> is_accepted (ir_status r)"
      using ans by (auto simp: same_answer_def revoked_by_sender_def)
    with revoke off loc sel show ?thesis by (auto simp: Some same_offer_def revoked_by_sender_def)
  next
    case mark
    with off loc ans show ?thesis
      by (auto simp: Some same_offer_def same_answer_def revoked_by_sender_def)
  qed
qed simp

lemma answer_kept_steps:
  "(invitation_step owner)\<^sup>*\<^sup>* x y \<Longrightarrow> answer_kept x y"
  by (induction rule: rtranclp.induct) (auto intro: answer_kept_refl answer_kept_step)

text \<open>C28: Answers are final. After any further events an invitation still exists with the same
  offer fields; its answer (status, time and signer) is unchanged unless it was pending, or the
  signer of an accepted incoming offer expired it; and the local-terminal mark is never lost.\<close>

theorem invitation_answers_are_final:
  "answer_kept (find_invitation l i) (find_invitation (l\<lparr> l_events := l_events l @ es \<rparr>) i)"
  by (rule answer_kept_steps [of "l_owner l"]) (simp add: find_invitation_eq automaton_run)

section \<open>Invariant of the records\<close>

definition record_inv :: "pub_key \<Rightarrow> invitation_record \<Rightarrow> bool" where
  "record_inv owner r \<longleftrightarrow>
    (ir_status r = Pending \<longleftrightarrow> ir_responded_at r = None)
    \<and> (ir_status r = Pending \<longleftrightarrow> ir_responded_signer r = None)
    \<and> (ir_status r = Pending \<longrightarrow> \<not> ir_has_local_terminal r)
    \<and> (ir_status r = Expired \<longrightarrow>
         ir_responded_signer r = Some (case ir_direction r of
           Outgoing \<Rightarrow> owner | Incoming \<Rightarrow> ir_offer_signer r))"

lemma record_inv_step:
  "invitation_step owner x y \<Longrightarrow> pred_option (record_inv owner) x \<Longrightarrow> pred_option (record_inv owner) y"
  by (induction rule: invitation_step.induct)
    (auto simp: record_inv_def valid_expiry_signer_def split: invitation_direction.splits)

lemma record_inv_steps:
  "(invitation_step owner)\<^sup>*\<^sup>* x y \<Longrightarrow> pred_option (record_inv owner) x \<Longrightarrow> pred_option (record_inv owner) y"
  by (induction rule: rtranclp.induct) (auto intro: record_inv_step)

text \<open>Every projected record is consistent: it has an answer time and an answer signer
  exactly when it is no longer pending, no local mark while pending, and an expiry is signed by
  the ledger owner for an outgoing offer and by the signer of the offer for an incoming one.\<close>

theorem invitation_records_consistent:
  "list_all (record_inv (l_owner l)) (invitations_with_status l)"
proof (simp add: list_all_iff, rule ballI)
  fix r assume r: "r \<in> set (invitations_with_status l)"
  have "find_invitation l (ir_invitation_id r) = Some r"
    unfolding find_invitation_def by (rule distinct_map_find [OF invitations_distinct r])
  then have "(invitation_step (l_owner l))\<^sup>*\<^sup>* None (Some r)"
    by (metis find_invitation_eq automaton_run)
  then show "record_inv (l_owner l) r"
    using record_inv_steps by fastforce
qed

section \<open>What acceptance is planned\<close>

text \<open>The kinds of the live starters.\<close>

definition live_kinds :: "ledger \<Rightarrow> slot_layout \<Rightarrow> starter_kind set" where
  "live_kinds l slots = {k. \<exists>i\<in>set (layout_ids slots). starter_kind_for_id l i = Some k}"

lemma entries_kinds:
  assumes "length (sl_slots slots) = 5"
  shows "(\<exists>e\<in>set (entries_with_kinds slots l). se_starter_kind e = Some k \<and> se_state e = st)
    \<longleftrightarrow> st \<in> set (sl_slots slots) \<and> Option.bind (slot_starter st) (starter_kind_for_id l) = Some k"
proof -
  have kind: "(case st of Empty \<Rightarrow> None | Occupied i \<Rightarrow> starter_kind_for_id l i
      | Locked i \<Rightarrow> starter_kind_for_id l i) = Option.bind (slot_starter st) (starter_kind_for_id l)"
    for st by (cases st) simp_all
  have "set (sl_slots slots) = snd ` set (zip [0..<5] (sl_slots slots))"
    using assms by (metis length_upt map_snd_zip minus_nat.diff_0 set_map)
  then show ?thesis
    by (force simp: entries_with_kinds_def kind)
qed

lemma live_kinds_entries:
  assumes "length (sl_slots slots) = 5"
  shows "k \<in> live_kinds l slots
    \<longleftrightarrow> (\<exists>e\<in>set (entries_with_kinds slots l). se_starter_kind e = Some k)"
proof -
  have "(\<exists>e\<in>set (entries_with_kinds slots l). se_starter_kind e = Some k)
      \<longleftrightarrow> (\<exists>st. \<exists>e\<in>set (entries_with_kinds slots l). se_starter_kind e = Some k \<and> se_state e = st)"
    by blast
  also have "\<dots> \<longleftrightarrow> (\<exists>st\<in>set (sl_slots slots). \<exists>i. slot_starter st = Some i
      \<and> starter_kind_for_id l i = Some k)"
    unfolding entries_kinds [OF assms] by (auto simp: bind_eq_Some_conv)
  finally show ?thesis
    by (simp add: live_kinds_def Bex_def mem_layout_ids) blast
qed

lemma active_kinds_fold:
  "length ks = 5 \<Longrightarrow>
    foldl (\<lambda>kinds entry. case se_starter_kind entry of
        Some kind \<Rightarrow> kinds[unat (starter_kind_to_byte kind) := True] | None \<Rightarrow> kinds) ks es
      ! unat (starter_kind_to_byte k)
    \<longleftrightarrow> ks ! unat (starter_kind_to_byte k) \<or> (\<exists>e\<in>set es. se_starter_kind e = Some k)"
proof (induction es arbitrary: ks)
  case (Cons e es)
  have inj: "unat (starter_kind_to_byte j) = unat (starter_kind_to_byte k) \<longleftrightarrow> j = k" for j
    by (metis starter_kind_to_byte_inject word_unat_eq_iff)
  then have "ks[unat (starter_kind_to_byte j) := True] ! unat (starter_kind_to_byte k)
      \<longleftrightarrow> j = k \<or> ks ! unat (starter_kind_to_byte k)" for j
    using Cons.prems starter_kind_to_byte_less [of k] by (cases "j = k") (simp_all add: inj)
  then show ?case
    using Cons by (cases "se_starter_kind e") auto
qed simp

lemma active_starter_kinds_iff:
  assumes "length (sl_slots slots) = 5"
  shows "active_starter_kinds slots l ! unat (starter_kind_to_byte k) \<longleftrightarrow> k \<in> live_kinds l slots"
proof -
  have "\<not> [False, False, False, False, False] ! unat (starter_kind_to_byte k)"
    by (cases k) simp_all
  then show ?thesis
    using live_kinds_entries [OF assms]
    by (simp add: active_starter_kinds_def active_kinds_fold)
qed

text \<open>The kinds in the order the plan tries them.\<close>

definition kind_order :: "starter_kind list" where
  "kind_order = [Juice, Spark, Seed, Pulse, Kick]"

definition plan_correct :: "ledger \<Rightarrow> slot_layout \<Rightarrow> starter_kind \<Rightarrow> accept_plan \<Rightarrow> bool" where
  "plan_correct l slots kind plan \<longleftrightarrow>
    (case plan of
       UseExistingStarter i extra \<Rightarrow>
         i \<in> set (layout_ids slots) \<and> starter_kind_for_id l i = Some kind
         \<and> extra = Option.bind (find_first_empty slots) (\<lambda>slot.
             map_option (\<lambda>k. \<lparr> ps_slot = slot, ps_kind = k \<rparr>)
               (find (\<lambda>k. k \<notin> live_kinds l slots) kind_order))
     | CreateStarterInEmptySlot slot k \<Rightarrow>
         k = kind \<and> kind \<notin> live_kinds l slots \<and> find_first_empty slots = Some slot
         \<and> state_at slots slot = Empty
     | NoCapacity \<Rightarrow> kind \<notin> live_kinds l slots \<and> length (layout_ids slots) = 5)"

lemma plan_correct_layout:
  assumes len: "length (sl_slots slots) = 5"
  shows "plan_correct l slots kind (plan_accept_for_kind l slots kind)"
proof -
  let ?found = "find_map (\<lambda>entry. if se_starter_kind entry = Some kind
      then Some (se_state entry) else None) (entries_with_kinds slots l)"
  let ?extra = "Option.bind (find_first_empty slots) (\<lambda>slot.
      map_option (\<lambda>k. \<lparr> ps_slot = slot, ps_kind = k \<rparr>)
        (find (\<lambda>k. k \<notin> live_kinds l slots) kind_order))"
  have missing: "first_missing_kind (active_starter_kinds slots l)
      = find (\<lambda>k. k \<notin> live_kinds l slots) kind_order"
    by (simp add: first_missing_kind_def kind_order_def active_starter_kinds_iff [OF len])
  show ?thesis
  proof (cases ?found)
    case None
    then have "kind \<notin> live_kinds l slots"
      by (auto simp: live_kinds_entries [OF len] find_map_None split: if_splits)
    with None show ?thesis
      using find_first_empty_SomeD [OF len] find_first_empty_None [OF len]
      by (cases "find_first_empty slots") (simp_all add: plan_accept_for_kind_def plan_correct_def Let_def)
  next
    case (Some st)
    then have "\<exists>e\<in>set (entries_with_kinds slots l). se_starter_kind e = Some kind \<and> se_state e = st"
      by (auto dest!: find_map_SomeD split: if_splits)
    then obtain i where st: "st \<in> set (sl_slots slots)" "slot_starter st = Some i"
      and i: "starter_kind_for_id l i = Some kind"
      unfolding entries_kinds [OF len] by (auto simp: bind_eq_Some_conv)
    then have "i \<in> set (layout_ids slots)" by (auto simp: mem_layout_ids)
    moreover have "plan_accept_for_kind l slots kind = UseExistingStarter i ?extra"
      using Some st(2) by (cases st) (simp_all add: plan_accept_for_kind_def missing Let_def)
    ultimately show ?thesis using i by (simp add: plan_correct_def)
  qed
qed

text \<open>The plan for accepting an offer of a kind is the right one: an existing live starter
  of that kind if there is one, together with the first missing kind for the first free slot;
  otherwise a starter of that kind in the first free slot; no capacity only when the five slots
  are taken by other kinds.\<close>

theorem accept_plan_correct:
  "plan_correct l (layout_from_ledger l) kind (plan_accept_for_kind l (layout_from_ledger l) kind)"
  by (rule plan_correct_layout) simp

end
