(* ===== verification/Relationship.thy ===== *)
theory Relationship
  imports Invitation
begin

text \<open>
  \<open>core/hivra-core/src/relationship.rs\<close>: the relationship projection and the in-memory
  collection \<open>Relationships\<close>. The projection folds the events over a vector of
  \<open>ProjectedRelationship\<close> keyed by (peer, own starter), sorts it and resolves the peer
  identities.

  The lemmas show that the vector is a family of independent automata, one per key
  (\<open>relationship_automaton\<close>), the invariant of the records, who can end a relationship and in
  which steps, and the laws of the collection.
\<close>

section \<open>Projected relationships\<close>

record projected_relationship =
  pr_peer_pubkey :: pub_key
  pr_peer_root_pubkey :: "pub_key option"
  pr_own_starter_id :: starter_id
  pr_peer_starter_id :: starter_id
  pr_kind :: starter_kind
  pr_established_at :: timestamp
  pr_is_active :: bool
  pr_has_pending_remote_break :: bool

record established_fact =
  ef_peer_pubkey :: pub_key
  ef_sender_pubkey :: "pub_key option"
  ef_invitation_id :: "b32 option"
  ef_peer_root_pubkey :: "pub_key option"
  ef_sender_root_pubkey :: "pub_key option"
  ef_own_starter_id :: starter_id
  ef_peer_starter_id :: starter_id
  ef_kind :: starter_kind

text \<open>\<open>bytes[a..a + 32].try_into().ok()?\<close> in a slice of 97 bytes.\<close>

definition parse_established_fact :: "u8 list \<Rightarrow> established_fact option" where
  "parse_established_fact bs =
    (if length bs = 97 then
       map_option (\<lambda>kind.
         \<lparr> ef_peer_pubkey = PubKey (barray_of (take 32 bs)),
           ef_sender_pubkey = None,
           ef_invitation_id = None,
           ef_peer_root_pubkey = None,
           ef_sender_root_pubkey = None,
           ef_own_starter_id = StarterId (barray_of (take 32 (drop 32 bs))),
           ef_peer_starter_id = StarterId (barray_of (take 32 (drop 64 bs))),
           ef_kind = kind \<rparr>)
         (starter_kind_from_u8 (bs ! 96))
     else
       map_option (\<lambda>p.
         \<lparr> ef_peer_pubkey = est_peer_pubkey p,
           ef_sender_pubkey = Some (est_sender_pubkey p),
           ef_invitation_id = Some (est_invitation_id p),
           ef_peer_root_pubkey = est_peer_root_pubkey p,
           ef_sender_root_pubkey = est_sender_root_pubkey p,
           ef_own_starter_id = est_own_starter_id p,
           ef_peer_starter_id = est_peer_starter_id p,
           ef_kind = est_kind p \<rparr>)
         (ok (relationship_established_from_bytes bs)))"

fun resolve_peer_root :: "pub_key option \<Rightarrow> pub_key option \<Rightarrow> pub_key \<Rightarrow> pub_key option" where
  "resolve_peer_root None sender owner = sender"
| "resolve_peer_root (Some peer) (Some sender) owner =
    (if peer = owner \<and> sender \<noteq> owner then Some sender
     else if sender = owner \<and> peer \<noteq> owner then Some peer
     else Some peer)"
| "resolve_peer_root (Some peer) None owner = Some peer"

definition swap_to_sender :: "established_fact \<Rightarrow> pub_key \<Rightarrow> bool" where
  "swap_to_sender ef owner \<longleftrightarrow>
    ef_peer_root_pubkey ef = Some owner
    \<and> (case ef_sender_root_pubkey ef of Some root \<Rightarrow> root \<noteq> owner | None \<Rightarrow> False)
    \<and> ef_sender_pubkey ef \<noteq> None"

definition orient_established ::
  "established_fact \<Rightarrow> pub_key \<Rightarrow> timestamp \<Rightarrow> projected_relationship" where
  "orient_established ef owner established_at =
    (let peer_root = resolve_peer_root (ef_peer_root_pubkey ef) (ef_sender_root_pubkey ef) owner
     in if swap_to_sender ef owner then
          \<lparr> pr_peer_pubkey = the (ef_sender_pubkey ef),
            pr_peer_root_pubkey = peer_root,
            pr_own_starter_id = ef_peer_starter_id ef,
            pr_peer_starter_id = ef_own_starter_id ef,
            pr_kind = ef_kind ef,
            pr_established_at = established_at,
            pr_is_active = True,
            pr_has_pending_remote_break = False \<rparr>
        else
          \<lparr> pr_peer_pubkey = ef_peer_pubkey ef,
            pr_peer_root_pubkey = peer_root,
            pr_own_starter_id = ef_own_starter_id ef,
            pr_peer_starter_id = ef_peer_starter_id ef,
            pr_kind = ef_kind ef,
            pr_established_at = established_at,
            pr_is_active = True,
            pr_has_pending_remote_break = False \<rparr>)"

section \<open>The loop over the events\<close>

text \<open>The root of the peer that the invitation of the fact adds.\<close>

definition invitation_peer_root ::
  "pub_key \<Rightarrow> pub_key option \<Rightarrow> invitation_record \<Rightarrow> pub_key option" where
  "invitation_peer_root owner local_transport record =
    (case ir_direction record of
       Incoming \<Rightarrow> ir_sender_root_pubkey record
     | Outgoing \<Rightarrow>
         (case ir_status record of
            Accepted created from_pubkey accepter_root \<Rightarrow>
              if local_transport = Some from_pubkey \<and> ir_responded_signer record \<noteq> Some owner
              then accepter_root else None
          | _ \<Rightarrow> None))"

text \<open>The relationship an \<open>Established\<close> event stands for, unless the loop skips it.\<close>

definition established_relationship ::
  "pub_key \<Rightarrow> pub_key option \<Rightarrow> invitation_record list \<Rightarrow> event \<Rightarrow> projected_relationship option" where
  "established_relationship owner local_transport invitation_records e =
    (case parse_established_fact (ev_payload e) of
       None \<Rightarrow> None
     | Some established \<Rightarrow>
         (let invitation = Option.bind (ef_invitation_id established) (\<lambda>invitation_id.
                find (\<lambda>record. ir_invitation_id record = invitation_id) invitation_records)
          in if (case invitation of
                   Some record \<Rightarrow> is_rejected (ir_status record) \<or> ir_status record = Expired
                 | None \<Rightarrow> False) then None
             else
               let relationship = orient_established established owner (ev_timestamp e);
                   relationship =
                     (if pr_peer_root_pubkey relationship = None
                      then relationship\<lparr> pr_peer_root_pubkey :=
                        Option.bind invitation (invitation_peer_root owner local_transport) \<rparr>
                      else relationship)
               in if pr_peer_root_pubkey relationship = Some owner
                     \<or> local_transport = Some (pr_peer_pubkey relationship)
                  then None
                  else Some relationship))"

definition same_key :: "pub_key \<Rightarrow> starter_id \<Rightarrow> projected_relationship \<Rightarrow> bool" where
  "same_key peer own current \<longleftrightarrow>
    pr_peer_pubkey current = peer \<and> pr_own_starter_id current = own"

text \<open>What a \<open>Broken\<close> event does to the record it finds (the body after the lookup).\<close>

definition apply_break ::
  "pub_key \<Rightarrow> pub_key option \<Rightarrow> event \<Rightarrow> relationship_broken_payload
    \<Rightarrow> projected_relationship \<Rightarrow> projected_relationship" where
  "apply_break owner local_transport e broken current =
    (if ev_timestamp e < pr_established_at current then current
     else
       let signer = ev_signer e;
           signer_matches_local = (signer = owner \<or> local_transport = Some signer);
           signer_matches_peer_transport = (signer = pr_peer_pubkey current);
           signer_matches_peer_root = (brk_peer_root_pubkey broken = Some signer
             \<and> pr_peer_root_pubkey current = Some signer);
           signer_matches_peer = (signer_matches_peer_transport \<or> signer_matches_peer_root)
       in if \<not> signer_matches_local \<and> \<not> signer_matches_peer then current
          else
            let pending_remote = (\<not> signer_matches_local \<and> signer_matches_peer)
            in if pending_remote \<and> \<not> pr_is_active current
                  \<and> \<not> pr_has_pending_remote_break current
               then current
               else current\<lparr> pr_is_active := pending_remote,
                             pr_has_pending_remote_break := pending_remote \<rparr>)"

definition relationship_event_step ::
  "pub_key \<Rightarrow> pub_key option \<Rightarrow> invitation_record list
    \<Rightarrow> projected_relationship list \<Rightarrow> event \<Rightarrow> projected_relationship list" where
  "relationship_event_step owner local_transport invitation_records projected e =
    (case ev_kind e of
       RelationshipEstablished \<Rightarrow>
         (case established_relationship owner local_transport invitation_records e of
            None \<Rightarrow> projected
          | Some relationship \<Rightarrow>
              if list_ex (same_key (pr_peer_pubkey relationship) (pr_own_starter_id relationship))
                   projected
              then update_first
                (same_key (pr_peer_pubkey relationship) (pr_own_starter_id relationship))
                (\<lambda>_. relationship) projected
              else projected @ [relationship])
     | RelationshipBroken \<Rightarrow>
         (case ok (relationship_broken_from_bytes (ev_payload e)) of
            None \<Rightarrow> projected
          | Some broken \<Rightarrow>
              update_first (same_key (brk_peer_pubkey broken) (brk_own_starter_id broken))
                (apply_break owner local_transport e broken) projected)
     | _ \<Rightarrow> projected)"

definition projected_relationships ::
  "ledger \<Rightarrow> pub_key option \<Rightarrow> projected_relationship list" where
  "projected_relationships l local_transport =
    foldl (relationship_event_step (l_owner l) local_transport (invitations_with_status l)) []
      (l_events l)"

section \<open>The current view\<close>

record relationship_current_item =
  ri_peer_pubkey :: b32
  ri_peer_root_pubkey :: "b32 option"
  ri_peer_identity :: b32
  ri_own_starter_id :: b32
  ri_peer_starter_id :: b32
  ri_starter_kind :: u8
  ri_established_at :: u64
  ri_status :: string

record relationship_current_view =
  rv_schema :: string
  rv_version :: "16 word"
  rv_ledger_version :: nat
  rv_active_peer_count :: nat
  rv_relationships :: "relationship_current_item list"

text \<open>\<open>sort_by(|l, r| r.established_at.cmp(&l.established_at))\<close>: stable, newest first.\<close>

definition newest_first :: "projected_relationship list \<Rightarrow> projected_relationship list" where
  "newest_first rs = sort_key (\<lambda>r. - uint (as_u64 (pr_established_at r))) rs"

definition transport_roots :: "projected_relationship list \<Rightarrow> (pub_key \<times> pub_key) list" where
  "transport_roots rs =
    List.map_filter (\<lambda>r. map_option (\<lambda>root. (pr_peer_pubkey r, root)) (pr_peer_root_pubkey r)) rs"

definition peer_identity_of :: "(pub_key \<times> pub_key) list \<Rightarrow> projected_relationship \<Rightarrow> pub_key" where
  "peer_identity_of roots r =
    unwrap_or (or_else (pr_peer_root_pubkey r)
      (find_map (\<lambda>(transport, root). if transport = pr_peer_pubkey r then Some root else None)
        roots))
      (pr_peer_pubkey r)"

definition relationship_status_text :: "projected_relationship \<Rightarrow> string" where
  "relationship_status_text r =
    (if pr_has_pending_remote_break r then ''pending_remote_break''
     else if pr_is_active r then ''active'' else ''broken'')"

definition relationship_current_item_of ::
  "(pub_key \<times> pub_key) list \<Rightarrow> projected_relationship \<Rightarrow> relationship_current_item" where
  "relationship_current_item_of roots r =
    \<lparr> ri_peer_pubkey = pub_key_as_bytes (pr_peer_pubkey r),
      ri_peer_root_pubkey = map_option pub_key_as_bytes (pr_peer_root_pubkey r),
      ri_peer_identity = pub_key_as_bytes (peer_identity_of roots r),
      ri_own_starter_id = starter_id_as_bytes (pr_own_starter_id r),
      ri_peer_starter_id = starter_id_as_bytes (pr_peer_starter_id r),
      ri_starter_kind = starter_kind_to_byte (pr_kind r),
      ri_established_at = as_u64 (pr_established_at r),
      ri_status = relationship_status_text r \<rparr>"

text \<open>The vector \<open>active_peers\<close> the final loop collects.\<close>

definition active_peers :: "projected_relationship list \<Rightarrow> pub_key list" where
  "active_peers rs =
    foldl (\<lambda>peers r. if pr_is_active r
        then push_unique peers (peer_identity_of (transport_roots rs) r) else peers) [] rs"

definition relationship_current_view_v1 ::
  "ledger \<Rightarrow> pub_key option \<Rightarrow> relationship_current_view" where
  "relationship_current_view_v1 l local_transport =
    (let projected = newest_first (projected_relationships l local_transport)
     in \<lparr> rv_schema = ''hivra.relationship_current_view'', rv_version = 1,
          rv_ledger_version = length (l_events l),
          rv_active_peer_count = length (active_peers projected),
          rv_relationships =
            map (relationship_current_item_of (transport_roots projected)) projected \<rparr>)"

section \<open>The collection\<close>

record relationship =
  re_peer :: pub_key
  re_own_starter_id :: starter_id
  re_peer_starter_id :: starter_id
  re_kind :: starter_kind
  re_established_at :: timestamp

definition relationship_new ::
  "pub_key \<Rightarrow> starter_id \<Rightarrow> starter_id \<Rightarrow> starter_kind \<Rightarrow> timestamp \<Rightarrow> relationship" where
  "relationship_new peer own_starter_id peer_starter_id kind established_at =
    \<lparr> re_peer = peer, re_own_starter_id = own_starter_id, re_peer_starter_id = peer_starter_id,
      re_kind = kind, re_established_at = established_at \<rparr>"

definition involves_starter :: "relationship \<Rightarrow> starter_id \<Rightarrow> bool" where
  "involves_starter r starter_id \<longleftrightarrow>
    re_own_starter_id r = starter_id \<or> re_peer_starter_id r = starter_id"

definition is_with_peer :: "relationship \<Rightarrow> pub_key \<Rightarrow> bool" where
  "is_with_peer r peer \<longleftrightarrow> re_peer r = peer"

record relationships =
  rs_active :: "relationship list"

definition relationships_new :: relationships where
  "relationships_new = \<lparr> rs_active = [] \<rparr>"

definition with_peer :: "relationships \<Rightarrow> pub_key \<Rightarrow> relationship list" where
  "with_peer rs peer = filter (\<lambda>r. is_with_peer r peer) (rs_active rs)"

definition for_starter :: "relationships \<Rightarrow> starter_id \<Rightarrow> relationship list" where
  "for_starter rs starter_id = filter (\<lambda>r. re_own_starter_id r = starter_id) (rs_active rs)"

definition of_kind :: "relationships \<Rightarrow> starter_kind \<Rightarrow> relationship list" where
  "of_kind rs kind = filter (\<lambda>r. re_kind r = kind) (rs_active rs)"

definition relationships_add :: "relationships \<Rightarrow> relationship \<Rightarrow> bool \<times> relationships" where
  "relationships_add rs relationship =
    (if list_ex (\<lambda>r. re_peer r = re_peer relationship
           \<and> re_own_starter_id r = re_own_starter_id relationship) (rs_active rs)
     then (False, rs)
     else (True, rs\<lparr> rs_active := rs_active rs @ [relationship] \<rparr>))"

definition relationships_remove ::
  "relationships \<Rightarrow> pub_key \<Rightarrow> starter_id \<Rightarrow> relationship option \<times> relationships" where
  "relationships_remove rs peer own_starter_id =
    (case position (\<lambda>r. is_with_peer r peer \<and> re_own_starter_id r = own_starter_id) (rs_active rs) of
       None \<Rightarrow> (None, rs)
     | Some idx \<Rightarrow> (Some (rs_active rs ! idx),
         rs\<lparr> rs_active := take idx (rs_active rs) @ drop (Suc idx) (rs_active rs) \<rparr>))"

text \<open>\<open>retain\<close> with a closure that collects what it drops.\<close>

definition remove_all_for_starter ::
  "relationships \<Rightarrow> starter_id \<Rightarrow> relationship list \<times> relationships" where
  "remove_all_for_starter rs starter_id =
    (filter (\<lambda>r. involves_starter r starter_id) (rs_active rs),
     rs\<lparr> rs_active := filter (\<lambda>r. \<not> involves_starter r starter_id) (rs_active rs) \<rparr>)"

definition remove_all_with_peer ::
  "relationships \<Rightarrow> pub_key \<Rightarrow> relationship list \<times> relationships" where
  "remove_all_with_peer rs peer =
    (filter (\<lambda>r. is_with_peer r peer) (rs_active rs),
     rs\<lparr> rs_active := filter (\<lambda>r. \<not> is_with_peer r peer) (rs_active rs) \<rparr>)"

definition relationship_exists :: "relationships \<Rightarrow> pub_key \<Rightarrow> starter_id \<Rightarrow> bool" where
  "relationship_exists rs peer own_starter_id \<longleftrightarrow>
    list_ex (\<lambda>r. is_with_peer r peer \<and> re_own_starter_id r = own_starter_id) (rs_active rs)"

definition relationships_len :: "relationships \<Rightarrow> nat" where
  "relationships_len rs = length (rs_active rs)"

definition relationships_is_empty :: "relationships \<Rightarrow> bool" where
  "relationships_is_empty rs \<longleftrightarrow> rs_active rs = []"

section \<open>One automaton per relationship\<close>

definition relationship_key :: "projected_relationship \<Rightarrow> pub_key \<times> starter_id" where
  "relationship_key r = (pr_peer_pubkey r, pr_own_starter_id r)"

definition established_of ::
  "pub_key \<Rightarrow> pub_key option \<Rightarrow> invitation_record list \<Rightarrow> event \<Rightarrow> projected_relationship option" where
  "established_of owner transport records e =
    (if ev_kind e = RelationshipEstablished
     then established_relationship owner transport records e else None)"

definition broken_of ::
  "pub_key \<Rightarrow> pub_key option \<Rightarrow> event
    \<Rightarrow> ((pub_key \<times> starter_id) \<times> (projected_relationship \<Rightarrow> projected_relationship)) option" where
  "broken_of owner transport e =
    (if ev_kind e = RelationshipBroken
     then map_option (\<lambda>b. ((brk_peer_pubkey b, brk_own_starter_id b),
            apply_break owner transport e b))
          (ok (relationship_broken_from_bytes (ev_payload e)))
     else None)"

text \<open>A relationship is what the last \<open>Established\<close> of its key says, updated by the later
  \<open>Broken\<close> events of its key.\<close>

definition relationship_automaton ::
  "pub_key \<Rightarrow> pub_key option \<Rightarrow> invitation_record list \<Rightarrow> pub_key \<times> starter_id
    \<Rightarrow> projected_relationship option \<Rightarrow> event \<Rightarrow> projected_relationship option" where
  "relationship_automaton owner transport records k r e =
    (case established_of owner transport records e of
       Some r' \<Rightarrow> if relationship_key r' = k then Some r' else r
     | None \<Rightarrow>
         (case broken_of owner transport e of
            Some (j, f) \<Rightarrow> if j = k then map_option f r else r
          | None \<Rightarrow> r))"

lemma same_key_iff [simp]: "same_key p s r \<longleftrightarrow> relationship_key r = (p, s)"
  by (simp add: same_key_def relationship_key_def)

lemma apply_break_key [simp]:
  "relationship_key (apply_break owner transport e b r) = relationship_key r"
  by (simp add: apply_break_def relationship_key_def Let_def)

lemma relationship_event_step_eq:
  "relationship_event_step owner transport records rs e
    = keyed_step relationship_key (established_of owner transport records)
        (\<lambda>e _. the (established_of owner transport records e)) (broken_of owner transport) rs e"
proof -
  have "(pr_peer_pubkey r, pr_own_starter_id r) = relationship_key r" for r
    by (simp add: relationship_key_def)
  then show ?thesis
    by (simp add: relationship_event_step_def keyed_step_def established_of_def broken_of_def
        same_key_iff [abs_def] split: event_kind.splits option.splits)
qed

interpretation relationship_projection: keyed_projection relationship_key
  "established_of owner transport records"
  "\<lambda>e _. the (established_of owner transport records e)" "broken_of owner transport"
  "relationship_event_step owner transport records"
  by unfold_locales
    (auto simp: relationship_event_step_eq broken_of_def split: if_splits)

lemma relationship_automaton_eq:
  "relationship_automaton owner transport records k = keyed_automaton relationship_key
      (established_of owner transport records)
      (\<lambda>e _. the (established_of owner transport records e)) (broken_of owner transport) k"
  by (intro ext) (auto simp: relationship_automaton_def keyed_automaton_def split: option.splits)

text \<open>C30: The projected relationships are a family of independent automata: at most one record
  per (peer key, own starter), and that record is what the automaton of its key makes of the
  events.\<close>

theorem relationships_are_independent_automata:
  "distinct (map relationship_key (projected_relationships l transport))
    \<and> map_of (map (\<lambda>r. (relationship_key r, r)) (projected_relationships l transport)) k
      = foldl (relationship_automaton (l_owner l) transport (invitations_with_status l) k) None
          (l_events l)"
  by (simp add: projected_relationships_def relationship_automaton_eq
      relationship_projection.fold_distinct relationship_projection.fold_lookup)

section \<open>Ending a relationship\<close>

definition local_break :: "pub_key \<Rightarrow> pub_key option \<Rightarrow> event \<Rightarrow> bool" where
  "local_break owner transport e \<longleftrightarrow> ev_signer e = owner \<or> transport = Some (ev_signer e)"

definition peer_break :: "event \<Rightarrow> relationship_broken_payload \<Rightarrow> projected_relationship \<Rightarrow> bool" where
  "peer_break e b r \<longleftrightarrow> ev_signer e = pr_peer_pubkey r
    \<or> brk_peer_root_pubkey b = Some (ev_signer e) \<and> pr_peer_root_pubkey r = Some (ev_signer e)"

text \<open>Who ends a relationship: a break dated before the relationship, or signed by neither
  side, changes nothing; one signed locally breaks it at once; one signed by the peer only marks
  an active relationship as pending, to be confirmed locally, and never revives a broken one. The
  keys, kind and time of the relationship are untouched.\<close>

theorem relationship_break_outcome:
  "relationship_status_text (apply_break owner transport e b r) =
      (if ev_timestamp e < pr_established_at r then relationship_status_text r
       else if local_break owner transport e then ''broken''
       else if peer_break e b r \<and> relationship_status_text r \<noteq> ''broken''
         then ''pending_remote_break''
       else relationship_status_text r)
    \<and> (apply_break owner transport e b r)\<lparr> pr_is_active := pr_is_active r,
         pr_has_pending_remote_break := pr_has_pending_remote_break r \<rparr> = r"
  by (cases r) (auto simp: apply_break_def relationship_status_text_def local_break_def
      peer_break_def Let_def)

section \<open>The view\<close>

lemma newest_first_set [simp]: "set (newest_first rs) = set rs"
  by (simp add: newest_first_def)

lemma pending_break_is_active:
  "\<forall>r\<in>set (projected_relationships l transport). pr_has_pending_remote_break r \<longrightarrow> pr_is_active r"
  unfolding projected_relationships_def
proof (rule relationship_projection.fold_all)
  fix e r assume "established_of (l_owner l) transport (invitations_with_status l) e = Some r"
  then show "pr_has_pending_remote_break r \<longrightarrow> pr_is_active r"
    by (auto simp: established_of_def established_relationship_def orient_established_def Let_def
        split: if_splits option.splits)
next
  fix e :: event and k f and x :: projected_relationship
  assume "broken_of (l_owner l) transport e = Some (k, f)"
    and "pr_has_pending_remote_break x \<longrightarrow> pr_is_active x"
  then show "pr_has_pending_remote_break (f x) \<longrightarrow> pr_is_active (f x)"
    by (auto simp: broken_of_def apply_break_def Let_def split: if_splits)
qed (auto simp: established_of_def established_relationship_def orient_established_def Let_def
        split: if_splits option.splits)

lemma active_peers_eq:
  "distinct (active_peers rs)
    \<and> set (active_peers rs) = peer_identity_of (transport_roots rs) ` {r \<in> set rs. pr_is_active r}"
proof -
  have "distinct ps \<longrightarrow> distinct (foldl (\<lambda>peers r. if pr_is_active r
        then push_unique peers (g r) else peers) ps xs)"
    and "set (foldl (\<lambda>peers r. if pr_is_active r then push_unique peers (g r) else peers) ps xs)
      = set ps \<union> g ` {r \<in> set xs. pr_is_active r}" for g :: "projected_relationship \<Rightarrow> pub_key" and ps xs
    by (induction xs arbitrary: ps) auto
  then show ?thesis by (simp add: active_peers_def)
qed

text \<open>The relationship view: newest relationships first, and the number of active peers is
  the number of distinct peer identities among the items not shown as broken.\<close>

theorem relationship_view_correct:
  "sorted (rev (map ri_established_at (rv_relationships (relationship_current_view_v1 l transport))))
    \<and> rv_active_peer_count (relationship_current_view_v1 l transport)
      = card (ri_peer_identity ` {i \<in> set (rv_relationships (relationship_current_view_v1 l transport)).
          ri_status i \<noteq> ''broken''})"
proof -
  define rs where "rs = newest_first (projected_relationships l transport)"
  let ?item = "relationship_current_item_of (transport_roots rs)"
  have items: "rv_relationships (relationship_current_view_v1 l transport) = map ?item rs"
    by (simp add: relationship_current_view_v1_def rs_def Let_def)
  have "sorted (map (\<lambda>r. - uint (as_u64 (pr_established_at r))) rs)"
    by (simp add: rs_def newest_first_def)
  then have "sorted_wrt (\<lambda>r r'. as_u64 (pr_established_at r') \<le> as_u64 (pr_established_at r)) rs"
    by (simp add: sorted_map word_le_def)
  then have sorted: "sorted (rev (map ri_established_at (map ?item rs)))"
    by (simp add: relationship_current_item_of_def comp_def sorted_wrt_rev sorted_wrt_map
        rev_map [symmetric])
  have active: "ri_status (?item r) \<noteq> ''broken'' \<longleftrightarrow> pr_is_active r" if "r \<in> set rs" for r
    using that pending_break_is_active [of l transport]
    by (auto simp: relationship_current_item_of_def relationship_status_text_def rs_def)
  have "ri_peer_identity ` {i \<in> set (map ?item rs). ri_status i \<noteq> ''broken''}
      = pub_key_as_bytes ` (peer_identity_of (transport_roots rs) ` {r \<in> set rs. pr_is_active r})"
    using active by (auto simp: relationship_current_item_of_def image_iff) force+
  also have "card \<dots> = length (active_peers rs)"
    using active_peers_eq [of rs]
    by (metis card_image distinct_card inj_on_def pub_key.expand)
  finally show ?thesis
    using sorted by (simp add: items) (simp add: relationship_current_view_v1_def rs_def Let_def)
qed

section \<open>The collection is a map\<close>

definition collection_key :: "relationship \<Rightarrow> pub_key \<times> starter_id" where
  "collection_key r = (re_peer r, re_own_starter_id r)"

definition collection_map :: "relationships \<Rightarrow> (pub_key \<times> starter_id) \<rightharpoonup> relationship" where
  "collection_map rs = map_of (map (\<lambda>r. (collection_key r, r)) (rs_active rs))"

text \<open>The operations that change the collection.\<close>

datatype collection_op =
    Add relationship
  | Remove pub_key starter_id
  | RemoveAllForStarter starter_id
  | RemoveAllWithPeer pub_key

fun collection_step :: "relationships \<Rightarrow> collection_op \<Rightarrow> relationships" where
  "collection_step rs (Add r) = snd (relationships_add rs r)"
| "collection_step rs (Remove p s) = snd (relationships_remove rs p s)"
| "collection_step rs (RemoveAllForStarter s) = snd (remove_all_for_starter rs s)"
| "collection_step rs (RemoveAllWithPeer p) = snd (remove_all_with_peer rs p)"

definition restrict_values :: "('r \<Rightarrow> bool) \<Rightarrow> ('k \<rightharpoonup> 'r) \<Rightarrow> ('k \<rightharpoonup> 'r)" where
  "restrict_values P m = (\<lambda>k. case m k of Some r \<Rightarrow> if P r then Some r else None | None \<Rightarrow> None)"

fun collection_spec_step ::
  "((pub_key \<times> starter_id) \<rightharpoonup> relationship) \<Rightarrow> collection_op \<Rightarrow> ((pub_key \<times> starter_id) \<rightharpoonup> relationship)"
  where
  "collection_spec_step m (Add r) =
    (if m (collection_key r) = None then m(collection_key r \<mapsto> r) else m)"
| "collection_spec_step m (Remove p s) = m((p, s) := None)"
| "collection_spec_step m (RemoveAllForStarter s) = restrict_values (\<lambda>r. \<not> involves_starter r s) m"
| "collection_spec_step m (RemoveAllWithPeer p) = restrict_values (\<lambda>r. \<not> is_with_peer r p) m"

definition collection_inv :: "relationships \<Rightarrow> bool" where
  "collection_inv rs \<longleftrightarrow> distinct (map collection_key (rs_active rs))"

lemma map_of_filter_keyed:
  assumes "distinct (map key xs)"
  shows "map_of (map (\<lambda>r. (key r, r)) (filter P xs))
    = restrict_values P (map_of (map (\<lambda>r. (key r, r)) xs))"
proof (rule ext)
  fix k
  show "map_of (map (\<lambda>r. (key r, r)) (filter P xs)) k
      = restrict_values P (map_of (map (\<lambda>r. (key r, r)) xs)) k"
    using assms by (induction xs) (force simp: restrict_values_def map_of_eq_None_iff
        split: option.splits dest: map_of_SomeD)+
qed

text \<open>Removing at the position of a key that occurs once removes the key.\<close>

lemma remove_position_keyed:
  assumes "distinct (map key xs)" and "position (\<lambda>x. key x = k) xs = Some i"
  shows "take i xs @ drop (Suc i) xs = filter (\<lambda>x. key x \<noteq> k) xs"
  using assms
proof (induction xs arbitrary: i)
  case (Cons x xs)
  show ?case
  proof (cases "key x = k")
    case True
    with Cons.prems have "i = 0" "k \<notin> key ` set xs" by auto
    then have "i = 0" "\<forall>y\<in>set xs. key y \<noteq> k" by blast+
    with True show ?thesis by (simp add: filter_id_conv)
  next
    case False
    with Cons show ?thesis by auto
  qed
qed simp

lemma collection_remove_eq:
  assumes "collection_inv rs"
  shows "rs_active (snd (relationships_remove rs p s))
    = filter (\<lambda>r. collection_key r \<noteq> (p, s)) (rs_active rs)"
proof -
  have pred: "(\<lambda>r. is_with_peer r p \<and> re_own_starter_id r = s) = (\<lambda>r. collection_key r = (p, s))"
    by (simp add: collection_key_def is_with_peer_def)
  show ?thesis
  proof (cases "position (\<lambda>r. collection_key r = (p, s)) (rs_active rs)")
    case None
    then have "filter (\<lambda>r. collection_key r \<noteq> (p, s)) (rs_active rs) = rs_active rs"
      by (simp add: position_None filter_id_conv)
    with None show ?thesis
      by (simp add: relationships_remove_def pred)
  next
    case (Some i)
    then show ?thesis
      using remove_position_keyed [OF assms [unfolded collection_inv_def] Some]
      by (simp add: relationships_remove_def pred)
  qed
qed

lemma collection_map_SomeD: "collection_map rs k = Some r \<Longrightarrow> collection_key r = k"
  by (auto simp: collection_map_def map_of_find dest: find_SomeD)

lemma collection_step_refines:
  assumes inv: "collection_inv rs"
  shows "collection_inv (collection_step rs op)
    \<and> collection_map (collection_step rs op) = collection_spec_step (collection_map rs) op"
proof (cases op)
  case (Add r)
  have present: "list_ex (\<lambda>x. re_peer x = re_peer r \<and> re_own_starter_id x = re_own_starter_id r)
      (rs_active rs) \<longleftrightarrow> collection_map rs (collection_key r) \<noteq> None"
    by (simp add: collection_map_def map_of_find find_None_iff list_ex_iff collection_key_def) blast
  show ?thesis
  proof (cases "collection_map rs (collection_key r)")
    case None
    then have "collection_key r \<notin> collection_key ` set (rs_active rs)"
      by (auto simp: collection_map_def map_of_eq_None_iff image_image)
    with None inv present show ?thesis
      by (auto simp: Add relationships_add_def collection_map_def collection_inv_def
          map_add_def fun_eq_iff split: option.splits)
  next
    case Some
    with inv present show ?thesis
      by (simp add: Add relationships_add_def)
  qed
next
  case (Remove p s)
  have "restrict_values (\<lambda>r. collection_key r \<noteq> (p, s)) (collection_map rs)
      = (collection_map rs)((p, s) := None)"
    by (rule ext) (auto simp: restrict_values_def split: option.splits dest: collection_map_SomeD)
  with inv show ?thesis
    by (simp add: Remove collection_inv_def collection_remove_eq collection_map_def
        map_of_filter_keyed distinct_map_filter)
next
  case (RemoveAllForStarter s)
  with inv show ?thesis
    by (simp add: remove_all_for_starter_def collection_inv_def collection_map_def
        map_of_filter_keyed distinct_map_filter)
next
  case (RemoveAllWithPeer p)
  with inv show ?thesis
    by (simp add: remove_all_with_peer_def collection_inv_def collection_map_def
        map_of_filter_keyed distinct_map_filter)
qed

text \<open>The collection \<open>Relationships\<close>, after any sequence of its operations, holds at most
  one relationship per (peer, own starter) and represents the partial map that the abstract
  operations build: \<open>add\<close> keeps an existing entry, \<open>remove\<close> deletes one key, the bulk removals
  delete the entries of a starter or of a peer.\<close>

theorem relationships_refine_map:
  "distinct (map collection_key (rs_active (foldl collection_step relationships_new ops)))
    \<and> collection_map (foldl collection_step relationships_new ops)
      = foldl collection_spec_step Map.empty ops"
proof -
  have "collection_inv (foldl collection_step relationships_new ops)
      \<and> collection_map (foldl collection_step relationships_new ops)
        = foldl collection_spec_step (collection_map relationships_new) ops"
    by (rule foldl_refines) (auto simp: collection_step_refines,
      simp add: collection_inv_def relationships_new_def)
  then show ?thesis
    by (simp add: collection_inv_def collection_map_def relationships_new_def)
qed

end
