(* ===== verification/Replay_Boundaries.thy ===== *)
theory Replay_Boundaries
  imports Relationship
begin

text \<open>
  The slot projection (\<open>slot.rs\<close>) and the invitation projection (\<open>invitation.rs\<close>) replay the
  same invitation events with different rules. This theory exhibits ledgers on which they
  disagree: \<open>locked_starter_ids\<close> and \<open>revoked_created_starter_ids\<close> look at neither the signer of
  an expiry nor the order of offer, expiry and acceptance, which \<open>invitations_with_status\<close> does.
\<close>

section \<open>Sample events\<close>

definition me :: pub_key where "me = PubKey (bfill 1)"
definition peer :: pub_key where "peer = PubKey (bfill 2)"
definition my_starter :: starter_id where "my_starter = StarterId (bfill 10)"
definition offer_id :: b32 where "offer_id = bfill 20"

definition sample :: "event_kind \<Rightarrow> u8 list \<Rightarrow> pub_key \<Rightarrow> event" where
  "sample kind payload signer = event_new_v5 kind payload (Timestamp 0) (Signature (bfill 0)) signer"

definition created_event :: event where
  "created_event = sample StarterCreated (starter_created_to_bytes
    \<lparr> cr_starter_id = my_starter, cr_nonce = bfill 0, cr_kind = Juice, cr_network = 1 \<rparr>) me"

definition offer_payload :: "pub_key \<Rightarrow> u8 list" where
  "offer_payload to_key = invitation_sent_to_bytes
    \<lparr> sent_invitation_id = offer_id, sent_starter_id = my_starter, sent_to_pubkey = to_key,
       sent_sender_root_pubkey = None \<rparr>"

definition accepted_event :: event where
  "accepted_event = sample InvitationAccepted (invitation_accepted_to_bytes
    \<lparr> acc_invitation_id = offer_id, acc_from_pubkey = peer, acc_created_starter_id = my_starter,
       acc_accepter_root_pubkey = None \<rparr>) me"

definition expired_event :: "pub_key \<Rightarrow> event" where
  "expired_event signer = sample InvitationExpired (invitation_expired_to_bytes
    \<lparr> exp_invitation_id = offer_id \<rparr>) signer"

definition ledger_of :: "event list \<Rightarrow> ledger" where
  "ledger_of es = \<lparr> l_events = es, l_owner = me, l_last_hash = 0, l_continuity_v5 = None \<rparr>"

lemmas sample_defs = created_event_def accepted_event_def expired_event_def
  sample_def ledger_of_def

lemma keys_differ [simp]: "peer \<noteq> me" "me \<noteq> peer"
  by (simp_all add: me_def peer_def)

lemmas slot_run = slot_spec_def slot_spec_step_def revoked_created_starter_ids_def
  expired_step_def revoked_step_def sender_signed_offer_def Let_def
lemmas layout_run = slot_states_def layout_from_ledger_def locked_starter_ids_def pending_step_def
  clear_pending_def occupied_from_ledger_def slot_step_def layout_empty_def occupy_first_free_def
  lock_starter_def is_empty_slot_def layout_ids_def List.map_filter_simps
lemmas invitation_run = find_invitation_eq invitation_automaton_def offer_of_def answer_of_def
  terminal_status_def apply_terminal_def respond_def valid_expiry_signer_def offered_record_def

lemma offer_payload_prefix [simp]:
  "32 \<le> length (offer_payload k)" "take 32 (offer_payload k) = bytes offer_id"
  by (simp_all add: offer_payload_def invitation_sent_to_bytes_def)

lemma offer_payload_read [simp]:
  "ok (invitation_sent_from_bytes (offer_payload k)) = Some
    \<lparr> sent_invitation_id = offer_id, sent_starter_id = my_starter, sent_to_pubkey = k,
       sent_sender_root_pubkey = None \<rparr>"
  by (simp add: offer_payload_def)

lemma flatten_empty [simp]: "List.map_filter id (replicate n None) = []"
  using map_filter_id_padded [of "[]" n] by simp

text \<open>An expiry signed by a stranger does not answer an outgoing offer, yet it releases the
  lock: the invitation stays pending while its starter is shown occupied, free to be offered
  again.\<close>

theorem foreign_expiry_unlocks_pending_offer:
  "map_option ir_status (find_invitation (ledger_of [created_event,
        sample InvitationSent (offer_payload peer) me, expired_event peer]) offer_id) = Some Pending
    \<and> slot_states (layout_from_ledger (ledger_of [created_event,
        sample InvitationSent (offer_payload peer) me, expired_event peer])) ! 0 = Occupied my_starter
    \<and> slot_states (layout_from_ledger (ledger_of [created_event,
        sample InvitationSent (offer_payload peer) me])) ! 0 = Locked my_starter"
proof (intro conjI)
  show "map_option ir_status (find_invitation (ledger_of [created_event,
        sample InvitationSent (offer_payload peer) me, expired_event peer]) offer_id) = Some Pending"
    by (simp add: sample_defs invitation_run Let_def)
qed (simp_all add: sample_defs slot_run layout_run)

text \<open>An expiry that stands before the offer and the acceptance is ignored by the invitation
  projection (the invitation is accepted), but it revokes the starter: the slot is empty although
  the starter was created, never burned, and the acceptance is valid.\<close>

theorem orphan_expiry_revokes_starter:
  "map_option (is_accepted \<circ> ir_status) (find_invitation (ledger_of [created_event,
        expired_event peer, sample InvitationReceived (offer_payload me) peer, accepted_event])
      offer_id) = Some True
    \<and> slot_spec (ledger_of [created_event, expired_event peer,
        sample InvitationReceived (offer_payload me) peer, accepted_event]) = {}
    \<and> slot_spec (ledger_of [created_event,
        sample InvitationReceived (offer_payload me) peer, accepted_event]) = {my_starter}"
proof (intro conjI)
  show "map_option (is_accepted \<circ> ir_status) (find_invitation (ledger_of [created_event,
        expired_event peer, sample InvitationReceived (offer_payload me) peer, accepted_event])
      offer_id) = Some True"
    by (simp add: sample_defs invitation_run Let_def)
qed (simp_all add: sample_defs slot_run)

definition established_fields :: relationship_established_payload where
  "established_fields =
    \<lparr> est_peer_pubkey = peer, est_own_starter_id = my_starter, est_peer_starter_id = my_starter,
       est_kind = Juice, est_invitation_id = offer_id, est_sender_pubkey = peer,
       est_sender_starter_type = Juice, est_sender_starter_id = my_starter,
       est_peer_root_pubkey = None, est_sender_root_pubkey = None \<rparr>"

definition established_event :: event where
  "established_event =
    sample RelationshipEstablished (relationship_established_to_bytes established_fields) me"

lemma established_fields_read [simp]:
  "ok (relationship_established_from_bytes (relationship_established_to_bytes established_fields))
    = Some established_fields"
  "length (relationship_established_to_bytes established_fields) \<noteq> 97"
  using relationship_established_codec.to_bytes_length [of established_fields]
  by (auto simp: established_canonical_def established_fields_def)

lemma established_sel:
  "est_peer_pubkey established_fields = peer" "est_peer_root_pubkey established_fields = None"
  "est_sender_root_pubkey established_fields = None"
  "est_invitation_id established_fields = offer_id"
  by (simp_all add: established_fields_def)

text \<open>A relationship whose invitation is still pending is projected as active: the loop of
  \<open>relationship_current_view_v1\<close> skips the fact only when its invitation was rejected or expired.\<close>

theorem pending_invitation_relationship_is_active:
  "invitation_status_of (ledger_of
        [sample InvitationReceived (offer_payload me) peer, established_event]) offer_id = Pending
    \<and> map relationship_status_text (projected_relationships (ledger_of
        [sample InvitationReceived (offer_payload me) peer, established_event]) None) = [''active'']"
proof
  show "invitation_status_of (ledger_of
        [sample InvitationReceived (offer_payload me) peer, established_event]) offer_id = Pending"
    by (simp add: invitation_status_of_def unwrap_or_def sample_defs established_event_def
        invitation_run Let_def)
  have records: "invitations_with_status (ledger_of
      [sample InvitationReceived (offer_payload me) peer, established_event])
    = [offered_record (sample InvitationReceived (offer_payload me) peer)
        \<lparr> sent_invitation_id = offer_id, sent_starter_id = my_starter, sent_to_pubkey = me,
           sent_sender_root_pubkey = None \<rparr>]"
    by (simp add: invitations_with_status_def invitation_event_step_eq sample_defs
        established_event_def offer_of_def answer_of_def terminal_status_def)
  show "map relationship_status_text (projected_relationships (ledger_of
        [sample InvitationReceived (offer_payload me) peer, established_event]) None) = [''active'']"
    unfolding projected_relationships_def records
    by (simp add: ledger_of_def sample_def established_event_def relationship_event_step_def
        established_relationship_def parse_established_fact_def orient_established_def
        swap_to_sender_def relationship_status_text_def offered_record_def invitation_peer_root_def
        established_sel Let_def)
qed

end
