(* ===== verification/Starter_Capsule.thy ===== *)
theory Starter_Capsule
  imports Relationship
begin

text \<open>
  \<open>core/hivra-core/src/starter.rs\<close> and \<open>core/hivra-core/src/capsule.rs\<close>: the starter entity with
  its derived identifier, and the state a capsule hands to the foreign-function interface.

  The lemmas show what the derived identifier commits to, and that the capsule state reports the
  slot, kind and relationship projections.
\<close>

section \<open>Starters\<close>

datatype starter_state = Active | Burned

record starter =
  sr_id :: starter_id
  sr_owner :: pub_key
  sr_kind :: starter_kind
  sr_network :: network
  sr_origin_invitation :: "b32 option"
  sr_created_at :: timestamp
  sr_state :: starter_state

definition starter_new ::
  "starter_id \<Rightarrow> pub_key \<Rightarrow> starter_kind \<Rightarrow> network \<Rightarrow> b32 option \<Rightarrow> timestamp \<Rightarrow> starter" where
  "starter_new i owner kind network origin_invitation created_at =
    \<lparr> sr_id = i, sr_owner = owner, sr_kind = kind, sr_network = network,
      sr_origin_invitation = origin_invitation, sr_created_at = created_at, sr_state = Active \<rparr>"

text \<open>What \<open>derive_id\<close> feeds to SHA-256 (the parameter \<open>H\<close>).\<close>

definition derive_id_preimage ::
  "pub_key \<Rightarrow> starter_kind \<Rightarrow> network \<Rightarrow> b32 \<Rightarrow> u8 list" where
  "derive_id_preimage owner kind network nonce =
    bytes (pub_key_as_bytes owner) @ [network_to_byte network] @ [starter_kind_to_byte kind]
    @ bytes nonce"

definition derive_id ::
  "(u8 list \<Rightarrow> b32) \<Rightarrow> pub_key \<Rightarrow> starter_kind \<Rightarrow> network \<Rightarrow> b32 \<Rightarrow> starter_id" where
  "derive_id H owner kind network nonce = StarterId (H (derive_id_preimage owner kind network nonce))"

definition is_active :: "starter \<Rightarrow> bool" where
  "is_active s \<longleftrightarrow> sr_state s = Active"

definition starter_burn :: "starter \<Rightarrow> starter" where
  "starter_burn s = s\<lparr> sr_state := Burned \<rparr>"

lemma network_to_byte_inject [simp]: "network_to_byte a = network_to_byte b \<longleftrightarrow> a = b"
  by (cases a; cases b) simp_all

lemma derive_id_preimage_inject:
  "derive_id_preimage o1 k1 n1 c1 = derive_id_preimage o2 k2 n2 c2
    \<longleftrightarrow> o1 = o2 \<and> k1 = k2 \<and> n1 = n2 \<and> c1 = c2"
  by (auto simp: derive_id_preimage_def append_eq_append_conv intro: pub_key.expand)

text \<open>A derived starter identifier commits to owner, kind, network and nonce: two starters
  have the same identifier exactly when all four agree, for every hash function without a
  collision on the two derivations.\<close>

theorem derived_starter_id_binds_fields:
  "(derive_id H o1 k1 n1 c1 = derive_id H o2 k2 n2 c2
      \<and> inj_on H {derive_id_preimage o1 k1 n1 c1, derive_id_preimage o2 k2 n2 c2})
    \<longleftrightarrow> o1 = o2 \<and> k1 = k2 \<and> n1 = n2 \<and> c1 = c2"
  by (auto simp: derive_id_def derive_id_preimage_inject [symmetric])

section \<open>Capsules\<close>

datatype capsule_type = Leaf | Relay

fun capsule_type_to_byte :: "capsule_type \<Rightarrow> u8" where
  "capsule_type_to_byte Leaf = 0"
| "capsule_type_to_byte Relay = 1"

record capsule =
  ca_pubkey :: pub_key
  ca_capsule_type :: capsule_type
  ca_network :: network
  ca_ledger :: ledger

record capsule_state =
  cs_public_key :: b32
  cs_capsule_type :: u8
  cs_network :: u8
  cs_slots :: "b32 option list"
  cs_ledger_hash :: u64
  cs_ledger_head_commitment :: "b32 option"
  cs_relationships_count :: u32
  cs_version :: u32
  cs_starter_kinds :: "u8 option list"

text \<open>\<open>usize.try_into().unwrap_or(u32::MAX)\<close>\<close>

definition count_relationships :: "ledger \<Rightarrow> u32" where
  "count_relationships l =
    (let n = rv_active_peer_count (relationship_current_view_v1 l None)
     in if n < 2 ^ 32 then of_nat n else -1)"

definition capsule_state_of :: "(u8 list \<Rightarrow> b32) \<Rightarrow> capsule \<Rightarrow> capsule_state" where
  "capsule_state_of H capsule =
    (let slot_layout = layout_from_ledger (ca_ledger capsule);
         slot_entries = entries_with_kinds slot_layout (ca_ledger capsule)
     in \<lparr> cs_public_key = pub_key_as_bytes (ca_pubkey capsule),
          cs_capsule_type = capsule_type_to_byte (ca_capsule_type capsule),
          cs_network = network_to_byte (ca_network capsule),
          cs_slots = map (map_option starter_id_as_bytes) (starter_ids slot_layout),
          cs_ledger_hash = l_last_hash (ca_ledger capsule),
          cs_ledger_head_commitment = head_commitment_v5 H (ca_ledger capsule),
          cs_relationships_count = count_relationships (ca_ledger capsule),
          cs_version = of_nat (length (l_events (ca_ledger capsule))),
          cs_starter_kinds =
            map (\<lambda>entry. map_option starter_kind_to_byte (se_starter_kind entry)) slot_entries \<rparr>)"

lemma starter_ids_eq: "starter_ids layout = map slot_starter (sl_slots layout)"
proof -
  have "(case st of Empty \<Rightarrow> None | Occupied i \<Rightarrow> Some i | Locked i \<Rightarrow> Some i) = slot_starter st" for st
    by (cases st) simp_all
  then show ?thesis by (simp add: starter_ids_def)
qed

text \<open>The capsule state reports the projections: five slots, exactly the live starters in
  them, and at every slot the kind of the starter it shows (none for an empty slot).\<close>

theorem capsule_state_reports_slots:
  "length (cs_slots (capsule_state_of H c)) = 5
    \<and> {i. Some i \<in> set (cs_slots (capsule_state_of H c))}
      = starter_id_as_bytes ` slot_spec (ca_ledger c)
    \<and> cs_starter_kinds (capsule_state_of H c)
      = map (\<lambda>slot. Option.bind slot (\<lambda>i. map_option starter_kind_to_byte
          (starter_kind_for_id (ca_ledger c) (StarterId i)))) (cs_slots (capsule_state_of H c))"
proof (intro conjI)
  let ?slots = "sl_slots (layout_from_ledger (ca_ledger c))"
  have slots: "cs_slots (capsule_state_of H c)
      = map (\<lambda>st. map_option starter_id_as_bytes (slot_starter st)) ?slots"
    by (simp add: capsule_state_of_def Let_def starter_ids_eq)
  then show "length (cs_slots (capsule_state_of H c)) = 5"
    by simp
  have live: "i \<in> slot_spec (ca_ledger c) \<longleftrightarrow> (\<exists>st\<in>set ?slots. slot_starter st = Some i)" for i
    by (simp only: slots_refine_bounded_set_ids mem_layout_ids)
  show "{i. Some i \<in> set (cs_slots (capsule_state_of H c))}
      = starter_id_as_bytes ` slot_spec (ca_ledger c)"
  proof (intro set_eqI iffI)
    fix x assume "x \<in> {i. Some i \<in> set (cs_slots (capsule_state_of H c))}"
    then obtain st i where "st \<in> set ?slots" "slot_starter st = Some i" "x = starter_id_as_bytes i"
      by (auto simp: slots dest!: sym [of "Some x"])
    then show "x \<in> starter_id_as_bytes ` slot_spec (ca_ledger c)"
      using live by blast
  next
    fix x assume "x \<in> starter_id_as_bytes ` slot_spec (ca_ledger c)"
    then obtain st i where "st \<in> set ?slots" "slot_starter st = Some i" "x = starter_id_as_bytes i"
      using live by blast
    then show "x \<in> {i. Some i \<in> set (cs_slots (capsule_state_of H c))}"
      by (simp add: slots image_iff) force
  qed
  have kind: "map_option starter_kind_to_byte (case st of Empty \<Rightarrow> None
        | Occupied i \<Rightarrow> starter_kind_for_id l i | Locked i \<Rightarrow> starter_kind_for_id l i)
      = Option.bind (map_option starter_id_as_bytes (slot_starter st)) (\<lambda>i.
          map_option starter_kind_to_byte (starter_kind_for_id l (StarterId i)))" for st l
    by (cases st) simp_all
  show "cs_starter_kinds (capsule_state_of H c)
      = map (\<lambda>slot. Option.bind slot (\<lambda>i. map_option starter_kind_to_byte
          (starter_kind_for_id (ca_ledger c) (StarterId i)))) (cs_slots (capsule_state_of H c))"
    by (rule nth_equalityI)
      (simp_all add: slots capsule_state_of_def starter_ids_eq Let_def entries_with_kinds_def kind)
qed

end
