(* ===== verification/History.thy ===== *)
theory History
  imports Relationship
begin

text \<open>
  \<open>core/hivra-core/src/history.rs\<close>: the history of one subject (an invitation, a starter or a
  relationship) as a filtered, summarised copy of the ledger.

  The lemmas show that the view lists the matching events once each and in ledger order, and that
  the history of an invitation is complete: replaying the events it lists gives the state of the
  invitation in the whole ledger.
\<close>

datatype history_subject_kind = InvitationSubject | StarterSubject | RelationshipSubject

record history_subject =
  hs_kind :: history_subject_kind
  hs_primary_id :: b32
  hs_secondary_id :: "b32 option"

record history_entry =
  he_ledger_index :: nat
  he_event_kind :: event_kind
  he_timestamp :: u64
  he_summary_code :: string
  he_summary_ids :: "b32 list"
  he_starter_kind :: "u8 option"
  he_reason :: "u8 option"

record history_view =
  hv_schema :: string
  hv_version :: "16 word"
  hv_ledger_version :: nat
  hv_subject :: history_subject
  hv_entries :: "history_entry list"

record history_summary =
  hy_code :: string
  hy_ids :: "b32 list"
  hy_starter_kind :: "u8 option"
  hy_reason :: "u8 option"

definition subject_matches :: "history_subject \<Rightarrow> b32 \<Rightarrow> bool" where
  "subject_matches subject value \<longleftrightarrow>
    hs_primary_id subject = value
    \<or> (case hs_secondary_id subject of Some i \<Rightarrow> i = value | None \<Rightarrow> False)"

definition subject_matches_key :: "history_subject \<Rightarrow> pub_key \<Rightarrow> bool" where
  "subject_matches_key subject k \<longleftrightarrow> subject_matches subject (pub_key_as_bytes k)"

text \<open>\<open>root.is_some_and(|root| subject.matches(root.as_bytes()))\<close>\<close>

definition subject_matches_opt :: "history_subject \<Rightarrow> pub_key option \<Rightarrow> bool" where
  "subject_matches_opt subject k = (case k of Some r \<Rightarrow> subject_matches_key subject r | None \<Rightarrow> False)"

text \<open>\<open>matches.then(|| summary)\<close>\<close>

definition then_some :: "bool \<Rightarrow> 'a \<Rightarrow> 'a option" where
  "then_some c x = (if c then Some x else None)"

definition project_event_sent :: "event \<Rightarrow> history_subject \<Rightarrow> invitation_sent_payload \<Rightarrow> history_summary option"
  where
  "project_event_sent e subject p =
    then_some
      (case hs_kind subject of
         InvitationSubject \<Rightarrow> sent_invitation_id p = hs_primary_id subject
       | StarterSubject \<Rightarrow> starter_id_as_bytes (sent_starter_id p) = hs_primary_id subject
       | RelationshipSubject \<Rightarrow>
           subject_matches_key subject (sent_to_pubkey p)
           \<or> subject_matches_opt subject (sent_sender_root_pubkey p))
      \<lparr> hy_code = (if ev_kind e = InvitationSent then ''invitation_sent''
                   else ''invitation_received''),
        hy_ids = [sent_invitation_id p, starter_id_as_bytes (sent_starter_id p)],
        hy_starter_kind = None, hy_reason = None \<rparr>"

definition project_event_accepted :: "history_subject \<Rightarrow> invitation_accepted_payload \<Rightarrow> history_summary option"
  where
  "project_event_accepted subject p =
    then_some
      (case hs_kind subject of
         InvitationSubject \<Rightarrow> acc_invitation_id p = hs_primary_id subject
       | StarterSubject \<Rightarrow> starter_id_as_bytes (acc_created_starter_id p) = hs_primary_id subject
       | RelationshipSubject \<Rightarrow>
           subject_matches_key subject (acc_from_pubkey p)
           \<or> subject_matches_opt subject (acc_accepter_root_pubkey p))
      \<lparr> hy_code = ''invitation_accepted'',
        hy_ids = [acc_invitation_id p, starter_id_as_bytes (acc_created_starter_id p)],
        hy_starter_kind = None, hy_reason = None \<rparr>"

definition project_event_established ::
  "history_subject \<Rightarrow> relationship_established_payload \<Rightarrow> history_summary option" where
  "project_event_established subject p =
    then_some
      (case hs_kind subject of
         InvitationSubject \<Rightarrow> est_invitation_id p = hs_primary_id subject
       | StarterSubject \<Rightarrow>
           hs_primary_id subject = starter_id_as_bytes (est_own_starter_id p)
           \<or> hs_primary_id subject = starter_id_as_bytes (est_peer_starter_id p)
           \<or> hs_primary_id subject = starter_id_as_bytes (est_sender_starter_id p)
       | RelationshipSubject \<Rightarrow>
           subject_matches_key subject (est_peer_pubkey p)
           \<or> subject_matches_key subject (est_sender_pubkey p)
           \<or> subject_matches_opt subject (est_peer_root_pubkey p)
           \<or> subject_matches_opt subject (est_sender_root_pubkey p))
      \<lparr> hy_code = ''relationship_established'',
        hy_ids = [pub_key_as_bytes (est_peer_pubkey p)],
        hy_starter_kind = Some (starter_kind_to_byte (est_kind p)), hy_reason = None \<rparr>"

definition project_event_broken ::
  "history_subject \<Rightarrow> relationship_broken_payload \<Rightarrow> history_summary option" where
  "project_event_broken subject p =
    then_some
      (case hs_kind subject of
         StarterSubject \<Rightarrow> hs_primary_id subject = starter_id_as_bytes (brk_own_starter_id p)
       | RelationshipSubject \<Rightarrow>
           subject_matches_key subject (brk_peer_pubkey p)
           \<or> subject_matches_opt subject (brk_peer_root_pubkey p)
       | InvitationSubject \<Rightarrow> False)
      \<lparr> hy_code = ''relationship_broken'',
        hy_ids = [pub_key_as_bytes (brk_peer_pubkey p)],
        hy_starter_kind = None, hy_reason = None \<rparr>"

definition project_event :: "event \<Rightarrow> history_subject \<Rightarrow> history_summary option" where
  "project_event e subject =
    (case ev_kind e of
       InvitationSent \<Rightarrow>
         Option.bind (ok (invitation_sent_from_bytes (ev_payload e))) (project_event_sent e subject)
     | InvitationReceived \<Rightarrow>
         Option.bind (ok (invitation_sent_from_bytes (ev_payload e))) (project_event_sent e subject)
     | InvitationAccepted \<Rightarrow>
         Option.bind (ok (invitation_accepted_from_bytes (ev_payload e)))
           (project_event_accepted subject)
     | InvitationRejected \<Rightarrow>
         Option.bind (ok (invitation_rejected_from_bytes (ev_payload e))) (\<lambda>p.
           then_some (hs_kind subject = InvitationSubject \<and> rej_invitation_id p = hs_primary_id subject)
             \<lparr> hy_code = ''invitation_rejected'', hy_ids = [rej_invitation_id p],
               hy_starter_kind = None, hy_reason = Some (reject_reason_to_u8 (rej_reason p)) \<rparr>)
     | InvitationExpired \<Rightarrow>
         Option.bind (ok (invitation_expired_from_bytes (ev_payload e))) (\<lambda>p.
           then_some (hs_kind subject = InvitationSubject \<and> exp_invitation_id p = hs_primary_id subject)
             \<lparr> hy_code = ''invitation_expired'', hy_ids = [exp_invitation_id p],
               hy_starter_kind = None, hy_reason = None \<rparr>)
     | StarterCreated \<Rightarrow>
         Option.bind (ok (starter_created_from_bytes (ev_payload e))) (\<lambda>p.
           then_some (hs_kind subject = StarterSubject
               \<and> starter_id_as_bytes (cr_starter_id p) = hs_primary_id subject)
             \<lparr> hy_code = ''starter_created'', hy_ids = [starter_id_as_bytes (cr_starter_id p)],
               hy_starter_kind = Some (starter_kind_to_byte (cr_kind p)), hy_reason = None \<rparr>)
     | StarterBurned \<Rightarrow>
         Option.bind (ok (starter_burned_from_bytes (ev_payload e))) (\<lambda>p.
           then_some (hs_kind subject = StarterSubject
               \<and> starter_id_as_bytes (bu_starter_id p) = hs_primary_id subject)
             \<lparr> hy_code = ''starter_burned'', hy_ids = [starter_id_as_bytes (bu_starter_id p)],
               hy_starter_kind = None, hy_reason = Some (bu_reason p) \<rparr>)
     | RelationshipEstablished \<Rightarrow>
         Option.bind (ok (relationship_established_from_bytes (ev_payload e)))
           (project_event_established subject)
     | RelationshipBroken \<Rightarrow>
         Option.bind (ok (relationship_broken_from_bytes (ev_payload e)))
           (project_event_broken subject)
     | CapsuleCreated \<Rightarrow> None)"

definition history_view_v1 :: "ledger \<Rightarrow> history_subject \<Rightarrow> history_view" where
  "history_view_v1 l subject =
    \<lparr> hv_schema = ''hivra.history_view'', hv_version = 1,
      hv_ledger_version = length (l_events l),
      hv_subject = subject,
      hv_entries = List.map_filter (\<lambda>(ledger_index, e).
        map_option (\<lambda>summary.
          \<lparr> he_ledger_index = ledger_index, he_event_kind = ev_kind e,
            he_timestamp = as_u64 (ev_timestamp e), he_summary_code = hy_code summary,
            he_summary_ids = hy_ids summary, he_starter_kind = hy_starter_kind summary,
            he_reason = hy_reason summary \<rparr>)
          (project_event e subject))
        (enumerate 0 (l_events l)) \<rparr>"

section \<open>Order and completeness\<close>

lemma history_indices:
  "map he_ledger_index (hv_entries (history_view_v1 l subject))
    = filter (\<lambda>i. project_event (l_events l ! i) subject \<noteq> None) [0..<length (l_events l)]"
proof -
  have "map he_ledger_index (List.map_filter (\<lambda>(ledger_index, e).
        map_option (\<lambda>summary.
          \<lparr> he_ledger_index = ledger_index, he_event_kind = ev_kind e,
            he_timestamp = as_u64 (ev_timestamp e), he_summary_code = hy_code summary,
            he_summary_ids = hy_ids summary, he_starter_kind = hy_starter_kind summary,
            he_reason = hy_reason summary \<rparr>)
          (project_event e subject)) ies)
      = map fst (filter (\<lambda>(i, e). project_event e subject \<noteq> None) ies)" for ies
    by (induction ies) (auto simp: List.map_filter_simps split: option.splits)
  moreover have "map fst (filter (\<lambda>(i, e). P e) (enumerate n es))
      = filter (\<lambda>i. P (es ! (i - n))) [n..<n + length es]" for P :: "event \<Rightarrow> bool" and n es
  proof (induction es arbitrary: n)
    case (Cons e es)
    have "filter (\<lambda>i. P ((e # es) ! (i - n))) [Suc n..<Suc (n + length es)]
        = filter (\<lambda>i. P (es ! (i - Suc n))) [Suc n..<Suc (n + length es)]"
      by (rule filter_cong) (auto simp: nth_Cons')
    with Cons.IH [of "Suc n"] show ?case
      by (simp add: upt_conv_Cons del: upt_Suc)
  qed simp
  from this [of "\<lambda>e. project_event e subject \<noteq> None" 0 "l_events l"]
  have "map fst (filter (\<lambda>(i, e). project_event e subject \<noteq> None) (enumerate 0 (l_events l)))
      = filter (\<lambda>i. project_event (l_events l ! i) subject \<noteq> None) [0..<length (l_events l)]"
    by simp
  ultimately show ?thesis
    by (simp only: history_view_v1_def history_view.select_convs)
qed

text \<open>The events an invitation history shows.\<close>

definition shown_events :: "ledger \<Rightarrow> history_subject \<Rightarrow> event list" where
  "shown_events l subject =
    map (\<lambda>entry. l_events l ! he_ledger_index entry) (hv_entries (history_view_v1 l subject))"

lemma shown_events_eq: "shown_events l subject = filter (\<lambda>e. project_event e subject \<noteq> None) (l_events l)"
proof -
  have "shown_events l subject = map ((!) (l_events l))
      (map he_ledger_index (hv_entries (history_view_v1 l subject)))"
    by (simp add: shown_events_def comp_def)
  also have "\<dots> = filter (\<lambda>e. project_event e subject \<noteq> None) (map ((!) (l_events l)) [0..<length (l_events l)])"
    by (simp only: history_indices filter_map comp_def)
  finally show ?thesis by (simp add: map_nth)
qed

lemma automaton_ignores_hidden:
  assumes "project_event e \<lparr> hs_kind = InvitationSubject, hs_primary_id = i, hs_secondary_id = s \<rparr> = None"
  shows "invitation_automaton owner i r e = r"
  using assms
  by (auto simp: project_event_def invitation_automaton_def offer_of_def answer_of_def
      terminal_status_def then_some_def project_event_sent_def project_event_accepted_def
      split: event_kind.splits option.splits if_splits)

lemma foldl_ignoring:
  assumes "\<And>e r. \<not> P e \<Longrightarrow> f r e = r"
  shows "foldl f r (filter P es) = foldl f r es"
  using assms by (induction es arbitrary: r) auto

text \<open>The history view lists the matching events once each, in ledger order, and for an
  invitation it is complete: replaying only the events it lists gives the same record as the
  whole ledger.\<close>

theorem history_view_complete:
  "sorted_wrt (<) (map he_ledger_index (hv_entries (history_view_v1 l subject)))
    \<and> shown_events l subject = filter (\<lambda>e. project_event e subject \<noteq> None) (l_events l)
    \<and> find_invitation (l\<lparr> l_events := shown_events l
          \<lparr> hs_kind = InvitationSubject, hs_primary_id = i, hs_secondary_id = s \<rparr> \<rparr>) i
      = find_invitation l i"
proof (intro conjI)
  let ?subject = "\<lparr> hs_kind = InvitationSubject, hs_primary_id = i, hs_secondary_id = s \<rparr>"
  have "foldl (invitation_automaton (l_owner l) i) None
        (filter (\<lambda>e. project_event e ?subject \<noteq> None) (l_events l))
      = foldl (invitation_automaton (l_owner l) i) None (l_events l)"
    by (rule foldl_ignoring) (rule automaton_ignores_hidden, simp)
  then show "find_invitation (l\<lparr> l_events := shown_events l ?subject \<rparr>) i = find_invitation l i"
    by (simp add: find_invitation_eq shown_events_eq del: not_None_eq)
qed (simp_all add: history_indices sorted_wrt_filter shown_events_eq)

end
