(* ===== verification/Pair.thy ===== *)
theory Pair
  imports Relationship
begin

text \<open>
  \<open>core/hivra-core/src/pair.rs\<close>: the state of the owner with each peer identity, joined from the
  relationship view and the invitations. The vector \<open>pairs\<close> is an association list extended by
  \<open>accumulator_for\<close>; the mutable borrow it returns is the function passed to \<open>with_accumulator\<close>.

  The lemmas show that a peer has one item, that the items are sorted, and when an item carries
  no blocker.
\<close>

record pair_relationship =
  pp_relationship_kind :: u8
  pp_starter_pair :: "b32 \<times> b32"

record pair_blocker =
  pb_code :: string
  pb_subject_id :: b32

record pair_view_item =
  pi_local_identity :: b32
  pi_peer_identity :: b32
  pi_finalized_invitation_count :: nat
  pi_active_relationships :: "pair_relationship list"
  pi_blockers :: "pair_blocker list"

record pair_view =
  pv_schema :: string
  pv_version :: "16 word"
  pv_ledger_version :: nat
  pv_pairs :: "pair_view_item list"

record pair_accumulator =
  pa_rooted :: bool
  pa_finalized_invitation_count :: nat
  pa_active_relationships :: "pair_relationship list"
  pa_pending_invitations :: "b32 list"
  pa_pending_remote_breaks :: "b32 list"
  pa_broken_relationships :: "b32 list"

definition accumulator_default :: pair_accumulator where
  "accumulator_default =
    \<lparr> pa_rooted = False, pa_finalized_invitation_count = 0, pa_active_relationships = [],
      pa_pending_invitations = [], pa_pending_remote_breaks = [], pa_broken_relationships = [] \<rparr>"

text \<open>\<open>accumulator_for(&mut pairs, peer)\<close> and the updates made through it.\<close>

definition with_accumulator ::
  "(b32 \<times> pair_accumulator) list \<Rightarrow> b32 \<Rightarrow> (pair_accumulator \<Rightarrow> pair_accumulator)
    \<Rightarrow> (b32 \<times> pair_accumulator) list" where
  "with_accumulator pairs peer f =
    (case position (\<lambda>(identity, _). identity = peer) pairs of
       Some index \<Rightarrow> pairs[index := (fst (pairs ! index), f (snd (pairs ! index)))]
     | None \<Rightarrow> pairs @ [(peer, f accumulator_default)])"

text \<open>\<open>let mut starter_pair = [a, b]; starter_pair.sort();\<close>\<close>

definition sorted_pair :: "b32 \<Rightarrow> b32 \<Rightarrow> b32 \<times> b32" where
  "sorted_pair a b = (if a \<le> b then (a, b) else (b, a))"

text \<open>The updates for one relationship of the view.\<close>

definition collect_relationship ::
  "relationship_current_item \<Rightarrow> pair_accumulator \<Rightarrow> pair_accumulator" where
  "collect_relationship r pair =
    (let pair = pair\<lparr> pa_rooted := pa_rooted pair \<or> ri_peer_root_pubkey r \<noteq> None \<rparr>
     in if ri_status r = ''active'' \<or> ri_status r = ''pending_remote_break'' then
          let fact = \<lparr> pp_relationship_kind = ri_starter_kind r,
                pp_starter_pair = sorted_pair (ri_own_starter_id r) (ri_peer_starter_id r) \<rparr>;
              pair = pair\<lparr> pa_active_relationships :=
                push_unique (pa_active_relationships pair) fact \<rparr>
          in if ri_status r = ''pending_remote_break''
             then pair\<lparr> pa_pending_remote_breaks :=
               push_unique (pa_pending_remote_breaks pair) (ri_own_starter_id r) \<rparr>
             else pair
        else if ri_status r = ''broken''
          then pair\<lparr> pa_broken_relationships :=
            push_unique (pa_broken_relationships pair) (ri_own_starter_id r) \<rparr>
        else pair)"

definition pair_relationship_step ::
  "(b32 \<times> b32) list \<times> (b32 \<times> pair_accumulator) list \<Rightarrow> relationship_current_item
    \<Rightarrow> (b32 \<times> b32) list \<times> (b32 \<times> pair_accumulator) list" where
  "pair_relationship_step = (\<lambda>(transport_to_identity, pairs) r.
    (transport_to_identity @ [(ri_peer_pubkey r, ri_peer_identity r)],
     with_accumulator pairs (ri_peer_identity r) (collect_relationship r)))"

definition invitation_peer :: "invitation_record \<Rightarrow> pub_key \<times> pub_key option" where
  "invitation_peer invitation =
    (case ir_direction invitation of
       Incoming \<Rightarrow> (ir_sender_transport_pubkey invitation, ir_sender_root_pubkey invitation)
     | Outgoing \<Rightarrow> (ir_recipient_pubkey invitation,
         (case ir_status invitation of Accepted _ _ accepter_root \<Rightarrow> accepter_root | _ \<Rightarrow> None)))"

definition invitation_peer_identity :: "(b32 \<times> b32) list \<Rightarrow> invitation_record \<Rightarrow> b32" where
  "invitation_peer_identity transport_to_identity invitation =
    (case invitation_peer invitation of
       (peer_transport, peer_root) \<Rightarrow>
         unwrap_or (or_else (map_option pub_key_as_bytes peer_root)
           (find_map (\<lambda>(transport, identity).
              if transport = pub_key_as_bytes peer_transport then Some identity else None)
            transport_to_identity))
           (pub_key_as_bytes peer_transport))"

definition skipped_peer :: "pub_key \<Rightarrow> pub_key option \<Rightarrow> b32 \<Rightarrow> bool" where
  "skipped_peer owner local_transport peer_identity \<longleftrightarrow>
    peer_identity = pub_key_as_bytes owner
    \<or> (case local_transport of Some k \<Rightarrow> peer_identity = pub_key_as_bytes k | None \<Rightarrow> False)"

definition collect_invitation ::
  "(b32 \<times> b32) list \<Rightarrow> invitation_record \<Rightarrow> pair_accumulator \<Rightarrow> pair_accumulator" where
  "collect_invitation transport_to_identity invitation pair =
    (let peer_transport = fst (invitation_peer invitation);
         peer_root = snd (invitation_peer invitation);
         pair = pair\<lparr> pa_rooted := pa_rooted pair \<or> peer_root \<noteq> None
           \<or> list_ex (\<lambda>(transport, identity).
                transport = pub_key_as_bytes peer_transport
                \<and> identity \<noteq> pub_key_as_bytes peer_transport) transport_to_identity \<rparr>
     in if ir_status invitation = Pending
        then pair\<lparr> pa_pending_invitations :=
          push_unique (pa_pending_invitations pair) (ir_invitation_id invitation) \<rparr>
        else pair\<lparr> pa_finalized_invitation_count := pa_finalized_invitation_count pair + 1 \<rparr>)"

definition pair_invitation_step ::
  "pub_key \<Rightarrow> pub_key option \<Rightarrow> (b32 \<times> b32) list \<Rightarrow> (b32 \<times> pair_accumulator) list
    \<Rightarrow> invitation_record \<Rightarrow> (b32 \<times> pair_accumulator) list" where
  "pair_invitation_step owner local_transport transport_to_identity pairs invitation =
    (let peer_identity = invitation_peer_identity transport_to_identity invitation
     in if skipped_peer owner local_transport peer_identity then pairs
        else with_accumulator pairs peer_identity
          (collect_invitation transport_to_identity invitation))"

definition pair_item_of ::
  "pub_key \<Rightarrow> pub_key option \<Rightarrow> b32 \<times> pair_accumulator \<Rightarrow> pair_view_item" where
  "pair_item_of owner local_transport = (\<lambda>(peer_identity, pair).
    let active_relationships =
          sort_key (\<lambda>r. (pp_relationship_kind r, pp_starter_pair r)) (pa_active_relationships pair);
        local_identity =
          (if pa_rooted pair then pub_key_as_bytes owner
           else pub_key_as_bytes (unwrap_or local_transport owner));
        blocker = (\<lambda>code subject_id. \<lparr> pb_code = code, pb_subject_id = subject_id \<rparr>);
        blockers =
          map (blocker ''pending_invitation'') (sort (pa_pending_invitations pair))
          @ map (blocker ''pending_remote_break'') (sort (pa_pending_remote_breaks pair))
          @ (if active_relationships = []
             then map (blocker ''relationship_broken'') (sort (pa_broken_relationships pair))
               @ [blocker ''no_active_relationship'' peer_identity]
             else [])
    in \<lparr> pi_local_identity = local_identity, pi_peer_identity = peer_identity,
         pi_finalized_invitation_count = pa_finalized_invitation_count pair,
         pi_active_relationships = active_relationships, pi_blockers = blockers \<rparr>)"

definition pair_accumulators ::
  "ledger \<Rightarrow> pub_key option \<Rightarrow> (b32 \<times> pair_accumulator) list" where
  "pair_accumulators l local_transport =
    (case foldl pair_relationship_step ([], [])
        (rv_relationships (relationship_current_view_v1 l local_transport)) of
       (transport_to_identity, pairs) \<Rightarrow>
         foldl (pair_invitation_step (l_owner l) local_transport transport_to_identity) pairs
           (invitations_with_status l))"

definition pair_view_v1 :: "ledger \<Rightarrow> pub_key option \<Rightarrow> pair_view" where
  "pair_view_v1 l local_transport =
    \<lparr> pv_schema = ''hivra.pair_view'', pv_version = 1,
      pv_ledger_version = length (l_events l),
      pv_pairs = map (pair_item_of (l_owner l) local_transport)
        (sort_key fst (pair_accumulators l local_transport)) \<rparr>"

section \<open>One accumulator per peer\<close>

definition accumulator_of :: "b32 \<Rightarrow> (b32 \<times> pair_accumulator) list \<Rightarrow> pair_accumulator" where
  "accumulator_of k pairs = unwrap_or (map_of pairs k) accumulator_default"

lemma map_of_position:
  "map_of pairs k = map_option (\<lambda>i. snd (pairs ! i)) (position (\<lambda>(identity, _). identity = k) pairs)"
  by (induction pairs) (auto simp: option.map_comp comp_def)

lemma map_of_update_position:
  "position (\<lambda>(identity, _). identity = p) pairs = Some i \<Longrightarrow>
    map_of (pairs[i := (fst (pairs ! i), x)]) = (map_of pairs)(p \<mapsto> x)"
  by (induction pairs arbitrary: i) (auto split: if_splits simp: fun_eq_iff)

lemma accumulator_of_with [simp]:
  "accumulator_of k (with_accumulator pairs p f)
    = (if k = p then f (accumulator_of k pairs) else accumulator_of k pairs)"
proof (cases "position (\<lambda>(identity, _). identity = p) pairs")
  case None
  then have "map_of pairs p = None" by (simp add: map_of_position)
  with None show ?thesis
    by (auto simp: with_accumulator_def accumulator_of_def unwrap_or_def map_add_def split: option.splits)
next
  case (Some i)
  then have "map_of pairs p = Some (snd (pairs ! i))" by (simp add: map_of_position)
  with Some show ?thesis
    by (simp add: with_accumulator_def accumulator_of_def unwrap_or_def map_of_update_position)
qed

lemma with_accumulator_keys [simp]:
  "set (map fst (with_accumulator pairs p f)) = insert p (set (map fst pairs))"
  "distinct (map fst (with_accumulator pairs p f)) \<longleftrightarrow> distinct (map fst pairs)"
proof -
  have "set (map fst (with_accumulator pairs p f)) = insert p (set (map fst pairs))
      \<and> (distinct (map fst (with_accumulator pairs p f)) \<longleftrightarrow> distinct (map fst pairs))"
  proof (cases "position (\<lambda>(identity, _). identity = p) pairs")
    case None
    then have "p \<notin> set (map fst pairs)" by (force simp: position_None)
    with None show ?thesis by (auto simp: with_accumulator_def)
  next
    case (Some i)
    then have i: "i < length pairs" "fst (pairs ! i) = p" by (auto simp: position_Some)
    then have "map fst (pairs[i := (fst (pairs ! i), x)]) = map fst pairs" for x
      by (simp add: map_update) (metis length_map list_update_id nth_map)
    moreover have "p \<in> set (map fst pairs)" using i by force
    ultimately show ?thesis using Some by (simp add: with_accumulator_def insert_absorb)
  qed
  then show "set (map fst (with_accumulator pairs p f)) = insert p (set (map fst pairs))"
    "distinct (map fst (with_accumulator pairs p f)) \<longleftrightarrow> distinct (map fst pairs)" by simp_all
qed

lemma push_unique_ne_Nil [simp]: "push_unique xs x \<noteq> []"
  by (auto simp: push_unique_def)

section \<open>What the accumulators collect\<close>

lemma relationship_fold:
  assumes "foldl pair_relationship_step ([], []) rs = (transports, pairs)"
    and "\<forall>r\<in>set rs. ri_status r \<in> {''active'', ''pending_remote_break'', ''broken''}"
  shows "transports = map (\<lambda>r. (ri_peer_pubkey r, ri_peer_identity r)) rs"
    and "distinct (map fst pairs)"
    and "pa_active_relationships (accumulator_of k pairs) = []
      \<longleftrightarrow> \<not> (\<exists>r\<in>set rs. ri_peer_identity r = k \<and> ri_status r \<noteq> ''broken'')"
    and "pa_pending_remote_breaks (accumulator_of k pairs) = []
      \<longleftrightarrow> \<not> (\<exists>r\<in>set rs. ri_peer_identity r = k \<and> ri_status r = ''pending_remote_break'')"
    and "pa_pending_invitations (accumulator_of k pairs) = []"
    and "pa_finalized_invitation_count (accumulator_of k pairs) = 0"
proof -
  have "transports = map (\<lambda>r. (ri_peer_pubkey r, ri_peer_identity r)) rs
    \<and> distinct (map fst pairs)
    \<and> (pa_active_relationships (accumulator_of k pairs) = []
      \<longleftrightarrow> \<not> (\<exists>r\<in>set rs. ri_peer_identity r = k \<and> ri_status r \<noteq> ''broken''))
    \<and> (pa_pending_remote_breaks (accumulator_of k pairs) = []
      \<longleftrightarrow> \<not> (\<exists>r\<in>set rs. ri_peer_identity r = k \<and> ri_status r = ''pending_remote_break''))
    \<and> pa_pending_invitations (accumulator_of k pairs) = []
    \<and> pa_finalized_invitation_count (accumulator_of k pairs) = 0"
    using assms
  proof (induction rs arbitrary: transports pairs rule: rev_induct)
    case Nil
    then show ?case by (simp add: accumulator_of_def unwrap_or_def accumulator_default_def)
  next
    case (snoc r rs)
    obtain ts ps where IHrun: "foldl pair_relationship_step ([], []) rs = (ts, ps)"
      by (cases "foldl pair_relationship_step ([], []) rs")
    note IH = snoc.IH [OF IHrun]
    have "(transports, pairs) = pair_relationship_step (ts, ps) r"
      using snoc.prems(1) by (simp add: IHrun)
    then have run: "transports = ts @ [(ri_peer_pubkey r, ri_peer_identity r)]"
      and ps: "pairs = with_accumulator ps (ri_peer_identity r) (collect_relationship r)"
      by (simp_all add: pair_relationship_step_def)
    have st: "ri_status r \<in> {''active'', ''pending_remote_break'', ''broken''}"
      and rest: "\<forall>r\<in>set rs. ri_status r \<in> {''active'', ''pending_remote_break'', ''broken''}"
      using snoc.prems(2) by auto
    show ?case
      using IH [OF rest] st unfolding run ps
      by (cases "ri_peer_identity r = k") (auto simp: collect_relationship_def Let_def)
  qed
  then show "transports = map (\<lambda>r. (ri_peer_pubkey r, ri_peer_identity r)) rs"
    and "distinct (map fst pairs)"
    and "pa_active_relationships (accumulator_of k pairs) = []
      \<longleftrightarrow> \<not> (\<exists>r\<in>set rs. ri_peer_identity r = k \<and> ri_status r \<noteq> ''broken'')"
    and "pa_pending_remote_breaks (accumulator_of k pairs) = []
      \<longleftrightarrow> \<not> (\<exists>r\<in>set rs. ri_peer_identity r = k \<and> ri_status r = ''pending_remote_break'')"
    and "pa_pending_invitations (accumulator_of k pairs) = []"
    and "pa_finalized_invitation_count (accumulator_of k pairs) = 0"
    by blast+
qed

text \<open>The invitations exchanged with one peer.\<close>

definition exchanged_with ::
  "pub_key \<Rightarrow> pub_key option \<Rightarrow> (b32 \<times> b32) list \<Rightarrow> b32 \<Rightarrow> invitation_record list
    \<Rightarrow> invitation_record list" where
  "exchanged_with owner transport T k invs =
    filter (\<lambda>iv. invitation_peer_identity T iv = k \<and> \<not> skipped_peer owner transport k) invs"

lemma collect_invitation_sel [simp]:
  "pa_active_relationships (collect_invitation T iv p) = pa_active_relationships p"
  "pa_pending_remote_breaks (collect_invitation T iv p) = pa_pending_remote_breaks p"
  "pa_pending_invitations (collect_invitation T iv p) = [] \<longleftrightarrow>
    pa_pending_invitations p = [] \<and> ir_status iv \<noteq> Pending"
  "pa_finalized_invitation_count (collect_invitation T iv p) =
    pa_finalized_invitation_count p + (if ir_status iv \<noteq> Pending then 1 else 0)"
  by (simp_all add: collect_invitation_def Let_def)

lemma invitation_fold:
  "distinct (map fst (foldl (pair_invitation_step owner transport T) pairs invs))
      \<longleftrightarrow> distinct (map fst pairs)"
  "pa_active_relationships (accumulator_of k (foldl (pair_invitation_step owner transport T) pairs invs))
    = pa_active_relationships (accumulator_of k pairs)"
  "pa_pending_remote_breaks (accumulator_of k (foldl (pair_invitation_step owner transport T) pairs invs))
    = pa_pending_remote_breaks (accumulator_of k pairs)"
  "pa_pending_invitations (accumulator_of k (foldl (pair_invitation_step owner transport T) pairs invs))
      = [] \<longleftrightarrow> pa_pending_invitations (accumulator_of k pairs) = []
      \<and> \<not> (\<exists>iv\<in>set (exchanged_with owner transport T k invs). ir_status iv = Pending)"
  "pa_finalized_invitation_count
      (accumulator_of k (foldl (pair_invitation_step owner transport T) pairs invs))
    = pa_finalized_invitation_count (accumulator_of k pairs)
      + length (filter (\<lambda>iv. ir_status iv \<noteq> Pending) (exchanged_with owner transport T k invs))"
  by (induction invs arbitrary: pairs)
    (auto simp: pair_invitation_step_def exchanged_with_def Let_def)

text \<open>What an item of the view says about its peer.\<close>

definition pair_item_correct :: "ledger \<Rightarrow> pub_key option \<Rightarrow> pair_view_item \<Rightarrow> bool" where
  "pair_item_correct l transport it \<longleftrightarrow>
    (let rs = rv_relationships (relationship_current_view_v1 l transport);
         mine = filter (\<lambda>r. ri_peer_identity r = pi_peer_identity it) rs;
         invs = exchanged_with (l_owner l) transport
           (map (\<lambda>r. (ri_peer_pubkey r, ri_peer_identity r)) rs) (pi_peer_identity it)
           (invitations_with_status l)
     in (pi_blockers it = [] \<longleftrightarrow>
          list_ex (\<lambda>r. ri_status r \<noteq> ''broken'') mine
          \<and> \<not> list_ex (\<lambda>r. ri_status r = ''pending_remote_break'') mine
          \<and> \<not> list_ex (\<lambda>iv. ir_status iv = Pending) invs)
        \<and> pi_finalized_invitation_count it = length (filter (\<lambda>iv. ir_status iv \<noteq> Pending) invs))"

lemma relationship_view_statuses:
  "\<forall>r\<in>set (rv_relationships (relationship_current_view_v1 l transport)).
    ri_status r \<in> {''active'', ''pending_remote_break'', ''broken''}"
  by (auto simp: relationship_current_view_v1_def relationship_current_item_of_def
      relationship_status_text_def Let_def)

lemma sort_key_eq_Nil [simp]: "sort_key f xs = [] \<longleftrightarrow> xs = []"
  by (metis length_0_conv length_sort)

lemma pair_accumulators_facts:
  fixes l transport
  defines "rs \<equiv> rv_relationships (relationship_current_view_v1 l transport)"
  defines "T \<equiv> map (\<lambda>r. (ri_peer_pubkey r, ri_peer_identity r)) rs"
  defines "acc \<equiv> \<lambda>k. accumulator_of k (pair_accumulators l transport)"
  shows "distinct (map fst (pair_accumulators l transport))"
    and "pa_active_relationships (acc k) = []
      \<longleftrightarrow> \<not> (\<exists>r\<in>set rs. ri_peer_identity r = k \<and> ri_status r \<noteq> ''broken'')"
    and "pa_pending_remote_breaks (acc k) = []
      \<longleftrightarrow> \<not> (\<exists>r\<in>set rs. ri_peer_identity r = k \<and> ri_status r = ''pending_remote_break'')"
    and "pa_pending_invitations (acc k) = []
      \<longleftrightarrow> \<not> (\<exists>iv\<in>set (exchanged_with (l_owner l) transport T k (invitations_with_status l)).
            ir_status iv = Pending)"
    and "pa_finalized_invitation_count (acc k) = length (filter (\<lambda>iv. ir_status iv \<noteq> Pending)
          (exchanged_with (l_owner l) transport T k (invitations_with_status l)))"
proof -
  obtain ts ps where run: "foldl pair_relationship_step ([], []) rs = (ts, ps)"
    by (cases "foldl pair_relationship_step ([], []) rs")
  note rel = relationship_fold [OF run relationship_view_statuses [of l transport, folded rs_def]]
  have acc: "pair_accumulators l transport
      = foldl (pair_invitation_step (l_owner l) transport T) ps (invitations_with_status l)"
    using run rel(1) by (simp add: pair_accumulators_def rs_def T_def)
  show "distinct (map fst (pair_accumulators l transport))"
    by (simp only: acc invitation_fold(1) rel(2))
  show "pa_active_relationships (acc k) = []
      \<longleftrightarrow> \<not> (\<exists>r\<in>set rs. ri_peer_identity r = k \<and> ri_status r \<noteq> ''broken'')"
    by (simp only: acc_def acc invitation_fold(2) rel(3))
  show "pa_pending_remote_breaks (acc k) = []
      \<longleftrightarrow> \<not> (\<exists>r\<in>set rs. ri_peer_identity r = k \<and> ri_status r = ''pending_remote_break'')"
    by (simp only: acc_def acc invitation_fold(3) rel(4))
  show "pa_pending_invitations (acc k) = []
      \<longleftrightarrow> \<not> (\<exists>iv\<in>set (exchanged_with (l_owner l) transport T k (invitations_with_status l)).
            ir_status iv = Pending)"
    by (simp only: acc_def acc invitation_fold(4) rel(5) simp_thms)
  show "pa_finalized_invitation_count (acc k) = length (filter (\<lambda>iv. ir_status iv \<noteq> Pending)
          (exchanged_with (l_owner l) transport T k (invitations_with_status l)))"
    by (simp only: acc_def acc invitation_fold(5) rel(6) add_0)
qed

lemma pair_item_identity [simp]: "pi_peer_identity (pair_item_of owner transport p) = fst p"
  by (simp add: pair_item_of_def case_prod_unfold Let_def)

text \<open>The pair view has one item per peer identity, in increasing order, and each item is
  right about its peer: it carries no blocker exactly when there is an unbroken relationship, no
  break of the peer waits for confirmation and no invitation exchanged with the peer is pending;
  its count is the number of answered invitations.\<close>

theorem pair_view_correct:
  "sorted_wrt (<) (map pi_peer_identity (pv_pairs (pair_view_v1 l transport)))
    \<and> list_all (pair_item_correct l transport) (pv_pairs (pair_view_v1 l transport))"
proof
  note facts = pair_accumulators_facts [where l = l and transport = transport]
  let ?pairs = "sort_key fst (pair_accumulators l transport)"
  have view: "pv_pairs (pair_view_v1 l transport) = map (pair_item_of (l_owner l) transport) ?pairs"
    by (simp add: pair_view_v1_def)
  have "distinct (map fst ?pairs)"
    using facts(1) by (simp add: distinct_map)
  then have "sorted_wrt (<) (map fst ?pairs)"
    by (simp add: strict_sorted_iff)
  then show "sorted_wrt (<) (map pi_peer_identity (pv_pairs (pair_view_v1 l transport)))"
    by (simp add: view comp_def)
  have "pair_item_correct l transport (pair_item_of (l_owner l) transport (k, pair))"
    if "(k, pair) \<in> set (pair_accumulators l transport)" for k pair
  proof -
    have pair: "accumulator_of k (pair_accumulators l transport) = pair"
      using that facts(1) by (simp add: accumulator_of_def unwrap_or_def)
    show ?thesis
      using facts(2-5) [of k, unfolded pair]
      by (simp add: pair_item_correct_def pair_item_of_def Let_def list_ex_iff) blast
  qed
  then show "list_all (pair_item_correct l transport) (pv_pairs (pair_view_v1 l transport))"
    by (auto simp: view list_all_iff)
qed

end
