(* ===== verification/Engine.thy ===== *)
theory Engine
  imports Ledger_History Invitation
begin

text \<open>
  \<open>engine/hivra-engine/src/lib.rs\<close>: the orchestration layer that prepares signed events,
  receipts and anchors, verifies a v5 ledger, and decides the effects of incoming answers.

  The engine is generic in its dependencies. Time and randomness are sampled from a world of type
  \<open>'w\<close> that every call threads through; the key store and the signature check are functions
  (\<open>Inl\<close> is their error): they stand for crates outside the repository's core. \<open>H\<close> is SHA-256.

  The lemmas show that what the engine prepares passes its own verification (given that the key
  store's signatures verify under its public key), that appending a verified entry keeps a ledger
  verified, and what the effects of an acceptance are.
\<close>

section \<open>Dependencies and configuration\<close>

record engine_config =
  ec_network :: network
  ec_invitation_timeout :: u64
  ec_domain_event_version :: u8

definition engine_config_default :: engine_config where
  "engine_config_default =
    \<lparr> ec_network = Neste, ec_invitation_timeout = 86400,
      ec_domain_event_version = PROTOCOL_VERSION \<rparr>"

definition engine_config_continuous :: engine_config where
  "engine_config_continuous =
    engine_config_default\<lparr> ec_domain_event_version := CONTINUOUS_LEDGER_PROTOCOL_VERSION \<rparr>"

record ('w, 'c, 'k) engine =
  en_now :: "'w \<Rightarrow> u64 \<times> 'w"
  en_random_32 :: "'w \<Rightarrow> b32 \<times> 'w"
  en_verify :: "u8 list \<Rightarrow> b32 \<Rightarrow> b64 \<Rightarrow> 'c + unit"
  en_public_key :: "'k + b32"
  en_sign :: "u8 list \<Rightarrow> 'k + b64"
  en_config :: engine_config

datatype 'k engine_error =
    Keystore 'k
  | MatchingInvitationNotFound
  | NoMatchingStarter
  | NoEmptySlot
  | InvalidAcceptPlan

record prepared_event =
  pe_event :: event
  pe_recipient :: "pub_key option"

datatype incoming_effect = Append event

datatype outgoing_rejection_effect = BurnStarter starter_id | UnlockOnly

datatype 'c ledger_v5_verification_error =
    Structure ledger_v5_error
  | AnchorSignature 'c
  | DomainSignature 'c
  | EntrySignature 'c

fun of_sum :: "'e + 'a \<Rightarrow> ('e, 'a) result" where
  "of_sum (Inl e) = Err e"
| "of_sum (Inr x) = Ok x"

lemma of_sum_eq_Ok [simp]: "of_sum s = Ok x \<longleftrightarrow> s = Inr x"
  by (cases s) auto

lemma of_sum_not_Panic [simp]: "of_sum s \<noteq> Panic"
  by (cases s) auto

text \<open>Sequencing of calls that sample the world; the first error ends the function.\<close>

type_synonym ('w, 'e, 'a) action = "'w \<Rightarrow> ('e, 'a) result \<times> 'w"

definition pure :: "('e, 'a) result \<Rightarrow> ('w, 'e, 'a) action" where
  "pure r = (\<lambda>w. (r, w))"

definition sample_with :: "('w \<Rightarrow> 'a \<times> 'w) \<Rightarrow> ('w, 'e, 'a) action" where
  "sample_with f = (\<lambda>w. case f w of (x, w') \<Rightarrow> (Ok x, w'))"

definition seq :: "('w, 'e, 'a) action \<Rightarrow> ('a \<Rightarrow> ('w, 'e, 'b) action) \<Rightarrow> ('w, 'e, 'b) action" where
  "seq m f = (\<lambda>w. case m w of
      (Ok x, w') \<Rightarrow> f x w' | (Err e, w') \<Rightarrow> (Err e, w') | (Panic, w') \<Rightarrow> (Panic, w'))"

lemma pure_run [simp]: "pure r w = (r, w)"
  by (simp add: pure_def)

lemma seq_Ok [simp]:
  "seq m f w = (Ok y, w'') \<longleftrightarrow> (\<exists>x w'. m w = (Ok x, w') \<and> f x w' = (Ok y, w''))"
  by (auto simp: seq_def split: prod.splits result.splits)

lemma sample_with_run [simp]:
  "sample_with f w = (Ok x, w') \<longleftrightarrow> f w = (x, w')"
  by (auto simp: sample_with_def split: prod.splits)

section \<open>Signing and verifying\<close>

definition engine_now :: "('w, 'c, 'k) engine \<Rightarrow> ('w, 'e, timestamp) action" where
  "engine_now en = seq (sample_with (en_now en)) (\<lambda>t. pure (Ok (Timestamp t)))"

definition random_id :: "('w, 'c, 'k) engine \<Rightarrow> ('w, 'e, b32) action" where
  "random_id en = sample_with (en_random_32 en)"

definition engine_public_key :: "('w, 'c, 'k) engine \<Rightarrow> ('k, pub_key) result" where
  "engine_public_key en = and_then (of_sum (en_public_key en)) (\<lambda>k. Ok (PubKey k))"

definition sign_event ::
  "(u8 list \<Rightarrow> b32) \<Rightarrow> ('w, 'c, 'k) engine \<Rightarrow> event \<Rightarrow> ('k, signature) result" where
  "sign_event H en e = and_then (of_sum (en_sign en (bytes (event_id H e)))) (\<lambda>s. Ok (Signature s))"

definition verify_event ::
  "(u8 list \<Rightarrow> b32) \<Rightarrow> ('w, 'c, 'k) engine \<Rightarrow> event \<Rightarrow> pub_key \<Rightarrow> ('c, unit) result" where
  "verify_event H en e pubkey =
    of_sum (en_verify en (bytes (event_id H e)) (pub_key_as_bytes pubkey)
      (signature_as_bytes (ev_signature e)))"

definition prepare_domain_event_v5 ::
  "(u8 list \<Rightarrow> b32) \<Rightarrow> ('w, 'c, 'k) engine \<Rightarrow> event_kind \<Rightarrow> u8 list \<Rightarrow> ('w, 'k, event) action" where
  "prepare_domain_event_v5 H en kind payload =
    seq (pure (engine_public_key en)) (\<lambda>signer.
    seq (engine_now en) (\<lambda>timestamp.
      let unsigned = event_new_v5 kind payload timestamp (Signature (bfill 0)) signer
      in seq (pure (of_sum (en_sign en (bytes (event_id H unsigned))))) (\<lambda>sig.
         pure (Ok (event_new_v5 kind (ev_payload unsigned) timestamp (Signature sig) signer)))))"

definition prepare_ledger_entry_v5 ::
  "(u8 list \<Rightarrow> b32) \<Rightarrow> ('w, 'c, 'k) engine \<Rightarrow> u64 \<Rightarrow> commitment \<Rightarrow> event
    \<Rightarrow> ('k, ledger_entry_v5) result" where
  "prepare_ledger_entry_v5 H en sequence previous_commitment e =
    and_then (engine_public_key en) (\<lambda>owner.
      let unsigned = entry_unsigned owner sequence previous_commitment e
      in and_then (of_sum (en_sign en (bytes (entry_commitment H unsigned)))) (\<lambda>sig.
         Ok (entry_with_signature unsigned (Signature sig))))"

definition prepare_legacy_anchor_v5 ::
  "(u8 list \<Rightarrow> b32) \<Rightarrow> ('w, 'c, 'k) engine \<Rightarrow> commitment \<Rightarrow> ('k, ledger_anchor_v5) result" where
  "prepare_legacy_anchor_v5 H en snapshot =
    and_then (engine_public_key en) (\<lambda>owner.
      let unsigned = anchor_legacy owner snapshot (Signature (bfill 0))
      in and_then (of_sum (en_sign en (bytes (anchor_commitment H unsigned)))) (\<lambda>sig.
         Ok (anchor_legacy owner snapshot (Signature sig))))"

definition verify_domain_event_v5 ::
  "(u8 list \<Rightarrow> b32) \<Rightarrow> ('w, 'c, 'k) engine \<Rightarrow> event \<Rightarrow> ('c, unit) result" where
  "verify_domain_event_v5 H en e =
    of_sum (en_verify en (bytes (event_id H e)) (pub_key_as_bytes (ev_signer e))
      (signature_as_bytes (ev_signature e)))"

definition verify_ledger_entry_v5 ::
  "(u8 list \<Rightarrow> b32) \<Rightarrow> ('w, 'c, 'k) engine \<Rightarrow> ledger_entry_v5 \<Rightarrow> ('c, unit) result" where
  "verify_ledger_entry_v5 H en entry =
    of_sum (en_verify en (bytes (entry_commitment H entry)) (pub_key_as_bytes (le_owner entry))
      (signature_as_bytes (le_signature entry)))"

fun verify_entries ::
  "(u8 list \<Rightarrow> b32) \<Rightarrow> ('w, 'c, 'k) engine \<Rightarrow> ledger_entry_v5 list
    \<Rightarrow> ('c ledger_v5_verification_error, unit) result" where
  "verify_entries H en [] = Ok ()"
| "verify_entries H en (entry # rest) =
    and_then (map_err DomainSignature (verify_domain_event_v5 H en (le_event entry))) (\<lambda>_.
    and_then (map_err EntrySignature (verify_ledger_entry_v5 H en entry)) (\<lambda>_.
      verify_entries H en rest))"

definition verify_ledger_v5 ::
  "(u8 list \<Rightarrow> b32) \<Rightarrow> nat \<Rightarrow> ('w, 'c, 'k) engine \<Rightarrow> ledger
    \<Rightarrow> ('c ledger_v5_verification_error, unit) result" where
  "verify_ledger_v5 H U en l =
    and_then (map_err Structure (verify_v5_structure H U l)) (\<lambda>_.
    and_then (ok_or (anchor_v5 l) (Structure NotContinuousLedger)) (\<lambda>anchor.
    and_then (case anchor_signature anchor of
        Some sig \<Rightarrow> map_err AnchorSignature (of_sum (en_verify en
          (bytes (anchor_commitment H anchor)) (pub_key_as_bytes (anchor_owner anchor))
          (signature_as_bytes sig)))
      | None \<Rightarrow> Ok ()) (\<lambda>_.
    case v5_entries l of
      Ok (Some entries) \<Rightarrow> verify_entries H en entries
    | _ \<Rightarrow> Panic)))"

section \<open>Preparing events\<close>

definition with_keystore_error :: "('k, 'a) result \<Rightarrow> ('k engine_error, 'a) result" where
  "with_keystore_error r = map_err Keystore r"

definition new_event_of_version ::
  "u8 \<Rightarrow> event_kind \<Rightarrow> u8 list \<Rightarrow> timestamp \<Rightarrow> signature \<Rightarrow> pub_key \<Rightarrow> ('k engine_error, event) result"
  where
  "new_event_of_version version kind payload timestamp sig signer =
    (if version = PROTOCOL_VERSION then Ok (event_new kind payload timestamp sig signer)
     else if version = CONTINUOUS_LEDGER_PROTOCOL_VERSION
       then Ok (event_new_v5 kind payload timestamp sig signer)
     else Err InvalidAcceptPlan)"

definition prepare_event ::
  "(u8 list \<Rightarrow> b32) \<Rightarrow> ('w, 'c, 'k) engine \<Rightarrow> event_kind \<Rightarrow> u8 list \<Rightarrow> pub_key option
    \<Rightarrow> ('w, 'k engine_error, prepared_event) action" where
  "prepare_event H en kind payload recipient =
    seq (pure (with_keystore_error (engine_public_key en))) (\<lambda>signer.
    seq (engine_now en) (\<lambda>timestamp.
    seq (pure (new_event_of_version (ec_domain_event_version (en_config en)) kind payload timestamp
           (Signature (bfill 0)) signer)) (\<lambda>unsigned.
    seq (pure (with_keystore_error (sign_event H en unsigned))) (\<lambda>sig.
    seq (pure (new_event_of_version (ec_domain_event_version (en_config en)) kind
           (ev_payload unsigned) timestamp sig signer)) (\<lambda>e.
      pure (Ok \<lparr> pe_event = e, pe_recipient = recipient \<rparr>))))))"

definition prepare_invitation_sent ::
  "(u8 list \<Rightarrow> b32) \<Rightarrow> ('w, 'c, 'k) engine \<Rightarrow> starter_id \<Rightarrow> pub_key
    \<Rightarrow> ('w, 'k engine_error, prepared_event) action" where
  "prepare_invitation_sent H en starter_id to_pubkey =
    seq (pure (with_keystore_error (engine_public_key en))) (\<lambda>sender_root_pubkey.
    seq (random_id en) (\<lambda>invitation_id.
      prepare_event H en InvitationSent (invitation_sent_to_bytes
        \<lparr> sent_invitation_id = invitation_id, sent_starter_id = starter_id,
          sent_to_pubkey = to_pubkey, sent_sender_root_pubkey = Some sender_root_pubkey \<rparr>)
        (Some to_pubkey)))"

definition prepare_invitation_accepted ::
  "(u8 list \<Rightarrow> b32) \<Rightarrow> ('w, 'c, 'k) engine \<Rightarrow> b32 \<Rightarrow> pub_key \<Rightarrow> starter_id
    \<Rightarrow> ('w, 'k engine_error, prepared_event) action" where
  "prepare_invitation_accepted H en invitation_id from_pubkey created_starter_id =
    seq (pure (with_keystore_error (engine_public_key en))) (\<lambda>accepter_root_pubkey.
      prepare_event H en InvitationAccepted (invitation_accepted_to_bytes
        \<lparr> acc_invitation_id = invitation_id, acc_from_pubkey = from_pubkey,
          acc_created_starter_id = created_starter_id,
          acc_accepter_root_pubkey = Some accepter_root_pubkey \<rparr>)
        (Some from_pubkey))"

definition prepare_invitation_rejected ::
  "(u8 list \<Rightarrow> b32) \<Rightarrow> ('w, 'c, 'k) engine \<Rightarrow> b32 \<Rightarrow> pub_key \<Rightarrow> reject_reason
    \<Rightarrow> ('w, 'k engine_error, prepared_event) action" where
  "prepare_invitation_rejected H en invitation_id to_pubkey reason =
    prepare_event H en InvitationRejected (invitation_rejected_to_bytes
      \<lparr> rej_invitation_id = invitation_id, rej_reason = reason \<rparr>) (Some to_pubkey)"

definition prepare_invitation_expired ::
  "(u8 list \<Rightarrow> b32) \<Rightarrow> ('w, 'c, 'k) engine \<Rightarrow> b32 \<Rightarrow> ('w, 'k engine_error, prepared_event) action"
  where
  "prepare_invitation_expired H en invitation_id =
    prepare_event H en InvitationExpired
      (invitation_expired_to_bytes \<lparr> exp_invitation_id = invitation_id \<rparr>) None"

definition prepare_domain_event ::
  "(u8 list \<Rightarrow> b32) \<Rightarrow> ('w, 'c, 'k) engine \<Rightarrow> event_kind \<Rightarrow> u8 list \<Rightarrow> pub_key option
    \<Rightarrow> ('w, 'k engine_error, prepared_event) action" where
  "prepare_domain_event H en kind payload recipient = prepare_event H en kind payload recipient"

definition prepare_starter_created ::
  "(u8 list \<Rightarrow> b32) \<Rightarrow> ('w, 'c, 'k) engine \<Rightarrow> starter_id \<Rightarrow> b32 \<Rightarrow> starter_kind \<Rightarrow> network
    \<Rightarrow> ('w, 'k engine_error, prepared_event) action" where
  "prepare_starter_created H en starter_id nonce kind network =
    prepare_event H en StarterCreated (starter_created_to_bytes
      \<lparr> cr_starter_id = starter_id, cr_nonce = nonce, cr_kind = kind,
        cr_network = network_to_byte network \<rparr>) None"

definition prepare_starter_burned ::
  "(u8 list \<Rightarrow> b32) \<Rightarrow> ('w, 'c, 'k) engine \<Rightarrow> starter_id \<Rightarrow> u8
    \<Rightarrow> ('w, 'k engine_error, prepared_event) action" where
  "prepare_starter_burned H en starter_id reason =
    prepare_event H en StarterBurned
      (starter_burned_to_bytes \<lparr> bu_starter_id = starter_id, bu_reason = reason \<rparr>) None"

definition prepare_relationship_established ::
  "(u8 list \<Rightarrow> b32) \<Rightarrow> ('w, 'c, 'k) engine \<Rightarrow> pub_key \<Rightarrow> starter_id \<Rightarrow> starter_id \<Rightarrow> starter_kind
    \<Rightarrow> b32 \<Rightarrow> pub_key \<Rightarrow> starter_kind \<Rightarrow> starter_id \<Rightarrow> pub_key option \<Rightarrow> pub_key option
    \<Rightarrow> ('w, 'k engine_error, prepared_event) action" where
  "prepare_relationship_established H en peer_pubkey own_starter_id peer_starter_id kind
      invitation_id sender_pubkey sender_starter_type sender_starter_id peer_root_pubkey
      sender_root_pubkey =
    prepare_event H en RelationshipEstablished (relationship_established_to_bytes
      \<lparr> est_peer_pubkey = peer_pubkey, est_own_starter_id = own_starter_id,
        est_peer_starter_id = peer_starter_id, est_kind = kind,
        est_invitation_id = invitation_id, est_sender_pubkey = sender_pubkey,
        est_sender_starter_type = sender_starter_type,
        est_sender_starter_id = sender_starter_id, est_peer_root_pubkey = peer_root_pubkey,
        est_sender_root_pubkey = sender_root_pubkey \<rparr>) None"

definition prepare_relationship_broken ::
  "(u8 list \<Rightarrow> b32) \<Rightarrow> ('w, 'c, 'k) engine \<Rightarrow> pub_key \<Rightarrow> starter_id \<Rightarrow> pub_key option
    \<Rightarrow> ('w, 'k engine_error, prepared_event) action" where
  "prepare_relationship_broken H en peer_pubkey own_starter_id peer_root_pubkey =
    prepare_event H en RelationshipBroken (relationship_broken_to_bytes
      \<lparr> brk_peer_pubkey = peer_pubkey, brk_own_starter_id = own_starter_id,
        brk_peer_root_pubkey = peer_root_pubkey \<rparr>) None"

section \<open>Acceptance plans and effects\<close>

text \<open>\<open>Engine::starter_kind_for_id\<close>: unlike the projection of the same name it takes the first
  creation by any signer.\<close>

definition engine_starter_kind_for_id :: "ledger \<Rightarrow> starter_id \<Rightarrow> starter_kind option" where
  "engine_starter_kind_for_id l starter_id =
    find_map (\<lambda>e.
      if ev_kind e \<noteq> StarterCreated then None
      else case ok (starter_created_from_bytes (ev_payload e)) of
             None \<Rightarrow> None
           | Some p \<Rightarrow> if cr_starter_id p = starter_id then Some (cr_kind p) else None)
      (l_events l)"

definition resolve_accept_plan ::
  "ledger \<Rightarrow> b32 \<Rightarrow> ('k engine_error, accept_plan) result" where
  "resolve_accept_plan l invitation_id =
    and_then (ok_or (find_invitation_by_direction l invitation_id Incoming)
        MatchingInvitationNotFound) (\<lambda>invitation.
      let slots = layout_from_ledger l
      in and_then (ok_or (or_else (ir_starter_kind_hint invitation)
             (engine_starter_kind_for_id l (ir_starter_id invitation))) MatchingInvitationNotFound)
         (\<lambda>kind. Ok (plan_accept_for_kind l slots kind)))"

definition effects_for_incoming_accept ::
  "(u8 list \<Rightarrow> b32) \<Rightarrow> ('w, 'c, 'k) engine \<Rightarrow> ledger \<Rightarrow> pub_key \<Rightarrow> invitation_accepted_payload
    \<Rightarrow> ('w, 'k engine_error, incoming_effect list) action" where
  "effects_for_incoming_accept H en l accepter_pubkey payload =
    seq (pure (ok_or (find_invitation_by_direction l (acc_invitation_id payload) Outgoing)
          MatchingInvitationNotFound)) (\<lambda>invitation.
    seq (pure (ok_or (engine_starter_kind_for_id l (ir_starter_id invitation))
          MatchingInvitationNotFound)) (\<lambda>kind.
    seq (pure (with_keystore_error (engine_public_key en))) (\<lambda>local_root_pubkey.
    seq (prepare_relationship_established H en accepter_pubkey (ir_starter_id invitation)
          (acc_created_starter_id payload) kind (acc_invitation_id payload) local_root_pubkey
          kind (ir_starter_id invitation) (acc_accepter_root_pubkey payload)
          (Some local_root_pubkey)) (\<lambda>relationship.
      pure (Ok [Append (pe_event relationship)])))))"

definition effects_for_incoming_reject ::
  "ledger \<Rightarrow> invitation_rejected_payload \<Rightarrow> ('k engine_error, outgoing_rejection_effect) result"
  where
  "effects_for_incoming_reject l payload =
    and_then (ok_or (find_invitation_by_direction l (rej_invitation_id payload) Outgoing)
        MatchingInvitationNotFound) (\<lambda>invitation.
      Ok (case rej_reason payload of
            EmptySlot \<Rightarrow> BurnStarter (ir_starter_id invitation)
          | Other \<Rightarrow> UnlockOnly))"

section \<open>What the engine prepares, it verifies\<close>

text \<open>Documented behaviour of the key store and the signature scheme: a signature made by the key
  store verifies under its public key.\<close>

definition signatures_verify :: "('w, 'c, 'k) engine \<Rightarrow> bool" where
  "signatures_verify en \<longleftrightarrow>
    (\<forall>k msg sig. en_public_key en = Inr k \<longrightarrow> en_sign en msg = Inr sig
      \<longrightarrow> en_verify en msg k sig = Inr ())"

lemma signatures_verifyD:
  "signatures_verify en \<Longrightarrow> en_public_key en = Inr k \<Longrightarrow> en_sign en msg = Inr sig \<Longrightarrow>
    en_verify en msg k sig = Inr ()"
  by (simp add: signatures_verify_def)

lemma event_id_resign:
  "event_id H (event_new k p t s r) = event_id H (event_new k p t s' r)"
  "event_id H (event_new_v5 k p t s r) = event_id H (event_new_v5 k p t s' r)"
  by (simp_all add: event_id_def event_id_preimage_def)

lemma engine_public_key_Ok [simp]:
  "engine_public_key en = Ok k \<longleftrightarrow> en_public_key en = Inr (pub_key_as_bytes k)"
  by (cases k) (auto simp: engine_public_key_def)

lemma new_event_of_version_Ok:
  "new_event_of_version v kind payload t sig signer = Ok e \<longleftrightarrow>
    v = PROTOCOL_VERSION \<and> e = event_new kind payload t sig signer
    \<or> v = CONTINUOUS_LEDGER_PROTOCOL_VERSION \<and> e = event_new_v5 kind payload t sig signer"
  by (auto simp: new_event_of_version_def)

lemma prepare_event_correct:
  assumes "prepare_event H en kind payload recipient w = (Ok p, w')" and "signatures_verify en"
  shows "verify_event H en (pe_event p) (ev_signer (pe_event p)) = Ok ()
    \<and> engine_public_key en = Ok (ev_signer (pe_event p))
    \<and> ev_version (pe_event p) = ec_domain_event_version (en_config en)
    \<and> ev_kind (pe_event p) = kind \<and> ev_payload (pe_event p) = payload
    \<and> en_now en w = (as_u64 (ev_timestamp (pe_event p)), w') \<and> pe_recipient p = recipient"
  using assms(1) signatures_verifyD [OF assms(2)]
  by (auto simp: prepare_event_def with_keystore_error_def engine_now_def sign_event_def
      verify_event_def new_event_of_version_Ok
      event_id_def event_id_preimage_def)

text \<open>A prepared event is the event asked for (kind, payload, recipient), of the configured
  protocol version, dated by the time source, signed by the key store's key, and it passes the
  engine's own verification.\<close>

theorem prepared_event_verifies:
  assumes "prepare_event H en kind payload recipient w = (Ok p, w')" and "signatures_verify en"
  shows "verify_event H en (pe_event p) (ev_signer (pe_event p)) = Ok ()
    \<and> engine_public_key en = Ok (ev_signer (pe_event p))
    \<and> ev_version (pe_event p) = ec_domain_event_version (en_config en)
    \<and> ev_kind (pe_event p) = kind \<and> ev_payload (pe_event p) = payload
    \<and> en_now en w = (as_u64 (ev_timestamp (pe_event p)), w') \<and> pe_recipient p = recipient"
  by (rule prepare_event_correct [OF assms])

text \<open>An engine whose signatures are the key followed by the message's first half, and whose
  check recomputes them; the clock counts calls.\<close>

definition sample_engine :: "u8 \<Rightarrow> (u64, unit, unit) engine" where
  "sample_engine version =
    (let key = bfill 7 in
     \<lparr> en_now = (\<lambda>w. (w, w + 1)), en_random_32 = (\<lambda>w. (bfill 0, w)),
       en_verify = (\<lambda>msg k sig. if sig = barray_of (bytes k @ take 32 msg) then Inr () else Inl ()),
       en_public_key = Inr key,
       en_sign = (\<lambda>msg. Inr (barray_of (bytes (key :: b32) @ take 32 msg))),
       en_config = engine_config_default\<lparr> ec_domain_event_version := version \<rparr> \<rparr>)"

lemma sample_engine_signs: "signatures_verify (sample_engine v)"
  by (auto simp: signatures_verify_def sample_engine_def Let_def)

theorem prepared_event_verifies_witness:
  "\<exists>p. prepare_event length_hash (sample_engine 5) StarterBurned [1] None 3 = (Ok p, 4)
    \<and> verify_event length_hash (sample_engine 5) (pe_event p) (ev_signer (pe_event p)) = Ok ()"
proof -
  obtain p where p: "prepare_event length_hash (sample_engine 5) StarterBurned [1] None 3 = (Ok p, 4)"
    by (auto simp: prepare_event_def seq_def pure_def with_keystore_error_def engine_public_key_def
        engine_now_def sample_with_def sign_event_def new_event_of_version_def sample_engine_def
        engine_config_default_def PROTOCOL_VERSION_def CONTINUOUS_LEDGER_PROTOCOL_VERSION_def Let_def)
  with prepared_event_verifies [OF p sample_engine_signs] show ?thesis by blast
qed

section \<open>Verified ledgers\<close>

definition anchor_signature_ok ::
  "(u8 list \<Rightarrow> b32) \<Rightarrow> ('w, 'c, 'k) engine \<Rightarrow> ledger_anchor_v5 \<Rightarrow> bool" where
  "anchor_signature_ok H en a \<longleftrightarrow>
    (case anchor_signature a of
       None \<Rightarrow> True
     | Some sig \<Rightarrow> en_verify en (bytes (anchor_commitment H a)) (pub_key_as_bytes (anchor_owner a))
         (signature_as_bytes sig) = Inr ())"

lemma verify_entries_Ok:
  "verify_entries H en xs = Ok () \<longleftrightarrow>
    list_all (\<lambda>x. verify_domain_event_v5 H en (le_event x) = Ok ()
      \<and> verify_ledger_entry_v5 H en x = Ok ()) xs"
  by (induction xs) auto

lemma v5_entries_eq:
  assumes "l_continuity_v5 l = Some c" "cl_legacy_event_count c \<le> length (l_events l)"
  shows "v5_entries l = Ok (Some (map (\<lambda>(r, e). receipt_entry (l_owner l) r e) (suffix_receipts l)))"
  using assms by (simp add: v5_entries_def suffix_receipts_def)

lemma map_err_not_Panic [simp]: "map_err f r \<noteq> Panic \<longleftrightarrow> r \<noteq> Panic"
  by (cases r) auto

text \<open>The verification of a v5 ledger, read declaratively.\<close>

lemma verify_ledger_v5_iff:
  "verify_ledger_v5 H U en l = Ok () \<longleftrightarrow>
    (\<exists>c. l_continuity_v5 l = Some c \<and> verify_v5_structure H U l = Ok ()
      \<and> anchor_signature_ok H en (cl_anchor c)
      \<and> list_all (\<lambda>(r, e). verify_domain_event_v5 H en e = Ok ()
          \<and> verify_ledger_entry_v5 H en (receipt_entry (l_owner l) r e) = Ok ()) (suffix_receipts l))"
proof (cases "verify_v5_structure H U l = Ok ()")
  case True
  then obtain c where c: "l_continuity_v5 l = Some c" "cl_legacy_event_count c \<le> length (l_events l)"
    by (auto simp: verify_v5_structure_iff)
  show ?thesis
    using True c
    by (auto simp: verify_ledger_v5_def anchor_v5_def v5_entries_eq verify_entries_Ok
        anchor_signature_ok_def list_all_iff receipt_entry_def split: option.splits)
next
  case False
  then show ?thesis by (auto simp: verify_ledger_v5_def)
qed

lemma verify_entries_not_Panic [simp]: "verify_entries H en xs \<noteq> Panic"
  by (induction xs) (auto simp: and_then_eq_Panic verify_domain_event_v5_def verify_ledger_entry_v5_def)

text \<open>Appending an entry whose two signatures verify keeps a ledger verified.\<close>

lemma append_attested_entry:
  assumes ver: "verify_ledger_v5 H U en l = Ok ()" and app: "append_v5 H l x = Ok l'"
    and dom: "verify_domain_event_v5 H en (le_event x) = Ok ()"
    and entry: "verify_ledger_entry_v5 H en x = Ok ()"
  shows "verify_ledger_v5 H U en l' = Ok ()"
proof -
  from ver obtain c where c: "l_continuity_v5 l = Some c"
    and struct: "verify_v5_structure H U l = Ok ()"
    and anchor: "anchor_signature_ok H en (cl_anchor c)"
    and old: "list_all (\<lambda>(r, e). verify_domain_event_v5 H en e = Ok ()
          \<and> verify_ledger_entry_v5 H en (receipt_entry (l_owner l) r e) = Ok ()) (suffix_receipts l)"
    by (auto simp: verify_ledger_v5_iff)
  have len: "length (l_events l) = cl_legacy_event_count c + length (cl_receipts c)"
    using struct c by (auto simp: verify_v5_structure_iff)
  let ?r = "\<lparr> rc_sequence = le_sequence x, rc_previous_commitment = le_previous_commitment x,
      rc_signature = le_signature x \<rparr>"
  have l': "l' = l\<lparr> l_events := l_events l @ [le_event x],
      l_continuity_v5 := Some (c\<lparr> cl_receipts := cl_receipts c @ [?r] \<rparr>) \<rparr>"
    and own: "le_owner x = l_owner l"
    using app c by (auto simp: append_v5_Ok_iff)
  have "receipt_entry (l_owner l) ?r (le_event x) = x"
    using own by (simp add: receipt_entry_def entry_with_signature_def entry_unsigned_def)
  then show ?thesis
    using append_v5_preserves [OF struct app] anchor old dom entry suffix_receipts_snoc [OF c len]
    by (simp add: verify_ledger_v5_iff l')
qed

text \<open>\<open>verify_ledger_v5\<close> never panics: its two unguarded accesses (the \<open>expect\<close> on
  \<open>v5_entries\<close> and the slice behind the legacy prefix) are protected by the structural check.\<close>

theorem verify_ledger_v5_never_panics: "verify_ledger_v5 H U en l \<noteq> Panic"
proof (cases "verify_v5_structure H U l")
  case (Ok u)
  then obtain c where c: "l_continuity_v5 l = Some c" "cl_legacy_event_count c \<le> length (l_events l)"
    by (cases u) (auto simp: verify_v5_structure_iff)
  with Ok show ?thesis
    by (auto simp: verify_ledger_v5_def and_then_eq_Panic v5_entries_eq split: option.splits)
qed (auto simp: verify_ledger_v5_def verify_v5_structure_not_Panic)

text \<open>The append flow of the runtime works: on a ledger of the engine's owner that passes the
  full verification, the event the engine prepares, attested at the next sequence number and the
  current tail, is accepted unless its identifier is already recorded, and the longer ledger
  passes the full verification again.\<close>

theorem attested_append_keeps_ledger_verified:
  assumes "signatures_verify en" and "verify_ledger_v5 H U en l = Ok ()"
    and "engine_public_key en = Ok (l_owner l)"
    and "prepare_domain_event_v5 H en kind payload w = (Ok e, w')"
    and "next_sequence_v5 l = Ok n" and "tail_commitment_v5 H l = Ok tail"
    and "prepare_ledger_entry_v5 H en n tail e = Ok entry"
    and "event_id H e \<notin> event_id H ` set (l_events l)"
  shows "\<exists>l'. append_v5 H l entry = Ok l' \<and> l_events l' = l_events l @ [e]
    \<and> verify_ledger_v5 H U en l' = Ok ()"
proof -
  from assms(2) obtain c where c: "l_continuity_v5 l = Some c"
    and own: "anchor_owner (cl_anchor c) = l_owner l"
    by (auto simp: verify_ledger_v5_iff verify_v5_structure_iff)
  note key = assms(3) and sound = signatures_verifyD [OF assms(1)]
  have e: "ev_version e = CONTINUOUS_LEDGER_PROTOCOL_VERSION"
    and dom: "verify_domain_event_v5 H en e = Ok ()"
    using assms(4) sound
    by (auto simp: prepare_domain_event_v5_def engine_now_def Let_def verify_domain_event_v5_def
        event_id_def event_id_preimage_def)
  obtain sig where entry: "entry = entry_with_signature (entry_unsigned (l_owner l) n tail e) (Signature sig)"
    and sig: "en_sign en (bytes (entry_commitment H (entry_unsigned (l_owner l) n tail e))) = Inr sig"
    using assms(7) key by (auto simp: prepare_ledger_entry_v5_def Let_def pub_key.expand)
  have n: "n = of_nat (length (cl_receipts c))"
    using assms(5) c by (simp add: next_sequence_v5_def)
  have new: "\<forall>x\<in>set (l_events l). event_id H x \<noteq> event_id H e"
    using assms(8) by (metis imageI)
  obtain l' where app: "append_v5 H l entry = Ok l'" and ev: "l_events l' = l_events l @ [e]"
    using c own e n assms(6) new by (simp add: append_v5_Ok_iff entry)
  have "verify_ledger_entry_v5 H en entry = Ok ()"
    using sound sig key by (simp add: verify_ledger_entry_v5_def entry)
  then have "verify_ledger_v5 H U en l' = Ok ()"
    using append_attested_entry [OF assms(2) app] dom by (simp add: entry)
  with app ev show ?thesis by blast
qed

theorem attested_append_keeps_ledger_verified_witness:
  "\<exists>e entry l'. prepare_domain_event_v5 length_hash (sample_engine 5) StarterBurned [1] 3 = (Ok e, 4)
    \<and> append_v5 length_hash (fresh_v5 (PubKey (bfill 7))) entry = Ok l' \<and> l_events l' = [e]
    \<and> verify_ledger_v5 length_hash 8 (sample_engine 5) l' = Ok ()"
proof -
  let ?en = "sample_engine 5" and ?l = "fresh_v5 (PubKey (bfill 7))"
  obtain e where e: "prepare_domain_event_v5 length_hash ?en StarterBurned [1] 3 = (Ok e, 4)"
    by (auto simp: prepare_domain_event_v5_def seq_def pure_def engine_public_key_def
        engine_now_def sample_with_def sample_engine_def Let_def)
  obtain tail where tail: "tail_commitment_v5 length_hash ?l = Ok tail"
    by (auto simp: tail_commitment_v5_def fresh_v5_def)
  obtain entry where entry: "prepare_ledger_entry_v5 length_hash ?en 0 tail e = Ok entry"
    by (auto simp: prepare_ledger_entry_v5_def engine_public_key_def sample_engine_def Let_def)
  have base: "verify_ledger_v5 length_hash 8 ?en ?l = Ok ()"
    using fresh_v5_verifies [of length_hash 8 "PubKey (bfill 7)"]
    by (simp add: verify_ledger_v5_iff fresh_v5_def anchor_signature_ok_def anchor_fresh_def
        suffix_receipts_def)
  have key: "engine_public_key ?en = Ok (l_owner ?l)"
    by (simp add: fresh_v5_def) (simp add: sample_engine_def)
  have next_seq: "next_sequence_v5 ?l = Ok 0"
    by (simp add: next_sequence_v5_def fresh_v5_def)
  have new: "event_id length_hash e \<notin> event_id length_hash ` set (l_events ?l)"
    by (simp add: fresh_v5_def)
  have empty: "l_events ?l = []" by (simp add: fresh_v5_def)
  from attested_append_keeps_ledger_verified
      [OF sample_engine_signs base key e next_seq tail entry new] e empty
  show ?thesis by auto
qed

section \<open>What a relationship event keeps\<close>

text \<open>The encoder of \<open>RelationshipEstablished\<close> writes the sender root only behind a peer root.
  The event the engine prepares for the acceptance of a peer without a known root, to which it
  passes its own root as sender root, is therefore read back without it; every other field is
  read back as written.\<close>

theorem established_payload_loses_orphan_sender_root:
  "relationship_established_from_bytes (relationship_established_to_bytes p)
    = Ok (p\<lparr> est_sender_root_pubkey :=
        (if est_peer_root_pubkey p = None then None else est_sender_root_pubkey p) \<rparr>)"
proof -
  let ?q = "p\<lparr> est_sender_root_pubkey :=
      (if est_peer_root_pubkey p = None then None else est_sender_root_pubkey p) \<rparr>"
  have "relationship_established_to_bytes p = relationship_established_to_bytes ?q"
    by (cases "est_peer_root_pubkey p") (simp_all add: relationship_established_to_bytes_def)
  then show ?thesis
    using relationship_established_codec.roundtrip [of ?q] by (simp add: established_canonical_def)
qed

end
