(* ===== verification/Engine_Clock.thy ===== *)
theory Engine_Clock
  imports Prelude
begin

text \<open>
  \<open>platform/hivra-ffi/src/runtime_support.rs\<close>: the process-wide monotone clock behind
  \<open>FfiTimeSource::now\<close>, an \<open>AtomicU64\<close> updated by compare-exchange loops that any number of
  threads run at once.

  A thread is between the atomic operations of its loop; a step is one atomic operation: the
  initial load, a successful exchange, or a failed one (\<open>compare_exchange_weak\<close> may fail
  spuriously, so failure needs no condition). All operations are \<open>Relaxed\<close>, but there is one
  location only, whose modification order is total. \<open>ck_returned\<close> records the values \<open>now\<close> returns
  in the order of the exchanges that made them.

  The lemmas show that the clock never goes back and never returns a value twice before it
  saturates, whatever the wall clock does.
\<close>

section \<open>Sequential effect\<close>

text \<open>\<open>observed.saturating_add(1)\<close>\<close>

definition saturating_inc :: "u64 \<Rightarrow> u64" where
  "saturating_inc observed = (if observed = - 1 then - 1 else observed + 1)"

text \<open>\<open>current.max(observed.saturating_add(1))\<close>\<close>

definition next_engine_ts :: "u64 \<Rightarrow> u64 \<Rightarrow> u64" where
  "next_engine_ts current observed = max current (saturating_inc observed)"

text \<open>\<open>observe_engine_ts\<close> and \<open>FfiTimeSource::now\<close> run without interference.\<close>

definition observe_engine_ts :: "u64 \<Rightarrow> u64 \<Rightarrow> u64" where
  "observe_engine_ts ts observed = (if ts > observed then ts else observed)"

section \<open>The loops, one atomic operation at a time\<close>

datatype clock_thread =
    Idle
  | NowLoop (loop_current: u64) (loop_observed: u64)
  | ObserveLoop (loop_ts: u64) (loop_observed: u64)

record 't clock_state =
  ck_last :: u64
  ck_threads :: "'t \<Rightarrow> clock_thread"
  ck_returned :: "u64 list"

definition set_thread :: "'t \<Rightarrow> clock_thread \<Rightarrow> 't clock_state \<Rightarrow> 't clock_state" where
  "set_thread t th s = s\<lparr> ck_threads := (ck_threads s)(t := th) \<rparr>"

inductive clock_step :: "'t clock_state \<Rightarrow> 't clock_state \<Rightarrow> bool" where
  now_load: "ck_threads s t = Idle \<Longrightarrow>
    clock_step s (set_thread t (NowLoop current (ck_last s)) s)"
| now_exchange: "ck_threads s t = NowLoop current observed \<Longrightarrow> observed = ck_last s \<Longrightarrow>
    clock_step s (set_thread t Idle (s\<lparr> ck_last := next_engine_ts current observed,
      ck_returned := ck_returned s @ [next_engine_ts current observed] \<rparr>))"
| now_retry: "ck_threads s t = NowLoop current observed \<Longrightarrow>
    clock_step s (set_thread t (NowLoop current (ck_last s)) s)"
| observe_load: "ck_threads s t = Idle \<Longrightarrow>
    clock_step s (set_thread t (ObserveLoop ts (ck_last s)) s)"
| observe_done: "ck_threads s t = ObserveLoop ts observed \<Longrightarrow> \<not> ts > observed \<Longrightarrow>
    clock_step s (set_thread t Idle s)"
| observe_exchange: "ck_threads s t = ObserveLoop ts observed \<Longrightarrow> ts > observed \<Longrightarrow>
    observed = ck_last s \<Longrightarrow>
    clock_step s (set_thread t Idle (s\<lparr> ck_last := ts \<rparr>))"
| observe_retry: "ck_threads s t = ObserveLoop ts observed \<Longrightarrow> ts > observed \<Longrightarrow>
    clock_step s (set_thread t (ObserveLoop ts (ck_last s)) s)"

definition clock_start :: "'t clock_state" where
  "clock_start = \<lparr> ck_last = 0, ck_threads = (\<lambda>_. Idle), ck_returned = [] \<rparr>"

definition clock_reachable :: "'t clock_state \<Rightarrow> bool" where
  "clock_reachable s \<longleftrightarrow> clock_step\<^sup>*\<^sup>* clock_start s"

section \<open>The clock never goes back\<close>

lemma less_inc: "x \<noteq> - 1 \<Longrightarrow> x < (x :: u64) + 1"
  by (metis add.commute eq_neg_iff_add_eq_0 lessI unatSuc word_less_nat_alt)

lemma saturating_inc_le: "x \<le> saturating_inc x"
  by (auto simp: saturating_inc_def intro: less_imp_le less_inc)

lemma next_engine_ts_greater: "observed < next_engine_ts current observed \<or> observed = - 1"
  using less_inc [of observed] by (auto simp: next_engine_ts_def saturating_inc_def less_max_iff_disj)

lemma next_engine_ts_ge: "observed \<le> next_engine_ts current observed"
  using saturating_inc_le [of observed] by (auto simp: next_engine_ts_def le_max_iff_disj)

text \<open>Strictly increasing, except that the last value may be returned again.\<close>

definition clock_less :: "u64 \<Rightarrow> u64 \<Rightarrow> bool" where
  "clock_less a b \<longleftrightarrow> a < b \<or> a = - 1 \<and> b = - 1"

definition clock_inv :: "'t clock_state \<Rightarrow> bool" where
  "clock_inv s \<longleftrightarrow> sorted_wrt clock_less (ck_returned s) \<and> (\<forall>x\<in>set (ck_returned s). x \<le> ck_last s)"

lemma max_word_le: "(- 1 :: u64) \<le> x \<longleftrightarrow> x = - 1"
  by (metis order_antisym order_refl word_order.extremum)

lemma clock_step_inv: "clock_step s s' \<Longrightarrow> clock_inv s \<Longrightarrow> clock_inv s'"
proof (induction rule: clock_step.induct)
  case (now_exchange s t current observed)
  let ?n = "next_engine_ts current observed"
  have le: "observed \<le> ?n" by (rule next_engine_ts_ge)
  have "clock_less x ?n" if "x \<le> observed" for x
    using that next_engine_ts_greater [of observed current] le
    by (auto simp: clock_less_def max_word_le not_less intro: le_less_trans)
  with now_exchange le show ?case
    by (auto simp: clock_inv_def set_thread_def sorted_wrt_append intro: order_trans)
qed (auto simp: clock_inv_def set_thread_def)

lemma clock_reachable_inv: "clock_step\<^sup>*\<^sup>* s s' \<Longrightarrow> clock_inv s \<Longrightarrow> clock_inv s'"
  by (induction rule: rtranclp.induct) (auto dest: clock_step_inv)

lemma clock_step_last: "clock_step s s' \<Longrightarrow> ck_last s \<le> ck_last s'"
  by (induction rule: clock_step.induct) (auto simp: set_thread_def next_engine_ts_ge)

lemma clock_steps_last: "clock_step\<^sup>*\<^sup>* s s' \<Longrightarrow> ck_last s \<le> ck_last s'"
  by (induction rule: rtranclp.induct) (auto dest: clock_step_last)

text \<open>C34: Whatever the wall clock returns and however the threads interleave (spurious failures
  included), the timestamps the engine clock returns strictly increase in the order they are
  issued, up to the saturation at the largest 64-bit value; and none exceeds the shared
  counter.\<close>

theorem engine_clock_strictly_monotone:
  assumes "clock_reachable s"
  shows "sorted_wrt clock_less (ck_returned s) \<and> list_all (\<lambda>x. x \<le> ck_last s) (ck_returned s)"
  using clock_reachable_inv [of clock_start s] assms
  by (simp add: clock_reachable_def clock_inv_def clock_start_def list_all_iff)

text \<open>Two threads load at the same time with the same reading of the wall clock; one exchange
  succeeds, the other retries.\<close>

theorem engine_clock_strictly_monotone_witness:
  "\<exists>s :: bool clock_state. clock_reachable s \<and> ck_returned s = [5, 6] \<and> sorted_wrt clock_less (ck_returned s)"
proof -
  let ?s0 = "clock_start :: bool clock_state"
  let ?s1 = "set_thread False (NowLoop 5 0) ?s0"
  let ?s2 = "set_thread True (NowLoop 5 0) ?s1"
  let ?s3 = "set_thread False Idle (?s2\<lparr> ck_last := 5, ck_returned := [5] \<rparr>)"
  let ?s4 = "set_thread True (NowLoop 5 5) ?s3"
  let ?s5 = "set_thread True Idle (?s4\<lparr> ck_last := 6, ck_returned := [5, 6] \<rparr>)"
  have n: "next_engine_ts 5 0 = 5" "next_engine_ts 5 5 = 6"
    by (simp_all add: next_engine_ts_def saturating_inc_def max_def word_le_nat_alt)
  have "clock_step ?s0 ?s1"
    using clock_step.now_load [of ?s0 False 5] by (simp add: clock_start_def)
  moreover have "clock_step ?s1 ?s2"
    using clock_step.now_load [of ?s1 True 5] by (simp add: clock_start_def set_thread_def)
  moreover have "clock_step ?s2 ?s3"
    using clock_step.now_exchange [of ?s2 False 5 0] by (simp add: clock_start_def set_thread_def n)
  moreover have "clock_step ?s3 ?s4"
    using clock_step.now_retry [of ?s3 True 5 0] by (simp add: clock_start_def set_thread_def)
  moreover have "clock_step ?s4 ?s5"
    using clock_step.now_exchange [of ?s4 True 5 5] by (simp add: clock_start_def set_thread_def n)
  ultimately have r: "clock_reachable ?s5"
    unfolding clock_reachable_def by (meson rtranclp.rtrancl_into_rtrancl rtranclp.rtrancl_refl)
  moreover have "ck_returned ?s5 = [5, 6]" by (simp add: set_thread_def)
  ultimately show ?thesis
    using engine_clock_strictly_monotone [OF r] by metis
qed

text \<open>Run alone, the loops have their sequential effect.\<close>

lemma now_alone:
  assumes "ck_threads s t = Idle"
  shows "clock_step\<^sup>*\<^sup>* s (set_thread t Idle (s\<lparr> ck_last := next_engine_ts current (ck_last s),
    ck_returned := ck_returned s @ [next_engine_ts current (ck_last s)] \<rparr>))"
proof -
  let ?s1 = "set_thread t (NowLoop current (ck_last s)) s"
  have "clock_step s ?s1" by (rule clock_step.now_load [OF assms])
  moreover have "clock_step ?s1 (set_thread t Idle (?s1\<lparr> ck_last := next_engine_ts current (ck_last s),
      ck_returned := ck_returned ?s1 @ [next_engine_ts current (ck_last s)] \<rparr>))"
    by (rule clock_step.now_exchange) (simp_all add: set_thread_def)
  ultimately show ?thesis
    by (auto simp: set_thread_def intro: rtranclp.rtrancl_into_rtrancl)
qed

end
