(* ===== verification/Transport.thy ===== *)
theory Transport
  imports Engine
begin

text \<open>
  \<open>adapters/hivra-transport/src/lib.rs\<close>: the transport-neutral envelope, the inbound guard and
  the manager that tries its transports in order.

  A transport is a record of functions over a world \<open>'w\<close> (the network); a list of transports
  stands for the vector of trait objects. The lemmas show what the guard lets through, and that
  sending tries the transports in order and stops at the first acceptance.
\<close>

type_synonym u16 = "16 word"

definition DELIVERY_ENVELOPE_SCHEMA_VERSION :: u16 where
  "DELIVERY_ENVELOPE_SCHEMA_VERSION = 1"

definition MAX_DELIVERY_ENVELOPE_PAYLOAD_BYTES :: nat where
  "MAX_DELIVERY_ENVELOPE_PAYLOAD_BYTES = 256 * 1024"

datatype transport_error =
    NotImplemented
  | ConnectionFailed
  | SendFailed
  | ReceiveFailed
  | InvalidMessage
  | EncodingFailed
  | DecodingFailed
  | InvalidKey
  | SenderMismatch
  | Timeout
  | OtherError string

datatype inbound_envelope_rejection = UnsupportedSchemaVersion | WrongRecipient | PayloadTooLarge

fun rejection_text :: "inbound_envelope_rejection \<Rightarrow> string" where
  "rejection_text UnsupportedSchemaVersion = ''unsupported schema version''"
| "rejection_text WrongRecipient = ''wrong recipient''"
| "rejection_text PayloadTooLarge = ''payload too large''"

record domain_event_proof =
  dp_version :: u8
  dp_kind :: u8
  dp_signer :: b32
  dp_signature :: "u8 list"

record delivery_envelope =
  en_schema_version :: u16
  en_from :: b32
  en_to :: b32
  en_kind :: u32
  en_payload :: "u8 list"
  en_timestamp :: u64
  en_correlation_id :: "b32 option"
  en_domain_event :: "domain_event_proof option"

datatype inbound_delivery_payload = Envelope delivery_envelope | AdapterRejectedPayload string

record inbound_delivery_item =
  di_event_id :: string
  di_observed_by :: "string list"
  di_payload :: inbound_delivery_payload

record inbound_delivery_batch =
  db_batch_id :: u64
  db_items :: "inbound_delivery_item list"

datatype inbound_delivery_disposition = Consumed | Quarantined | Retry | AdapterRejected

definition is_terminal :: "inbound_delivery_disposition \<Rightarrow> bool" where
  "is_terminal d = (case d of Consumed \<Rightarrow> True | Quarantined \<Rightarrow> True | AdapterRejected \<Rightarrow> True | Retry \<Rightarrow> False)"

record inbound_delivery_resolution =
  dr_event_id :: string
  dr_disposition :: inbound_delivery_disposition

record delivery_receipt =
  rt_transport :: string
  rt_accepted_by :: string
  rt_envelope_id :: string
  rt_message_kind :: u32
  rt_recipient :: "u8 list"
  rt_failed_before_accept :: u32

section \<open>The inbound guard\<close>

record inbound_envelope_guard =
  gu_expected_recipient :: b32
  gu_max_payload_bytes :: nat

definition guard_for_recipient :: "b32 \<Rightarrow> inbound_envelope_guard" where
  "guard_for_recipient expected_recipient =
    \<lparr> gu_expected_recipient = expected_recipient,
      gu_max_payload_bytes = MAX_DELIVERY_ENVELOPE_PAYLOAD_BYTES \<rparr>"

definition with_max_payload_bytes :: "inbound_envelope_guard \<Rightarrow> nat \<Rightarrow> inbound_envelope_guard" where
  "with_max_payload_bytes g n = g\<lparr> gu_max_payload_bytes := n \<rparr>"

definition guard_validate ::
  "inbound_envelope_guard \<Rightarrow> delivery_envelope \<Rightarrow> (inbound_envelope_rejection, unit) result" where
  "guard_validate g envelope =
    (if en_schema_version envelope \<noteq> DELIVERY_ENVELOPE_SCHEMA_VERSION
       then Err UnsupportedSchemaVersion
     else if en_to envelope \<noteq> gu_expected_recipient g then Err WrongRecipient
     else if length (en_payload envelope) > gu_max_payload_bytes g then Err PayloadTooLarge
     else Ok ())"

section \<open>Transports\<close>

record 'w transport =
  tr_send_with_receipt :: "delivery_envelope \<Rightarrow> 'w \<Rightarrow> (transport_error, delivery_receipt) result \<times> 'w"
  tr_receive :: "'w \<Rightarrow> (transport_error, delivery_envelope list) result \<times> 'w"
  tr_is_connected :: "'w \<Rightarrow> bool"
  tr_name :: string

text \<open>The default method \<open>Transport::send_with_receipt\<close> over a transport's own \<open>send\<close>.\<close>

definition default_send_with_receipt ::
  "string \<Rightarrow> (delivery_envelope \<Rightarrow> 'w \<Rightarrow> (transport_error, unit) result \<times> 'w)
    \<Rightarrow> delivery_envelope \<Rightarrow> 'w \<Rightarrow> (transport_error, delivery_receipt) result \<times> 'w" where
  "default_send_with_receipt name send envelope =
    seq (send envelope) (\<lambda>_. pure (Ok
      \<lparr> rt_transport = name, rt_accepted_by = name, rt_envelope_id = [],
        rt_message_kind = en_kind envelope, rt_recipient = bytes (en_to envelope),
        rt_failed_before_accept = 0 \<rparr>))"

record 'w transport_manager =
  tm_transports :: "'w transport list"

definition manager_new :: "'w transport_manager" where
  "manager_new = \<lparr> tm_transports = [] \<rparr>"

definition add_transport :: "'w transport_manager \<Rightarrow> 'w transport \<Rightarrow> 'w transport_manager" where
  "add_transport m t = m\<lparr> tm_transports := tm_transports m @ [t] \<rparr>"

fun try_transports ::
  "'w transport list \<Rightarrow> transport_error option \<Rightarrow> delivery_envelope
    \<Rightarrow> 'w \<Rightarrow> (transport_error, delivery_receipt) result \<times> 'w" where
  "try_transports [] last_error envelope w = (Err (unwrap_or last_error SendFailed), w)"
| "try_transports (t # ts) last_error envelope w =
    (case tr_send_with_receipt t envelope w of
       (Ok receipt, w') \<Rightarrow> (Ok receipt, w')
     | (Err e, w') \<Rightarrow> try_transports ts (Some e) envelope w'
     | (Panic, w') \<Rightarrow> (Panic, w'))"

definition manager_send_with_receipt ::
  "'w transport_manager \<Rightarrow> delivery_envelope
    \<Rightarrow> 'w \<Rightarrow> (transport_error, delivery_receipt) result \<times> 'w" where
  "manager_send_with_receipt m envelope = try_transports (tm_transports m) None envelope"

definition manager_send ::
  "'w transport_manager \<Rightarrow> delivery_envelope \<Rightarrow> 'w \<Rightarrow> (transport_error, unit) result \<times> 'w" where
  "manager_send m envelope = seq (manager_send_with_receipt m envelope) (\<lambda>_. pure (Ok ()))"

fun receive_all ::
  "'w transport list \<Rightarrow> delivery_envelope list
    \<Rightarrow> 'w \<Rightarrow> (transport_error, delivery_envelope list) result \<times> 'w" where
  "receive_all [] all_messages w = (Ok all_messages, w)"
| "receive_all (t # ts) all_messages w =
    (case tr_receive t w of
       (Ok messages, w') \<Rightarrow> receive_all ts (all_messages @ messages) w'
     | (Err e, w') \<Rightarrow> receive_all ts all_messages w'
     | (Panic, w') \<Rightarrow> (Panic, w'))"

definition manager_receive ::
  "'w transport_manager \<Rightarrow> 'w \<Rightarrow> (transport_error, delivery_envelope list) result \<times> 'w" where
  "manager_receive m = receive_all (tm_transports m) []"

definition connected_transports :: "'w transport_manager \<Rightarrow> 'w \<Rightarrow> string list" where
  "connected_transports m w = map tr_name (filter (\<lambda>t. tr_is_connected t w) (tm_transports m))"

section \<open>What is sent\<close>

text \<open>The worlds before each attempt when the first \<open>n\<close> transports fail.\<close>

fun failing_run ::
  "'w transport list \<Rightarrow> delivery_envelope \<Rightarrow> 'w \<Rightarrow> 'w option" where
  "failing_run [] envelope w = Some w"
| "failing_run (t # ts) envelope w =
    (case tr_send_with_receipt t envelope w of (Err e, w') \<Rightarrow> failing_run ts envelope w' | _ \<Rightarrow> None)"

lemma try_transports_Ok:
  "try_transports ts le envelope w = (Ok receipt, w') \<longleftrightarrow>
    (\<exists>before t after w1. ts = before @ t # after \<and> failing_run before envelope w = Some w1
      \<and> tr_send_with_receipt t envelope w1 = (Ok receipt, w'))"
proof (induction ts arbitrary: le w)
  case (Cons t ts)
  obtain r w1 where r: "tr_send_with_receipt t envelope w = (r, w1)" by (cases "tr_send_with_receipt t envelope w")
  have split: "(\<exists>before u after. t # ts = before @ u # after \<and> P before u) \<longleftrightarrow>
      P [] t \<or> (\<exists>before u after. ts = before @ u # after \<and> P (t # before) u)" for P
    by (auto simp: Cons_eq_append_conv)
  show ?case
    using Cons.IH [of "Some (case r of Err e \<Rightarrow> e | _ \<Rightarrow> SendFailed)" w1] r
      split [of "\<lambda>before u. \<exists>w1. failing_run before envelope w = Some w1
        \<and> tr_send_with_receipt u envelope w1 = (Ok receipt, w')"]
    by (cases r) auto
qed simp

text \<open>The manager hands the envelope to its transports in order: a receipt is the receipt of
  the first transport that accepts, all transports before it were tried and failed, and none
  after it is used.\<close>

theorem manager_stops_at_first_acceptance:
  "manager_send_with_receipt m envelope w = (Ok receipt, w') \<longleftrightarrow>
    (\<exists>before t after w1. tm_transports m = before @ t # after
      \<and> failing_run before envelope w = Some w1
      \<and> tr_send_with_receipt t envelope w1 = (Ok receipt, w'))"
  by (simp add: manager_send_with_receipt_def try_transports_Ok)

end
