(* ===== verification/Keystore.thy ===== *)
theory Keystore
  imports Engine
begin

text \<open>
  \<open>platform/hivra-keystore/src/lib.rs\<close>, the seed codec of \<open>platform/hivra-keystore/src/macos/mod.rs\<close>
  and \<open>adapters/hivra-ed25519-crypto/src/lib.rs\<close>: seeds, key derivation by label, the framing of
  sealed records, mnemonic phrases, hexadecimal seeds and the root signatures.

  HKDF, AES-256-GCM, BIP-39 and Ed25519 are third-party crates: the fields of the record
  \<open>crypto_lib\<close>; of AES-GCM nothing is assumed but that it decrypts what it encrypted under the same key, nonce
  and data. The lemmas show what the code around them adds: a record is opened under the label, seed and
  associated data it was sealed with, the key roles derive their keys from different strings and the records
  carry different data, other framings are refused, the hexadecimal codec is exact, and how much of a seed a
  phrase keeps.
\<close>

section \<open>Third-party primitives\<close>

type_synonym nonce12 = "12 barray"

unbundle bit_operations_syntax

record crypto_lib =
  hkdf_expand :: "u8 list \<Rightarrow> u8 list \<Rightarrow> b32 option"
  aes_key_accepted :: "b32 \<Rightarrow> bool"
  aes_encrypt :: "b32 \<Rightarrow> u8 list \<Rightarrow> u8 list \<Rightarrow> u8 list \<Rightarrow> u8 list option"
  aes_decrypt :: "b32 \<Rightarrow> u8 list \<Rightarrow> u8 list \<Rightarrow> u8 list \<Rightarrow> u8 list option"
  bip39_from_entropy :: "u8 list \<Rightarrow> string + string"
  bip39_parse_to_entropy :: "string \<Rightarrow> string + u8 list"
  ed_public :: "b32 \<Rightarrow> b32"
  ed_sign :: "b32 \<Rightarrow> u8 list \<Rightarrow> b64"
  ed_public_valid :: "b32 \<Rightarrow> bool"
  ed_verify :: "b32 \<Rightarrow> u8 list \<Rightarrow> b64 \<Rightarrow> bool"

datatype keystore_error =
    PlatformError string
  | KeyNotFound
  | InvalidSeedLength nat
  | Bip39Error string
  | SignatureError string
  | IoError string

datatype seed = KeySeed (seed_as_bytes: b32)

section \<open>Keys by label\<close>

definition QUARANTINE_RECORD_KEY_LABEL :: "u8 list" where
  "QUARANTINE_RECORD_KEY_LABEL = ascii ''HIVRA_INBOUND_QUARANTINE_RECORD_KEY_v1''"

definition QUARANTINE_SNAPSHOT_KEY_LABEL :: "u8 list" where
  "QUARANTINE_SNAPSHOT_KEY_LABEL = ascii ''HIVRA_INBOUND_QUARANTINE_SNAPSHOT_KEY_v1''"

definition CHAT_HANDOFF_KEY_LABEL :: "u8 list" where
  "CHAT_HANDOFF_KEY_LABEL = ascii ''HIVRA_CHAT_HANDOFF_KEY_v1''"

definition SEALED_PAYLOAD_VERSION :: u8 where
  "SEALED_PAYLOAD_VERSION = 1"

definition AES_GCM_NONCE_LEN :: nat where
  "AES_GCM_NONCE_LEN = 12"

definition derive_key_with_label ::
  "crypto_lib \<Rightarrow> seed \<Rightarrow> u8 list \<Rightarrow> (keystore_error, b32) result" where
  "derive_key_with_label lib seed info =
    ok_or (hkdf_expand lib (bytes (seed_as_bytes seed)) info) (Bip39Error ''HKDF expansion failed'')"

definition derive_nostr_keypair :: "crypto_lib \<Rightarrow> seed \<Rightarrow> (keystore_error, b32) result" where
  "derive_nostr_keypair lib seed = derive_key_with_label lib seed (ascii ''HIVRA_NOSTR_KEY_v1'')"

definition derive_root_keypair :: "crypto_lib \<Rightarrow> seed \<Rightarrow> (keystore_error, b32) result" where
  "derive_root_keypair lib seed = derive_key_with_label lib seed (ascii ''HIVRA_ROOT_IDENTITY_v1'')"

definition derive_root_public_key :: "crypto_lib \<Rightarrow> seed \<Rightarrow> (keystore_error, b32) result" where
  "derive_root_public_key lib seed =
    and_then (derive_root_keypair lib seed) (\<lambda>signing_bytes. Ok (ed_public lib signing_bytes))"

section \<open>Sealed records\<close>

text \<open>\<open>nonce\<close> is what \<open>OsRng\<close> fills in.\<close>

definition seal_with_label ::
  "crypto_lib \<Rightarrow> nonce12 \<Rightarrow> seed \<Rightarrow> u8 list \<Rightarrow> u8 list \<Rightarrow> u8 list
    \<Rightarrow> (keystore_error, u8 list) result" where
  "seal_with_label lib nonce seed label associated_data plaintext =
    and_then (derive_key_with_label lib seed label) (\<lambda>key.
      if \<not> aes_key_accepted lib key
      then Err (PlatformError ''Invalid quarantine storage key'')
      else and_then
        (ok_or (aes_encrypt lib key (bytes nonce) associated_data plaintext)
          (PlatformError ''Quarantine encryption failed'')) (\<lambda>ciphertext.
        Ok ([SEALED_PAYLOAD_VERSION] @ bytes nonce @ ciphertext)))"

definition open_with_label ::
  "crypto_lib \<Rightarrow> seed \<Rightarrow> u8 list \<Rightarrow> u8 list \<Rightarrow> u8 list \<Rightarrow> (keystore_error, u8 list) result" where
  "open_with_label lib seed label associated_data sealed =
    (if length sealed \<le> 1 + AES_GCM_NONCE_LEN \<or> sealed ! 0 \<noteq> SEALED_PAYLOAD_VERSION
     then Err (PlatformError ''Unsupported quarantine ciphertext framing'')
     else and_then (derive_key_with_label lib seed label) (\<lambda>key.
       if \<not> aes_key_accepted lib key
       then Err (PlatformError ''Invalid quarantine storage key'')
       else ok_or
         (aes_decrypt lib key (take AES_GCM_NONCE_LEN (drop 1 sealed)) associated_data
           (drop (1 + AES_GCM_NONCE_LEN) sealed))
         (PlatformError ''Quarantine authentication failed'')))"

definition seal_inbound_quarantine_record ::
  "crypto_lib \<Rightarrow> nonce12 \<Rightarrow> seed \<Rightarrow> u8 list \<Rightarrow> u8 list \<Rightarrow> (keystore_error, u8 list) result" where
  "seal_inbound_quarantine_record lib nonce seed =
    seal_with_label lib nonce seed QUARANTINE_RECORD_KEY_LABEL"

definition open_inbound_quarantine_record ::
  "crypto_lib \<Rightarrow> seed \<Rightarrow> u8 list \<Rightarrow> u8 list \<Rightarrow> (keystore_error, u8 list) result" where
  "open_inbound_quarantine_record lib seed = open_with_label lib seed QUARANTINE_RECORD_KEY_LABEL"

definition seal_inbound_quarantine_snapshot ::
  "crypto_lib \<Rightarrow> nonce12 \<Rightarrow> seed \<Rightarrow> u8 list \<Rightarrow> u8 list \<Rightarrow> (keystore_error, u8 list) result" where
  "seal_inbound_quarantine_snapshot lib nonce seed =
    seal_with_label lib nonce seed QUARANTINE_SNAPSHOT_KEY_LABEL"

definition open_inbound_quarantine_snapshot ::
  "crypto_lib \<Rightarrow> seed \<Rightarrow> u8 list \<Rightarrow> u8 list \<Rightarrow> (keystore_error, u8 list) result" where
  "open_inbound_quarantine_snapshot lib seed =
    open_with_label lib seed QUARANTINE_SNAPSHOT_KEY_LABEL"

definition seal_chat_handoff_snapshot ::
  "crypto_lib \<Rightarrow> nonce12 \<Rightarrow> seed \<Rightarrow> u8 list \<Rightarrow> u8 list \<Rightarrow> (keystore_error, u8 list) result" where
  "seal_chat_handoff_snapshot lib nonce seed = seal_with_label lib nonce seed CHAT_HANDOFF_KEY_LABEL"

definition open_chat_handoff_snapshot ::
  "crypto_lib \<Rightarrow> seed \<Rightarrow> u8 list \<Rightarrow> u8 list \<Rightarrow> (keystore_error, u8 list) result" where
  "open_chat_handoff_snapshot lib seed = open_with_label lib seed CHAT_HANDOFF_KEY_LABEL"

section \<open>Mnemonic phrases\<close>

definition seed_to_mnemonic :: "crypto_lib \<Rightarrow> seed \<Rightarrow> nat \<Rightarrow> (keystore_error, string) result" where
  "seed_to_mnemonic lib seed word_count =
    (if word_count = 12
     then map_err Bip39Error (of_sum (bip39_from_entropy lib (take 16 (bytes (seed_as_bytes seed)))))
     else if word_count = 24
     then map_err Bip39Error (of_sum (bip39_from_entropy lib (take 32 (bytes (seed_as_bytes seed)))))
     else Err (Bip39Error ''Word count must be 12 or 24''))"

text \<open>\<open>seed_bytes[..len].copy_from_slice(&entropy)\<close> panics when the entropy is longer than
  \<open>len\<close>.\<close>

definition mnemonic_to_seed :: "crypto_lib \<Rightarrow> string \<Rightarrow> (keystore_error, seed) result" where
  "mnemonic_to_seed lib phrase =
    and_then (map_err Bip39Error (of_sum (bip39_parse_to_entropy lib phrase))) (\<lambda>entropy.
      let len = min (length entropy) 32
      in if length entropy \<noteq> len then Panic
         else Ok (KeySeed (barray_of (entropy @ replicate (32 - len) 0))))"

section \<open>Hexadecimal seeds\<close>

definition from_hex_nibble :: "u8 \<Rightarrow> u8 option" where
  "from_hex_nibble c =
    (if 48 \<le> c \<and> c \<le> 57 then Some (c - 48)
     else if 97 \<le> c \<and> c \<le> 102 then Some (c - 97 + 10)
     else if 65 \<le> c \<and> c \<le> 70 then Some (c - 65 + 10)
     else None)"

definition HEX :: "u8 list" where
  "HEX = ascii ''0123456789abcdef''"

text \<open>Strings are their UTF-8 bytes here.\<close>

definition encode_hex :: "u8 list \<Rightarrow> u8 list" where
  "encode_hex bs = concat (map (\<lambda>b. [HEX ! unat (drop_bit 4 b), HEX ! unat (b AND 0x0f)]) bs)"

fun decode_hex_loop :: "u8 list \<Rightarrow> nat \<Rightarrow> u8 list \<Rightarrow> (keystore_error, u8 list) result" where
  "decode_hex_loop input 0 out = Ok out"
| "decode_hex_loop input (Suc n) out =
    (let i = 31 - n in
     and_then (ok_or (from_hex_nibble (input ! (i * 2)))
        (PlatformError ''Invalid seed encoding in keychain'')) (\<lambda>hi.
     and_then (ok_or (from_hex_nibble (input ! (i * 2 + 1)))
        (PlatformError ''Invalid seed encoding in keychain'')) (\<lambda>lo.
       decode_hex_loop input n (out[i := (push_bit 4 hi OR lo)]))))"

definition decode_hex_32 :: "u8 list \<Rightarrow> (keystore_error, b32) result" where
  "decode_hex_32 input =
    (if length input \<noteq> 64 then Err (InvalidSeedLength (length input div 2))
     else and_then (decode_hex_loop input 32 (replicate 32 0)) (\<lambda>out. Ok (barray_of out)))"

definition is_ascii_hexdigit :: "u8 \<Rightarrow> bool" where
  "is_ascii_hexdigit c \<longleftrightarrow> 48 \<le> c \<and> c \<le> 57 \<or> 97 \<le> c \<and> c \<le> 102 \<or> 65 \<le> c \<and> c \<le> 70"

definition SEED_ACCOUNT_PREFIX :: "u8 list" where
  "SEED_ACCOUNT_PREFIX = ascii ''capsule_seed:''"

definition is_seed_account :: "u8 list \<Rightarrow> bool" where
  "is_seed_account account \<longleftrightarrow>
    take (length SEED_ACCOUNT_PREFIX) account = SEED_ACCOUNT_PREFIX
    \<and> length (drop (length SEED_ACCOUNT_PREFIX) account) = 64
    \<and> list_all is_ascii_hexdigit (drop (length SEED_ACCOUNT_PREFIX) account)"

definition seed_account :: "(u8 list \<Rightarrow> b32) \<Rightarrow> seed \<Rightarrow> u8 list" where
  "seed_account H seed =
    SEED_ACCOUNT_PREFIX
    @ encode_hex (bytes (H (bytes (seed_as_bytes seed) @ ascii ''hivra_capsule_seed_account_v1'')))"

section \<open>Root signatures\<close>

datatype ed25519_crypto_error =
    InvalidPublicKey
  | InvalidSignature
  | InvalidSecretKey
  | VerifyFailed
  | EcdhUnsupported

definition ed25519_verify ::
  "crypto_lib \<Rightarrow> u8 list \<Rightarrow> b32 \<Rightarrow> b64 \<Rightarrow> ed25519_crypto_error + unit" where
  "ed25519_verify lib msg pubkey sig =
    (if \<not> ed_public_valid lib pubkey then Inl InvalidPublicKey
     else if \<not> ed_verify lib pubkey msg sig then Inl VerifyFailed else Inr ())"

definition ed25519_sign :: "crypto_lib \<Rightarrow> u8 list \<Rightarrow> b32 \<Rightarrow> ed25519_crypto_error + b64" where
  "ed25519_sign lib msg privkey = Inr (ed_sign lib privkey msg)"

definition ed25519_ecdh :: "b32 \<Rightarrow> b32 \<Rightarrow> ed25519_crypto_error + b32" where
  "ed25519_ecdh privkey pubkey = Inl EcdhUnsupported"

section \<open>Every role has its own key\<close>

text \<open>What the documentation of AES-GCM promises: a ciphertext (which has a 16-byte tag) decrypts, under the key,
  nonce and associated data it was made with, to its plaintext.\<close>

definition aead_correct :: "crypto_lib \<Rightarrow> bool" where
  "aead_correct lib \<longleftrightarrow>
    (\<forall>k n a p c. aes_encrypt lib k n a p = Some c \<longrightarrow> c \<noteq> [] \<and> aes_decrypt lib k n a c = Some p)"

lemma seal_with_label_Ok:
  "seal_with_label lib nonce seed label a p = Ok s \<longleftrightarrow>
    (\<exists>key c. derive_key_with_label lib seed label = Ok key \<and> aes_key_accepted lib key
      \<and> aes_encrypt lib key (bytes nonce) a p = Some c
      \<and> s = [SEALED_PAYLOAD_VERSION] @ bytes nonce @ c)"
  by (auto simp: seal_with_label_def)

lemma open_with_label_Ok:
  "open_with_label lib seed label a s = Ok p \<longleftrightarrow>
    (\<exists>(nonce :: nonce12) c key. s = [SEALED_PAYLOAD_VERSION] @ bytes nonce @ c \<and> c \<noteq> []
      \<and> derive_key_with_label lib seed label = Ok key \<and> aes_key_accepted lib key
      \<and> aes_decrypt lib key (bytes nonce) a c = Some p)"
proof (cases "length s \<le> 13 \<or> s ! 0 \<noteq> SEALED_PAYLOAD_VERSION")
  case True
  then have "s \<noteq> [SEALED_PAYLOAD_VERSION] @ bytes nonce @ c \<or> c = []" for nonce :: nonce12 and c
    by auto
  with True show ?thesis by (auto simp: open_with_label_def AES_GCM_NONCE_LEN_def)
next
  case False
  then obtain t where s: "s = SEALED_PAYLOAD_VERSION # t" and t: "12 < length t"
    by (cases s) auto
  have frame: "t = bytes nonce @ c \<longleftrightarrow> bytes nonce = take 12 t \<and> c = drop 12 t"
    for nonce :: nonce12 and c
    using t by (auto simp: append_eq_conv_conj)
  have "bytes (barray_of (take 12 t) :: nonce12) = take 12 t"
    using t by (intro bytes_barray_of) simp
  then obtain nonce :: nonce12 where nonce: "bytes nonce = take 12 t" ..
  have "(\<exists>(n :: nonce12) c. t = bytes n @ c \<and> P n c) \<longleftrightarrow> P nonce (drop 12 t)" for P
    unfolding frame using nonce by (metis bytes_eq_iff)
  from this [of "\<lambda>n c. c \<noteq> [] \<and> (\<exists>key. derive_key_with_label lib seed label = Ok key
      \<and> aes_key_accepted lib key \<and> aes_decrypt lib key (bytes n) a c = Some p)"]
  show ?thesis
    using t nonce by (auto simp: s open_with_label_def AES_GCM_NONCE_LEN_def)
qed

text \<open>The three kinds of record the application keeps on disk.\<close>

datatype sealing_role = QuarantineRecord | QuarantineSnapshot | ChatHandoff

fun seal_as ::
  "sealing_role \<Rightarrow> crypto_lib \<Rightarrow> nonce12 \<Rightarrow> seed \<Rightarrow> u8 list \<Rightarrow> u8 list \<Rightarrow> (keystore_error, u8 list) result" where
  "seal_as QuarantineRecord = seal_inbound_quarantine_record"
| "seal_as QuarantineSnapshot = seal_inbound_quarantine_snapshot"
| "seal_as ChatHandoff = seal_chat_handoff_snapshot"

fun open_as ::
  "sealing_role \<Rightarrow> crypto_lib \<Rightarrow> seed \<Rightarrow> u8 list \<Rightarrow> u8 list \<Rightarrow> (keystore_error, u8 list) result" where
  "open_as QuarantineRecord = open_inbound_quarantine_record"
| "open_as QuarantineSnapshot = open_inbound_quarantine_snapshot"
| "open_as ChatHandoff = open_chat_handoff_snapshot"

fun role_label :: "sealing_role \<Rightarrow> u8 list" where
  "role_label QuarantineRecord = QUARANTINE_RECORD_KEY_LABEL"
| "role_label QuarantineSnapshot = QUARANTINE_SNAPSHOT_KEY_LABEL"
| "role_label ChatHandoff = CHAT_HANDOFF_KEY_LABEL"

lemma by_role:
  "seal_as role lib nonce seed = seal_with_label lib nonce seed (role_label role)"
  "open_as role lib seed = open_with_label lib seed (role_label role)"
  by (cases role, simp_all add: fun_eq_iff seal_inbound_quarantine_record_def open_inbound_quarantine_record_def
      seal_inbound_quarantine_snapshot_def open_inbound_quarantine_snapshot_def seal_chat_handoff_snapshot_def
      open_chat_handoff_snapshot_def)+

text \<open>The strings the keys of a seed are derived for: five, and all different.\<close>

definition key_infos :: "u8 list set" where
  "key_infos = {role_label QuarantineRecord, role_label QuarantineSnapshot, role_label ChatHandoff,
    ascii ''HIVRA_NOSTR_KEY_v1'', ascii ''HIVRA_ROOT_IDENTITY_v1''}"

lemma key_infos_mem: "ascii ''HIVRA_NOSTR_KEY_v1'' \<in> key_infos" "ascii ''HIVRA_ROOT_IDENTITY_v1'' \<in> key_infos"
  by (simp_all only: key_infos_def insert_iff simp_thms)

lemma role_label_inject: "role_label role = role_label role' \<longleftrightarrow> role = role'"
  by (cases role; cases role') (simp_all add: QUARANTINE_RECORD_KEY_LABEL_def QUARANTINE_SNAPSHOT_KEY_LABEL_def
      CHAT_HANDOFF_KEY_LABEL_def ascii_def)

lemma role_label_info: "role_label role \<in> key_infos"
  by (cases role) (simp_all only: key_infos_def insert_iff simp_thms)

lemma role_label_secret:
  "role_label role \<notin> {ascii ''HIVRA_NOSTR_KEY_v1'', ascii ''HIVRA_ROOT_IDENTITY_v1''}"
  by (cases role) (simp_all add: QUARANTINE_RECORD_KEY_LABEL_def QUARANTINE_SNAPSHOT_KEY_LABEL_def
      CHAT_HANDOFF_KEY_LABEL_def ascii_def)

lemmas role_labels = role_label_inject role_label_info role_label_secret [simplified, THEN conjunct1]
  role_label_secret [simplified, THEN conjunct2]

text \<open>C35: A record sealed in one role opens in that role, under the same seed and associated data, to what was sealed
  (when AES-GCM decrypts what it encrypted). Its key belongs to that role alone: it is neither the Nostr secret nor the
  root secret, and whoever opens the record in a role and with associated data of their own makes AES-GCM decrypt the
  ciphertext with exactly that associated data and with another key, unless the role is the same (when HKDF gives
  different keys for the five derivation strings in use).\<close>

theorem sealed_record_belongs_to_its_role:
  assumes "aead_correct lib" and "inj_on (hkdf_expand lib (bytes (seed_as_bytes seed))) key_infos"
    and "seal_as role lib nonce seed a p = Ok s"
  shows "open_as role lib seed a s = Ok p
    \<and> (\<exists>key c. aes_encrypt lib key (bytes nonce) a p = Some c
        \<and> derive_nostr_keypair lib seed \<noteq> Ok key \<and> derive_root_keypair lib seed \<noteq> Ok key
        \<and> (\<forall>role' a' q. open_as role' lib seed a' s = Ok q \<longrightarrow>
            (\<exists>key'. (key' = key \<longleftrightarrow> role' = role) \<and> aes_decrypt lib key' (bytes nonce) a' c = Some q)))"
proof -
  from assms(3) obtain key c where key: "derive_key_with_label lib seed (role_label role) = Ok key"
      "aes_key_accepted lib key"
    and c: "aes_encrypt lib key (bytes nonce) a p = Some c"
    and s: "s = [SEALED_PAYLOAD_VERSION] @ bytes nonce @ c"
    by (auto simp: by_role seal_with_label_Ok)
  have c': "c \<noteq> []" "aes_decrypt lib key (bytes nonce) a c = Some p" using assms(1) c by (auto simp: aead_correct_def)
  have derived: "derive_key_with_label lib seed info = Ok k \<longleftrightarrow> hkdf_expand lib (bytes (seed_as_bytes seed)) info = Some k"
    for info k by (cases "hkdf_expand lib (bytes (seed_as_bytes seed)) info") (simp_all add: derive_key_with_label_def)
  have other: "derive_key_with_label lib seed info = Ok key \<longleftrightarrow> info = role_label role" if "info \<in> key_infos" for info
    using key(1) inj_on_eq_iff [OF assms(2) that role_labels(2) [of role]] by (auto simp: derived)
  have opens: "open_as role' lib seed a' s = Ok q \<longleftrightarrow> (\<exists>key'. derive_key_with_label lib seed (role_label role') = Ok key'
      \<and> aes_key_accepted lib key' \<and> aes_decrypt lib key' (bytes nonce) a' c = Some q)" for role' a' q
    using c'(1) by (auto simp: by_role open_with_label_Ok s append_eq_append_conv)
  have "derive_nostr_keypair lib seed \<noteq> Ok key" "derive_root_keypair lib seed \<noteq> Ok key"
    unfolding derive_nostr_keypair_def derive_root_keypair_def
    using other [OF key_infos_mem(1)] other [OF key_infos_mem(2)] role_labels(3,4) [of role] by metis+
  moreover have "open_as role lib seed a s = Ok p" using opens key c' by blast
  moreover have "\<exists>key'. (key' = key \<longleftrightarrow> role' = role) \<and> aes_decrypt lib key' (bytes nonce) a' c = Some q"
    if opened: "open_as role' lib seed a' s = Ok q" for role' a' q
  proof -
    obtain key' where key': "derive_key_with_label lib seed (role_label role') = Ok key'"
      and q: "aes_decrypt lib key' (bytes nonce) a' c = Some q"
      using opened opens by blast
    have "key' = key \<longleftrightarrow> role' = role"
      using other [OF role_labels(2) [of role']] by (simp add: key' role_labels(1))
    with q show ?thesis by blast
  qed
  ultimately show ?thesis using c by blast
qed

text \<open>A scheme that writes the key and the associated data in front of the plaintext.\<close>

definition sample_header :: "b32 \<Rightarrow> u8 list \<Rightarrow> u8 list" where
  "sample_header k a = bytes k @ replicate (length a) 1 @ 0 # a"

definition sample_crypto :: crypto_lib where
  "sample_crypto =
    \<lparr> hkdf_expand = (\<lambda>seed info. Some (barray_of (info @ replicate 32 0))),
      aes_key_accepted = (\<lambda>_. True),
      aes_encrypt = (\<lambda>k n a p. Some (sample_header k a @ p)),
      aes_decrypt = (\<lambda>k n a c.
        if take (length (sample_header k a)) c = sample_header k a
        then Some (drop (length (sample_header k a)) c) else None),
      bip39_from_entropy = (\<lambda>e. Inr (map (\<lambda>b. char_of (unat b)) e)),
      bip39_parse_to_entropy = (\<lambda>s. Inr (map (\<lambda>c. of_nat (of_char c)) s)),
      ed_public = id, ed_sign = (\<lambda>k msg. barray_of (take 64 (bytes k @ msg @ replicate 64 0))),
      ed_public_valid = (\<lambda>_. True),
      ed_verify = (\<lambda>k msg sig. sig = barray_of (take 64 (bytes k @ msg @ replicate 64 0))) \<rparr>"

lemma take_drop_eq_append: "take (length u) c = u \<and> drop (length u) c = q \<longleftrightarrow> c = u @ q"
  by (metis append_eq_conv_conj append_take_drop_id)

lemma sample_crypto_ideal: "aead_correct sample_crypto"
proof -
  have enc: "aes_encrypt sample_crypto k n a p = Some c \<longleftrightarrow> c = sample_header k a @ p" for k n a p c
    by (auto simp: sample_crypto_def)
  have dec: "aes_decrypt sample_crypto k n a c = Some q \<longleftrightarrow> c = sample_header k a @ q" for k n a c q
    using take_drop_eq_append [of "sample_header k a" c q]
    by (simp add: sample_crypto_def) blast
  have "sample_header k a \<noteq> []" for k a
    by (simp add: sample_header_def)
  then show ?thesis
    by (auto simp: aead_correct_def enc dec)
qed

lemma sample_keys_differ: "inj_on (hkdf_expand sample_crypto bs) key_infos"
proof -
  have cut: "hkdf_expand sample_crypto bs info = Some (barray_of (take 32 (info @ replicate 32 0)))" for info
    by (simp add: sample_crypto_def flip: bytes_eq_iff) (simp add: bytes_barray_of_padded)
  show ?thesis
    unfolding inj_on_def cut
    by (simp add: key_infos_def barray_of_inject QUARANTINE_RECORD_KEY_LABEL_def QUARANTINE_SNAPSHOT_KEY_LABEL_def
        CHAT_HANDOFF_KEY_LABEL_def ascii_def)
qed

theorem sealed_record_belongs_to_its_role_witness:
  "\<exists>s. seal_as QuarantineRecord sample_crypto (bfill 3) (KeySeed (bfill 9)) [1] [7] = Ok s
    \<and> open_as QuarantineRecord sample_crypto (KeySeed (bfill 9)) [1] s = Ok [7]"
proof -
  obtain s where s: "seal_as QuarantineRecord sample_crypto (bfill 3) (KeySeed (bfill 9)) [1] [7] = Ok s"
    unfolding by_role by (auto simp: seal_with_label_Ok derive_key_with_label_def sample_crypto_def)
  from sealed_record_belongs_to_its_role [OF sample_crypto_ideal sample_keys_differ s] s show ?thesis by blast
qed

section \<open>Hexadecimal codec\<close>

definition ascii_lower :: "u8 \<Rightarrow> u8" where
  "ascii_lower c = (if 65 \<le> c \<and> c \<le> 70 then c + 32 else c)"

definition hex_digits :: "u8 list" where
  "hex_digits = [48, 49, 50, 51, 52, 53, 54, 55, 56, 57, 97, 98, 99, 100, 101, 102,
    65, 66, 67, 68, 69, 70]"

lemma word_in_range:
  "(c :: u8) \<in> (\<lambda>n. of_nat n) ` {m..n} \<longleftrightarrow> m \<le> unat c \<and> unat c \<le> n" if "n < 256"
proof
  assume "c \<in> (\<lambda>n. of_nat n) ` {m..n}"
  with that show "m \<le> unat c \<and> unat c \<le> n"
    by (auto simp: unsigned_of_nat take_bit_nat_eq_self)
next
  assume "m \<le> unat c \<and> unat c \<le> n"
  then show "c \<in> (\<lambda>n. of_nat n) ` {m..n}"
    by (intro image_eqI [of _ _ "unat c"]) auto
qed

lemma is_ascii_hexdigit_iff: "is_ascii_hexdigit c \<longleftrightarrow> c \<in> set hex_digits"
proof -
  have "is_ascii_hexdigit c \<longleftrightarrow>
      c \<in> (\<lambda>n. of_nat n) ` {48..57} \<or> c \<in> (\<lambda>n. of_nat n) ` {97..102} \<or> c \<in> (\<lambda>n. of_nat n) ` {65..70}"
    by (simp add: word_in_range is_ascii_hexdigit_def word_le_nat_alt)
  moreover have "set hex_digits
      = (\<lambda>n. of_nat n) ` {48..57} \<union> (\<lambda>n. of_nat n) ` {97..102} \<union> (\<lambda>n. of_nat n) ` {65..70}"
    by (simp add: hex_digits_def atLeastAtMost_upt upt_rec numeral_eq_Suc [symmetric] insert_commute)
  ultimately show ?thesis by auto
qed

lemma HEX_eq: "HEX = [48, 49, 50, 51, 52, 53, 54, 55, 56, 57, 97, 98, 99, 100, 101, 102]"
  by (simp add: HEX_def ascii_def)

lemma hex_digits_values:
  "list_all (\<lambda>c. case from_hex_nibble c of None \<Rightarrow> False
    | Some v \<Rightarrow> unat v < 16 \<and> HEX ! unat v = ascii_lower c) hex_digits"
  by (simp add: hex_digits_def from_hex_nibble_def HEX_eq ascii_lower_def)

lemma from_hex_nibble_Some:
  "from_hex_nibble c = Some v \<longleftrightarrow> is_ascii_hexdigit c \<and> unat v < 16 \<and> HEX ! unat v = ascii_lower c"
proof -
  have dist: "distinct HEX" "length HEX = 16"
    by (simp_all add: HEX_eq)
  have no: "from_hex_nibble c = None" if "\<not> is_ascii_hexdigit c"
    using that by (auto simp: from_hex_nibble_def is_ascii_hexdigit_def)
  have yes: "\<exists>w. from_hex_nibble c = Some w \<and> unat w < 16 \<and> HEX ! unat w = ascii_lower c"
    if "is_ascii_hexdigit c"
    using that hex_digits_values
    by (auto simp: is_ascii_hexdigit_iff list_all_iff split: option.splits)
  show ?thesis
    using no yes dist by (metis (no_types, lifting) nth_eq_iff_index_eq option.distinct(1)
        option.inject word_unat_eq_iff)
qed

lemma nibbles_of_byte:
  fixes v h l :: u8
  assumes "unat h < 16" "unat l < 16"
  shows "push_bit 4 h OR l = v \<longleftrightarrow> h = drop_bit 4 v \<and> l = v AND 0x0f"
proof -
  have high: "\<not> bit x i" if "unat x < 16" "4 \<le> i" for x :: u8 and i
  proof -
    have "(2::nat) ^ 4 \<le> 2 ^ i" using that(2) by (rule power_increasing) simp
    then have "unat x < 2 ^ i" using that(1) by simp
    then have "unat (drop_bit i x) = 0"
      unfolding unat_drop_bit_eq by (simp add: drop_bit_eq_div)
    then have "drop_bit i x = 0" by (simp only: unat_eq_0)
    then show ?thesis by (simp add: bit_iff_odd_drop_bit)
  qed
  have mask: "(0x0f :: u8) = mask 4"
    by (simp add: mask_eq_exp_minus_1)
  note bits = high [OF assms(1)] high [OF assms(2)]
  show ?thesis
    unfolding mask
  proof
    assume v: "push_bit 4 h OR l = v"
    have "bit (drop_bit 4 v) i \<longleftrightarrow> bit h i" if "i < 8" for i
      using bits that by (auto simp: v [symmetric] bit_simps dest: bit_imp_le_length) (metis not_le)
    moreover have "bit (v AND mask 4) i \<longleftrightarrow> bit l i" if "i < 8" for i
      using bits that by (auto simp: v [symmetric] bit_simps) (metis not_le)
    ultimately show "h = drop_bit 4 v \<and> l = v AND mask 4"
      by (intro conjI bit_word_eqI) auto
  next
    assume "h = drop_bit 4 v \<and> l = v AND mask 4"
    then show "push_bit 4 h OR l = v"
      by (intro bit_word_eqI) (auto simp: bit_simps)
  qed
qed

text \<open>The byte at position \<open>i\<close> of the decoded seed.\<close>

definition hex_pair :: "u8 list \<Rightarrow> nat \<Rightarrow> u8 option" where
  "hex_pair input i =
    (case (from_hex_nibble (input ! (i * 2)), from_hex_nibble (input ! (i * 2 + 1))) of
       (Some hi, Some lo) \<Rightarrow> Some (push_bit 4 hi OR lo)
     | _ \<Rightarrow> None)"

lemma decode_hex_loop_step:
  "decode_hex_loop input (Suc n) out = Ok r \<longleftrightarrow>
    (\<exists>v. hex_pair input (31 - n) = Some v \<and> decode_hex_loop input n (out[31 - n := v]) = Ok r)"
  by (auto simp: hex_pair_def Let_def split: option.splits)

lemma decode_hex_loop_Ok:
  "n \<le> 32 \<Longrightarrow> length out = 32 \<Longrightarrow>
    decode_hex_loop input n out = Ok r \<longleftrightarrow>
      length r = 32 \<and> take (32 - n) r = take (32 - n) out
      \<and> (\<forall>i. 32 - n \<le> i \<and> i < 32 \<longrightarrow> hex_pair input i = Some (r ! i))"
proof (induction n arbitrary: out)
  case 0
  then show ?case by auto
next
  case (Suc n)
  let ?i = "31 - n"
  have i: "32 - n = Suc ?i" "32 - Suc n = ?i" "?i < 32" using Suc.prems by auto
  have tk: "take (Suc ?i) r = take (Suc ?i) (out[?i := v]) \<longleftrightarrow> take ?i r = take ?i out \<and> r ! ?i = v"
    if "length r = 32" for v
    using that i Suc.prems by (simp add: take_Suc_conv_app_nth)
  have all: "(\<forall>j. ?i \<le> j \<and> j < 32 \<longrightarrow> P j) \<longleftrightarrow> P ?i \<and> (\<forall>j. Suc ?i \<le> j \<and> j < 32 \<longrightarrow> P j)" for P
    using i by (metis Suc_le_eq le_eq_less_or_eq)
  have IH: "decode_hex_loop input n (out[?i := v]) = Ok r \<longleftrightarrow>
      length r = 32 \<and> take ?i r = take ?i out \<and> r ! ?i = v
      \<and> (\<forall>j. Suc ?i \<le> j \<and> j < 32 \<longrightarrow> hex_pair input j = Some (r ! j))" for v
    using Suc.IH [of "out[?i := v]"] Suc.prems tk i by auto
  show ?case
    unfolding decode_hex_loop_step IH i all by auto
qed

lemma byte_nibbles_small: "unat (drop_bit 4 (v :: u8)) < 16" "unat (v AND 0x0f) < 16"
proof -
  have "unat v < 256" using unsigned_less [of v] by simp
  then show "unat (drop_bit 4 v) < 16"
    unfolding unat_drop_bit_eq by (simp add: drop_bit_eq_div)
  have "v AND 0x0f \<le> 0x0f" by (rule word_and_le1)
  then show "unat (v AND 0x0f) < 16" by (simp add: word_le_nat_alt)
qed

lemma hex_pair_Some:
  "hex_pair input i = Some v \<longleftrightarrow>
    is_ascii_hexdigit (input ! (i * 2)) \<and> is_ascii_hexdigit (input ! (i * 2 + 1))
    \<and> ascii_lower (input ! (i * 2)) = HEX ! unat (drop_bit 4 v)
    \<and> ascii_lower (input ! (i * 2 + 1)) = HEX ! unat (v AND 0x0f)"
proof -
  note small = byte_nibbles_small [of v]
  have "hex_pair input i = Some v \<longleftrightarrow>
      (\<exists>h l. from_hex_nibble (input ! (i * 2)) = Some h
        \<and> from_hex_nibble (input ! (i * 2 + 1)) = Some l \<and> push_bit 4 h OR l = v)"
    by (auto simp: hex_pair_def split: option.splits)
  also have "\<dots> \<longleftrightarrow> from_hex_nibble (input ! (i * 2)) = Some (drop_bit 4 v)
      \<and> from_hex_nibble (input ! (i * 2 + 1)) = Some (v AND 0x0f)"
  proof
    assume "\<exists>h l. from_hex_nibble (input ! (i * 2)) = Some h
        \<and> from_hex_nibble (input ! (i * 2 + 1)) = Some l \<and> push_bit 4 h OR l = v"
    then obtain h l where hl: "from_hex_nibble (input ! (i * 2)) = Some h"
        "from_hex_nibble (input ! (i * 2 + 1)) = Some l" "push_bit 4 h OR l = v"
      by blast
    then have "unat h < 16" "unat l < 16" by (simp_all only: from_hex_nibble_Some)
    from nibbles_of_byte [OF this, of v] hl(3) have "h = drop_bit 4 v" "l = v AND 0x0f"
      by blast+
    with hl(1, 2) show "from_hex_nibble (input ! (i * 2)) = Some (drop_bit 4 v)
      \<and> from_hex_nibble (input ! (i * 2 + 1)) = Some (v AND 0x0f)" by (simp only:)
  next
    assume "from_hex_nibble (input ! (i * 2)) = Some (drop_bit 4 v)
      \<and> from_hex_nibble (input ! (i * 2 + 1)) = Some (v AND 0x0f)"
    with nibbles_of_byte [OF small] show "\<exists>h l. from_hex_nibble (input ! (i * 2)) = Some h
        \<and> from_hex_nibble (input ! (i * 2 + 1)) = Some l \<and> push_bit 4 h OR l = v" by blast
  qed
  also have "\<dots> \<longleftrightarrow>
      is_ascii_hexdigit (input ! (i * 2)) \<and> is_ascii_hexdigit (input ! (i * 2 + 1))
      \<and> ascii_lower (input ! (i * 2)) = HEX ! unat (drop_bit 4 v)
      \<and> ascii_lower (input ! (i * 2 + 1)) = HEX ! unat (v AND 0x0f)"
    using small by (auto simp only: from_hex_nibble_Some)
  finally show ?thesis .
qed

lemma length_encode_hex [simp]: "length (encode_hex bs) = 2 * length bs"
  by (induction bs) (simp_all add: encode_hex_def)

lemma nth_encode_hex:
  "i < length bs \<Longrightarrow>
    encode_hex bs ! (i * 2) = HEX ! unat (drop_bit 4 (bs ! i))
    \<and> encode_hex bs ! (i * 2 + 1) = HEX ! unat (bs ! i AND 0x0f)"
proof (induction bs arbitrary: i)
  case (Cons b bs)
  then show ?case by (cases i) (simp_all add: encode_hex_def)
qed simp

lemma all_less_64: "(\<forall>j<64. P j) \<longleftrightarrow> (\<forall>i<32. P (i * 2) \<and> P (i * 2 + (1 :: nat)))"
proof
  assume R: "\<forall>i<32. P (i * 2) \<and> P (i * 2 + 1)"
  show "\<forall>j<64. P j"
  proof (intro allI impI)
    fix j :: nat assume "j < 64"
    then have "P (j div 2 * 2) \<and> P (j div 2 * 2 + 1)" using R by simp
    then show "P j" by (cases "even j") (auto elim!: oddE evenE simp: mult.commute)
  qed
qed auto

lemma encode_hex_digits:
  "list_all is_ascii_hexdigit (encode_hex bs) \<and> map ascii_lower (encode_hex bs) = encode_hex bs"
proof -
  have HEX: "is_ascii_hexdigit c \<and> ascii_lower c = c" if "c \<in> set HEX" for c
    using that by (auto simp: HEX_eq is_ascii_hexdigit_iff hex_digits_def ascii_lower_def)
  have "length HEX = 16" by (simp add: HEX_eq)
  then have nib: "n < 16 \<Longrightarrow> HEX ! n \<in> set HEX" for n
    by (metis nth_mem)
  have "set (encode_hex bs) \<subseteq> set HEX" for bs
  proof (induction bs)
    case (Cons v bs)
    show ?case using Cons byte_nibbles_small [of v] by (auto simp: encode_hex_def nib)
  qed (simp add: encode_hex_def)
  then show ?thesis
    using HEX by (auto simp: list_all_iff intro: map_idI)
qed

text \<open>The hexadecimal codec of stored seeds is exact: a text decodes to a seed exactly when it is
  64 hexadecimal digits and, in lower case, the encoding of that seed; in particular every
  encoded seed is read back.\<close>

theorem hex_seed_codec_exact:
  "(decode_hex_32 input = Ok b \<longleftrightarrow>
      length input = 64 \<and> list_all is_ascii_hexdigit input
      \<and> map ascii_lower input = encode_hex (bytes b))
    \<and> decode_hex_32 (encode_hex (bytes b)) = Ok b"
proof -
  have main: "decode_hex_32 input = Ok b \<longleftrightarrow> length input = 64 \<and> list_all is_ascii_hexdigit input
      \<and> map ascii_lower input = encode_hex (bytes b)" for input
  proof (cases "length input = 64")
    case True
    have "decode_hex_32 input = Ok b \<longleftrightarrow> (\<exists>r. decode_hex_loop input 32 (replicate 32 0) = Ok r
        \<and> barray_of r = b)"
      using True by (simp add: decode_hex_32_def)
    also have "\<dots> \<longleftrightarrow> (\<forall>i<32. hex_pair input i = Some (bytes b ! i))"
    proof -
      have "length r = 32 \<Longrightarrow> barray_of r = b \<longleftrightarrow> r = bytes b" for r
        using bytes_barray_of [of r, where 'n = 32] by auto
      then have "(\<exists>r. decode_hex_loop input 32 (replicate 32 0) = Ok r \<and> barray_of r = b)
          \<longleftrightarrow> decode_hex_loop input 32 (replicate 32 0) = Ok (bytes b)"
        by (metis decode_hex_loop_Ok barray_of_bytes le_refl length_replicate)
      then show ?thesis by (simp add: decode_hex_loop_Ok)
    qed
    also have "\<dots> \<longleftrightarrow> (\<forall>j<64. is_ascii_hexdigit (input ! j) \<and> ascii_lower (input ! j) = encode_hex (bytes b) ! j)"
    proof -
      have "i < 32 \<Longrightarrow> encode_hex (bytes b) ! (i * 2) = HEX ! unat (drop_bit 4 (bytes b ! i))"
        "i < 32 \<Longrightarrow> encode_hex (bytes b) ! (i * 2 + 1) = HEX ! unat (bytes b ! i AND 0x0f)" for i
        using nth_encode_hex [of i "bytes b"] by simp_all
      then show ?thesis by (auto simp only: all_less_64 hex_pair_Some)
    qed
    also have "\<dots> \<longleftrightarrow> list_all is_ascii_hexdigit input \<and> map ascii_lower input = encode_hex (bytes b)"
      using True by (auto simp: list_all_length list_eq_iff_nth_eq)
    finally show ?thesis using True by simp
  qed (simp add: decode_hex_32_def)
  have "decode_hex_32 (encode_hex (bytes b)) = Ok b"
    using encode_hex_digits [of "bytes b"] by (simp add: main)
  with main show ?thesis by blast
qed

section \<open>What a phrase keeps of a seed\<close>

text \<open>Documented behaviour of the BIP-39 crate: a phrase made from entropy parses to it.\<close>

definition bip39_roundtrip :: "crypto_lib \<Rightarrow> bool" where
  "bip39_roundtrip lib \<longleftrightarrow>
    (\<forall>e phrase. bip39_from_entropy lib e = Inr phrase \<longrightarrow> bip39_parse_to_entropy lib phrase = Inr e)"

text \<open>A phrase of 24 words restores its seed. A phrase of 12 words restores the first 16 bytes
  only and zeroes the others, so it restores the seed exactly when those were zero.\<close>

theorem mnemonic_keeps_seed_prefix:
  assumes "bip39_roundtrip lib" and "seed_to_mnemonic lib seed n = Ok phrase"
  shows "(n = 12 \<or> n = 24)
    \<and> (mnemonic_to_seed lib phrase = Ok seed
        \<longleftrightarrow> n = 24 \<or> drop 16 (bytes (seed_as_bytes seed)) = replicate 16 0)"
proof -
  let ?b = "bytes (seed_as_bytes seed)"
  have "n = 12 \<or> n = 24"
    using assms(2) by (auto simp: seed_to_mnemonic_def split: if_splits)
  moreover have "mnemonic_to_seed lib phrase = Ok seed \<longleftrightarrow> drop 16 ?b = replicate 16 0" if "n = 12"
  proof -
    have parse: "bip39_parse_to_entropy lib phrase = Inr (take 16 ?b)"
      using assms that by (auto simp: seed_to_mnemonic_def bip39_roundtrip_def)
    have "mnemonic_to_seed lib phrase = Ok seed \<longleftrightarrow>
        (barray_of (take 16 ?b @ replicate 16 0) :: b32) = seed_as_bytes seed"
      by (cases seed) (simp add: mnemonic_to_seed_def parse)
    also have "\<dots> \<longleftrightarrow> take 16 ?b @ replicate 16 0 = ?b"
      using barray_of_inject [of "take 16 ?b @ replicate 16 0" "?b", where 'n = 32]
      by (simp add: min_def)
    also have "\<dots> \<longleftrightarrow> drop 16 ?b = replicate 16 0"
      by (metis append_take_drop_id same_append_eq)
    finally show ?thesis .
  qed
  moreover have "mnemonic_to_seed lib phrase = Ok seed" if "n = 24"
  proof -
    have "bip39_parse_to_entropy lib phrase = Inr ?b"
      using assms that by (auto simp: seed_to_mnemonic_def bip39_roundtrip_def)
    then show ?thesis by (cases seed) (simp add: mnemonic_to_seed_def)
  qed
  ultimately show ?thesis by auto
qed

lemma sample_bip39: "bip39_roundtrip sample_crypto"
proof -
  have "unat x < 256" for x :: u8
    using unsigned_less [of x] by simp
  then have "unat x mod 256 = unat x" for x :: u8
    by simp
  then show ?thesis
    by (auto simp: bip39_roundtrip_def sample_crypto_def o_def intro!: map_idI)
qed

theorem mnemonic_keeps_seed_prefix_witness:
  "\<exists>phrase. seed_to_mnemonic sample_crypto (KeySeed (bfill 7)) 12 = Ok phrase
    \<and> mnemonic_to_seed sample_crypto phrase \<noteq> Ok (KeySeed (bfill 7))"
proof -
  obtain phrase where p: "seed_to_mnemonic sample_crypto (KeySeed (bfill 7)) 12 = Ok phrase"
    by (simp add: seed_to_mnemonic_def sample_crypto_def)
  have "replicate 16 (7 :: u8) \<noteq> replicate 16 0" by (simp add: replicate_eq_replicate)
  with mnemonic_keeps_seed_prefix [OF sample_bip39 p] p show ?thesis by auto
qed

text \<open>The account a seed is stored under passes the check the deletion makes.\<close>

lemma seed_account_accepted: "is_seed_account (seed_account H seed)"
proof -
  let ?d = "encode_hex (bytes (H (bytes (seed_as_bytes seed) @ ascii ''hivra_capsule_seed_account_v1'')))"
  have "list_all is_ascii_hexdigit ?d"
    using encode_hex_digits by blast
  then show ?thesis
    by (simp add: is_seed_account_def seed_account_def SEED_ACCOUNT_PREFIX_def)
qed

end
