(* ===== verification/Actions.thy ===== *)
theory Actions
  imports Engine
begin

text \<open>
  Actions over a state: reading, changing and failing, and the judgement \<open>outcome m s Q\<close> (running \<open>m\<close>
  from \<open>s\<close> ends in a result and a state related by \<open>Q\<close>), with one rule per building block. The runtime
  and the quarantine repository are sequences of such actions.
\<close>

section \<open>Building blocks\<close>

definition with_error :: "'e \<Rightarrow> ('s, 'f, 'a) action \<Rightarrow> ('s, 'e, 'a) action" where
  "with_error e m = (\<lambda>w. case m w of (r, w') \<Rightarrow> (map_err (\<lambda>_. e) r, w'))"

definition inspect :: "('s \<Rightarrow> ('e, 'a) result) \<Rightarrow> ('s, 'e, 'a) action" where
  "inspect f = (\<lambda>s. (f s, s))"

definition modify :: "('s \<Rightarrow> 's) \<Rightarrow> ('s, 'e, unit) action" where
  "modify f = (\<lambda>s. (Ok (), f s))"

text \<open>A \<open>match\<close> on the result of a call, and \<open>map_err\<close> on it.\<close>

definition attempt ::
  "('s, 'e, 'a) action \<Rightarrow> ('a \<Rightarrow> ('s, 'f, 'b) action) \<Rightarrow> ('e \<Rightarrow> ('s, 'f, 'b) action) \<Rightarrow> ('s, 'f, 'b) action" where
  "attempt m f k = (\<lambda>s. case m s of
     (Ok x, s') \<Rightarrow> f x s' | (Err e, s') \<Rightarrow> k e s' | (Panic, s') \<Rightarrow> (Panic, s'))"

definition map_error :: "('e \<Rightarrow> 'f) \<Rightarrow> ('s, 'e, 'a) action \<Rightarrow> ('s, 'f, 'a) action" where
  "map_error g m = (\<lambda>s. case m s of (r, s') \<Rightarrow> (map_err g r, s'))"

section \<open>Outcomes\<close>

named_theorems outcome_simps \<open>outcomes of the building blocks of actions\<close>

definition outcome ::
  "('s, 'e, 'a) action \<Rightarrow> 's \<Rightarrow> (('e, 'a) result \<Rightarrow> 's \<Rightarrow> bool) \<Rightarrow> bool" where
  "outcome m s Q \<longleftrightarrow> (case m s of (r, s') \<Rightarrow> Q r s')"

lemma outcomeD: "outcome m s Q \<Longrightarrow> m s = (r, s') \<Longrightarrow> Q r s'"
  by (simp add: outcome_def)

lemma outcome_seq [outcome_simps]:
  "outcome (seq m f) s Q \<longleftrightarrow>
    outcome m s (\<lambda>r s'. case r of Ok x \<Rightarrow> outcome (f x) s' Q | Err e \<Rightarrow> Q (Err e) s' | Panic \<Rightarrow> Q Panic s')"
  by (simp add: outcome_def seq_def split: prod.splits result.splits)

lemma outcome_pure [outcome_simps]: "outcome (pure r) s Q \<longleftrightarrow> Q r s"
  by (simp add: outcome_def)

lemma outcome_inspect [outcome_simps]: "outcome (inspect f) s Q \<longleftrightarrow> Q (f s) s"
  by (simp add: outcome_def inspect_def)

lemma outcome_modify [outcome_simps]: "outcome (modify f) s Q \<longleftrightarrow> Q (Ok ()) (f s)"
  by (simp add: outcome_def modify_def)

lemma outcome_weaken: "outcome m s P \<Longrightarrow> (\<And>r s'. P r s' \<Longrightarrow> Q r s') \<Longrightarrow> outcome m s Q"
  by (auto simp: outcome_def)

lemma outcome_with_error [outcome_simps]:
  "outcome (with_error e m) s Q \<longleftrightarrow> outcome m s (\<lambda>r s'. Q (map_err (\<lambda>_. e) r) s')"
  by (simp add: outcome_def with_error_def split: prod.splits)

lemma outcome_map_error [outcome_simps]:
  "outcome (map_error g m) s Q \<longleftrightarrow> outcome m s (\<lambda>r s'. Q (map_err g r) s')"
  by (simp add: outcome_def map_error_def split: prod.splits)

lemma outcome_attempt [outcome_simps]:
  "outcome (attempt m f k) s Q \<longleftrightarrow>
    outcome m s (\<lambda>r s'. case r of Ok x \<Rightarrow> outcome (f x) s' Q | Err e \<Rightarrow> outcome (k e) s' Q | Panic \<Rightarrow> Q Panic s')"
  by (simp add: outcome_def attempt_def split: prod.splits result.splits)

lemma outcome_seqI:
  assumes "outcome m s R" and "\<And>x s'. R (Ok x) s' \<Longrightarrow> outcome (f x) s' Q"
    and "\<And>e s'. R (Err e) s' \<Longrightarrow> Q (Err e) s'" and "\<And>s'. R Panic s' \<Longrightarrow> Q Panic s'"
  shows "outcome (seq m f) s Q"
  unfolding outcome_seq by (rule outcome_weaken [OF assms(1)]) (use assms in \<open>auto split: result.split\<close>)

lemma outcome_attemptI:
  assumes "outcome m s R" and "\<And>x s'. R (Ok x) s' \<Longrightarrow> outcome (f x) s' Q"
    and "\<And>e s'. R (Err e) s' \<Longrightarrow> outcome (k e) s' Q" and "\<And>s'. R Panic s' \<Longrightarrow> Q Panic s'"
  shows "outcome (attempt m f k) s Q"
  unfolding outcome_attempt by (rule outcome_weaken [OF assms(1)]) (use assms in \<open>auto split: result.split\<close>)

lemma outcome_if:
  "(b \<Longrightarrow> outcome m s Q) \<Longrightarrow> (\<not> b \<Longrightarrow> outcome m' s Q) \<Longrightarrow> outcome (if b then m else m') s Q"
  by simp

lemma outcome_checked:
  "(\<And>x. r = Ok x \<Longrightarrow> outcome (f x) s Q) \<Longrightarrow> (\<And>e. r = Err e \<Longrightarrow> Q (Err e) s) \<Longrightarrow> (r = Panic \<Longrightarrow> Q Panic s) \<Longrightarrow>
    outcome (seq (pure r) f) s Q"
  by (cases r) (simp_all add: outcome_seq outcome_pure)

lemma outcome_inspected: "outcome (g (f s)) s Q \<Longrightarrow> outcome (seq (inspect (\<lambda>s. Ok (f s))) g) s Q"
  by (simp add: outcome_seq outcome_inspect)

lemma outcome_value: "Q (Ok x) s \<Longrightarrow> outcome (pure (Ok x)) s Q"
  by (simp add: outcome_pure)

lemma outcome_conj: "outcome m s P \<Longrightarrow> outcome m s Q \<Longrightarrow> outcome m s (\<lambda>r s'. P r s' \<and> Q r s')"
  by (auto simp: outcome_def)

lemma seq_run: "m s = (Ok x, s') \<Longrightarrow> seq m f s = f x s'"
  by (simp add: seq_def)

lemma seq_pure_Ok [simp]: "seq (pure (Ok x)) f = f x"
  by (simp add: seq_def pure_def)

section \<open>Preserved predicates\<close>

text \<open>\<open>preserves I m\<close>: whatever \<open>m\<close> returns, it leads from a state with \<open>I\<close> to a state with \<open>I\<close>.\<close>

definition preserves :: "('s \<Rightarrow> bool) \<Rightarrow> ('s, 'e, 'a) action \<Rightarrow> bool" where
  "preserves I m \<longleftrightarrow> (\<forall>s. I s \<longrightarrow> outcome m s (\<lambda>r s'. I s'))"

named_theorems preserving \<open>actions that preserve a predicate\<close>

lemma preservesI: "(\<And>s. I s \<Longrightarrow> outcome m s (\<lambda>r s'. I s')) \<Longrightarrow> preserves I m"
  by (simp add: preserves_def)

lemma preservesD: "preserves I m \<Longrightarrow> I s \<Longrightarrow> m s = (r, s') \<Longrightarrow> I s'"
  by (auto simp: preserves_def outcome_def)

lemma preserves_snd: "preserves I m \<Longrightarrow> I s \<Longrightarrow> I (snd (m s))"
  by (rule preservesD [OF _ _ surjective_pairing])

lemma preserves_seq [preserving]:
  assumes "preserves I m" and "\<And>x. preserves I (f x)"
  shows "preserves I (seq m f)"
  by (rule preservesI, rule outcome_seqI [where R = "\<lambda>r s'. I s'"]) (use assms in \<open>simp_all add: preserves_def\<close>)

lemma preserves_attempt [preserving]:
  assumes "preserves I m" and "\<And>x. preserves I (f x)" and "\<And>e. preserves I (k e)"
  shows "preserves I (attempt m f k)"
  by (rule preservesI, unfold outcome_attempt, rule outcome_weaken [where P = "\<lambda>r s'. I s'"])
    (use assms in \<open>simp_all add: preserves_def split: result.split\<close>)

lemma preserves_base [preserving]:
  "preserves I (pure r)" "preserves I (inspect g)"
  by (simp_all add: preserves_def outcome_simps)

lemma preserves_with_error [preserving]: "preserves I m \<Longrightarrow> preserves I (with_error e m)"
  by (simp add: preserves_def outcome_simps)

lemma preserves_map_error [preserving]: "preserves I m \<Longrightarrow> preserves I (map_error g m)"
  by (simp add: preserves_def outcome_simps)

lemma preserves_prod [preserving]:
  "(\<And>a b. preserves I (f a b)) \<Longrightarrow> preserves I (case p of (a, b) \<Rightarrow> f a b)"
  by (cases p) simp

lemma preserves_if [preserving]:
  "(b \<Longrightarrow> preserves I m) \<Longrightarrow> (\<not> b \<Longrightarrow> preserves I m') \<Longrightarrow> preserves I (if b then m else m')"
  by simp

lemma preserves_option [preserving]:
  "(x = None \<Longrightarrow> preserves I m) \<Longrightarrow> (\<And>y. x = Some y \<Longrightarrow> preserves I (f y)) \<Longrightarrow>
    preserves I (case x of None \<Rightarrow> m | Some y \<Rightarrow> f y)"
  by (cases x) simp_all

lemma preserves_result [preserving]:
  "(\<And>x. r = Ok x \<Longrightarrow> preserves I (f x)) \<Longrightarrow> (\<And>e. r = Err e \<Longrightarrow> preserves I (k e)) \<Longrightarrow> (r = Panic \<Longrightarrow> preserves I p) \<Longrightarrow>
    preserves I (case r of Ok x \<Rightarrow> f x | Err e \<Rightarrow> k e | Panic \<Rightarrow> p)"
  by (cases r) simp_all

end
