(* ===== verification/Runtime.thy ===== *)
theory Runtime
  imports Actions Keystore Engine_Clock Starter_Capsule Transport
begin

text \<open>
  \<open>platform/hivra-ffi/src/runtime_support.rs\<close>: the process-wide runtime of a capsule, which creates,
  imports and extends its ledger with the engine over the stored seed.

  The state \<open>ffi_state\<close> holds the two globals (\<open>RUNTIME\<close> and \<open>LAST_ENGINE_TS_MS\<close>, here without
  concurrent callers) and an environment \<open>'w\<close>; the platform record gives what the code calls outside
  the repository: wall clock, random bytes, key storage, the serde codecs of a ledger. The release
  build is modelled (\<open>cfg!(test)\<close> is false).

  The lemmas show that no operation, successful or not, leaves a runtime ledger that does not
  verify, and which ledgers can be imported again.
\<close>

section \<open>State and platform\<close>

record 'w ffi_state =
  fs_capsule :: "capsule option"
  fs_last_engine_ts :: u64
  fs_env :: 'w

text \<open>\<open>pf_wall_clock\<close> is \<open>SystemTime::now().duration_since(UNIX_EPOCH)\<close> in milliseconds \<open>as u64\<close>,
  \<open>pf_parse_ledger\<close> is \<open>parse_ledger_json\<close> (theory \<open>Ledger_Json\<close>) and \<open>pf_ledger_bytes\<close> is \<open>serde_json::to_vec\<close>.\<close>

record 'w platform =
  pf_lib :: crypto_lib
  pf_wall_clock :: "'w \<Rightarrow> u64 option \<times> 'w"
  pf_fill_32 :: "'w \<Rightarrow> b32 \<times> 'w"
  pf_load_seed :: "'w \<Rightarrow> seed option \<times> 'w"
  pf_parse_ledger :: "string \<Rightarrow> ledger option"
  pf_ledger_bytes :: "ledger \<Rightarrow> u8 list option"
  pf_clear_transports :: "'w \<Rightarrow> 'w"

type_synonym ('w, 'a) ffi_action = "('w ffi_state, string, 'a) action"
type_synonym 'w ffi_engine = "('w ffi_state, ed25519_crypto_error, unit) engine"

definition in_env :: "('w \<Rightarrow> 'a \<times> 'w) \<Rightarrow> 'w ffi_state \<Rightarrow> 'a \<times> 'w ffi_state" where
  "in_env f s = (case f (fs_env s) of (x, w) \<Rightarrow> (x, s\<lparr> fs_env := w \<rparr>))"

section \<open>Engines over a seed\<close>

definition ffi_now :: "'w platform \<Rightarrow> 'w ffi_state \<Rightarrow> u64 \<times> 'w ffi_state" where
  "ffi_now pf s =
    (case in_env (pf_wall_clock pf) s of (current, s) \<Rightarrow>
       let next_ts = next_engine_ts (unwrap_or current 0) (fs_last_engine_ts s)
       in (next_ts, s\<lparr> fs_last_engine_ts := next_ts \<rparr>))"

definition seed_public_key :: "crypto_lib \<Rightarrow> seed \<Rightarrow> unit + b32" where
  "seed_public_key lib seed =
    (case derive_root_public_key lib seed of Ok k \<Rightarrow> Inr k | _ \<Rightarrow> Inl ())"

definition seed_sign :: "crypto_lib \<Rightarrow> seed \<Rightarrow> u8 list \<Rightarrow> unit + b64" where
  "seed_sign lib seed msg =
    (case derive_root_keypair lib seed of
       Ok privkey \<Rightarrow> (case ed25519_sign lib msg privkey of Inr sig \<Rightarrow> Inr sig | Inl _ \<Rightarrow> Inl ())
     | _ \<Rightarrow> Inl ())"

definition build_engine_with_config ::
  "'w platform \<Rightarrow> seed \<Rightarrow> engine_config \<Rightarrow> 'w ffi_engine" where
  "build_engine_with_config pf seed config =
    \<lparr> en_now = ffi_now pf,
      en_random_32 = in_env (pf_fill_32 pf),
      en_verify = ed25519_verify (pf_lib pf),
      en_public_key = seed_public_key (pf_lib pf) seed,
      en_sign = seed_sign (pf_lib pf) seed,
      en_config = config \<rparr>"

definition build_engine_for_ledger :: "'w platform \<Rightarrow> seed \<Rightarrow> ledger \<Rightarrow> 'w ffi_engine" where
  "build_engine_for_ledger pf seed l =
    build_engine_with_config pf seed
      (if is_continuous_v5 l then engine_config_continuous else engine_config_default)"

definition build_engine :: "'w platform \<Rightarrow> seed \<Rightarrow> 'w ffi_state \<Rightarrow> 'w ffi_engine" where
  "build_engine pf seed s =
    build_engine_with_config pf seed
      (case map_option (\<lambda>c. is_continuous_v5 (ca_ledger c)) (fs_capsule s) of
         Some continuous \<Rightarrow> if continuous then engine_config_continuous else engine_config_default
       | None \<Rightarrow> engine_config_default)"

definition build_engine_for_active_ledger ::
  "'w platform \<Rightarrow> seed \<Rightarrow> 'w ffi_state \<Rightarrow> (string, 'w ffi_engine) result" where
  "build_engine_for_active_ledger pf seed s =
    and_then (ok_or (fs_capsule s) ''no capsule'') (\<lambda>c.
      Ok (build_engine_for_ledger pf seed (ca_ledger c)))"

definition observe_ledger_tail_ts :: "ledger \<Rightarrow> u64 \<Rightarrow> u64" where
  "observe_ledger_tail_ts l observed =
    (case map_option (\<lambda>e. as_u64 (ev_timestamp e)) (last_opt (l_events l)) of
       Some ts \<Rightarrow> observe_engine_ts ts observed
     | None \<Rightarrow> observed)"

definition event_proof :: "event \<Rightarrow> domain_event_proof" where
  "event_proof e =
    \<lparr> dp_version = ev_version e, dp_kind = event_kind_to_u8 (ev_kind e),
      dp_signer = pub_key_as_bytes (ev_signer e),
      dp_signature = bytes (signature_as_bytes (ev_signature e)) \<rparr>"

section \<open>Derived starters\<close>

definition ffi_derive_starter_id :: "(u8 list \<Rightarrow> b32) \<Rightarrow> seed \<Rightarrow> u8 \<Rightarrow> b32" where
  "ffi_derive_starter_id H seed slot =
    H (bytes (seed_as_bytes seed) @ [slot] @ ascii ''starter_v1'')"

definition derive_starter_nonce :: "(u8 list \<Rightarrow> b32) \<Rightarrow> seed \<Rightarrow> u8 \<Rightarrow> b32" where
  "derive_starter_nonce H seed slot =
    H (bytes (seed_as_bytes seed) @ [slot] @ ascii ''starter_nonce_v1'')"

definition derive_starter_id_lineage ::
  "(u8 list \<Rightarrow> b32) \<Rightarrow> seed \<Rightarrow> u8 \<Rightarrow> b32 \<Rightarrow> pub_key \<Rightarrow> b32" where
  "derive_starter_id_lineage H seed slot invitation_id inviter_anchor =
    H (bytes (seed_as_bytes seed) @ [slot] @ bytes invitation_id
       @ bytes (pub_key_as_bytes inviter_anchor) @ ascii ''starter_v2_lineage'')"

definition derive_starter_nonce_lineage ::
  "(u8 list \<Rightarrow> b32) \<Rightarrow> seed \<Rightarrow> u8 \<Rightarrow> b32 \<Rightarrow> pub_key \<Rightarrow> b32" where
  "derive_starter_nonce_lineage H seed slot invitation_id inviter_anchor =
    H (bytes (seed_as_bytes seed) @ [slot] @ bytes invitation_id
       @ bytes (pub_key_as_bytes inviter_anchor) @ ascii ''starter_nonce_v2_lineage'')"

datatype capsule_owner_mode = LegacyNostr | Root

definition owner_mode_from_u8 :: "u8 \<Rightarrow> capsule_owner_mode" where
  "owner_mode_from_u8 v = (if v = 1 then Root else LegacyNostr)"

section \<open>Appending to a v5 ledger\<close>

definition append_v5_event ::
  "(u8 list \<Rightarrow> b32) \<Rightarrow> 'w ffi_engine \<Rightarrow> ledger \<Rightarrow> event \<Rightarrow> (string, ledger) result" where
  "append_v5_event H en l e =
    (if \<not> is_continuous_v5 l \<or> ev_version e \<noteq> CONTINUOUS_LEDGER_PROTOCOL_VERSION
     then Err ''v5 ledger event mismatch''
     else
       and_then (map_err (\<lambda>_. ''v5 sequence failed'') (next_sequence_v5 l)) (\<lambda>sequence.
       and_then (map_err (\<lambda>_. ''v5 tail commitment failed'') (tail_commitment_v5 H l)) (\<lambda>previous.
       and_then (map_err (\<lambda>_. ''failed to sign ledger entry'')
           (prepare_ledger_entry_v5 H en sequence previous e)) (\<lambda>entry.
         map_err (\<lambda>_. ''v5 append failed'') (append_v5 H l entry)))))"

text \<open>The loop over \<open>starter_kinds.iter().enumerate()\<close>.\<close>

fun create_starters ::
  "(u8 list \<Rightarrow> b32) \<Rightarrow> 'w ffi_engine \<Rightarrow> seed \<Rightarrow> network \<Rightarrow> ledger \<Rightarrow> (nat \<times> starter_kind) list
    \<Rightarrow> ('w, ledger) ffi_action" where
  "create_starters H en seed network l [] = pure (Ok l)"
| "create_starters H en seed network l ((slot, kind) # rest) =
    (let slot_u8 = of_nat slot;
         payload = \<lparr> cr_starter_id = StarterId (ffi_derive_starter_id H seed slot_u8),
                     cr_nonce = derive_starter_nonce H seed slot_u8, cr_kind = kind,
                     cr_network = network_to_byte network \<rparr>
     in seq (with_error ''failed to sign starter birth''
              (prepare_domain_event H en StarterCreated (starter_created_to_bytes payload) None))
          (\<lambda>event.
        seq (pure (append_v5_event H en l (pe_event event))) (\<lambda>l.
          create_starters H en seed network l rest)))"

definition relay_starters :: "(nat \<times> starter_kind) list" where
  "relay_starters = [(0, Juice), (1, Spark), (2, Seed), (3, Pulse), (4, Kick)]"

definition init_runtime_state ::
  "(u8 list \<Rightarrow> b32) \<Rightarrow> 'w platform \<Rightarrow> seed \<Rightarrow> network \<Rightarrow> capsule_type \<Rightarrow> capsule_owner_mode
    \<Rightarrow> ('w, unit) ffi_action" where
  "init_runtime_state H pf seed network capsule_type owner_mode =
    (case owner_mode of
       LegacyNostr \<Rightarrow> pure (Err ''legacy owner mode unsupported'')
     | Root \<Rightarrow>
         seq (pure (map_err (\<lambda>_. ''failed to derive pubkey'')
                (derive_root_public_key (pf_lib pf) seed))) (\<lambda>owner_bytes.
         let owner = PubKey owner_bytes;
             en = build_engine_with_config pf seed engine_config_continuous;
             payload = capsule_created_payload_new (network_to_byte network)
               (capsule_type_to_byte capsule_type) (bfill 0)
         in
         seq (with_error ''failed to sign capsule birth''
               (prepare_domain_event H en CapsuleCreated (capsule_created_to_bytes payload) None))
           (\<lambda>event.
         seq (pure (append_v5_event H en (fresh_v5 owner) (pe_event event))) (\<lambda>l.
         seq (if capsule_type = Relay
              then create_starters H en seed network l relay_starters else pure (Ok l)) (\<lambda>l.
         modify (\<lambda>s. s\<lparr>
           fs_last_engine_ts := observe_ledger_tail_ts l (fs_last_engine_ts s),
           fs_capsule := Some \<lparr> ca_pubkey = owner, ca_capsule_type = capsule_type,
                                ca_network = network, ca_ledger = l \<rparr> \<rparr>))))))"

section \<open>Importing a ledger\<close>

fun verify_event_signatures ::
  "(u8 list \<Rightarrow> b32) \<Rightarrow> crypto_lib \<Rightarrow> event list \<Rightarrow> (string, unit) result" where
  "verify_event_signatures H lib [] = Ok ()"
| "verify_event_signatures H lib (e # es) =
    and_then (map_err (\<lambda>_. ''ledger event signature invalid'')
        (of_sum (ed25519_verify lib (bytes (event_id H e)) (pub_key_as_bytes (ev_signer e))
          (signature_as_bytes (ev_signature e))))) (\<lambda>_.
      verify_event_signatures H lib es)"

definition verify_ledger_event_signatures ::
  "(u8 list \<Rightarrow> b32) \<Rightarrow> crypto_lib \<Rightarrow> ledger \<Rightarrow> (string, unit) result" where
  "verify_ledger_event_signatures H lib l = verify_event_signatures H lib (l_events l)"

text \<open>The last loop of \<open>validate_imported_ledger\<close>.\<close>

fun validate_births ::
  "pub_key \<Rightarrow> nat \<Rightarrow> nat option \<Rightarrow> event list \<Rightarrow> (string, unit) result" where
  "validate_births owner index capsule_birth_index [] = Ok ()"
| "validate_births owner index capsule_birth_index (e # es) =
    (if ev_kind e \<noteq> CapsuleCreated then validate_births owner (Suc index) capsule_birth_index es
     else if capsule_birth_index \<noteq> None then Err ''duplicate capsule birth''
     else if index \<noteq> 0 then Err ''capsule birth misplaced''
     else if ev_signer e \<noteq> owner then Err ''capsule birth signer mismatch''
     else validate_births owner (Suc index) (Some index) es)"

definition validate_imported_ledger ::
  "(u8 list \<Rightarrow> b32) \<Rightarrow> nat \<Rightarrow> crypto_lib \<Rightarrow> ledger \<Rightarrow> pub_key \<Rightarrow> bool \<Rightarrow> (string, unit) result" where
  "validate_imported_ledger H U lib parsed owner verify_signatures =
    (if l_owner parsed \<noteq> owner then Err ''owner mismatch''
     else if \<not> ledger_verify H U parsed then Err ''ledger inconsistent''
     else and_then (if verify_signatures then verify_ledger_event_signatures H lib parsed else Ok ())
       (\<lambda>_.
         if l_events parsed \<noteq> [] \<and> ev_kind (hd (l_events parsed)) \<noteq> CapsuleCreated
         then Err ''ledger missing capsule birth''
         else if l_events parsed \<noteq> [] \<and> ev_signer (hd (l_events parsed)) \<noteq> l_owner parsed
         then Err ''capsule birth signer mismatch''
         else validate_births (l_owner parsed) 0 None (l_events parsed)))"

definition load_seed :: "'w platform \<Rightarrow> ('w, seed) ffi_action" where
  "load_seed pf = seq (sample_with (in_env (pf_load_seed pf))) (\<lambda>r. pure (ok_or r ''seed not found''))"

text \<open>The ledger that replaces a parsed v4 ledger: it is anchored in a v5 ledger.\<close>

definition migrate_parsed ::
  "(u8 list \<Rightarrow> b32) \<Rightarrow> nat \<Rightarrow> 'w platform \<Rightarrow> seed \<Rightarrow> ledger \<Rightarrow> (string, ledger) result" where
  "migrate_parsed H U pf seed parsed =
    and_then (ok_or (pf_ledger_bytes pf parsed) ''serialization failed'') (\<lambda>canonical_v4.
    and_then (map_err (\<lambda>_. ''failed to sign v4 migration anchor'')
        (prepare_legacy_anchor_v5 H (build_engine_for_ledger pf seed parsed)
          (legacy_snapshot_commitment H canonical_v4))) (\<lambda>anchor.
      map_err (\<lambda>_. ''v4 migration failed'') (migrate_v4 H U parsed anchor)))"

definition import_runtime_ledger ::
  "(u8 list \<Rightarrow> b32) \<Rightarrow> nat \<Rightarrow> 'w platform \<Rightarrow> string \<Rightarrow> ('w, unit) ffi_action" where
  "import_runtime_ledger H U pf json =
    seq (inspect (\<lambda>s. ok_or (fs_capsule s) ''no capsule'')) (\<lambda>capsule.
    seq (pure (ok_or (pf_parse_ledger pf json) ''parse failed'')) (\<lambda>parsed.
    seq (pure (validate_imported_ledger H U (pf_lib pf) parsed (ca_pubkey capsule) True)) (\<lambda>_.
    seq (seq (load_seed pf) (\<lambda>seed.
           pure (if is_continuous_v5 parsed
             then and_then (map_err (\<lambda>_. ''v5 ledger signature invalid'')
                 (verify_ledger_v5 H U (build_engine_for_ledger pf seed parsed) parsed)) (\<lambda>_. Ok parsed)
             else migrate_parsed H U pf seed parsed))) (\<lambda>parsed.
      modify (\<lambda>s. s\<lparr>
        fs_last_engine_ts := observe_ledger_tail_ts parsed (fs_last_engine_ts s),
        fs_capsule := Some (capsule\<lparr> ca_ledger := parsed \<rparr>) \<rparr>)))))"

section \<open>Appending to the runtime ledger\<close>

definition store_ledger :: "capsule \<Rightarrow> ledger \<Rightarrow> ('w, unit) ffi_action" where
  "store_ledger capsule l = modify (\<lambda>s. s\<lparr> fs_capsule := Some (capsule\<lparr> ca_ledger := l \<rparr>) \<rparr>)"

definition observe_ts :: "u64 \<Rightarrow> ('w, unit) ffi_action" where
  "observe_ts ts = modify (\<lambda>s. s\<lparr> fs_last_engine_ts := observe_engine_ts ts (fs_last_engine_ts s) \<rparr>)"

definition append_verified_runtime_event ::
  "(u8 list \<Rightarrow> b32) \<Rightarrow> nat \<Rightarrow> 'w platform \<Rightarrow> event \<Rightarrow> ('w, unit) ffi_action" where
  "append_verified_runtime_event H U pf e =
    seq (load_seed pf) (\<lambda>seed.
    seq (inspect (build_engine_for_active_ledger pf seed)) (\<lambda>en.
    seq (pure (map_err (\<lambda>_. ''event signature invalid'') (verify_event H en e (ev_signer e)))) (\<lambda>_.
    seq (inspect (\<lambda>s. ok_or (fs_capsule s) ''no capsule'')) (\<lambda>capsule.
      if is_continuous_v5 (ca_ledger capsule)
      then seq (pure (append_v5_event H en (ca_ledger capsule) e)) (store_ledger capsule)
      else
        let last_plus_one =
          (case last_opt (l_events (ca_ledger capsule)) of
             Some newest \<Rightarrow> saturating_inc (as_u64 (ev_timestamp newest)) | None \<Rightarrow> 0)
        in seq (sample_with (in_env (pf_wall_clock pf))) (\<lambda>now_ms.
          let next_ts = max (unwrap_or now_ms last_plus_one) last_plus_one
          in seq (observe_ts next_ts) (\<lambda>_.
             seq (pure (map_err (\<lambda>_. ''append failed'') (ledger_append U (ca_ledger capsule)
               (event_new (ev_kind e) (ev_payload e) (Timestamp next_ts) (ev_signature e)
                 (ev_signer e))))) (store_ledger capsule)))))))"

definition append_prepared_event ::
  "(u8 list \<Rightarrow> b32) \<Rightarrow> nat \<Rightarrow> 'w platform \<Rightarrow> prepared_event \<Rightarrow> ('w, unit) ffi_action" where
  "append_prepared_event H U pf prepared =
    seq (inspect (\<lambda>s. ok_or (map_option (\<lambda>c. is_continuous_v5 (ca_ledger c)) (fs_capsule s))
          ''no capsule'')) (\<lambda>use_v5.
    seq (if use_v5
         then seq (load_seed pf) (\<lambda>seed.
           seq (inspect (build_engine_for_active_ledger pf seed)) (\<lambda>en. pure (Ok (Some en))))
         else pure (Ok None)) (\<lambda>en.
    seq (inspect (\<lambda>s. ok_or (fs_capsule s) ''no capsule'')) (\<lambda>capsule.
    seq (pure (case en of
           Some en \<Rightarrow> append_v5_event H en (ca_ledger capsule) (pe_event prepared)
         | None \<Rightarrow> map_err (\<lambda>_. ''append failed'')
             (ledger_append U (ca_ledger capsule) (pe_event prepared)))) (\<lambda>l.
    seq (store_ledger capsule l) (\<lambda>_.
      observe_ts (as_u64 (ev_timestamp (pe_event prepared))))))))"

definition append_runtime_event ::
  "(u8 list \<Rightarrow> b32) \<Rightarrow> nat \<Rightarrow> 'w platform \<Rightarrow> event_kind \<Rightarrow> u8 list \<Rightarrow> ('w, unit) ffi_action" where
  "append_runtime_event H U pf kind payload =
    seq (load_seed pf) (\<lambda>seed.
    seq (\<lambda>s. with_error ''event signing failed''
          (prepare_domain_event H (build_engine pf seed s) kind payload None) s)
      (append_prepared_event H U pf))"

definition clear_runtime_state :: "'w platform \<Rightarrow> 'w ffi_state \<Rightarrow> 'w ffi_state" where
  "clear_runtime_state pf s =
    s\<lparr> fs_env := pf_clear_transports pf (fs_env s), fs_capsule := None \<rparr>"

section \<open>Queries\<close>

definition current_capsule_state ::
  "(u8 list \<Rightarrow> b32) \<Rightarrow> 'w ffi_state \<Rightarrow> capsule_state option" where
  "current_capsule_state H s = map_option (capsule_state_of H) (fs_capsule s)"

definition event_kind_from_u8 :: "u8 \<Rightarrow> event_kind option" where
  "event_kind_from_u8 kind =
    (if kind = 0 then Some CapsuleCreated
     else if kind = 1 then Some InvitationSent
     else if kind = 2 then Some InvitationAccepted
     else if kind = 3 then Some InvitationRejected
     else if kind = 4 then Some InvitationExpired
     else if kind = 5 then Some StarterCreated
     else if kind = 6 then Some StarterBurned
     else if kind = 7 then Some RelationshipEstablished
     else if kind = 8 then Some RelationshipBroken
     else if kind = 9 then Some InvitationReceived
     else None)"

definition event_exists_in_runtime :: "'w ffi_state \<Rightarrow> event_kind \<Rightarrow> u8 list \<Rightarrow> bool" where
  "event_exists_in_runtime s kind payload =
    (case fs_capsule s of
       None \<Rightarrow> False
     | Some capsule \<Rightarrow>
         list_ex (\<lambda>e. ev_kind e = kind \<and> ev_payload e = payload) (l_events (ca_ledger capsule)))"

definition event_exists_in_runtime_with_signer ::
  "'w ffi_state \<Rightarrow> event_kind \<Rightarrow> u8 list \<Rightarrow> pub_key \<Rightarrow> bool" where
  "event_exists_in_runtime_with_signer s kind payload signer =
    (case fs_capsule s of
       None \<Rightarrow> False
     | Some capsule \<Rightarrow>
         list_ex (\<lambda>e. ev_kind e = kind \<and> ev_payload e = payload \<and> ev_signer e = signer)
           (l_events (ca_ledger capsule)))"

definition starter_kind_from_slot :: "u8 \<Rightarrow> starter_kind option" where
  "starter_kind_from_slot slot =
    (if slot = 0 then Some Juice
     else if slot = 1 then Some Spark
     else if slot = 2 then Some Seed
     else if slot = 3 then Some Pulse
     else if slot = 4 then Some Kick
     else None)"

definition capsule_network :: "'w ffi_state \<Rightarrow> (string, network) result" where
  "capsule_network s = and_then (ok_or (fs_capsule s) ''no capsule'') (\<lambda>c. Ok (ca_network c))"

definition find_starter_kind_by_id_in_runtime :: "'w ffi_state \<Rightarrow> b32 \<Rightarrow> starter_kind option" where
  "find_starter_kind_by_id_in_runtime s starter_id =
    Option.bind (fs_capsule s) (\<lambda>capsule.
      find_map (\<lambda>e.
        if ev_kind e \<noteq> StarterCreated then None
        else case ok (starter_created_from_bytes (ev_payload e)) of
               None \<Rightarrow> None
             | Some p \<Rightarrow>
                 if starter_id_as_bytes (cr_starter_id p) = starter_id then Some (cr_kind p) else None)
        (l_events (ca_ledger capsule)))"

definition starter_is_active_in_runtime :: "'w ffi_state \<Rightarrow> starter_id \<Rightarrow> bool" where
  "starter_is_active_in_runtime s starter_id =
    (case fs_capsule s of
       None \<Rightarrow> False
     | Some capsule \<Rightarrow>
         find_by_starter (layout_from_ledger (ca_ledger capsule)) starter_id \<noteq> None)"

definition active_starter_id_for_slot :: "'w ffi_state \<Rightarrow> u8 \<Rightarrow> starter_id option" where
  "active_starter_id_for_slot s slot =
    Option.bind (slot_index_new slot) (\<lambda>index.
    Option.bind (fs_capsule s) (\<lambda>capsule.
      starter_id_at (layout_from_ledger (ca_ledger capsule)) index))"

section \<open>The runtime ledger verifies at every moment\<close>

text \<open>Documented behaviour of Ed25519: a signature verifies under the key of its signer.\<close>

definition ed25519_law :: "crypto_lib \<Rightarrow> bool" where
  "ed25519_law lib \<longleftrightarrow>
    (\<forall>k msg. ed_public_valid lib (ed_public lib k)
      \<and> ed_verify lib (ed_public lib k) msg (ed_sign lib k msg))"

lemma seed_public_key_Inr [simp]:
  "seed_public_key lib seed = Inr k \<longleftrightarrow> derive_root_public_key lib seed = Ok k"
  by (simp add: seed_public_key_def split: result.splits)

lemma built_engine_signs:
  "ed25519_law (pf_lib pf) \<Longrightarrow> signatures_verify (build_engine_with_config pf seed cfg)"
  by (auto simp: signatures_verify_def build_engine_with_config_def ed25519_law_def
      seed_sign_def ed25519_sign_def ed25519_verify_def derive_root_public_key_def
      split: result.splits)

lemma built_engine_verify [simp]:
  "en_verify (build_engine_with_config pf seed cfg) = ed25519_verify (pf_lib pf)"
  "en_config (build_engine_with_config pf seed cfg) = cfg"
  by (simp_all add: build_engine_with_config_def)

text \<open>Verification uses the signature check of an engine only.\<close>

lemma verify_ledger_v5_cong:
  fixes en :: "('w, 'c, 'k) engine" and en' :: "('v, 'c, 'j) engine"
  assumes "en_verify en = en_verify en'"
  shows "verify_ledger_v5 H U en l = verify_ledger_v5 H U en' l"
proof -
  have "verify_entries H en xs = verify_entries H en' xs" for xs
    by (induction xs) (simp_all add: verify_domain_event_v5_def verify_ledger_entry_v5_def assms)
  then show ?thesis by (simp add: verify_ledger_v5_def assms cong: result.case_cong option.case_cong)
qed

definition event_signed :: "(u8 list \<Rightarrow> b32) \<Rightarrow> crypto_lib \<Rightarrow> event \<Rightarrow> bool" where
  "event_signed H lib e \<longleftrightarrow>
    ed25519_verify lib (bytes (event_id H e)) (pub_key_as_bytes (ev_signer e))
      (signature_as_bytes (ev_signature e)) = Inr ()"

lemma verify_event_signatures_Ok:
  "verify_event_signatures H lib es = Ok () \<longleftrightarrow> list_all (event_signed H lib) es"
  by (induction es) (auto simp: event_signed_def)

definition runtime_ledger_ok :: "(u8 list \<Rightarrow> b32) \<Rightarrow> nat \<Rightarrow> 'w platform \<Rightarrow> ledger \<Rightarrow> bool" where
  "runtime_ledger_ok H U pf l \<longleftrightarrow>
    is_continuous_v5 l \<and> ledger_verify H U l
    \<and> verify_ledger_event_signatures H (pf_lib pf) l = Ok ()
    \<and> verify_ledger_v5 H U (build_engine_for_ledger pf (KeySeed (bfill 0)) l) l = Ok ()"

definition runtime_inv :: "(u8 list \<Rightarrow> b32) \<Rightarrow> nat \<Rightarrow> 'w platform \<Rightarrow> 'w ffi_state \<Rightarrow> bool" where
  "runtime_inv H U pf s \<longleftrightarrow>
    (case fs_capsule s of
       None \<Rightarrow> True
     | Some c \<Rightarrow> l_owner (ca_ledger c) = ca_pubkey c \<and> runtime_ledger_ok H U pf (ca_ledger c))"

lemma verify_ledger_v5_any_engine:
  "verify_ledger_v5 H U (build_engine_with_config pf seed cfg) l
    = verify_ledger_v5 H U (build_engine_with_config pf seed' cfg') l"
  by (rule verify_ledger_v5_cong) simp

lemma runtime_ledger_ok_iff:
  "runtime_ledger_ok H U pf l \<longleftrightarrow>
    list_all (event_signed H (pf_lib pf)) (l_events l)
    \<and> verify_ledger_v5 H U (build_engine_with_config pf seed cfg) l = Ok ()"
proof -
  have "verify_ledger_v5 H U (build_engine_with_config pf seed cfg) l = Ok () \<Longrightarrow>
      is_continuous_v5 l \<and> ledger_verify H U l"
    by (auto simp: verify_ledger_v5_iff ledger_verify_def is_continuous_v5_def)
  then show ?thesis
    unfolding runtime_ledger_ok_def build_engine_for_ledger_def verify_ledger_event_signatures_def
      verify_event_signatures_Ok
    using verify_ledger_v5_any_engine [of H U pf] by metis
qed

lemmas runtime_ledger_okI = runtime_ledger_ok_iff [THEN iffD2, OF conjI]

lemma append_v5_event_Ok:
  assumes "append_v5_event H en l e = Ok l'"
  obtains entry where "append_v5 H l entry = Ok l'" "le_event entry = e"
    "l_events l' = l_events l @ [e]" "l_owner l' = l_owner l" "is_continuous_v5 l'"
    "prepare_ledger_entry_v5 H en (le_sequence entry) (le_previous_commitment entry) e = Ok entry"
proof -
  from assms obtain n p entry where
    app: "append_v5 H l entry = Ok l'" and prep: "prepare_ledger_entry_v5 H en n p e = Ok entry"
    by (auto simp: append_v5_event_def split: if_splits)
  from prep have sel: "le_event entry = e" "le_sequence entry = n" "le_previous_commitment entry = p"
    by (auto simp: prepare_ledger_entry_v5_def Let_def entry_with_signature_def entry_unsigned_def)
  from app have "l_events l' = l_events l @ [e]" "l_owner l' = l_owner l" "is_continuous_v5 l'"
    by (auto simp: append_v5_Ok_iff sel is_continuous_v5_def)
  with app prep sel that show thesis by simp
qed

lemma prepared_entry_verifies:
  assumes "signatures_verify en" and "prepare_ledger_entry_v5 H en n p e = Ok entry"
  shows "verify_ledger_entry_v5 H en entry = Ok ()"
  using assms(2) signatures_verifyD [OF assms(1)]
  by (auto simp: prepare_ledger_entry_v5_def Let_def verify_ledger_entry_v5_def)

lemma append_v5_event_keeps:
  assumes law: "ed25519_law (pf_lib pf)" and ok: "runtime_ledger_ok H U pf l"
    and signed: "event_signed H (pf_lib pf) e"
    and app: "append_v5_event H (build_engine_with_config pf seed cfg) l e = Ok l'"
  shows "runtime_ledger_ok H U pf l' \<and> l_owner l' = l_owner l \<and> l_events l' = l_events l @ [e]"
proof -
  let ?en = "build_engine_with_config pf seed cfg"
  obtain entry where e: "append_v5 H l entry = Ok l'" "le_event entry = e"
    "l_events l' = l_events l @ [e]" "l_owner l' = l_owner l"
    "prepare_ledger_entry_v5 H ?en (le_sequence entry) (le_previous_commitment entry) e = Ok entry"
    using append_v5_event_Ok [OF app] by metis
  have "verify_ledger_entry_v5 H ?en entry = Ok ()"
    by (rule prepared_entry_verifies [OF built_engine_signs [OF law] e(5)])
  moreover have "verify_domain_event_v5 H ?en (le_event entry) = Ok ()"
    using signed e(2) by (simp add: verify_domain_event_v5_def event_signed_def)
  moreover have "verify_ledger_v5 H U ?en l = Ok ()"
    using ok by (simp add: runtime_ledger_ok_iff [where seed = seed and cfg = cfg])
  ultimately have "verify_ledger_v5 H U ?en l' = Ok ()"
    using append_attested_entry [OF _ e(1)] by blast
  with ok signed e show ?thesis
    by (simp add: runtime_ledger_ok_iff [where seed = seed and cfg = cfg])
qed

section \<open>Sampling and preparing\<close>

lemma outcome_sample_env [outcome_simps]:
  "outcome (sample_with (in_env f)) s Q \<longleftrightarrow>
    Q (Ok (fst (f (fs_env s)))) (s\<lparr> fs_env := snd (f (fs_env s)) \<rparr>)"
  by (simp add: outcome_def sample_with_def in_env_def split: prod.splits)

text \<open>Preparing an event changes the clock and the environment only, and what it returns is signed
  by the seed.\<close>

lemma prepare_event_frame:
  "outcome (prepare_event H (build_engine_with_config pf seed cfg) kind payload recipient) s
    (\<lambda>r s'. fs_capsule s' = fs_capsule s)"
  by (auto simp: outcome_def prepare_event_def seq_def pure_def engine_now_def sample_with_def
      build_engine_with_config_def ffi_now_def in_env_def Let_def split: prod.splits result.splits)

lemma prepare_domain_event_outcome:
  assumes "ed25519_law (pf_lib pf)"
    and "\<And>r s'. fs_capsule s' = fs_capsule s \<Longrightarrow>
      (\<And>p. r = Ok p \<Longrightarrow> event_signed H (pf_lib pf) (pe_event p) \<and> ev_kind (pe_event p) = kind
        \<and> ev_payload (pe_event p) = payload
        \<and> ev_version (pe_event p) = ec_domain_event_version cfg
        \<and> derive_root_public_key (pf_lib pf) seed = Ok (pub_key_as_bytes (ev_signer (pe_event p))))
      \<Longrightarrow> Q r s'"
  shows "outcome (prepare_domain_event H (build_engine_with_config pf seed cfg) kind payload recipient) s Q"
proof -
  let ?en = "build_engine_with_config pf seed cfg"
  obtain r s' where run: "prepare_event H ?en kind payload recipient s = (r, s')"
    by (cases "prepare_event H ?en kind payload recipient s")
  have "event_signed H (pf_lib pf) (pe_event p) \<and> ev_kind (pe_event p) = kind
      \<and> ev_payload (pe_event p) = payload \<and> ev_version (pe_event p) = ec_domain_event_version cfg
      \<and> derive_root_public_key (pf_lib pf) seed = Ok (pub_key_as_bytes (ev_signer (pe_event p)))"
    if "r = Ok p" for p
    using prepare_event_correct [OF run [unfolded that] built_engine_signs [OF assms(1)]]
    by (simp add: verify_event_def event_signed_def) (simp add: build_engine_with_config_def)
  moreover have "fs_capsule s' = fs_capsule s"
    using outcomeD [OF prepare_event_frame run] .
  ultimately show ?thesis
    using assms(2) by (simp add: outcome_def prepare_domain_event_def run)
qed

lemma prepare_signed_outcome:
  assumes "ed25519_law (pf_lib pf)"
    and "\<And>r s'. fs_capsule s' = fs_capsule s \<Longrightarrow>
      (\<And>p. r = Ok p \<Longrightarrow> event_signed H (pf_lib pf) (pe_event p)) \<Longrightarrow> Q r s'"
  shows "outcome (prepare_domain_event H (build_engine_with_config pf seed cfg) kind payload recipient) s Q"
  by (rule prepare_domain_event_outcome [OF assms(1)]) (rule assms(2), auto)

text \<open>Every failure and every frame step leaves the capsule as it was.\<close>

lemma runtime_inv_frame: "fs_capsule s' = fs_capsule s \<Longrightarrow> runtime_inv H U pf s' \<longleftrightarrow> runtime_inv H U pf s"
  by (simp add: runtime_inv_def)

lemma runtime_inv_update [simp]:
  "runtime_inv H U pf (s\<lparr> fs_env := w \<rparr>) \<longleftrightarrow> runtime_inv H U pf s"
  "runtime_inv H U pf (s\<lparr> fs_last_engine_ts := t \<rparr>) \<longleftrightarrow> runtime_inv H U pf s"
  by (simp_all add: runtime_inv_def)

lemma runtime_inv_store:
  "runtime_inv H U pf (s\<lparr> fs_capsule := Some c \<rparr>) \<longleftrightarrow>
    l_owner (ca_ledger c) = ca_pubkey c \<and> runtime_ledger_ok H U pf (ca_ledger c)"
  by (simp add: runtime_inv_def)

lemma runtime_invD:
  "runtime_inv H U pf s \<Longrightarrow> fs_capsule s = Some c \<Longrightarrow>
    l_owner (ca_ledger c) = ca_pubkey c \<and> runtime_ledger_ok H U pf (ca_ledger c)"
  by (simp add: runtime_inv_def)

lemma runtime_ledger_ok_continuous: "runtime_ledger_ok H U pf l \<Longrightarrow> is_continuous_v5 l"
  by (simp add: runtime_ledger_ok_def)

lemma verify_event_signed:
  "verify_event H (build_engine_for_ledger pf seed l) e (ev_signer e) = Ok () \<longleftrightarrow>
    event_signed H (pf_lib pf) e"
  by (simp add: build_engine_for_ledger_def verify_event_def event_signed_def)

lemma append_v5_event_keeps_active:
  assumes "ed25519_law (pf_lib pf)" and "runtime_ledger_ok H U pf l"
    and "event_signed H (pf_lib pf) e"
    and "append_v5_event H (build_engine_for_ledger pf seed l') l e = Ok l''"
  shows "runtime_ledger_ok H U pf l'' \<and> l_owner l'' = l_owner l \<and> l_events l'' = l_events l @ [e]"
  using append_v5_event_keeps [OF assms(1-3)] assms(4) by (simp add: build_engine_for_ledger_def)

lemmas result_cases = result.splits option.splits if_splits

lemma append_prepared_keeps:
  assumes law: "ed25519_law (pf_lib pf)" and inv: "runtime_inv H U pf s"
    and signed: "event_signed H (pf_lib pf) (pe_event p)"
  shows "outcome (append_prepared_event H U pf p) s (\<lambda>_ s'. runtime_inv H U pf s')"
proof (cases "fs_capsule s")
  case None
  then show ?thesis
    using inv by (simp add: append_prepared_event_def outcome_simps)
next
  case (Some c)
  then have ok: "runtime_ledger_ok H U pf (ca_ledger c)" and own: "l_owner (ca_ledger c) = ca_pubkey c"
    using runtime_invD [OF inv] by auto
  show ?thesis
    using append_v5_event_keeps_active [OF law ok signed] own inv Some
      runtime_ledger_ok_continuous [OF ok]
    by (auto simp: append_prepared_event_def load_seed_def build_engine_for_active_ledger_def
        store_ledger_def observe_ts_def outcome_simps runtime_inv_store split: result_cases)
qed

lemma append_verified_keeps:
  assumes law: "ed25519_law (pf_lib pf)" and inv: "runtime_inv H U pf s"
  shows "outcome (append_verified_runtime_event H U pf e) s (\<lambda>_ s'. runtime_inv H U pf s')"
proof (cases "fs_capsule s")
  case None
  then show ?thesis
    using inv by (auto simp: append_verified_runtime_event_def load_seed_def
        build_engine_for_active_ledger_def outcome_simps split: result_cases)
next
  case (Some c)
  then have ok: "runtime_ledger_ok H U pf (ca_ledger c)" and own: "l_owner (ca_ledger c) = ca_pubkey c"
    using runtime_invD [OF inv] by auto
  show ?thesis
    using append_v5_event_keeps_active [OF law ok] own inv Some runtime_ledger_ok_continuous [OF ok]
    by (auto simp: append_verified_runtime_event_def load_seed_def build_engine_for_active_ledger_def
        store_ledger_def verify_event_signed outcome_simps runtime_inv_store split: result_cases)
qed

lemma append_runtime_keeps:
  fixes pf :: "'w platform"
  assumes law: "ed25519_law (pf_lib pf)" and inv: "runtime_inv H U pf s"
  shows "outcome (append_runtime_event H U pf kind payload) s (\<lambda>_ s'. runtime_inv H U pf s')"
proof -
  have "outcome (with_error m (prepare_domain_event H (build_engine pf seed s1) kind payload None)) s1
      (\<lambda>r s'. case r of Ok p \<Rightarrow> outcome (append_prepared_event H U pf p) s' (\<lambda>_ s'. runtime_inv H U pf s')
        | Err e \<Rightarrow> runtime_inv H U pf s' | Panic \<Rightarrow> runtime_inv H U pf s')"
    if "runtime_inv H U pf s1" for s1 :: "'w ffi_state" and seed and m :: string
    unfolding outcome_with_error build_engine_def
  proof (rule prepare_signed_outcome [OF law])
    fix r :: "(unit engine_error, prepared_event) result" and s' :: "'w ffi_state"
    assume "fs_capsule s' = fs_capsule s1" "\<And>p. r = Ok p \<Longrightarrow> event_signed H (pf_lib pf) (pe_event p)"
    then show "case map_err (\<lambda>_. m) r of
        Ok p \<Rightarrow> outcome (append_prepared_event H U pf p) s' (\<lambda>_ s'. runtime_inv H U pf s')
      | Err e \<Rightarrow> runtime_inv H U pf s' | Panic \<Rightarrow> runtime_inv H U pf s'"
      using that append_prepared_keeps [OF law, of H U s'] runtime_inv_frame [of s' s1 H U pf]
      by (cases r) auto
  qed
  then have "outcome (\<lambda>s. with_error m (prepare_domain_event H (build_engine pf seed s) kind payload None) s) s1
      (\<lambda>r s'. case r of Ok p \<Rightarrow> outcome (append_prepared_event H U pf p) s' (\<lambda>_ s'. runtime_inv H U pf s')
        | Err e \<Rightarrow> runtime_inv H U pf s' | Panic \<Rightarrow> runtime_inv H U pf s')"
    if "runtime_inv H U pf s1" for s1 :: "'w ffi_state" and seed and m :: string
    using that by (simp add: outcome_def)
  then show ?thesis
    using inv by (cases "fst (pf_load_seed pf (fs_env s))")
      (simp_all add: append_runtime_event_def load_seed_def outcome_simps)
qed

lemma migrate_parsed_keeps:
  assumes law: "ed25519_law (pf_lib pf)" and v4: "\<not> is_continuous_v5 l"
    and signed: "list_all (event_signed H (pf_lib pf)) (l_events l)"
    and mig: "migrate_parsed H U pf seed l = Ok l'"
  shows "runtime_ledger_ok H U pf l' \<and> l_owner l' = l_owner l \<and> l_events l' = l_events l"
proof -
  let ?en = "build_engine_for_ledger pf seed l"
  obtain snapshot anchor where anchor: "prepare_legacy_anchor_v5 H ?en snapshot = Ok anchor"
    and m: "migrate_v4 H U l anchor = Ok l'"
    using mig by (auto simp: migrate_parsed_def)
  have sound: "signatures_verify ?en"
    using built_engine_signs [OF law] by (simp add: build_engine_for_ledger_def)
  have a: "anchor_signature_ok H ?en anchor"
    using anchor signatures_verifyD [OF sound]
    by (auto simp: prepare_legacy_anchor_v5_def Let_def anchor_signature_ok_def
        anchor_legacy_def anchor_commitment_def)
  have "verify_ledger_v5 H U ?en l' = Ok ()"
    using m a migrate_v4_verifies [OF m]
    by (auto simp: verify_ledger_v5_iff migrate_v4_Ok_iff suffix_receipts_def)
  moreover have ev: "l_events l' = l_events l \<and> l_owner l' = l_owner l"
    using m by (auto simp: migrate_v4_Ok_iff)
  ultimately show ?thesis
    using signed unfolding build_engine_for_ledger_def by (auto intro: runtime_ledger_okI)
qed

lemma validate_imported_signed:
  "validate_imported_ledger H U lib l owner True = Ok () \<Longrightarrow>
    l_owner l = owner \<and> ledger_verify H U l \<and> list_all (event_signed H lib) (l_events l)"
  by (auto simp: validate_imported_ledger_def verify_ledger_event_signatures_def
      verify_event_signatures_Ok split: if_splits)

lemma import_keeps:
  assumes law: "ed25519_law (pf_lib pf)" and inv: "runtime_inv H U pf s"
  shows "outcome (import_runtime_ledger H U pf json) s (\<lambda>_ s'. runtime_inv H U pf s')"
proof -
  have migrated: "runtime_ledger_ok H U pf l' \<and> l_owner l' = owner"
    if "migrate_parsed H U pf seed l = Ok l'" "\<not> is_continuous_v5 l"
      "validate_imported_ledger H U (pf_lib pf) l owner True = Ok ()" for seed l l' owner
    using migrate_parsed_keeps [OF law that(2) _ that(1)] validate_imported_signed [OF that(3)] by auto
  have kept: "runtime_ledger_ok H U pf l \<and> l_owner l = owner"
    if "verify_ledger_v5 H U (build_engine_for_ledger pf seed l) l = Ok ()"
      "validate_imported_ledger H U (pf_lib pf) l owner True = Ok ()" for seed l owner
    using validate_imported_signed [OF that(2)] that(1)
    unfolding build_engine_for_ledger_def by (auto intro: runtime_ledger_okI)
  show ?thesis
    using inv migrated kept
    by (auto simp: import_runtime_ledger_def load_seed_def outcome_simps runtime_inv_store
        split: result_cases)
qed

lemma create_starters_keeps:
  fixes pf :: "'w platform"
  assumes law: "ed25519_law (pf_lib pf)" and ok: "runtime_ledger_ok H U pf l"
  shows "outcome (create_starters H (build_engine_with_config pf seed' cfg) seed network l ks) s
    (\<lambda>r s'. fs_capsule s' = fs_capsule s
      \<and> (case r of Ok l' \<Rightarrow> runtime_ledger_ok H U pf l' \<and> l_owner l' = l_owner l | _ \<Rightarrow> True))"
  using ok
proof (induction ks arbitrary: l s)
  case (Cons k ks)
  obtain slot kind where k: "k = (slot, kind)" by (cases k)
  show ?case
    unfolding k create_starters.simps Let_def outcome_seq outcome_with_error outcome_pure
  proof (rule prepare_signed_outcome [OF law])
    fix r :: "(unit engine_error, prepared_event) result" and s' :: "'w ffi_state"
    let ?en = "build_engine_with_config pf seed' cfg"
    let ?Q = "\<lambda>r t. fs_capsule t = fs_capsule s \<and> (case r of
        Ok l' \<Rightarrow> runtime_ledger_ok H U pf l' \<and> l_owner l' = l_owner l | _ \<Rightarrow> True)"
    assume frame: "fs_capsule s' = fs_capsule s"
      and signed: "\<And>p. r = Ok p \<Longrightarrow> event_signed H (pf_lib pf) (pe_event p)"
    have next_step: "outcome (create_starters H ?en seed network l1 ks) s' ?Q"
      if "r = Ok p" "append_v5_event H ?en l (pe_event p) = Ok l1" for p l1
    proof -
      have l1: "runtime_ledger_ok H U pf l1" "l_owner l1 = l_owner l"
        using append_v5_event_keeps [OF law Cons.prems signed [OF that(1)] that(2)] by simp_all
      show ?thesis
        by (rule outcome_weaken [OF Cons.IH [OF l1(1)]]) (use l1 frame in \<open>simp split: result.splits\<close>)
    qed
    show "case map_err (\<lambda>_. ''failed to sign starter birth'') r of
        Ok x \<Rightarrow> (case append_v5_event H ?en l (pe_event x) of
            Ok x \<Rightarrow> outcome (create_starters H ?en seed network x ks) s' ?Q
          | Err e \<Rightarrow> ?Q (Err e) s' | Panic \<Rightarrow> ?Q Panic s')
      | Err e \<Rightarrow> ?Q (Err e) s' | Panic \<Rightarrow> ?Q Panic s'"
      using next_step frame by (cases r) (auto split: result.split)
  qed
qed (simp add: outcome_simps)

lemma fresh_ledger_ok: "runtime_ledger_ok H U pf (fresh_v5 owner)"
proof (rule runtime_ledger_okI)
  show "list_all (event_signed H (pf_lib pf)) (l_events (fresh_v5 owner))"
    by (simp add: fresh_v5_def)
  show "verify_ledger_v5 H U (build_engine_with_config pf (KeySeed (bfill 0)) engine_config_default)
      (fresh_v5 owner) = Ok ()"
    using fresh_v5_verifies [of H U owner]
    by (auto simp: verify_ledger_v5_iff fresh_v5_def anchor_signature_ok_def anchor_fresh_def
        suffix_receipts_def)
qed

text \<open>Creating a capsule: the outcome keeps the old capsule, or it is a new one over a verified
  ledger of the derived owner.\<close>

definition init_spec ::
  "(u8 list \<Rightarrow> b32) \<Rightarrow> nat \<Rightarrow> 'w platform \<Rightarrow> seed \<Rightarrow> network \<Rightarrow> capsule_type \<Rightarrow> 'w ffi_state
    \<Rightarrow> (string, unit) result \<Rightarrow> 'w ffi_state \<Rightarrow> bool" where
  "init_spec H U pf seed network ctype s r s' \<longleftrightarrow>
    (if r = Ok ()
     then \<exists>c. fs_capsule s' = Some c \<and> runtime_ledger_ok H U pf (ca_ledger c)
        \<and> derive_root_public_key (pf_lib pf) seed = Ok (pub_key_as_bytes (ca_pubkey c))
        \<and> l_owner (ca_ledger c) = ca_pubkey c \<and> ca_capsule_type c = ctype \<and> ca_network c = network
     else fs_capsule s' = fs_capsule s)"

lemma init_spec_failed [simp]:
  "init_spec H U pf seed network ctype s (Err e) s' \<longleftrightarrow> fs_capsule s' = fs_capsule s"
  "init_spec H U pf seed network ctype s Panic s' \<longleftrightarrow> fs_capsule s' = fs_capsule s"
  by (simp_all add: init_spec_def)

lemma init_outcome:
  fixes pf :: "'w platform"
  assumes law: "ed25519_law (pf_lib pf)"
  shows "outcome (init_runtime_state H pf seed network ctype mode) s
    (init_spec H U pf seed network ctype s)"
    (is "outcome _ _ ?Q")
proof (cases mode)
  case LegacyNostr
  then show ?thesis by (simp add: init_runtime_state_def outcome_simps)
next
  case Root
  show ?thesis
  proof (cases "derive_root_public_key (pf_lib pf) seed")
    case (Ok owner_bytes)
    let ?owner = "PubKey owner_bytes"
    let ?en = "build_engine_with_config pf seed engine_config_continuous"
    let ?starters = "\<lambda>l. if ctype = Relay
        then create_starters H ?en seed network l relay_starters else pure (result.Ok l)"
    let ?set = "\<lambda>l. modify (\<lambda>s :: 'w ffi_state. s\<lparr>
           fs_last_engine_ts := observe_ledger_tail_ts l (fs_last_engine_ts s),
           fs_capsule := Some \<lparr> ca_pubkey = ?owner, ca_capsule_type = ctype,
                                ca_network = network, ca_ledger = l \<rparr> \<rparr>)"
    have fin: "outcome (seq (?starters l) ?set) s' ?Q"
      if "runtime_ledger_ok H U pf l" "l_owner l = ?owner" "fs_capsule s' = fs_capsule s" for l s'
    proof (rule outcome_seqI)
      show "outcome (?starters l) s' (\<lambda>r t. fs_capsule t = fs_capsule s'
          \<and> (case r of result.Ok l' \<Rightarrow> runtime_ledger_ok H U pf l' \<and> l_owner l' = l_owner l | _ \<Rightarrow> True))"
        using create_starters_keeps [OF law that(1)] that(1) by (simp add: outcome_simps)
    qed (use that Ok in \<open>auto simp: outcome_modify init_spec_def\<close>)
    have app: "runtime_ledger_ok H U pf l \<and> l_owner l = ?owner"
      if "event_signed H (pf_lib pf) e" "append_v5_event H ?en (fresh_v5 ?owner) e = result.Ok l" for e l
      using append_v5_event_keeps [OF law fresh_ledger_ok that] by (simp add: fresh_v5_def)
    have prep: "outcome (with_error m (prepare_domain_event H ?en kind payload None)) s
        (\<lambda>r s'. fs_capsule s' = fs_capsule s
          \<and> (\<forall>p. r = result.Ok p \<longrightarrow> event_signed H (pf_lib pf) (pe_event p)))" for m :: string and kind payload
      unfolding outcome_with_error by (rule prepare_signed_outcome [OF law]) auto
    have step: "outcome (seq (pure (append_v5_event H ?en (fresh_v5 ?owner) (pe_event p)))
        (\<lambda>l. seq (?starters l) ?set)) s' ?Q"
      if "fs_capsule s' = fs_capsule s" "event_signed H (pf_lib pf) (pe_event p)" for p s'
    proof (cases "append_v5_event H ?en (fresh_v5 ?owner) (pe_event p)")
      case (Ok l)
      with fin [of l s'] app [OF that(2) Ok] that(1) show ?thesis by (simp del: outcome_seq)
    qed (use that in \<open>simp_all add: outcome_seq outcome_pure\<close>)
    show ?thesis
      unfolding init_runtime_state_def Root Ok Let_def capsule_owner_mode.case map_err.simps seq_pure_Ok
    proof (rule outcome_seqI [OF prep], goal_cases)
      case (1 x s')
      then show ?case by (intro step) auto
    qed simp_all
  qed (simp_all add: init_runtime_state_def Root outcome_simps)
qed

section \<open>Runs of the runtime\<close>

text \<open>A call of the runtime, successful or not. Prepared events come from the engine, so they carry
  a signature that verifies.\<close>

inductive runtime_step ::
  "(u8 list \<Rightarrow> b32) \<Rightarrow> nat \<Rightarrow> 'w platform \<Rightarrow> 'w ffi_state \<Rightarrow> 'w ffi_state \<Rightarrow> bool"
  for H U pf where
  create: "init_runtime_state H pf seed network ctype mode s = (r, s') \<Longrightarrow> runtime_step H U pf s s'"
| import_json: "import_runtime_ledger H U pf json s = (r, s') \<Longrightarrow> runtime_step H U pf s s'"
| append_remote: "append_verified_runtime_event H U pf e s = (r, s') \<Longrightarrow> runtime_step H U pf s s'"
| append_local: "append_runtime_event H U pf kind payload s = (r, s') \<Longrightarrow> runtime_step H U pf s s'"
| append_prepared: "event_signed H (pf_lib pf) (pe_event p) \<Longrightarrow>
    append_prepared_event H U pf p s = (r, s') \<Longrightarrow> runtime_step H U pf s s'"
| clear: "runtime_step H U pf s (clear_runtime_state pf s)"

lemma runtime_step_keeps:
  assumes "ed25519_law (pf_lib pf)"
  shows "runtime_step H U pf s s' \<Longrightarrow> runtime_inv H U pf s \<Longrightarrow> runtime_inv H U pf s'"
proof (induction rule: runtime_step.induct)
  case (create seed network ctype mode s r s')
  have "init_spec H U pf seed network ctype s r s'"
    by (rule outcomeD [OF init_outcome [OF assms] create.hyps])
  with create.prems show ?case
    by (auto simp: init_spec_def runtime_inv_def split: if_splits)
next
  case (import_json json s r s')
  then show ?case using outcomeD [OF import_keeps [OF assms]] by metis
next
  case (append_remote e s r s')
  then show ?case using outcomeD [OF append_verified_keeps [OF assms]] by metis
next
  case (append_local kind payload s r s')
  then show ?case using outcomeD [OF append_runtime_keeps [OF assms]] by metis
next
  case (append_prepared p s r s')
  then show ?case using outcomeD [OF append_prepared_keeps [OF assms]] by metis
next
  case (clear s)
  then show ?case by (simp add: clear_runtime_state_def runtime_inv_def)
qed

lemma runtime_ledger_ok_full:
  "runtime_ledger_ok H U pf l \<Longrightarrow> verify_ledger_v5 H U (build_engine_for_ledger pf seed l') l = Ok ()"
  unfolding runtime_ledger_ok_def build_engine_for_ledger_def by (metis verify_ledger_v5_any_engine)

text \<open>The states a process can reach; it starts without a capsule.\<close>

definition runtime_reachable ::
  "(u8 list \<Rightarrow> b32) \<Rightarrow> nat \<Rightarrow> 'w platform \<Rightarrow> 'w ffi_state \<Rightarrow> bool" where
  "runtime_reachable H U pf s \<longleftrightarrow>
    (\<exists>w. (runtime_step H U pf)\<^sup>*\<^sup>* \<lparr> fs_capsule = None, fs_last_engine_ts = 0, fs_env = w \<rparr> s)"

lemma runtime_reachable_inv:
  assumes "ed25519_law (pf_lib pf)" and "runtime_reachable H U pf s"
  shows "runtime_inv H U pf s"
proof -
  have "(runtime_step H U pf)\<^sup>*\<^sup>* s0 s \<Longrightarrow> runtime_inv H U pf s0 \<Longrightarrow> runtime_inv H U pf s" for s0
    by (induction rule: rtranclp.induct) (auto dest: runtime_step_keeps [OF assms(1)])
  with assms(2) show ?thesis by (auto simp: runtime_reachable_def runtime_inv_def)
qed

text \<open>Whatever calls the host makes (creation, import, remote, local and prepared appends,
  reset) and whether they succeed or fail, an active capsule always owns a continuous ledger that
  passes the full verification under every seed's engine: its structure verifies, and so do all
  event signatures.\<close>

theorem runtime_ledger_always_verifies:
  assumes "ed25519_law (pf_lib pf)" and "runtime_reachable H U pf s" and "fs_capsule s = Some c"
  shows "l_owner (ca_ledger c) = ca_pubkey c \<and> is_continuous_v5 (ca_ledger c)
    \<and> ledger_verify H U (ca_ledger c)
    \<and> verify_ledger_event_signatures H (pf_lib pf) (ca_ledger c) = Ok ()
    \<and> verify_ledger_v5 H U (build_engine_for_ledger pf seed (ca_ledger c)) (ca_ledger c) = Ok ()"
proof -
  have "l_owner (ca_ledger c) = ca_pubkey c" and ok: "runtime_ledger_ok H U pf (ca_ledger c)"
    using runtime_invD [OF runtime_reachable_inv [OF assms(1,2)] assms(3)] by auto
  then show ?thesis by (auto simp: runtime_ledger_ok_full runtime_ledger_ok_def)
qed

section \<open>Creation of a capsule\<close>

definition event_content :: "event \<Rightarrow> event_kind \<times> u8 list \<times> pub_key" where
  "event_content e = (ev_kind e, ev_payload e, ev_signer e)"

lemma append_v5_event_succeeds:
  assumes "runtime_ledger_ok H U pf l"
    and "ev_version e = CONTINUOUS_LEDGER_PROTOCOL_VERSION"
    and "engine_public_key en = Ok (l_owner l)" and "\<And>m. \<exists>sig. en_sign en m = Inr sig"
    and "event_id H e \<notin> event_id H ` set (l_events l)"
  shows "\<exists>l'. append_v5_event H en l e = Ok l'"
proof -
  obtain c where c: "l_continuity_v5 l = Some c" "anchor_owner (cl_anchor c) = l_owner l"
    using assms(1) by (auto simp: runtime_ledger_ok_def verify_ledger_v5_iff verify_v5_structure_iff)
  let ?n = "of_nat (length (cl_receipts c))"
  obtain tail where tail: "tail_commitment_v5 H l = Ok tail"
    using c by (auto simp: tail_commitment_v5_def)
  obtain entry where entry: "prepare_ledger_entry_v5 H en ?n tail e = Ok entry"
    and x: "\<exists>sig. entry = entry_with_signature (entry_unsigned (l_owner l) ?n tail e) sig"
    using assms(3) assms(4) [of "bytes (entry_commitment H (entry_unsigned (l_owner l) ?n tail e))"]
    by (auto simp: prepare_ledger_entry_v5_def Let_def)
  have new: "\<forall>y\<in>set (l_events l). event_id H y \<noteq> event_id H e"
    using assms(5) by (metis imageI)
  have "\<exists>l'. append_v5 H l entry = Ok l'"
    using x assms(2) tail c new by (auto simp: append_v5_Ok_iff)
  then show ?thesis
    using assms(2) tail entry c
    by (auto simp: append_v5_event_def next_sequence_v5_def is_continuous_v5_def)
qed

lemma built_engine_can_sign:
  assumes "derive_root_public_key (pf_lib pf) seed = Ok k"
  shows "engine_public_key (build_engine_with_config pf seed cfg) = Ok (PubKey k)"
    and "\<exists>sig. en_sign (build_engine_with_config pf seed cfg) m = Inr sig"
  using assms by (auto simp: build_engine_with_config_def seed_sign_def ed25519_sign_def
      derive_root_public_key_def)

lemma prepare_event_succeeds:
  assumes "derive_root_public_key (pf_lib pf) seed = Ok k"
    and "ec_domain_event_version cfg = CONTINUOUS_LEDGER_PROTOCOL_VERSION"
  shows "\<exists>p s'. prepare_domain_event H (build_engine_with_config pf seed cfg) kind payload recipient s = (Ok p, s')
    \<and> ev_version (pe_event p) = CONTINUOUS_LEDGER_PROTOCOL_VERSION"
proof -
  let ?en = "build_engine_with_config pf seed cfg"
  obtain t s' where now: "en_now ?en s = (t, s')" by (cases "en_now ?en s")
  have key: "engine_public_key ?en = Ok (PubKey k)"
    by (rule built_engine_can_sign(1) [OF assms(1)])
  obtain sig where sig: "en_sign ?en (bytes (event_id H
      (event_new_v5 kind payload (Timestamp t) (Signature (bfill 0)) (PubKey k)))) = Inr sig"
    using built_engine_can_sign(2) [OF assms(1)] by blast
  show ?thesis
    unfolding prepare_domain_event_def
    by (rule exI [of _ "\<lparr> pe_event = event_new_v5 kind payload (Timestamp t) (Signature sig) (PubKey k),
          pe_recipient = recipient \<rparr>"], rule exI [of _ s'])
      (simp add: prepare_event_def seq_def pure_def with_keystore_error_def key engine_now_def
        sample_with_def now new_event_of_version_def assms(2) sign_event_def sig
        del: engine_public_key_Ok)
qed

text \<open>A leaf capsule is created whenever its key can be derived.\<close>

lemma leaf_creation_result:
  "fst (init_runtime_state H pf seed network Leaf mode s) =
    (case mode of
       LegacyNostr \<Rightarrow> Err ''legacy owner mode unsupported''
     | Root \<Rightarrow> map_err (\<lambda>_. ''failed to derive pubkey'')
         (and_then (derive_root_public_key (pf_lib pf) seed) (\<lambda>_. Ok ())))"
proof (cases mode)
  case Root
  show ?thesis
  proof (cases "derive_root_public_key (pf_lib pf) seed")
    case (Ok k)
    have v5: "ec_domain_event_version engine_config_continuous = CONTINUOUS_LEDGER_PROTOCOL_VERSION"
      by (simp add: engine_config_continuous_def)
    let ?en = "build_engine_with_config pf seed engine_config_continuous"
    let ?payload = "capsule_created_to_bytes (capsule_created_payload_new (network_to_byte network)
        (capsule_type_to_byte Leaf) (bfill 0))"
    obtain p s' where p: "prepare_domain_event H ?en CapsuleCreated ?payload None s = (result.Ok p, s')"
      and v: "ev_version (pe_event p) = CONTINUOUS_LEDGER_PROTOCOL_VERSION"
      using prepare_event_succeeds [OF Ok v5] by blast
    have "\<exists>l. append_v5_event H ?en (fresh_v5 (PubKey k)) (pe_event p) = result.Ok l"
      by (rule append_v5_event_succeeds [OF fresh_ledger_ok [where U = 0 and pf = pf] v])
        (use built_engine_can_sign [OF Ok] in \<open>simp_all add: fresh_v5_def\<close>)
    then obtain l where l: "append_v5_event H ?en (fresh_v5 (PubKey k)) (pe_event p) = result.Ok l" ..
    have w: "with_error ''failed to sign capsule birth''
        (prepare_domain_event H ?en CapsuleCreated ?payload None) s = (result.Ok p, s')"
      unfolding with_error_def p by simp
    have run: "seq (with_error ''failed to sign capsule birth''
        (prepare_domain_event H ?en CapsuleCreated ?payload None)) f s = f p s'"
      for f :: "prepared_event \<Rightarrow> ('a ffi_state, string, unit) action"
      by (rule seq_run) (rule w)
    show ?thesis
      unfolding init_runtime_state_def Root Ok Let_def capsule_owner_mode.case map_err.simps seq_pure_Ok
      by (subst run) (simp add: l modify_def)
  qed (simp_all add: init_runtime_state_def Root seq_def)
qed (simp add: init_runtime_state_def)

definition sample_platform :: "unit platform" where
  "sample_platform =
    \<lparr> pf_lib = sample_crypto, pf_wall_clock = (\<lambda>w. (Some 5, w)), pf_fill_32 = (\<lambda>w. (bfill 0, w)),
      pf_load_seed = (\<lambda>w. (Some (KeySeed (bfill 9)), w)), pf_parse_ledger = (\<lambda>_. None),
      pf_ledger_bytes = (\<lambda>_. None), pf_clear_transports = id \<rparr>"

lemma sample_crypto_law: "ed25519_law (pf_lib sample_platform)"
  by (simp add: ed25519_law_def sample_platform_def sample_crypto_def)

definition sample_start :: "unit ffi_state" where
  "sample_start = \<lparr> fs_capsule = None, fs_last_engine_ts = 0, fs_env = () \<rparr>"

lemma sample_creation:
  obtains s c where
    "init_runtime_state length_hash sample_platform (KeySeed (bfill 9)) Neste Leaf Root sample_start = (Ok (), s)"
    "fs_capsule s = Some c"
proof -
  let ?init = "init_runtime_state length_hash sample_platform (KeySeed (bfill 9)) Neste Leaf Root"
  obtain r s where run: "?init sample_start = (r, s)" by (cases "?init sample_start")
  have "r = Ok ()"
    using leaf_creation_result [of length_hash sample_platform "KeySeed (bfill 9)" Neste Root sample_start] run
    by (simp add: derive_root_public_key_def derive_root_keypair_def derive_key_with_label_def
        sample_platform_def sample_crypto_def)
  with run outcomeD [OF init_outcome [OF sample_crypto_law, where U = 0] run] that show thesis
    by (auto simp: init_spec_def)
qed

theorem runtime_ledger_always_verifies_witness:
  "\<exists>s c. runtime_reachable length_hash 8 sample_platform s \<and> fs_capsule s = Some c
    \<and> ledger_verify length_hash 8 (ca_ledger c)"
proof -
  obtain s c where run:
    "init_runtime_state length_hash sample_platform (KeySeed (bfill 9)) Neste Leaf Root sample_start = (Ok (), s)"
    and c: "fs_capsule s = Some c"
    by (rule sample_creation)
  have reach: "runtime_reachable length_hash 8 sample_platform s"
    unfolding runtime_reachable_def
    by (intro exI [of _ "()"] r_into_rtranclp runtime_step.create [OF run [unfolded sample_start_def]])
  from runtime_ledger_always_verifies [OF sample_crypto_law reach c] reach c show ?thesis by blast
qed

end
