(* ===== verification/Runtime_Birth.thy ===== *)
theory Runtime_Birth
  imports Runtime
begin

text \<open>What a capsule holds when \<open>init_runtime_state\<close> returns
  (platform/hivra-ffi/src/runtime\_support.rs): the events it appends, the slots they give and the
  conditions under which creation succeeds.\<close>

section \<open>The events of a new capsule\<close>

text \<open>The contents of the events of a new relay capsule.\<close>

definition birth_payload :: "network \<Rightarrow> capsule_type \<Rightarrow> u8 list" where
  "birth_payload network ctype = capsule_created_to_bytes
    (capsule_created_payload_new (network_to_byte network) (capsule_type_to_byte ctype) (bfill 0))"

definition starter_birth :: "(u8 list \<Rightarrow> b32) \<Rightarrow> seed \<Rightarrow> network \<Rightarrow> nat \<times> starter_kind \<Rightarrow> starter_created_payload" where
  "starter_birth H seed network k =
    \<lparr> cr_starter_id = StarterId (ffi_derive_starter_id H seed (of_nat (fst k))),
      cr_nonce = derive_starter_nonce H seed (of_nat (fst k)), cr_kind = snd k,
      cr_network = network_to_byte network \<rparr>"

definition starter_births ::
  "(u8 list \<Rightarrow> b32) \<Rightarrow> seed \<Rightarrow> network \<Rightarrow> pub_key \<Rightarrow> (nat \<times> starter_kind) list
    \<Rightarrow> (event_kind \<times> u8 list \<times> pub_key) list" where
  "starter_births H seed network owner ks =
    map (\<lambda>k. (StarterCreated, starter_created_to_bytes (starter_birth H seed network k), owner)) ks"

lemma create_starters_content:
  fixes pf :: "'w platform"
  assumes law: "ed25519_law (pf_lib pf)" and key: "derive_root_public_key (pf_lib pf) seed = Ok k"
  shows "outcome (create_starters H (build_engine_with_config pf seed cfg) seed network l ks) s
    (\<lambda>r s'. case r of Ok l' \<Rightarrow> map event_content (l_events l')
        = map event_content (l_events l) @ starter_births H seed network (PubKey k) ks | _ \<Rightarrow> True)"
proof (induction ks arbitrary: l s)
  case (Cons sk ks)
  obtain slot kind where sk: "sk = (slot, kind)" by (cases sk)
  let ?en = "build_engine_with_config pf seed cfg"
  let ?Q = "\<lambda>r s'. case r of Ok l' \<Rightarrow> map event_content (l_events l')
        = map event_content (l_events l) @ starter_births H seed network (PubKey k) (sk # ks) | _ \<Rightarrow> True"
  have prep: "outcome (with_error m (prepare_domain_event H ?en kind' payload None)) s
      (\<lambda>r s'. \<forall>p. r = Ok p \<longrightarrow> event_content (pe_event p) = (kind', payload, PubKey k))"
    for m :: string and kind' payload
    unfolding outcome_with_error
    by (rule prepare_domain_event_outcome [OF law]) (use key in \<open>auto simp: event_content_def\<close>)
  have step: "outcome (seq (pure (append_v5_event H ?en l (pe_event p)))
      (\<lambda>l. create_starters H ?en seed network l ks)) s' ?Q"
    if "event_content (pe_event p) = (StarterCreated,
        starter_created_to_bytes (starter_birth H seed network sk), PubKey k)" for p s'
  proof (cases "append_v5_event H ?en l (pe_event p)")
    case (Ok l1)
    have "l_events l1 = l_events l @ [pe_event p]"
      using append_v5_event_Ok [OF Ok] by metis
    with that have eq: "map event_content (l_events l1)
        @ starter_births H seed network (PubKey k) ks
      = map event_content (l_events l) @ starter_births H seed network (PubKey k) (sk # ks)"
      by (simp add: starter_births_def)
    show ?thesis
      using Cons.IH [of l1 s'] unfolding Ok seq_pure_Ok eq .
  qed (simp_all add: outcome_seq outcome_pure)
  show ?case
    unfolding sk create_starters.simps Let_def
    by (rule outcome_seqI [OF prep]) (use step [unfolded sk] in \<open>auto simp: starter_birth_def\<close>)
qed (simp add: outcome_pure starter_births_def)

lemma created_content:
  fixes pf :: "'w platform"
  assumes law: "ed25519_law (pf_lib pf)"
  shows "outcome (init_runtime_state H pf seed network ctype mode) s (\<lambda>r s'. r = Ok () \<longrightarrow>
    (\<exists>c. fs_capsule s' = Some c
      \<and> map event_content (l_events (ca_ledger c))
        = (CapsuleCreated, birth_payload network ctype, ca_pubkey c)
          # starter_births H seed network (ca_pubkey c) (if ctype = Relay then relay_starters else [])))"
    (is "outcome _ _ ?Q")
proof (cases "derive_root_public_key (pf_lib pf) seed")
  case (Ok k)
  let ?en = "build_engine_with_config pf seed engine_config_continuous"
  let ?ks = "if ctype = Relay then relay_starters else []"
  let ?starters = "\<lambda>l. if ctype = Relay
      then create_starters H ?en seed network l relay_starters else pure (result.Ok l)"
  have prep: "outcome (with_error m (prepare_domain_event H ?en kind' payload None)) s
      (\<lambda>r s'. \<forall>p. r = result.Ok p \<longrightarrow> event_content (pe_event p) = (kind', payload, PubKey k))"
    for m :: string and kind' payload
    unfolding outcome_with_error
    by (rule prepare_domain_event_outcome [OF law]) (use Ok in \<open>auto simp: event_content_def\<close>)
  have starters: "outcome (?starters l) s' (\<lambda>r t. case r of
      result.Ok l' \<Rightarrow> map event_content (l_events l')
        = map event_content (l_events l) @ starter_births H seed network (PubKey k) ?ks | _ \<Rightarrow> True)"
    for l s'
    using create_starters_content [OF law Ok] by (simp add: outcome_pure starter_births_def)
  show ?thesis
  proof (cases mode)
    case Root
    show ?thesis
      unfolding init_runtime_state_def Root Ok Let_def capsule_owner_mode.case map_err.simps seq_pure_Ok
    proof (rule outcome_seqI [OF prep], goal_cases)
      case (1 p s')
      then have p: "event_content (pe_event p) = (CapsuleCreated, birth_payload network ctype, PubKey k)"
        by (simp add: birth_payload_def)
      show ?case
      proof (cases "append_v5_event H ?en (fresh_v5 (PubKey k)) (pe_event p)")
        case (Ok l)
        have "l_events l = l_events (fresh_v5 (PubKey k)) @ [pe_event p]"
          "l_owner l = l_owner (fresh_v5 (PubKey k))"
          by (rule append_v5_event_Ok [OF Ok], blast)+
        then have l: "map event_content (l_events l)
            = [(CapsuleCreated, birth_payload network ctype, PubKey k)]" "l_owner l = PubKey k"
          using p by (simp_all add: fresh_v5_def)
        show ?thesis unfolding Ok seq_pure_Ok
          by (rule outcome_seqI [OF starters]) (auto simp: outcome_modify l)
      qed (simp_all add: outcome_seq outcome_pure)
    qed simp_all
  qed (simp add: init_runtime_state_def outcome_pure)
qed (cases mode; simp add: init_runtime_state_def outcome_simps)+

section \<open>The slots of a new relay capsule\<close>

lemma create_slots_step:
  assumes "event_content e = (StarterCreated, starter_created_to_bytes p, owner)"
    and "cr_starter_id p \<notin> set ids" and "length ids < 5"
  shows "slot_step owner [] (\<lparr> sl_slots = map Occupied ids @ replicate (5 - length ids) Empty \<rparr>, []) e
    = (\<lparr> sl_slots = map Occupied (ids @ [cr_starter_id p]) @ replicate (5 - length (ids @ [cr_starter_id p])) Empty \<rparr>, [])"
proof -
  let ?slots = "map Occupied ids @ replicate (5 - length ids) Empty"
  have pos: "position is_empty_slot ?slots = Some (length ids)"
    using assms(3) by (auto simp: position_Some nth_append is_empty_slot_def)
  have "?slots[length ids := Occupied (cr_starter_id p)]
      = map Occupied ids @ Occupied (cr_starter_id p) # replicate (5 - Suc (length ids)) Empty"
  proof -
    have "replicate (5 - length ids) Empty = Empty # replicate (5 - Suc (length ids)) Empty"
      using assms(3) by (cases "5 - length ids") auto
    then show ?thesis by (simp add: list_update_append)
  qed
  moreover have "\<not> contains_starter \<lparr> sl_slots = ?slots \<rparr> (cr_starter_id p)"
    using assms(2) by (auto simp: mem_layout_ids)
  ultimately show ?thesis
    using assms(1) pos by (auto simp: slot_step_def event_content_def occupy_first_free_def)
qed

lemma create_slots_fold:
  assumes "map event_content es = map (\<lambda>p. (StarterCreated, starter_created_to_bytes p, owner)) ps"
    and "distinct (ids @ map cr_starter_id ps)" and "length ids + length ps \<le> 5"
  shows "foldl (slot_step owner []) (\<lparr> sl_slots = map Occupied ids @ replicate (5 - length ids) Empty \<rparr>, []) es
    = (\<lparr> sl_slots = map Occupied (ids @ map cr_starter_id ps) @ replicate (5 - length ids - length ps) Empty \<rparr>, [])"
  using assms
proof (induction ps arbitrary: es ids)
  case (Cons p ps)
  then obtain e es' where es: "es = e # es'"
    and e: "event_content e = (StarterCreated, starter_created_to_bytes p, owner)"
    and es': "map event_content es' = map (\<lambda>p. (StarterCreated, starter_created_to_bytes p, owner)) ps"
    by auto
  have "foldl (slot_step owner []) (\<lparr> sl_slots = map Occupied (ids @ [cr_starter_id p])
        @ replicate (5 - length (ids @ [cr_starter_id p])) Empty \<rparr>, []) es'
    = (\<lparr> sl_slots = map Occupied ((ids @ [cr_starter_id p]) @ map cr_starter_id ps)
        @ replicate (5 - length (ids @ [cr_starter_id p]) - length ps) Empty \<rparr>, [])"
    using Cons.prems by (intro Cons.IH es') auto
  moreover have "slot_step owner [] (\<lparr> sl_slots = map Occupied ids @ replicate (5 - length ids) Empty \<rparr>, []) e
    = (\<lparr> sl_slots = map Occupied (ids @ [cr_starter_id p])
        @ replicate (5 - length (ids @ [cr_starter_id p])) Empty \<rparr>, [])"
    using Cons.prems by (intro create_slots_step [OF e]) auto
  ultimately show ?case by (simp add: es)
qed simp

text \<open>A ledger that holds nothing but a birth and starters.\<close>

lemma slots_of_births:
  assumes l: "map event_content (l_events l)
      = (CapsuleCreated, b, l_owner l) # map (\<lambda>p. (StarterCreated, starter_created_to_bytes p, l_owner l)) ps"
    and dist: "distinct (map cr_starter_id ps)" and len: "length ps = 5"
  shows "slot_states (layout_from_ledger l) = map (\<lambda>p. Occupied (cr_starter_id p)) ps"
    and "p \<in> set ps \<Longrightarrow> starter_kind_for_id l (cr_starter_id p) = Some (cr_kind p)"
proof -
  obtain e0 es where es: "l_events l = e0 # es"
    and e0: "event_content e0 = (CapsuleCreated, b, l_owner l)"
    and tail: "map event_content es = map (\<lambda>p. (StarterCreated, starter_created_to_bytes p, l_owner l)) ps"
    using l by auto
  have tail_kinds: "ev_kind e = StarterCreated" if "e \<in> set es" for e
  proof -
    have "event_content e \<in> set (map event_content es)" using that by simp
    then show ?thesis unfolding tail by (auto simp: event_content_def)
  qed
  have expired: "foldl (expired_step evs) acc es' = acc" if "set es' \<subseteq> set (l_events l)" for evs acc es'
    using that e0 tail_kinds es
    by (induction es' arbitrary: acc) (auto simp: expired_step_def event_content_def)
  have revoked: "foldl (revoked_step ex) acc es' = acc" if "set es' \<subseteq> set (l_events l)" for ex acc es'
    using that e0 tail_kinds es
    by (induction es' arbitrary: acc) (auto simp: revoked_step_def event_content_def)
  have pending: "foldl (pending_step ow) acc es' = acc" if "set es' \<subseteq> set (l_events l)" for ow acc es'
    using that e0 tail_kinds es
    by (induction es' arbitrary: acc) (auto simp: pending_step_def event_content_def)
  have "revoked_created_starter_ids l = []"
    by (simp add: revoked_created_starter_ids_def expired revoked)
  moreover have "slot_step (l_owner l) [] (layout_empty, []) e0 = (layout_empty, [])"
    using e0 by (simp add: slot_step_def event_content_def)
  moreover have "layout_empty = \<lparr> sl_slots = map Occupied [] @ replicate (5 - length []) Empty \<rparr>"
    by (simp add: layout_empty_def numeral_eq_Suc)
  ultimately have occ: "occupied_from_ledger l = \<lparr> sl_slots = map Occupied (map cr_starter_id ps) \<rparr>"
    using create_slots_fold [of es "l_owner l" ps "[]"] tail dist len
    by (simp add: occupied_from_ledger_def es)
  have "List.map_filter id (locked_starter_ids l) = []"
    by (simp add: locked_starter_ids_def pending List.map_filter_def)
  with occ show "slot_states (layout_from_ledger l) = map (\<lambda>p. Occupied (cr_starter_id p)) ps"
    by (simp add: layout_from_ledger_def slot_states_def)
  assume p: "p \<in> set ps"
  show "starter_kind_for_id l (cr_starter_id p) = Some (cr_kind p)"
  proof -
    define f where "f = (\<lambda>e :: event. if ev_signer e \<noteq> l_owner l then None
      else if ev_kind e \<noteq> StarterCreated then None
      else case ok (starter_created_from_bytes (ev_payload e)) of
             None \<Rightarrow> None
           | Some q \<Rightarrow> if cr_starter_id q = cr_starter_id p then Some (cr_kind q) else None)"
    have f: "f e \<in> {None, Some (cr_kind p)}" if "e \<in> set (l_events l)" for e
    proof (cases "e = e0")
      case False
      then have "event_content e \<in> set (map event_content es)" using that es by auto
      then obtain q where q: "q \<in> set ps"
        "event_content e = (StarterCreated, starter_created_to_bytes q, l_owner l)"
        unfolding tail by auto
      moreover have "cr_starter_id q = cr_starter_id p \<Longrightarrow> q = p"
        using dist p q(1) by (metis distinct_map inj_on_def)
      ultimately show ?thesis by (auto simp: f_def event_content_def)
    qed (use e0 in \<open>auto simp: f_def event_content_def\<close>)
    have "(StarterCreated, starter_created_to_bytes p, l_owner l) \<in> set (map event_content es)"
      unfolding tail using p by auto
    then obtain e where "e \<in> set es" "event_content e = (StarterCreated, starter_created_to_bytes p, l_owner l)"
      by (metis imageE set_map)
    then have "e \<in> set (l_events l)" "f e = Some (cr_kind p)"
      by (simp_all add: f_def es event_content_def)
    then obtain y where y: "find_map f (rev (l_events l)) = Some y"
      using find_map_None [of f "rev (l_events l)"] by fastforce
    moreover have "y = cr_kind p"
      using find_map_SomeD [OF y] f by fastforce
    ultimately show ?thesis by (simp add: starter_kind_for_id_def f_def)
  qed
qed

text \<open>A relay capsule is born with its five starters: when creation succeeds and the five derived
  identifiers differ, the slots hold them in the order Juice, Spark, Seed, Pulse, Kick, unlocked,
  each with its kind.\<close>

theorem new_relay_holds_five_starters:
  assumes "ed25519_law (pf_lib pf)"
    and "init_runtime_state H pf seed network Relay mode s = (Ok (), s')"
    and "distinct (map (\<lambda>k. ffi_derive_starter_id H seed (of_nat (fst k))) relay_starters)"
  shows "\<exists>c. fs_capsule s' = Some c
    \<and> slot_states (layout_from_ledger (ca_ledger c))
      = map (\<lambda>k. Occupied (StarterId (ffi_derive_starter_id H seed (of_nat (fst k))))) relay_starters
    \<and> map se_starter_kind (entries_with_kinds (layout_from_ledger (ca_ledger c)) (ca_ledger c))
      = map (\<lambda>k. Some (snd k)) relay_starters"
proof -
  obtain c where c: "fs_capsule s' = Some c"
    and content: "map event_content (l_events (ca_ledger c))
        = (CapsuleCreated, birth_payload network Relay, ca_pubkey c)
          # starter_births H seed network (ca_pubkey c) relay_starters"
    using outcomeD [OF created_content [OF assms(1)] assms(2)] by auto
  have own: "l_owner (ca_ledger c) = ca_pubkey c"
    using outcomeD [OF init_outcome [OF assms(1), where U = 0] assms(2)] c by (simp add: init_spec_def)
  let ?ps = "map (starter_birth H seed network) relay_starters"
  have l: "map event_content (l_events (ca_ledger c))
      = (CapsuleCreated, birth_payload network Relay, l_owner (ca_ledger c))
        # map (\<lambda>p. (StarterCreated, starter_created_to_bytes p, l_owner (ca_ledger c))) ?ps"
    by (simp add: content own starter_births_def)
  have ids: "map cr_starter_id ?ps
      = map (\<lambda>k. StarterId (ffi_derive_starter_id H seed (of_nat (fst k)))) relay_starters"
    by (simp add: starter_birth_def)
  have "distinct (map StarterId (map (\<lambda>k. ffi_derive_starter_id H seed (of_nat (fst k))) relay_starters))"
    using assms(3) by (simp only: distinct_map) (simp add: inj_on_def)
  then have dist: "distinct (map cr_starter_id ?ps)"
    unfolding ids by (simp add: o_def)
  have len: "length ?ps = 5" by (simp add: relay_starters_def)
  note slots = slots_of_births [OF l dist len]
  have "map se_starter_kind (entries_with_kinds (layout_from_ledger (ca_ledger c)) (ca_ledger c))
      = map (\<lambda>st. Option.bind (slot_starter st) (starter_kind_for_id (ca_ledger c)))
          (slot_states (layout_from_ledger (ca_ledger c)))"
    by (rule nth_equalityI) (auto simp: entries_with_kinds_def slot_states_def split: slot_state.split)
  also have "\<dots> = map (\<lambda>p. Some (cr_kind p)) ?ps"
    using slots(2) by (simp add: slots(1))
  finally have kinds: "map se_starter_kind (entries_with_kinds (layout_from_ledger (ca_ledger c)) (ca_ledger c))
      = map (\<lambda>k. Some (snd k)) relay_starters"
    by (simp add: starter_birth_def)
  show ?thesis
    using c kinds slots(1) by (simp add: starter_birth_def)
qed

lemma prepared_event_content:
  fixes pf :: "'w platform"
  assumes law: "ed25519_law (pf_lib pf)" and key: "derive_root_public_key (pf_lib pf) seed = Ok k"
    and run: "prepare_domain_event H (build_engine_with_config pf seed cfg) kind payload None s = (Ok p, s')"
  shows "event_content (pe_event p) = (kind, payload, PubKey k) \<and> event_signed H (pf_lib pf) (pe_event p)"
proof -
  have "outcome (prepare_domain_event H (build_engine_with_config pf seed cfg) kind payload None) s
    (\<lambda>r s'. \<forall>p. r = Ok p \<longrightarrow> event_content (pe_event p) = (kind, payload, PubKey k)
      \<and> event_signed H (pf_lib pf) (pe_event p))"
    by (rule prepare_domain_event_outcome [OF law]) (use key in \<open>auto simp: event_content_def\<close>)
  from outcomeD [OF this run] show ?thesis by simp
qed

text \<open>Creation succeeds when no two of the events it appends share an identifier.\<close>

lemma create_starters_succeeds:
  fixes pf :: "'w platform"
  assumes law: "ed25519_law (pf_lib pf)" and key: "derive_root_public_key (pf_lib pf) seed = Ok k"
    and v5: "ec_domain_event_version cfg = CONTINUOUS_LEDGER_PROTOCOL_VERSION"
    and ids: "\<And>e. event_content e \<in> set (starter_births H seed network (PubKey k) ks) \<Longrightarrow>
      ev_version e = CONTINUOUS_LEDGER_PROTOCOL_VERSION \<Longrightarrow> event_id H e = J (event_content e)"
    and "distinct (map J (starter_births H seed network (PubKey k) ks))"
    and "J ` set (starter_births H seed network (PubKey k) ks) \<inter> event_id H ` set (l_events l) = {}"
    and "runtime_ledger_ok H U pf l" and "l_owner l = PubKey k"
  shows "\<exists>l' s'. create_starters H (build_engine_with_config pf seed cfg) seed network l ks s = (Ok l', s')"
  using assms(4-)
proof (induction ks arbitrary: l s)
  case (Cons sk ks)
  obtain slot kind where sk: "sk = (slot, kind)" by (cases sk)
  let ?en = "build_engine_with_config pf seed cfg"
  let ?p = "starter_created_to_bytes (starter_birth H seed network sk)"
  obtain p s1 where run: "prepare_domain_event H ?en StarterCreated ?p None s = (Ok p, s1)"
    and v: "ev_version (pe_event p) = CONTINUOUS_LEDGER_PROTOCOL_VERSION"
    using prepare_event_succeeds [OF key v5] by blast
  have content: "event_content (pe_event p) = (StarterCreated, ?p, PubKey k)"
    and signed: "event_signed H (pf_lib pf) (pe_event p)"
    using prepared_event_content [OF law key run] by simp_all
  have births: "starter_births H seed network (PubKey k) (sk # ks)
      = event_content (pe_event p) # starter_births H seed network (PubKey k) ks"
    by (simp add: starter_births_def content)
  have id: "event_id H (pe_event p) = J (event_content (pe_event p))"
    using Cons.prems(1) v by (simp add: births)
  have "\<exists>l1. append_v5_event H ?en l (pe_event p) = Ok l1"
    by (rule append_v5_event_succeeds [OF Cons.prems(4) v _ built_engine_can_sign(2) [OF key]])
      (use built_engine_can_sign(1) [OF key] Cons.prems(3,5) in \<open>simp_all add: births id\<close>)
  then obtain l1 where l1: "append_v5_event H ?en l (pe_event p) = Ok l1" ..
  have kept: "runtime_ledger_ok H U pf l1" "l_owner l1 = PubKey k" "l_events l1 = l_events l @ [pe_event p]"
    using append_v5_event_keeps [OF law Cons.prems(4) signed l1] Cons.prems(5) by simp_all
  have "\<exists>l' s'. create_starters H ?en seed network l1 ks s1 = (Ok l', s')"
    by (rule Cons.IH) (use Cons.prems(1-3) in \<open>auto simp: births kept id\<close>)
  moreover have "create_starters H ?en seed network l (sk # ks) s
      = create_starters H ?en seed network l1 ks s1"
    using run l1
    by (simp add: sk create_starters.simps(2) Let_def starter_birth_def with_error_def seq_def pure_def)
  ultimately show ?case by simp
qed (simp add: pure_def)

lemma relay_creation_succeeds:
  fixes pf :: "'w platform"
  assumes law: "ed25519_law (pf_lib pf)" and key: "derive_root_public_key (pf_lib pf) seed = Ok k"
    and ids: "\<And>e. event_content e \<in> set (xs @ starter_births H seed network (PubKey k) relay_starters) \<Longrightarrow>
      ev_version e = CONTINUOUS_LEDGER_PROTOCOL_VERSION \<Longrightarrow> event_id H e = J (event_content e)"
    and xs: "xs = [(CapsuleCreated, birth_payload network Relay, PubKey k)]"
    and dist: "distinct (map J (xs @ starter_births H seed network (PubKey k) relay_starters))"
  shows "\<exists>s'. init_runtime_state H pf seed network Relay Root s = (Ok (), s')"
proof -
  let ?en = "build_engine_with_config pf seed engine_config_continuous"
  let ?births = "starter_births H seed network (PubKey k) relay_starters"
  have v5: "ec_domain_event_version engine_config_continuous = CONTINUOUS_LEDGER_PROTOCOL_VERSION"
    by (simp add: engine_config_continuous_def)
  obtain p s1 where run: "prepare_domain_event H ?en CapsuleCreated (birth_payload network Relay) None s = (Ok p, s1)"
    and v: "ev_version (pe_event p) = CONTINUOUS_LEDGER_PROTOCOL_VERSION"
    using prepare_event_succeeds [OF key v5] by blast
  have content: "event_content (pe_event p) = (CapsuleCreated, birth_payload network Relay, PubKey k)"
    and signed: "event_signed H (pf_lib pf) (pe_event p)"
    using prepared_event_content [OF law key run] by simp_all
  have "\<exists>l. append_v5_event H ?en (fresh_v5 (PubKey k)) (pe_event p) = Ok l"
    by (rule append_v5_event_succeeds [OF fresh_ledger_ok [where U = 0 and pf = pf] v _
          built_engine_can_sign(2) [OF key]])
      (use built_engine_can_sign(1) [OF key] in \<open>simp_all add: fresh_v5_def\<close>)
  then obtain l where l: "append_v5_event H ?en (fresh_v5 (PubKey k)) (pe_event p) = Ok l" ..
  have kept: "runtime_ledger_ok H 0 pf l" "l_owner l = PubKey k" "l_events l = [pe_event p]"
    using append_v5_event_keeps [OF law fresh_ledger_ok [where U = 0] signed l] by (simp_all add: fresh_v5_def)
  have id: "event_id H (pe_event p) = J (CapsuleCreated, birth_payload network Relay, PubKey k)"
    using ids [of "pe_event p"] v by (simp add: content xs)
  obtain l' s' where starters: "create_starters H ?en seed network l relay_starters s1 = (Ok l', s')"
    using create_starters_succeeds [OF law key v5 _ _ _ kept(1,2), of network relay_starters J s1] ids dist
    by (auto simp: kept(3) id xs)
  show ?thesis
    using run l starters
    by (simp add: init_runtime_state_def key seq_def pure_def Let_def with_error_def birth_payload_def modify_def)
qed

text \<open>A hash that tells those identifiers apart, for the witness: it reads the byte that differs.\<close>

definition probe_hash :: "u8 list \<Rightarrow> b32" where
  "probe_hash bs = bfill (if length bs = 137 then bs ! 95 else if length bs = 73 then 99 else bs ! 32)"

lemma probe_hash_derives:
  "ffi_derive_starter_id probe_hash seed slot = bfill slot"
  by (simp add: ffi_derive_starter_id_def probe_hash_def ascii_def nth_append)

definition probe_content :: "event_kind \<times> u8 list \<times> pub_key \<Rightarrow> b32" where
  "probe_content x = bfill (if fst x = CapsuleCreated then 99 else fst (snd x) ! 64)"

lemma probe_hash_event_id:
  assumes "event_content e = (k, p, r)" and "ev_version e = CONTINUOUS_LEDGER_PROTOCOL_VERSION"
    and "k = StarterCreated \<and> length p = 66 \<or> k = CapsuleCreated \<and> length p = 2"
  shows "event_id probe_hash e = probe_content (event_content e)"
  using assms
  by (auto simp: event_id_def event_id_preimage_def probe_hash_def probe_content_def event_content_def
      V5_DOMAIN_EVENT_TAG_def ascii_def PROTOCOL_VERSION_def CONTINUOUS_LEDGER_PROTOCOL_VERSION_def nth_append)

theorem new_relay_holds_five_starters_witness:
  "\<exists>s' c. init_runtime_state probe_hash sample_platform (KeySeed (bfill 9)) Neste Relay Root sample_start = (Ok (), s')
    \<and> fs_capsule s' = Some c
    \<and> slot_states (layout_from_ledger (ca_ledger c)) = map (\<lambda>i. Occupied (StarterId (bfill i))) [0, 1, 2, 3, 4]"
proof -
  let ?births = "starter_births probe_hash (KeySeed (bfill 9)) Neste"
  obtain k where key: "derive_root_public_key (pf_lib sample_platform) (KeySeed (bfill 9)) = Ok k"
    by (simp add: derive_root_public_key_def derive_root_keypair_def derive_key_with_label_def
        sample_platform_def sample_crypto_def)
  let ?xs = "[(CapsuleCreated, birth_payload Neste Relay, PubKey k)]"
  have "event_id probe_hash e = probe_content (event_content e)"
    if "event_content e \<in> set (?xs @ ?births (PubKey k) relay_starters)"
      "ev_version e = CONTINUOUS_LEDGER_PROTOCOL_VERSION" for e
  proof -
    obtain kd p r where c: "event_content e = (kd, p, r)" by (cases "event_content e")
    show ?thesis
      by (rule probe_hash_event_id [OF c that(2)])
        (use that(1) c in \<open>auto simp: starter_births_def relay_starters_def birth_payload_def
            capsule_created_to_bytes_def starter_created_to_bytes_def\<close>)
  qed
  moreover have "distinct (map probe_content (?xs @ ?births (PubKey k) relay_starters))"
    by (simp add: starter_births_def relay_starters_def probe_content_def starter_birth_def
        starter_created_to_bytes_def nth_append)
  ultimately obtain s' where run:
    "init_runtime_state probe_hash sample_platform (KeySeed (bfill 9)) Neste Relay Root sample_start = (Ok (), s')"
    using relay_creation_succeeds [OF sample_crypto_law key, of ?xs probe_hash Neste probe_content] by blast
  have "distinct (map (\<lambda>k. ffi_derive_starter_id probe_hash (KeySeed (bfill 9)) (of_nat (fst k))) relay_starters)"
    by (simp add: relay_starters_def probe_hash_derives)
  from new_relay_holds_five_starters [OF sample_crypto_law run this] run show ?thesis
    by (auto simp: relay_starters_def probe_hash_derives)
qed

end
