(* ===== verification/Disk.thy ===== *)
theory Disk
  imports Actions
begin

text \<open>
  The part of \<open>std::fs\<close> the quarantine uses (platform/hivra-ffi/src/inbound\_quarantine.rs): files by
  path, and a schedule of faults. Each call that can fail consumes one entry of the schedule: \<open>None\<close>
  lets it succeed, \<open>Some f\<close> makes it fail, where \<open>f\<close> says what a failing call left behind. The end of
  the schedule is the end of the faults. Directories are not represented: \<open>create_dir_all\<close> only can
  fail.
\<close>

type_synonym utf8 = "u8 list"
type_synonym path = "utf8 list"

record fault =
  written :: nat
  survives :: "path \<Rightarrow> bool"

record disk =
  dk_files :: "path \<Rightarrow> u8 list option"
  dk_faults :: "fault option list"

datatype io_error = IoFailure

type_synonym 'a fs_call = "(disk, io_error, 'a) action"

definition next_fault :: "disk \<Rightarrow> fault option \<times> disk" where
  "next_fault d =
    (case dk_faults d of [] \<Rightarrow> (None, d) | f # fs \<Rightarrow> (f, d\<lparr> dk_faults := fs \<rparr>))"

text \<open>A call that either fails, leaving \<open>broken f\<close> behind, or does \<open>act\<close>.\<close>

definition fs_call :: "(fault \<Rightarrow> disk \<Rightarrow> disk) \<Rightarrow> 'a fs_call \<Rightarrow> 'a fs_call" where
  "fs_call broken act d =
    (case next_fault d of
       (Some f, d) \<Rightarrow> (Err IoFailure, broken f d)
     | (None, d) \<Rightarrow> act d)"

definition set_file :: "path \<Rightarrow> u8 list option \<Rightarrow> disk \<Rightarrow> disk" where
  "set_file p content d = d\<lparr> dk_files := (dk_files d)(p := content) \<rparr>"

definition fs_exists :: "path \<Rightarrow> disk \<Rightarrow> bool" where
  "fs_exists p d \<longleftrightarrow> dk_files d p \<noteq> None"

definition fs_read :: "path \<Rightarrow> u8 list fs_call" where
  "fs_read p = fs_call (\<lambda>_ d. d) (inspect (\<lambda>d. ok_or (dk_files d p) IoFailure))"

definition fs_remove_file :: "path \<Rightarrow> unit fs_call" where
  "fs_remove_file p = fs_call (\<lambda>_ d. d)
    (seq (inspect (\<lambda>d. ok_or (dk_files d p) IoFailure)) (\<lambda>_. modify (set_file p None)))"

definition fs_create_new :: "path \<Rightarrow> unit fs_call" where
  "fs_create_new p = fs_call (\<lambda>_ d. d)
    (seq (inspect (\<lambda>d. if fs_exists p d then Err IoFailure else Ok ())) (\<lambda>_. modify (set_file p (Some []))))"

definition fs_write_all :: "path \<Rightarrow> u8 list \<Rightarrow> unit fs_call" where
  "fs_write_all p bs = fs_call (\<lambda>f. set_file p (Some (take (written f) bs))) (modify (set_file p (Some bs)))"

definition fs_sync_all :: "path \<Rightarrow> unit fs_call" where
  "fs_sync_all p = fs_call (\<lambda>_ d. d) (pure (Ok ()))"

definition fs_create_dir_all :: "path \<Rightarrow> unit fs_call" where
  "fs_create_dir_all p = fs_call (\<lambda>_ d. d) (pure (Ok ()))"

text \<open>\<open>rename\<close> replaces its target atomically.\<close>

definition fs_rename :: "path \<Rightarrow> path \<Rightarrow> unit fs_call" where
  "fs_rename p q = fs_call (\<lambda>_ d. d)
    (seq (inspect (\<lambda>d. ok_or (dk_files d p) IoFailure))
      (\<lambda>bs. modify (\<lambda>d. set_file p None (set_file q (Some bs) d))))"

definition under :: "path \<Rightarrow> path \<Rightarrow> bool" where
  "under p q \<longleftrightarrow> take (length p) q = p"

definition fs_remove_dir_all :: "path \<Rightarrow> unit fs_call" where
  "fs_remove_dir_all p = fs_call
    (\<lambda>f d. d\<lparr> dk_files := (\<lambda>q. if under p q \<and> \<not> survives f q then None else dk_files d q) \<rparr>)
    (modify (\<lambda>d. d\<lparr> dk_files := (\<lambda>q. if under p q then None else dk_files d q) \<rparr>))"

lemma outcome_fs_call:
  "outcome (fs_call broken act) d Q \<longleftrightarrow>
    (case next_fault d of
       (Some f, d') \<Rightarrow> Q (Err IoFailure) (broken f d')
     | (None, d') \<Rightarrow> outcome act d' Q)"
  by (simp add: outcome_def fs_call_def split: prod.split option.split)

lemma next_fault_files [simp]: "next_fault d = (f, d') \<Longrightarrow> dk_files d' = dk_files d"
  by (auto simp: next_fault_def split: list.splits)

lemma set_file_files [simp]: "dk_files (set_file p c d) = (dk_files d)(p := c)"
  by (simp add: set_file_def)

end
