(* ===== verification/Utf8.thy ===== *)
theory Utf8
  imports Disk
begin

text \<open>
  What the FFI modules use of \<open>str\<close>: \<open>str::from_utf8\<close> (platform/hivra-ffi/src/chat\_api.rs and
  consensus\_attestation\_api.rs check the payloads they queue with it) and \<open>str::trim\<close>. A string is the
  list of its UTF-8 bytes; \<open>utf8_chars\<close> splits well-formed bytes into characters.
\<close>

section \<open>Well-formed UTF-8\<close>

definition cont :: "u8 \<Rightarrow> bool" where "cont b \<longleftrightarrow> 0x80 \<le> b \<and> b \<le> 0xBF"

definition second_of_three :: "u8 \<Rightarrow> u8 \<Rightarrow> bool" where
  "second_of_three a b \<longleftrightarrow>
    (if a = 0xE0 then 0xA0 \<le> b \<and> b \<le> 0xBF else if a = 0xED then 0x80 \<le> b \<and> b \<le> 0x9F else cont b)"

definition second_of_four :: "u8 \<Rightarrow> u8 \<Rightarrow> bool" where
  "second_of_four a b \<longleftrightarrow>
    (if a = 0xF0 then 0x90 \<le> b \<and> b \<le> 0xBF else if a = 0xF4 then 0x80 \<le> b \<and> b \<le> 0x8F else cont b)"

text \<open>The length of the first character, when there is one.\<close>

definition first_char :: "u8 list \<Rightarrow> nat option" where
  "first_char bs =
    (case bs of
       [] \<Rightarrow> None
     | a # rest \<Rightarrow>
         if a < 0x80 then Some 1
         else if 0xC2 \<le> a \<and> a \<le> 0xDF then
           (case rest of b # _ \<Rightarrow> if cont b then Some 2 else None | _ \<Rightarrow> None)
         else if 0xE0 \<le> a \<and> a \<le> 0xEF then
           (case rest of b # c # _ \<Rightarrow> if second_of_three a b \<and> cont c then Some 3 else None | _ \<Rightarrow> None)
         else if 0xF0 \<le> a \<and> a \<le> 0xF4 then
           (case rest of
              b # c # d # _ \<Rightarrow> if second_of_four a b \<and> cont c \<and> cont d then Some 4 else None
            | _ \<Rightarrow> None)
         else None)"

lemma first_char_bounds: "first_char bs = Some n \<Longrightarrow> 0 < n \<and> n \<le> length bs"
  by (auto simp: first_char_def split: list.splits if_splits)

function utf8_chars :: "u8 list \<Rightarrow> u8 list list option" where
  "utf8_chars bs =
    (if bs = [] then Some []
     else case first_char bs of
            None \<Rightarrow> None
          | Some n \<Rightarrow> map_option (\<lambda>cs. take n bs # cs) (utf8_chars (drop n bs)))"
  by pat_completeness auto

termination
proof (relation "measure length")
  fix bs n
  assume "bs \<noteq> []" and "first_char bs = Some n"
  with first_char_bounds [of bs n] show "(drop n bs, bs) \<in> measure length" by simp
qed simp

declare utf8_chars.simps [simp del]

lemma utf8_chars_Nil [simp]: "utf8_chars [] = Some []"
  by (simp add: utf8_chars.simps)

lemma concat_utf8_chars: "utf8_chars bs = Some cs \<Longrightarrow> concat cs = bs"
proof (induction bs arbitrary: cs rule: utf8_chars.induct)
  case (1 bs)
  show ?case
  proof (cases "bs = []")
    case False
    then obtain n cs' where "first_char bs = Some n" "utf8_chars (drop n bs) = Some cs'" "cs = take n bs # cs'"
      using "1.prems" by (auto simp: utf8_chars.simps [of bs] split: option.splits)
    with "1.IH" [OF False this(1)] show ?thesis by simp
  qed (use 1 in simp)
qed

section \<open>Trimming\<close>

text \<open>The characters of \<open>char::is_whitespace\<close>.\<close>

definition white_space :: "u8 list set" where
  "white_space = {[9], [10], [11], [12], [13], [32], [0xC2, 0x85], [0xC2, 0xA0], [0xE1, 0x9A, 0x80],
    [0xE2, 0x80, 0x80], [0xE2, 0x80, 0x81], [0xE2, 0x80, 0x82], [0xE2, 0x80, 0x83], [0xE2, 0x80, 0x84],
    [0xE2, 0x80, 0x85], [0xE2, 0x80, 0x86], [0xE2, 0x80, 0x87], [0xE2, 0x80, 0x88], [0xE2, 0x80, 0x89],
    [0xE2, 0x80, 0x8A], [0xE2, 0x80, 0xA8], [0xE2, 0x80, 0xA9], [0xE2, 0x80, 0xAF], [0xE2, 0x81, 0x9F],
    [0xE3, 0x80, 0x80]}"

definition trim_chars :: "u8 list list \<Rightarrow> u8 list list" where
  "trim_chars cs =
    (let blank = (\<lambda>c. c \<in> white_space) in rev (dropWhile blank (rev (dropWhile blank cs))))"

text \<open>\<open>str::from_utf8(bs)\<close> and then \<open>trim\<close>.\<close>

definition trimmed_text :: "u8 list \<Rightarrow> utf8 option" where
  "trimmed_text bs = map_option (\<lambda>cs. concat (trim_chars cs)) (utf8_chars bs)"

text \<open>Nothing is trimmed from ASCII text without white space.\<close>

lemma ascii_text_trimmed:
  assumes "list_all (\<lambda>b. b < 0x80 \<and> [b] \<notin> white_space) bs"
  shows "trimmed_text bs = Some bs"
proof -
  have chars: "utf8_chars bs = Some (map (\<lambda>b. [b]) bs)"
    using assms by (induction bs) (simp_all add: utf8_chars.simps [of "_ # _"] first_char_def)
  have "dropWhile (\<lambda>c. c \<in> white_space) (map (\<lambda>b. [b]) bs) = map (\<lambda>b. [b]) bs"
    and "dropWhile (\<lambda>c. c \<in> white_space) (rev (map (\<lambda>b. [b]) bs)) = rev (map (\<lambda>b. [b]) bs)"
    using assms by (auto simp: list_all_iff dropWhile_eq_self_iff hd_map hd_rev last_map)
  then have "trim_chars (map (\<lambda>b. [b]) bs) = map (\<lambda>b. [b]) bs" by (simp add: trim_chars_def)
  then show ?thesis by (simp add: trimmed_text_def chars)
qed

end
