(* ===== verification/Ledger_Json.thy ===== *)
theory Ledger_Json
  imports Runtime_Birth Utf8 "HOL-Library.Finite_Map"
begin

text \<open>
  The JSON documents of a ledger (platform/hivra-ffi/src/runtime\_support.rs): what \<open>export_runtime_ledger\<close>
  writes, the two forms of the replay checksum that \<open>normalize_ledger_last_hash\<close> accepts, and what
  \<open>parse_ledger_json\<close> reads, a ledger or a backup that wraps one. Texts inside a document are their UTF-8
  bytes. The crates serde and serde\_json are parameters with the laws \<open>serde_laws\<close>; with them a ledger that was
  exported is read back as it was, and the import takes it when it has its birth.
\<close>

section \<open>JSON values\<close>

text \<open>\<open>serde_json::Number\<close>: a nonnegative integer, a negative one, or a finite \<open>f64\<close>; \<open>Float m e\<close> is \<open>m\<close> times two to the
  power \<open>e\<close>.\<close>

datatype json_number = PosInt u64 | NegInt "64 word" | Float int int

datatype json =
    JNull
  | JBool bool
  | JNumber json_number
  | JString utf8
  | JArray "json list"
  | JObject "(utf8, json) fmap"

definition as_u64_value :: "json \<Rightarrow> u64 option" where
  "as_u64_value v = (case v of JNumber (PosInt n) \<Rightarrow> Some n | _ \<Rightarrow> None)"

definition as_str :: "json \<Rightarrow> utf8 option" where
  "as_str v = (case v of JString text \<Rightarrow> Some text | _ \<Rightarrow> None)"

text \<open>The bounds and the conversion of an \<open>f64\<close>: at most \<open>u64::MAX as f64\<close>, which is two to the power 64, and
  \<open>v as u64\<close>, which drops the fraction and saturates.\<close>

definition f64_at_most_max :: "int \<Rightarrow> int \<Rightarrow> bool" where
  "f64_at_most_max m e \<longleftrightarrow> (if 0 \<le> e then m * 2 ^ nat e \<le> 2 ^ 64 else m \<le> 2 ^ 64 * 2 ^ nat (- e))"

definition f64_as_u64 :: "int \<Rightarrow> int \<Rightarrow> u64" where
  "f64_as_u64 m e = of_int (min (2 ^ 64 - 1) (if 0 \<le> e then m * 2 ^ nat e else m div 2 ^ nat (- e)))"

section \<open>Integers as text\<close>

text \<open>\<open>u64::to_string\<close>.\<close>

fun nat_to_text :: "nat \<Rightarrow> utf8" where
  "nat_to_text n = (if n < 10 then [48 + of_nat n] else nat_to_text (n div 10) @ [48 + of_nat (n mod 10)])"

declare nat_to_text.simps [simp del]

text \<open>\<open>char::to_digit\<close>.\<close>

definition to_digit :: "nat \<Rightarrow> u8 \<Rightarrow> nat option" where
  "to_digit radix c =
    (let d = if 48 \<le> c \<and> c \<le> 57 then unat c - 48
             else if 97 \<le> c \<and> c \<le> 122 then unat c - 87
             else if 65 \<le> c \<and> c \<le> 90 then unat c - 55
             else radix
     in if d < radix then Some d else None)"

fun parse_digits :: "nat \<Rightarrow> nat \<Rightarrow> utf8 \<Rightarrow> nat option" where
  "parse_digits radix acc [] = Some acc"
| "parse_digits radix acc (c # cs) =
    (case to_digit radix c of
       None \<Rightarrow> None
     | Some d \<Rightarrow> if acc * radix + d < 2 ^ 64 then parse_digits radix (acc * radix + d) cs else None)"

text \<open>\<open>u64::from_str_radix(text, radix).ok()\<close>: a leading plus sign is accepted before digits.\<close>

definition u64_from_str_radix :: "nat \<Rightarrow> utf8 \<Rightarrow> u64 option" where
  "u64_from_str_radix radix text =
    (let digits = (case text of c # cs \<Rightarrow> if c = 43 then cs else text | [] \<Rightarrow> [])
     in if digits = [] then None else map_option of_nat (parse_digits radix 0 digits))"

lemma parse_digits_append:
  "parse_digits radix acc (xs @ ys) = Option.bind (parse_digits radix acc xs) (\<lambda>acc. parse_digits radix acc ys)"
  by (induction xs arbitrary: acc) (auto split: option.split)

lemma decimal_digit: "n < 10 \<Longrightarrow> to_digit 10 (48 + of_nat n) = Some n"
proof -
  assume "n < 10"
  then have "n \<in> {0, 1, 2, 3, 4, 5, 6, 7, 8, 9}" by auto
  then show ?thesis by (auto simp: to_digit_def)
qed

lemma parse_decimal: "n < 2 ^ 64 \<Longrightarrow> parse_digits 10 0 (nat_to_text n) = Some n"
proof (induction n rule: nat_to_text.induct)
  case (1 n)
  show ?case
  proof (cases "n < 10")
    case True
    then show ?thesis by (simp add: nat_to_text.simps [of n] decimal_digit)
  next
    case False
    have "parse_digits 10 0 (nat_to_text (n div 10)) = Some (n div 10)"
      using 1 False by simp
    then show ?thesis
      using False "1.prems" by (simp add: nat_to_text.simps [of n] parse_digits_append decimal_digit)
  qed
qed

lemma decimal_ascii: "list_all (\<lambda>c. 48 \<le> c \<and> c \<le> 57) (nat_to_text n)"
proof (induction n rule: nat_to_text.induct)
  case (1 n)
  have digit: "48 \<le> (48 + of_nat d :: u8) \<and> 48 + of_nat d \<le> (57 :: u8)" if "d < 10" for d
  proof -
    have "d \<in> {0, 1, 2, 3, 4, 5, 6, 7, 8, 9}" using that by auto
    then show ?thesis by auto
  qed
  show ?case
    using 1 digit [of n] digit [of "n mod 10"] by (simp add: nat_to_text.simps [of n])
qed

lemma decimal_not_Nil: "nat_to_text n \<noteq> []"
  by (simp add: nat_to_text.simps [of n])

section \<open>Writing a ledger\<close>

text \<open>The crates: \<open>to_value\<close> and \<open>from_value\<close> are the derived serialization of \<open>Ledger\<close>, \<open>from_str\<close> its derived
  deserialization from a text, \<open>print\<close> and \<open>parse\<close> those of documents.\<close>

record serde_json =
  js_to_value :: "ledger \<Rightarrow> json option"
  js_from_value :: "json \<Rightarrow> ledger option"
  js_from_str :: "string \<Rightarrow> ledger option"
  js_print :: "json \<Rightarrow> string option"
  js_parse :: "string \<Rightarrow> json option"

definition exported_value :: "(u8 list \<Rightarrow> b32) \<Rightarrow> ledger \<Rightarrow> json \<Rightarrow> json" where
  "exported_value H l value =
    (case value of
       JObject m \<Rightarrow>
         let m = fmupd (ascii ''last_hash'') (JString (nat_to_text (unat (l_last_hash l)))) m
         in JObject (case head_commitment_v5 H l of
              Some head \<Rightarrow> fmupd (ascii ''head_commitment_v5'') (JString (encode_hex (bytes head))) m
            | None \<Rightarrow> m)
     | _ \<Rightarrow> value)"

definition export_runtime_ledger :: "(u8 list \<Rightarrow> b32) \<Rightarrow> serde_json \<Rightarrow> 'w ffi_state \<Rightarrow> (string, string) result" where
  "export_runtime_ledger H js s =
    and_then (ok_or (fs_capsule s) ''no capsule'') (\<lambda>capsule.
    and_then (ok_or (js_to_value js (ca_ledger capsule)) ''serialization failed'') (\<lambda>value.
      ok_or (js_print js (exported_value H (ca_ledger capsule) value)) ''serialization failed''))"

section \<open>Reading a ledger\<close>

text \<open>The replay checksum as a text, in decimal or hexadecimal, or as a number, also one that JavaScript wrote
  as a floating-point number; a negative integer is a negative \<open>f64\<close>.\<close>

definition last_hash_of_text :: "utf8 \<Rightarrow> u64 option" where
  "last_hash_of_text text =
    (let trimmed = unwrap_or (trimmed_text text) []
     in if take 2 trimmed = ascii ''0x'' \<or> take 2 trimmed = ascii ''0X''
        then u64_from_str_radix 16 (drop 2 trimmed)
        else u64_from_str_radix 10 trimmed)"

definition last_hash_of_number :: "json_number \<Rightarrow> u64 option" where
  "last_hash_of_number num =
    (case num of
       PosInt v \<Rightarrow> Some v
     | NegInt i \<Rightarrow> None
     | Float m e \<Rightarrow> if 0 \<le> m \<and> f64_at_most_max m e then Some (f64_as_u64 m e) else None)"

definition normalize_ledger_last_hash :: "json \<Rightarrow> json" where
  "normalize_ledger_last_hash value =
    (case value of
       JObject m \<Rightarrow>
         (case fmlookup m (ascii ''last_hash'') of
            None \<Rightarrow> value
          | Some raw \<Rightarrow>
              let parsed = (case raw of
                    JString text \<Rightarrow> last_hash_of_text text
                  | JNumber num \<Rightarrow> last_hash_of_number num
                  | _ \<Rightarrow> None)
              in (case parsed of
                    Some num \<Rightarrow> JObject (fmupd (ascii ''last_hash'') (JNumber (PosInt num)) m)
                  | None \<Rightarrow> value))
     | _ \<Rightarrow> value)"

definition parse_ledger_json :: "serde_json \<Rightarrow> string \<Rightarrow> (string, ledger) result" where
  "parse_ledger_json js json =
    (case js_from_str js json of
       Some l \<Rightarrow> Ok l
     | None \<Rightarrow>
         and_then (ok_or (js_parse js json) ''parse failed'') (\<lambda>value.
         case value of
           JObject obj \<Rightarrow>
             let schema = Option.bind (fmlookup obj (ascii ''schema'')) as_str;
                 version = Option.bind (fmlookup obj (ascii ''version'')) as_u64_value
             in if schema = Some (ascii ''hivra.capsule_backup'') \<and> version = Some 1
                then (case fmlookup obj (ascii ''ledger'') of
                        Some ledger_value \<Rightarrow>
                          ok_or (js_from_value js (normalize_ledger_last_hash ledger_value)) ''parse failed''
                      | None \<Rightarrow> Err ''parse failed'')
                else ok_or (js_from_value js (normalize_ledger_last_hash value)) ''parse failed''
         | _ \<Rightarrow> Err ''parse failed''))"

section \<open>The crates\<close>

text \<open>A value without floating-point numbers, whose text determines it.\<close>

primrec float_free :: "json \<Rightarrow> bool" where
  "float_free JNull = True"
| "float_free (JBool b) = True"
| "float_free (JNumber num) = (case num of Float m e \<Rightarrow> False | _ \<Rightarrow> True)"
| "float_free (JString text) = True"
| "float_free (JArray vs) = list_all id (map float_free vs)"
| "float_free (JObject m) = fmpred (\<lambda>_. id) (fmmap float_free m)"

definition ledger_fields :: "utf8 list" where
  "ledger_fields = map ascii [''events'', ''owner'', ''last_hash'', ''continuity_v5'']"

text \<open>What serde documents of the derived traits: a ledger is an object of its fields and is read back from any object
  with these fields, where fields of other names are ignored; a field is required unless it has a default, and an
  integer field refuses a text. What serde\_json documents: a printed value is parsed again, and a typed value is
  read from a text as from its parsed value.\<close>

definition serde_laws :: "serde_json \<Rightarrow> bool" where
  "serde_laws js \<longleftrightarrow>
    (\<forall>l v. js_to_value js l = Some v \<longrightarrow> float_free v \<and> (\<exists>m. v = JObject m \<and> fmdom' m = set ledger_fields
      \<and> fmlookup m (ascii ''last_hash'') = Some (JNumber (PosInt (l_last_hash l)))
      \<and> (\<forall>m'. list_all (\<lambda>k. fmlookup m' k = fmlookup m k) ledger_fields \<longrightarrow> js_from_value js (JObject m') = Some l)))
    \<and> (\<forall>m. fmlookup m (ascii ''events'') = None \<longrightarrow> js_from_value js (JObject m) = None)
    \<and> (\<forall>m text. fmlookup m (ascii ''last_hash'') = Some (JString text) \<longrightarrow> js_from_value js (JObject m) = None)
    \<and> (\<forall>v text. js_print js v = Some text \<and> float_free v \<longrightarrow>
          js_parse js text = Some v \<and> js_from_str js text = js_from_value js v)"

section \<open>An exported ledger is read back\<close>

text \<open>The checksum that is written is the one that is read.\<close>

lemma last_hash_text: "last_hash_of_text (nat_to_text (unat n)) = Some n"
proof -
  let ?d = "nat_to_text (unat n)"
  have digits: "list_all (\<lambda>c. 48 \<le> c \<and> c \<le> 57) ?d" by (rule decimal_ascii)
  have white: "c < 0x80 \<and> [c] \<notin> white_space" if "48 \<le> c" "c \<le> 57" for c :: u8
  proof
    show "c < 0x80" by (rule order.strict_trans1 [OF that(2)]) simp
    show "[c] \<notin> white_space" using that(1) by (auto simp: white_space_def)
  qed
  have trimmed: "trimmed_text ?d = Some ?d"
    by (rule ascii_text_trimmed) (use digits white in \<open>auto simp: list_all_iff\<close>)
  have marked: "take 2 ?d \<noteq> ascii [CHR ''0'', x]" if "x = CHR ''x'' \<or> x = CHR ''X''" for x
  proof
    assume t: "take 2 ?d = ascii [CHR ''0'', x]"
    have "list_all (\<lambda>c. 48 \<le> c \<and> c \<le> 57) (take 2 ?d)"
      using digits by (auto simp: list_all_iff dest: in_set_takeD)
    then show False using that unfolding t by (auto simp: ascii_def)
  qed
  have sign: "(case ?d of c # cs \<Rightarrow> if c = 43 then cs else ?d | [] \<Rightarrow> []) = ?d"
    using digits by (cases ?d) auto
  have "parse_digits 10 0 ?d = Some (unat n)"
    by (rule parse_decimal) (use unsigned_less [of n] in simp)
  then show ?thesis
    by (simp add: last_hash_of_text_def trimmed unwrap_or_def marked u64_from_str_radix_def sign decimal_not_Nil Let_def)
qed

lemma exported_is_read:
  assumes laws: "serde_laws js" and v: "js_to_value js l = Some v"
  shows "\<exists>m. exported_value H l v = JObject m \<and> float_free (JObject m) \<and> fmlookup m (ascii ''schema'') = None
    \<and> js_from_value js (JObject m) = None
    \<and> js_from_value js (normalize_ledger_last_hash (JObject m)) = Some l"
proof -
  obtain m where m: "v = JObject m" "float_free v" "fmdom' m = set ledger_fields"
    and reads: "\<And>m'. list_all (\<lambda>k. fmlookup m' k = fmlookup m k) ledger_fields \<Longrightarrow> js_from_value js (JObject m') = Some l"
    and hash: "fmlookup m (ascii ''last_hash'') = Some (JNumber (PosInt (l_last_hash l)))"
    using laws v unfolding serde_laws_def by blast
  have refused: "js_from_value js (JObject m) = None"
    if "fmlookup m (ascii ''last_hash'') = Some (JString t)" for m t
    using laws that unfolding serde_laws_def by blast
  let ?text = "nat_to_text (unat (l_last_hash l))"
  let ?m = "fmupd (ascii ''last_hash'') (JString ?text) m"
  let ?x = "case head_commitment_v5 H l of
      Some head \<Rightarrow> fmupd (ascii ''head_commitment_v5'') (JString (encode_hex (bytes head))) ?m | None \<Rightarrow> ?m"
  have names: "ascii ''last_hash'' \<noteq> ascii ''head_commitment_v5''" "ascii ''schema'' \<noteq> ascii ''last_hash''"
    "ascii ''schema'' \<noteq> ascii ''head_commitment_v5''" "ascii ''schema'' \<notin> set ledger_fields"
    "ascii ''head_commitment_v5'' \<notin> set ledger_fields"
    by (simp_all add: ascii_def ledger_fields_def)
  have written: "fmlookup ?x (ascii ''last_hash'') = Some (JString ?text)"
    using names(1) by (simp split: option.split)
  have "fmlookup ?x (ascii ''schema'') = fmlookup m (ascii ''schema'')"
    using names by (simp split: option.split)
  also have "\<dots> = None"
    using m(3) names(4) by (simp add: fmdom'_notD)
  finally have schema: "fmlookup ?x (ascii ''schema'') = None" .
  have free: "float_free (JObject ?x)"
    using m by (auto simp: fmpred_iff split: option.split)
  have norm: "normalize_ledger_last_hash (JObject ?x)
      = JObject (fmupd (ascii ''last_hash'') (JNumber (PosInt (l_last_hash l))) ?x)"
    by (simp add: normalize_ledger_last_hash_def written last_hash_text)
  have "js_from_value js (normalize_ledger_last_hash (JObject ?x)) = Some l"
    unfolding norm
    by (rule reads) (use names(5) hash in \<open>auto simp: list_all_iff split: option.split\<close>)
  moreover have "exported_value H l v = JObject ?x" by (simp add: exported_value_def m(1) Let_def)
  ultimately show ?thesis using free schema refused [OF written] by blast
qed

lemma export_parses_back:
  assumes laws: "serde_laws js" and "fs_capsule s = Some c" and export: "export_runtime_ledger H js s = Ok json"
  shows "parse_ledger_json js json = Ok (ca_ledger c)"
proof -
  obtain v where v: "js_to_value js (ca_ledger c) = Some v"
    and p: "js_print js (exported_value H (ca_ledger c) v) = Some json"
    using assms by (auto simp: export_runtime_ledger_def)
  obtain m where m: "exported_value H (ca_ledger c) v = JObject m" "float_free (JObject m)"
    "fmlookup m (ascii ''schema'') = None" "js_from_value js (JObject m) = None"
    "js_from_value js (normalize_ledger_last_hash (JObject m)) = Some (ca_ledger c)"
    using exported_is_read [OF laws v] by blast
  have "js_parse js json = Some (JObject m) \<and> js_from_str js json = js_from_value js (JObject m)"
    using laws p m(1,2) unfolding serde_laws_def by metis
  then show ?thesis by (simp add: parse_ledger_json_def m)
qed

text \<open>So is one inside a backup document.\<close>

lemma backup_parses_back:
  assumes laws: "serde_laws js" and v: "js_to_value js l = Some v" and free: "float_free (JObject obj)"
    and obj: "fmlookup obj (ascii ''schema'') = Some (JString (ascii ''hivra.capsule_backup''))"
      "fmlookup obj (ascii ''version'') = Some (JNumber (PosInt 1))" "fmlookup obj (ascii ''events'') = None"
      "fmlookup obj (ascii ''ledger'') = Some (exported_value H l v)"
    and p: "js_print js (JObject obj) = Some json"
  shows "parse_ledger_json js json = Ok l"
proof -
  have "js_parse js json = Some (JObject obj)" "js_from_str js json = None"
    using laws p free obj(3) unfolding serde_laws_def by metis+
  with exported_is_read [OF laws v, of H] obj show ?thesis
    by (auto simp: parse_ledger_json_def as_str_def as_u64_value_def)
qed

section \<open>Which ledgers can be imported again\<close>

definition well_born :: "pub_key \<Rightarrow> event list \<Rightarrow> bool" where
  "well_born owner es \<longleftrightarrow>
    (case es of
       [] \<Rightarrow> True
     | e # rest \<Rightarrow> ev_kind e = CapsuleCreated \<and> ev_signer e = owner
         \<and> list_all (\<lambda>e. ev_kind e \<noteq> CapsuleCreated) rest)"

lemma validate_births_later:
  "0 < i \<Longrightarrow> validate_births owner i b es = Ok () \<longleftrightarrow> list_all (\<lambda>e. ev_kind e \<noteq> CapsuleCreated) es"
  by (induction es arbitrary: i b) auto

lemma validate_imported_iff:
  "validate_imported_ledger H U lib l owner True = Ok () \<longleftrightarrow>
    l_owner l = owner \<and> ledger_verify H U l \<and> list_all (event_signed H lib) (l_events l)
    \<and> well_born (l_owner l) (l_events l)"
  by (cases "l_events l")
    (auto simp: validate_imported_ledger_def verify_ledger_event_signatures_def
      verify_event_signatures_Ok well_born_def validate_births_later event_signed_def)

lemma well_born_append:
  "well_born owner (es @ [e]) \<longleftrightarrow>
    (if es = [] then ev_kind e = CapsuleCreated \<and> ev_signer e = owner
     else well_born owner es \<and> ev_kind e \<noteq> CapsuleCreated)"
  by (cases es) (auto simp: well_born_def)

text \<open>So a host that appends a second birth (the append call takes every kind) makes the ledger one
  that cannot be imported again, while no other signed event does.\<close>

lemma append_keeps_importable_iff:
  assumes "ed25519_law (pf_lib pf)" and "runtime_ledger_ok H U pf l"
    and "event_signed H (pf_lib pf) e"
    and "append_v5_event H (build_engine_with_config pf seed cfg) l e = Ok l'"
  shows "validate_imported_ledger H U (pf_lib pf) l' (l_owner l) True = Ok () \<longleftrightarrow>
    (if l_events l = [] then ev_kind e = CapsuleCreated \<and> ev_signer e = l_owner l
     else well_born (l_owner l) (l_events l) \<and> ev_kind e \<noteq> CapsuleCreated)"
proof -
  have "runtime_ledger_ok H U pf l'" "l_owner l' = l_owner l" "l_events l' = l_events l @ [e]"
    using append_v5_event_keeps [OF assms] by auto
  then show ?thesis
    by (auto simp: validate_imported_iff well_born_append runtime_ledger_ok_def
        verify_ledger_event_signatures_def verify_event_signatures_Ok)
qed

text \<open>A history that starts with one capsule birth, signed by the owner.\<close>

definition starts_with_birth :: "pub_key \<Rightarrow> event list \<Rightarrow> bool" where
  "starts_with_birth owner es \<longleftrightarrow> (\<exists>e rest. es = e # rest \<and> ev_kind e = CapsuleCreated \<and> ev_signer e = owner
    \<and> list_all (\<lambda>e. ev_kind e \<noteq> CapsuleCreated) rest)"

lemma well_born_iff: "well_born owner es \<longleftrightarrow> es = [] \<or> starts_with_birth owner es"
  by (cases es) (simp_all add: well_born_def starts_with_birth_def)

lemma import_of_active_ledger:
  assumes "ed25519_law (pf_lib pf)" and "runtime_reachable H U pf s" and "fs_capsule s = Some c"
    and "pf_parse_ledger pf json = Some (ca_ledger c)" and "fst (pf_load_seed pf (fs_env s)) = Some seed"
  shows "(fst (import_runtime_ledger H U pf json s) = Ok () \<longleftrightarrow> well_born (ca_pubkey c) (l_events (ca_ledger c)))
    \<and> fs_capsule (snd (import_runtime_ledger H U pf json s)) = Some c"
proof -
  let ?l = "ca_ledger c"
  have own: "l_owner ?l = ca_pubkey c" and ok: "runtime_ledger_ok H U pf ?l"
    using runtime_invD [OF runtime_reachable_inv [OF assms(1,2)] assms(3)] by auto
  then have v5: "is_continuous_v5 ?l" and ver: "ledger_verify H U ?l"
    and signed: "list_all (event_signed H (pf_lib pf)) (l_events ?l)"
    by (auto simp: runtime_ledger_ok_def verify_ledger_event_signatures_def verify_event_signatures_Ok)
  have full: "verify_ledger_v5 H U (build_engine_for_ledger pf seed ?l) ?l = Ok ()"
    by (rule runtime_ledger_ok_full [OF ok])
  have valid: "validate_imported_ledger H U (pf_lib pf) ?l (ca_pubkey c) True = Ok ()
      \<longleftrightarrow> well_born (ca_pubkey c) (l_events ?l)"
    using own ver signed by (auto simp: validate_imported_iff)
  have same: "c\<lparr> ca_ledger := ?l \<rparr> = c" by simp
  have "outcome (import_runtime_ledger H U pf json) s (\<lambda>r s'.
      (r = Ok () \<longleftrightarrow> well_born (ca_pubkey c) (l_events ?l)) \<and> fs_capsule s' = Some c)"
    unfolding import_runtime_ledger_def load_seed_def
    using valid
    by (cases "validate_imported_ledger H U (pf_lib pf) ?l (ca_pubkey c) True")
      (auto simp: outcome_simps assms(3-5) v5 full)
  then show ?thesis by (simp add: outcome_def split: prod.splits)
qed

text \<open>C40: A capsule reads its own export. When \<open>export_runtime_ledger\<close> returns a text in a reachable state and a
  seed is stored, importing that text leaves the capsule as it was, whether it succeeds or not. It succeeds exactly
  when the history is empty or starts with one capsule birth, signed by the owner: a host that appended a second
  birth has made an export that it refuses.\<close>

theorem import_accepts_own_export:
  assumes "ed25519_law (pf_lib pf)" and "serde_laws js" and "pf_parse_ledger pf = (\<lambda>text. ok (parse_ledger_json js text))"
    and "runtime_reachable H U pf s" and "fs_capsule s = Some c" and "fst (pf_load_seed pf (fs_env s)) = Some seed"
    and "export_runtime_ledger H js s = Ok json"
  shows "(fst (import_runtime_ledger H U pf json s) = Ok () \<longleftrightarrow>
      l_events (ca_ledger c) = [] \<or> starts_with_birth (ca_pubkey c) (l_events (ca_ledger c)))
    \<and> fs_capsule (snd (import_runtime_ledger H U pf json s)) = Some c"
proof -
  have "pf_parse_ledger pf json = Some (ca_ledger c)"
    using export_parses_back [OF assms(2,5,7)] by (simp add: assms(3))
  from import_of_active_ledger [OF assms(1,4,5) this assms(6)] show ?thesis by (simp only: well_born_iff)
qed

text \<open>An instance of the crates that knows one ledger.\<close>

definition sample_fields :: "ledger \<Rightarrow> (utf8, json) fmap" where
  "sample_fields l = fmap_of_list [(ascii ''events'', JNull), (ascii ''owner'', JNull),
    (ascii ''last_hash'', JNumber (PosInt (l_last_hash l))), (ascii ''continuity_v5'', JNull)]"

definition sample_from_value :: "ledger \<Rightarrow> json \<Rightarrow> ledger option" where
  "sample_from_value l v = (case v of
     JObject m \<Rightarrow> if list_all (\<lambda>k. fmlookup m k = fmlookup (sample_fields l) k) ledger_fields then Some l else None
   | _ \<Rightarrow> None)"

definition sample_serde :: "ledger \<Rightarrow> json \<Rightarrow> serde_json" where
  "sample_serde l x = \<lparr> js_to_value = (\<lambda>l'. if l' = l then Some (JObject (sample_fields l)) else None),
    js_from_value = sample_from_value l, js_from_str = (\<lambda>t. if t = ''export'' then sample_from_value l x else None),
    js_print = (\<lambda>v. if v = x then Some ''export'' else None), js_parse = (\<lambda>t. if t = ''export'' then Some x else None) \<rparr>"

lemma sample_serde_laws: "serde_laws (sample_serde l x)"
  by (auto simp: serde_laws_def sample_serde_def sample_from_value_def sample_fields_def ledger_fields_def ascii_def
      fmpred_iff fmdom'_alt_def)

definition sample_codec :: "serde_json \<Rightarrow> unit platform" where
  "sample_codec js = sample_platform\<lparr> pf_parse_ledger := (\<lambda>text. ok (parse_ledger_json js text)) \<rparr>"

lemma init_ignores_codec:
  "init_runtime_state H (pf\<lparr> pf_parse_ledger := p \<rparr>) = init_runtime_state H pf"
proof -
  have "build_engine_with_config (pf\<lparr> pf_parse_ledger := p \<rparr>) = build_engine_with_config pf"
    by (intro ext) (simp add: build_engine_with_config_def ffi_now_def fun_eq_iff)
  moreover have "pf_lib (pf\<lparr> pf_parse_ledger := p \<rparr>) = pf_lib pf" by simp
  ultimately show ?thesis unfolding init_runtime_state_def by (simp only:)
qed

theorem import_accepts_own_export_witness:
  "\<exists>s c js json. fs_capsule s = Some c \<and> serde_laws js \<and> export_runtime_ledger length_hash js s = Ok json
    \<and> fst (import_runtime_ledger length_hash 8 (sample_codec js) json s) = Ok ()
    \<and> fs_capsule (snd (import_runtime_ledger length_hash 8 (sample_codec js) json s)) = Some c"
proof -
  obtain s c where run:
    "init_runtime_state length_hash sample_platform (KeySeed (bfill 9)) Neste Leaf Root sample_start = (Ok (), s)"
    and c: "fs_capsule s = Some c"
    by (rule sample_creation)
  let ?l = "ca_ledger c"
  define js where "js = sample_serde ?l (exported_value length_hash ?l (JObject (sample_fields ?l)))"
  have run': "init_runtime_state length_hash (sample_codec js) (KeySeed (bfill 9)) Neste Leaf Root
      sample_start = (Ok (), s)"
    using run by (simp add: sample_codec_def init_ignores_codec)
  have law: "ed25519_law (pf_lib (sample_codec js))"
    using sample_crypto_law by (simp add: sample_codec_def)
  have reach: "runtime_reachable length_hash 8 (sample_codec js) s"
    unfolding runtime_reachable_def
    by (intro exI [of _ "()"] r_into_rtranclp runtime_step.create [OF run' [unfolded sample_start_def]])
  have serde: "serde_laws js" by (simp add: js_def sample_serde_laws)
  have reader: "pf_parse_ledger (sample_codec js) = (\<lambda>text. ok (parse_ledger_json js text))"
    by (simp add: sample_codec_def)
  have export: "export_runtime_ledger length_hash js s = Ok ''export''"
    by (simp add: export_runtime_ledger_def c js_def sample_serde_def)
  have seed: "fst (pf_load_seed (sample_codec js) (fs_env s)) = Some (KeySeed (bfill 9))"
    by (simp add: sample_codec_def sample_platform_def)
  obtain e where "l_events ?l = [e]" "event_content e = (CapsuleCreated, birth_payload Neste Leaf, ca_pubkey c)"
    using outcomeD [OF created_content [OF law] run'] c by (auto simp: starter_births_def)
  then have "starts_with_birth (ca_pubkey c) (l_events ?l)"
    by (simp add: starts_with_birth_def event_content_def)
  with import_accepts_own_export [OF law serde reader reach c seed export] c serde export show ?thesis by blast
qed

end
