(* ===== verification/Invitation_Support.thy ===== *)
theory Invitation_Support
  imports Runtime "HOL-Library.AList"
begin

text \<open>
  The questions the delivery handlers ask of the runtime ledger, and the events they project
  (platform/hivra-ffi/src/invitation\_support.rs): the byte-level readers of offers, the lookup of an
  offer by direction, the retry queues of breaks, offers and answers, the decision whether a delivered
  event is appended, and the effects of an acceptance and of a rejection.

  A \<open>HashMap\<close> is an association list with one entry per key; the order in which \<open>into_values\<close>
  yields is unspecified, and the lemmas on the queues show that it does not matter. The debug log of
  candidates writes to standard error only and has no counterpart.
\<close>

section \<open>Reading offers\<close>

text \<open>\<open>let mut a = [0u8; 32]; a.copy_from_slice(&bs[i..i + 32])\<close>, in range wherever the code uses it.\<close>

definition array_at :: "u8 list \<Rightarrow> nat \<Rightarrow> b32" where
  "array_at bs i = barray_of (take 32 (drop i bs))"

record invitation_lookup_record =
  lr_starter_id :: starter_id
  lr_starter_kind :: starter_kind
  lr_peer_pubkey :: pub_key
  lr_is_incoming :: bool
  lr_sender_root_pubkey :: "pub_key option"

definition invitation_payload_has_known_shape :: "u8 list \<Rightarrow> bool" where
  "invitation_payload_has_known_shape payload \<longleftrightarrow>
    length payload = 96 \<or> length payload = 97 \<or> length payload = 128
    \<or> length payload = 129 \<or> length payload = 161 \<or> length payload = 225"

definition invitation_payload_sender_root :: "u8 list \<Rightarrow> pub_key option" where
  "invitation_payload_sender_root payload =
    (if length payload \<ge> 128 then Some (PubKey (array_at payload 96)) else None)"

definition invitation_payload_starter_kind :: "u8 list \<Rightarrow> starter_kind option" where
  "invitation_payload_starter_kind payload =
    (if length payload = 97 then starter_kind_from_slot (payload ! 96)
     else if length payload = 129 \<or> length payload = 161 \<or> length payload = 225
       then starter_kind_from_slot (payload ! 128)
     else None)"

definition invitation_payload_sender_transport :: "u8 list \<Rightarrow> pub_key option" where
  "invitation_payload_sender_transport payload =
    (if length payload \<noteq> 161 \<and> length payload \<noteq> 225 then None
     else Some (PubKey (array_at payload 129)))"

definition invitation_payload_starter_id :: "u8 list \<Rightarrow> starter_id option" where
  "invitation_payload_starter_id payload =
    (if \<not> invitation_payload_has_known_shape payload then None
     else Some (StarterId (array_at payload 32)))"

definition invitation_sender_anchor :: "u8 list \<Rightarrow> pub_key \<Rightarrow> pub_key" where
  "invitation_sender_anchor payload signer =
    unwrap_or (invitation_payload_sender_root payload) signer"

section \<open>Questions about the ledger\<close>

definition incoming_invitation_reuses_empty_slot_rejected_sender_starter ::
  "'w ffi_state \<Rightarrow> b32 \<Rightarrow> starter_id \<Rightarrow> pub_key \<Rightarrow> bool" where
  "incoming_invitation_reuses_empty_slot_rejected_sender_starter s invitation_id starter_id sender_anchor =
    (case fs_capsule s of
       None \<Rightarrow> False
     | Some capsule \<Rightarrow>
         let empty_slot_rejections = List.map_filter (\<lambda>e.
               if ev_kind e \<noteq> InvitationRejected then None
               else case ok (invitation_rejected_from_bytes (ev_payload e)) of
                      None \<Rightarrow> None
                    | Some payload \<Rightarrow>
                        if rej_reason payload = EmptySlot \<and> rej_invitation_id payload \<noteq> invitation_id
                        then Some (rej_invitation_id payload) else None)
               (l_events (ca_ledger capsule))
         in if empty_slot_rejections = [] then False
            else list_ex (\<lambda>e.
              if ev_kind e \<noteq> InvitationReceived then False
              else let payload = ev_payload e in
                if \<not> invitation_payload_has_known_shape payload then False
                else if \<not> list_ex (\<lambda>rejected_id. take 32 payload = bytes rejected_id)
                       empty_slot_rejections then False
                else invitation_payload_starter_id payload = Some starter_id
                     \<and> invitation_sender_anchor payload (ev_signer e) = sender_anchor)
              (l_events (ca_ledger capsule)))"

definition find_starter_kind_by_id_in_ledger :: "ledger \<Rightarrow> b32 \<Rightarrow> starter_kind option" where
  "find_starter_kind_by_id_in_ledger l starter_id =
    find_map (\<lambda>e.
      if ev_kind e \<noteq> StarterCreated \<or> ev_signer e \<noteq> l_owner l then None
      else case ok (starter_created_from_bytes (ev_payload e)) of
             None \<Rightarrow> None
           | Some payload \<Rightarrow>
               if starter_id_as_bytes (cr_starter_id payload) = starter_id
               then Some (cr_kind payload) else None)
      (rev (l_events l))"

definition invitation_offer_exists_in_runtime ::
  "'w ffi_state \<Rightarrow> event_kind \<Rightarrow> b32 \<Rightarrow> pub_key \<Rightarrow> bool" where
  "invitation_offer_exists_in_runtime s kind invitation_id signer =
    (case fs_capsule s of
       None \<Rightarrow> False
     | Some capsule \<Rightarrow>
         list_ex (\<lambda>e.
           if ev_kind e \<noteq> kind \<or> ev_signer e \<noteq> signer then False
           else if \<not> invitation_payload_has_known_shape (ev_payload e) then False
           else take 32 (ev_payload e) = bytes invitation_id)
           (l_events (ca_ledger capsule)))"

definition answers_invitation :: "b32 \<Rightarrow> event_kind \<Rightarrow> u8 list \<Rightarrow> bool" where
  "answers_invitation invitation_id kind payload =
    (case kind of
       InvitationAccepted \<Rightarrow>
         if length payload = 96 \<or> length payload = 128 then take 32 payload = bytes invitation_id else False
     | InvitationRejected \<Rightarrow>
         if length payload = 33 then take 32 payload = bytes invitation_id else False
     | InvitationExpired \<Rightarrow>
         if length payload = 32 then payload = bytes invitation_id else False
     | _ \<Rightarrow> False)"

definition invitation_is_resolved_in_runtime :: "'w ffi_state \<Rightarrow> b32 \<Rightarrow> bool" where
  "invitation_is_resolved_in_runtime s invitation_id =
    (case fs_capsule s of
       None \<Rightarrow> False
     | Some capsule \<Rightarrow>
         list_ex (\<lambda>e. answers_invitation invitation_id (ev_kind e) (ev_payload e))
           (l_events (ca_ledger capsule)))"

record relationship_key =
  rk_peer_pubkey :: pub_key
  rk_own_starter_id :: starter_id

definition relationship_key_from_established_payload :: "u8 list \<Rightarrow> relationship_key option" where
  "relationship_key_from_established_payload payload =
    map_option (\<lambda>p. \<lparr> rk_peer_pubkey = est_peer_pubkey p, rk_own_starter_id = est_own_starter_id p \<rparr>)
      (ok (relationship_established_from_bytes payload))"

definition relationship_key_from_broken_payload :: "u8 list \<Rightarrow> relationship_key option" where
  "relationship_key_from_broken_payload payload =
    map_option (\<lambda>p. \<lparr> rk_peer_pubkey = brk_peer_pubkey p, rk_own_starter_id = brk_own_starter_id p \<rparr>)
      (ok (relationship_broken_from_bytes payload))"

definition key_active_step :: "relationship_key \<Rightarrow> bool \<Rightarrow> event \<Rightarrow> bool" where
  "key_active_step target active e =
    (case ev_kind e of
       RelationshipEstablished \<Rightarrow>
         if relationship_key_from_established_payload (ev_payload e) = Some target then True else active
     | RelationshipBroken \<Rightarrow>
         if relationship_key_from_broken_payload (ev_payload e) = Some target then False else active
     | _ \<Rightarrow> active)"

definition relationship_key_is_active_in_runtime :: "'w ffi_state \<Rightarrow> relationship_key \<Rightarrow> bool" where
  "relationship_key_is_active_in_runtime s target =
    (case fs_capsule s of
       None \<Rightarrow> False
     | Some capsule \<Rightarrow> foldl (key_active_step target) False (l_events (ca_ledger capsule)))"

definition relationship_established_exists_for_invitation_in_runtime ::
  "'w ffi_state \<Rightarrow> b32 \<Rightarrow> bool" where
  "relationship_established_exists_for_invitation_in_runtime s invitation_id =
    (case fs_capsule s of
       None \<Rightarrow> False
     | Some capsule \<Rightarrow>
         list_ex (\<lambda>e.
           if ev_kind e \<noteq> RelationshipEstablished then False
           else case ok (relationship_established_from_bytes (ev_payload e)) of
                  None \<Rightarrow> False | Some p \<Rightarrow> est_invitation_id p = invitation_id)
           (l_events (ca_ledger capsule)))"

definition invitation_accepted_exists_in_runtime :: "'w ffi_state \<Rightarrow> b32 \<Rightarrow> bool" where
  "invitation_accepted_exists_in_runtime s invitation_id =
    (case fs_capsule s of
       None \<Rightarrow> False
     | Some capsule \<Rightarrow>
         list_ex (\<lambda>e.
           if ev_kind e \<noteq> InvitationAccepted then False
           else case ok (invitation_accepted_from_bytes (ev_payload e)) of
                  None \<Rightarrow> False | Some p \<Rightarrow> acc_invitation_id p = invitation_id)
           (l_events (ca_ledger capsule)))"

definition invitation_id_from_terminal_payload :: "event_kind \<Rightarrow> u8 list \<Rightarrow> b32 option" where
  "invitation_id_from_terminal_payload kind payload =
    (case kind of
       InvitationAccepted \<Rightarrow>
         if length payload = 96 \<or> length payload = 128 then Some (array_at payload 0) else None
     | InvitationRejected \<Rightarrow> if length payload = 33 then Some (array_at payload 0) else None
     | InvitationExpired \<Rightarrow> if length payload = 32 then Some (barray_of payload) else None
     | _ \<Rightarrow> None)"

section \<open>Lookup of an offer\<close>

definition lookup_candidate ::
  "capsule \<Rightarrow> b32 \<Rightarrow> bool option \<Rightarrow> event \<Rightarrow> invitation_lookup_record option" where
  "lookup_candidate capsule invitation_id expect_incoming e =
    (if ev_kind e \<noteq> InvitationSent \<and> ev_kind e \<noteq> InvitationReceived then None
     else if \<not> invitation_payload_has_known_shape (ev_payload e) then None
     else if array_at (ev_payload e) 0 \<noteq> invitation_id then None
     else
       let payload = ev_payload e;
           starter_id = array_at payload 32;
           addressed_to = array_at payload 64;
           signer = pub_key_as_bytes (ev_signer e);
           local = pub_key_as_bytes (ca_pubkey capsule);
           is_incoming = ev_kind e = InvitationReceived \<or> addressed_to = local \<and> signer \<noteq> local;
           peer_pubkey =
             (if is_incoming
              then unwrap_or (invitation_payload_sender_transport payload) (PubKey signer)
              else PubKey addressed_to);
           kind = unwrap_or (invitation_payload_starter_kind payload)
             (unwrap_or (find_starter_kind_by_id_in_ledger (ca_ledger capsule) starter_id) Juice);
           candidate = \<lparr> lr_starter_id = StarterId starter_id, lr_starter_kind = kind,
             lr_peer_pubkey = peer_pubkey, lr_is_incoming = is_incoming,
             lr_sender_root_pubkey = invitation_payload_sender_root payload \<rparr>
       in (case expect_incoming of
             Some expected \<Rightarrow> if expected = is_incoming then Some candidate else None
           | None \<Rightarrow> Some candidate))"

definition find_invitation_sent_in_runtime_with_direction ::
  "'w ffi_state \<Rightarrow> b32 \<Rightarrow> bool option \<Rightarrow> invitation_lookup_record option" where
  "find_invitation_sent_in_runtime_with_direction s invitation_id expect_incoming =
    Option.bind (fs_capsule s) (\<lambda>capsule.
      find_map (lookup_candidate capsule invitation_id expect_incoming) (l_events (ca_ledger capsule)))"

definition find_invitation_sent_in_runtime ::
  "'w ffi_state \<Rightarrow> b32 \<Rightarrow> invitation_lookup_record option" where
  "find_invitation_sent_in_runtime s invitation_id =
    find_invitation_sent_in_runtime_with_direction s invitation_id None"

definition incoming_invitation_expired_matches_runtime :: "'w ffi_state \<Rightarrow> b32 \<Rightarrow> pub_key \<Rightarrow> bool" where
  "incoming_invitation_expired_matches_runtime s invitation_id signer =
    (case find_invitation_sent_in_runtime_with_direction s invitation_id (Some True) of
       None \<Rightarrow> False
     | Some record \<Rightarrow>
         lr_peer_pubkey record = signer \<or> lr_sender_root_pubkey record = Some signer)"

section \<open>Retry queues\<close>

record relationship_break_delivery =
  bd_event_id :: b32
  bd_to_pubkey :: b32
  bd_peer_starter_id :: starter_id
  bd_local_root_pubkey :: pub_key
  bd_timestamp :: u64

record invitation_delivery =
  sd_to_pubkey :: b32
  sd_payload :: "u8 list"
  sd_timestamp :: u64
  sd_invitation_id :: b32

record invitation_terminal_delivery =
  td_to_pubkey :: b32
  td_kind :: event_kind
  td_payload :: "u8 list"
  td_timestamp :: u64
  td_invitation_id :: b32

text \<open>The pair of maps \<open>latest_established\<close> (the starter of the peer) and \<open>pending\<close>.\<close>

type_synonym break_queue =
  "(relationship_key \<times> starter_id) list \<times> (relationship_key \<times> relationship_break_delivery) list"

definition break_queue_step ::
  "(u8 list \<Rightarrow> b32) \<Rightarrow> pub_key \<Rightarrow> break_queue \<Rightarrow> event \<Rightarrow> break_queue" where
  "break_queue_step H local_root_pubkey queue e =
    (case queue of (latest_established, pending) \<Rightarrow>
       case ev_kind e of
         RelationshipEstablished \<Rightarrow>
           (case ok (relationship_established_from_bytes (ev_payload e)) of
              None \<Rightarrow> queue
            | Some payload \<Rightarrow>
                let key = \<lparr> rk_peer_pubkey = est_peer_pubkey payload,
                            rk_own_starter_id = est_own_starter_id payload \<rparr>
                in (AList.update key (est_peer_starter_id payload) latest_established,
                    AList.delete key pending))
       | RelationshipBroken \<Rightarrow>
           (case ok (relationship_broken_from_bytes (ev_payload e)) of
              None \<Rightarrow> queue
            | Some payload \<Rightarrow>
                let key = \<lparr> rk_peer_pubkey = brk_peer_pubkey payload,
                            rk_own_starter_id = brk_own_starter_id payload \<rparr>
                in if ev_signer e = local_root_pubkey
                   then (case map_of latest_established key of
                           None \<Rightarrow> queue
                         | Some anchor \<Rightarrow>
                             (latest_established,
                              AList.update key
                                \<lparr> bd_event_id = event_id H e,
                                  bd_to_pubkey = pub_key_as_bytes (brk_peer_pubkey payload),
                                  bd_peer_starter_id = anchor,
                                  bd_local_root_pubkey = local_root_pubkey,
                                  bd_timestamp = as_u64 (ev_timestamp e) \<rparr> pending))
                   else (latest_established, AList.delete key pending))
       | _ \<Rightarrow> queue)"

definition break_delivery_order :: "relationship_break_delivery \<Rightarrow> u64 \<times> b32 \<times> b32 \<times> b32" where
  "break_delivery_order d =
    (bd_timestamp d, bd_to_pubkey d, bd_event_id d, starter_id_as_bytes (bd_peer_starter_id d))"

definition pending_outgoing_relationship_break_deliveries_in_runtime ::
  "(u8 list \<Rightarrow> b32) \<Rightarrow> 'w ffi_state \<Rightarrow> pub_key \<Rightarrow> relationship_break_delivery list" where
  "pending_outgoing_relationship_break_deliveries_in_runtime H s local_transport_pubkey =
    (case fs_capsule s of
       None \<Rightarrow> []
     | Some capsule \<Rightarrow>
         let pending = snd (foldl (break_queue_step H (ca_pubkey capsule)) ([], [])
               (l_events (ca_ledger capsule)));
             local_transport = pub_key_as_bytes local_transport_pubkey
         in sort_key break_delivery_order
              (filter (\<lambda>d. bd_to_pubkey d \<noteq> local_transport) (map snd pending)))"

definition offer_queue_step ::
  "pub_key \<Rightarrow> (b32 \<times> invitation_delivery) list \<Rightarrow> event \<Rightarrow> (b32 \<times> invitation_delivery) list" where
  "offer_queue_step local_root_pubkey pending e =
    (if ev_kind e = InvitationSent \<and> ev_signer e = local_root_pubkey then
       (case ok (invitation_sent_from_bytes (ev_payload e)) of
          None \<Rightarrow> pending
        | Some payload \<Rightarrow>
            AList.update (sent_invitation_id payload)
              \<lparr> sd_to_pubkey = pub_key_as_bytes (sent_to_pubkey payload),
                sd_payload = ev_payload e, sd_timestamp = as_u64 (ev_timestamp e),
                sd_invitation_id = sent_invitation_id payload \<rparr> pending)
     else if ev_kind e = InvitationAccepted \<or> ev_kind e = InvitationRejected
         \<or> ev_kind e = InvitationExpired then
       (case invitation_id_from_terminal_payload (ev_kind e) (ev_payload e) of
          None \<Rightarrow> pending
        | Some invitation_id \<Rightarrow> AList.delete invitation_id pending)
     else pending)"

definition offer_delivery_order :: "invitation_delivery \<Rightarrow> u64 \<times> b32 \<times> b32" where
  "offer_delivery_order d = (sd_timestamp d, sd_to_pubkey d, sd_invitation_id d)"

definition pending_outgoing_invitation_deliveries_in_runtime ::
  "'w ffi_state \<Rightarrow> invitation_delivery list" where
  "pending_outgoing_invitation_deliveries_in_runtime s =
    (case fs_capsule s of
       None \<Rightarrow> []
     | Some capsule \<Rightarrow>
         sort_key offer_delivery_order
           (map snd (foldl (offer_queue_step (ca_pubkey capsule)) [] (l_events (ca_ledger capsule)))))"

text \<open>The maps \<open>incoming_offers\<close> and \<open>outgoing_offers\<close> and the pending answers.\<close>

record terminal_queue =
  tq_incoming :: "(b32 \<times> pub_key) list"
  tq_outgoing :: "(b32 \<times> pub_key) list"
  tq_pending :: "((b32 \<times> event_kind) \<times> invitation_terminal_delivery) list"

definition queue_terminal ::
  "(b32 \<times> pub_key) list \<Rightarrow> terminal_queue \<Rightarrow> event \<Rightarrow> terminal_queue" where
  "queue_terminal offers queue e =
    (case invitation_id_from_terminal_payload (ev_kind e) (ev_payload e) of
       None \<Rightarrow> queue
     | Some invitation_id \<Rightarrow>
         (case map_of offers invitation_id of
            None \<Rightarrow> queue
          | Some to_pubkey \<Rightarrow>
              queue\<lparr> tq_pending := AList.update (invitation_id, ev_kind e)
                \<lparr> td_to_pubkey = pub_key_as_bytes to_pubkey, td_kind = ev_kind e,
                  td_payload = ev_payload e, td_timestamp = as_u64 (ev_timestamp e),
                  td_invitation_id = invitation_id \<rparr> (tq_pending queue) \<rparr>))"

definition terminal_queue_step :: "pub_key \<Rightarrow> terminal_queue \<Rightarrow> event \<Rightarrow> terminal_queue" where
  "terminal_queue_step local_root_pubkey queue e =
    (let payload = ev_payload e in
     if ev_kind e = InvitationSent \<and> ev_signer e = local_root_pubkey then
       if \<not> invitation_payload_has_known_shape payload then queue
       else queue\<lparr> tq_outgoing :=
         AList.update (array_at payload 0) (PubKey (array_at payload 64)) (tq_outgoing queue) \<rparr>
     else if ev_kind e = InvitationReceived then
       if \<not> invitation_payload_has_known_shape payload then queue
       else queue\<lparr> tq_incoming :=
         AList.update (array_at payload 0)
           (unwrap_or (invitation_payload_sender_transport payload) (ev_signer e)) (tq_incoming queue) \<rparr>
     else if (ev_kind e = InvitationAccepted \<or> ev_kind e = InvitationRejected)
         \<and> ev_signer e = local_root_pubkey then queue_terminal (tq_incoming queue) queue e
     else if ev_kind e = InvitationExpired \<and> ev_signer e = local_root_pubkey
       then queue_terminal (tq_outgoing queue) queue e
     else queue)"

definition terminal_delivery_order :: "invitation_terminal_delivery \<Rightarrow> u64 \<times> b32 \<times> u8 \<times> b32" where
  "terminal_delivery_order d =
    (td_timestamp d, td_to_pubkey d, event_kind_to_u8 (td_kind d), td_invitation_id d)"

definition pending_outgoing_invitation_terminal_deliveries_in_runtime ::
  "'w ffi_state \<Rightarrow> invitation_terminal_delivery list" where
  "pending_outgoing_invitation_terminal_deliveries_in_runtime s =
    (case fs_capsule s of
       None \<Rightarrow> []
     | Some capsule \<Rightarrow>
         sort_key terminal_delivery_order (map snd (tq_pending
           (foldl (terminal_queue_step (ca_pubkey capsule))
             \<lparr> tq_incoming = [], tq_outgoing = [], tq_pending = [] \<rparr>
             (l_events (ca_ledger capsule))))))"

section \<open>Whether a delivered event is appended\<close>

definition normalize_delivery_timestamp :: "u64 \<Rightarrow> u64" where
  "normalize_delivery_timestamp raw =
    (if raw = 0 then 0
     else if raw < 100000000000
       then of_nat (min (unat raw * 1000) (2 ^ 64 - 1))
     else raw)"

definition latest_ts :: "u64 \<Rightarrow> u64 option \<Rightarrow> u64 option" where
  "latest_ts ts latest = Some (case latest of None \<Rightarrow> ts | Some cur \<Rightarrow> max cur ts)"

definition latest_timestamps_step ::
  "relationship_key \<Rightarrow> u64 option \<times> u64 option \<Rightarrow> event \<Rightarrow> u64 option \<times> u64 option" where
  "latest_timestamps_step target acc e =
    (case acc of (latest_established, latest_broken) \<Rightarrow>
       let ts = as_u64 (ev_timestamp e) in
       case ev_kind e of
         RelationshipEstablished \<Rightarrow>
           if relationship_key_from_established_payload (ev_payload e) = Some target
           then (latest_ts ts latest_established, latest_broken) else acc
       | RelationshipBroken \<Rightarrow>
           if relationship_key_from_broken_payload (ev_payload e) = Some target
           then (latest_established, latest_ts ts latest_broken) else acc
       | _ \<Rightarrow> acc)"

definition relationship_key_latest_timestamps_in_runtime ::
  "'w ffi_state \<Rightarrow> relationship_key \<Rightarrow> u64 option \<times> u64 option" where
  "relationship_key_latest_timestamps_in_runtime s target =
    (case fs_capsule s of
       None \<Rightarrow> (None, None)
     | Some capsule \<Rightarrow> foldl (latest_timestamps_step target) (None, None) (l_events (ca_ledger capsule)))"

definition skip_established :: "'w ffi_state \<Rightarrow> u8 list \<Rightarrow> pub_key \<Rightarrow> bool" where
  "skip_established s payload signer =
    (case ok (relationship_established_from_bytes payload) of
       None \<Rightarrow> True
     | Some parsed \<Rightarrow>
         est_peer_pubkey parsed \<noteq> signer
         \<or> \<not> invitation_accepted_exists_in_runtime s (est_invitation_id parsed)
         \<or> relationship_established_exists_for_invitation_in_runtime s (est_invitation_id parsed)
         \<or> relationship_key_is_active_in_runtime s
             \<lparr> rk_peer_pubkey = est_peer_pubkey parsed, rk_own_starter_id = est_own_starter_id parsed \<rparr>)"

definition skip_broken :: "'w ffi_state \<Rightarrow> u8 list \<Rightarrow> pub_key \<Rightarrow> u64 option \<Rightarrow> bool" where
  "skip_broken s payload signer incoming_ts =
    (case ok (relationship_broken_from_bytes payload) of
       None \<Rightarrow> True
     | Some parsed \<Rightarrow>
         let signer_matches = (case brk_peer_root_pubkey parsed of
               Some root \<Rightarrow> root = signer | None \<Rightarrow> brk_peer_pubkey parsed = signer);
             key = \<lparr> rk_peer_pubkey = brk_peer_pubkey parsed, rk_own_starter_id = brk_own_starter_id parsed \<rparr>
         in if \<not> signer_matches then True
            else case relationship_key_latest_timestamps_in_runtime s key of
              (latest_established_ts, latest_broken_ts) \<Rightarrow>
                (case incoming_ts of
                   None \<Rightarrow> False
                 | Some ts \<Rightarrow>
                     (case latest_broken_ts of None \<Rightarrow> False | Some last_break_ts \<Rightarrow> ts \<le> last_break_ts)
                     \<or> (case latest_established_ts of
                          None \<Rightarrow> False | Some last_established_ts \<Rightarrow> ts < last_established_ts))
                \<or> \<not> relationship_key_is_active_in_runtime s key)"

definition skip_offer :: "'w ffi_state \<Rightarrow> u8 list \<Rightarrow> pub_key \<Rightarrow> bool" where
  "skip_offer s payload signer =
    (let invitation_id = array_at payload 0 in
     invitation_is_resolved_in_runtime s invitation_id
     \<or> invitation_offer_exists_in_runtime s InvitationReceived invitation_id signer
     \<or> (case invitation_payload_starter_id payload of
          None \<Rightarrow> False
        | Some starter_id \<Rightarrow>
            incoming_invitation_reuses_empty_slot_rejected_sender_starter s invitation_id starter_id
              (invitation_sender_anchor payload signer)))"

definition skip_terminal :: "'w ffi_state \<Rightarrow> event_kind \<Rightarrow> b32 \<Rightarrow> pub_key \<Rightarrow> bool" where
  "skip_terminal s local_kind invitation_id signer =
    (let sender_revocation = local_kind = InvitationExpired
           \<and> incoming_invitation_expired_matches_runtime s invitation_id signer in
     if invitation_is_resolved_in_runtime s invitation_id \<and> \<not> sender_revocation then True
     else case local_kind of
       InvitationAccepted \<Rightarrow>
         find_invitation_sent_in_runtime_with_direction s invitation_id (Some False) = None
     | InvitationRejected \<Rightarrow>
         find_invitation_sent_in_runtime_with_direction s invitation_id (Some False) = None
     | InvitationExpired \<Rightarrow>
         (case find_invitation_sent_in_runtime_with_direction s invitation_id (Some True) of
            None \<Rightarrow> True
          | Some record \<Rightarrow>
              lr_peer_pubkey record \<noteq> signer \<and> lr_sender_root_pubkey record \<noteq> Some signer)
     | _ \<Rightarrow> False)"

definition should_skip_incoming_delivery_append_with_timestamp ::
  "'w ffi_state \<Rightarrow> event_kind \<Rightarrow> u8 list \<Rightarrow> pub_key \<Rightarrow> u64 option \<Rightarrow> bool" where
  "should_skip_incoming_delivery_append_with_timestamp s local_kind payload signer incoming_timestamp =
    (let normalized_incoming_timestamp = map_option normalize_delivery_timestamp incoming_timestamp in
     if local_kind = RelationshipEstablished \<and> skip_established s payload signer then True
     else if local_kind = RelationshipBroken
       then skip_broken s payload signer normalized_incoming_timestamp
     else if local_kind = InvitationReceived \<and> length payload \<ge> 32 \<and> skip_offer s payload signer
       then True
     else if (case invitation_id_from_terminal_payload local_kind payload of
                None \<Rightarrow> False
              | Some invitation_id \<Rightarrow> skip_terminal s local_kind invitation_id signer)
       then True
     else event_exists_in_runtime_with_signer s local_kind payload signer)"

section \<open>Projected effects\<close>

definition append_starter_created_if_missing ::
  "(u8 list \<Rightarrow> b32) \<Rightarrow> nat \<Rightarrow> 'w platform \<Rightarrow> 'w ffi_engine \<Rightarrow> starter_id \<Rightarrow> starter_kind \<Rightarrow> network \<Rightarrow> b32
    \<Rightarrow> ('w, unit) ffi_action" where
  "append_starter_created_if_missing H U pf en starter_id kind network nonce =
    seq (with_error ''prepare failed'' (prepare_starter_created H en starter_id nonce kind network))
      (\<lambda>prepared.
    seq (inspect (\<lambda>s. Ok (starter_is_active_in_runtime s starter_id))) (\<lambda>active.
      if active then pure (Ok ()) else append_prepared_event H U pf prepared))"

definition append_relationship_established_if_missing ::
  "(u8 list \<Rightarrow> b32) \<Rightarrow> nat \<Rightarrow> 'w platform \<Rightarrow> 'w ffi_engine \<Rightarrow> pub_key \<Rightarrow> starter_id \<Rightarrow> starter_id
    \<Rightarrow> starter_kind \<Rightarrow> b32 \<Rightarrow> pub_key \<Rightarrow> starter_kind \<Rightarrow> starter_id \<Rightarrow> pub_key option \<Rightarrow> pub_key option
    \<Rightarrow> ('w, unit) ffi_action" where
  "append_relationship_established_if_missing H U pf en peer_pubkey own_starter_id peer_starter_id kind
      invitation_id sender_pubkey sender_starter_type sender_starter_id peer_root_pubkey
      sender_root_pubkey =
    seq (with_error ''prepare failed'' (prepare_relationship_established H en peer_pubkey own_starter_id
          peer_starter_id kind invitation_id sender_pubkey sender_starter_type sender_starter_id
          peer_root_pubkey sender_root_pubkey)) (\<lambda>prepared.
    seq (inspect (\<lambda>s. Ok (event_exists_in_runtime s RelationshipEstablished
          (ev_payload (pe_event prepared))))) (\<lambda>exists.
      if exists then pure (Ok ()) else append_prepared_event H U pf prepared))"

definition project_relationship_from_invitation_accepted ::
  "(u8 list \<Rightarrow> b32) \<Rightarrow> nat \<Rightarrow> 'w platform \<Rightarrow> 'w ffi_engine \<Rightarrow> b32 \<Rightarrow> invitation_accepted_payload
    \<Rightarrow> ('w, unit) ffi_action" where
  "project_relationship_from_invitation_accepted H U pf en message_from payload =
    seq (inspect (\<lambda>s. ok_or (map_option (\<lambda>c. pub_key_as_bytes (ca_pubkey c)) (fs_capsule s))
          ''no capsule'')) (\<lambda>local_pubkey.
    if message_from = local_pubkey then pure (Err ''ignore self InvitationAccepted delivery'')
    else seq (inspect (\<lambda>s. ok_or (find_invitation_sent_in_runtime_with_direction s
          (acc_invitation_id payload) (Some False)) ''matching outgoing invitation not found''))
      (\<lambda>record.
    if lr_is_incoming record then pure (Err ''matching outgoing invitation not found'')
    else seq (pure (map_err (\<lambda>_. ''prepare failed'') (engine_public_key en))) (\<lambda>local_root_pubkey.
      append_relationship_established_if_missing H U pf en (PubKey message_from)
        (lr_starter_id record) (acc_created_starter_id payload) (lr_starter_kind record)
        (acc_invitation_id payload) (acc_from_pubkey payload) (lr_starter_kind record)
        (lr_starter_id record) (acc_accepter_root_pubkey payload) (Some local_root_pubkey))))"

definition project_effects_from_invitation_rejected ::
  "(u8 list \<Rightarrow> b32) \<Rightarrow> nat \<Rightarrow> 'w platform \<Rightarrow> 'w ffi_engine \<Rightarrow> invitation_rejected_payload
    \<Rightarrow> ('w, unit) ffi_action" where
  "project_effects_from_invitation_rejected H U pf en payload =
    seq (inspect (\<lambda>s. ok_or (find_invitation_sent_in_runtime_with_direction s
          (rej_invitation_id payload) (Some False)) ''matching outgoing invitation not found''))
      (\<lambda>record.
    if lr_is_incoming record then pure (Err ''matching outgoing invitation not found'')
    else case rej_reason payload of
      EmptySlot \<Rightarrow>
        seq (inspect (\<lambda>s. Ok (starter_is_active_in_runtime s (lr_starter_id record)))) (\<lambda>active.
        if \<not> active then pure (Ok ())
        else seq (with_error ''prepare failed'' (prepare_starter_burned H en (lr_starter_id record)
              (reject_reason_to_u8 (rej_reason payload))))
          (append_prepared_event H U pf))
    | Other \<Rightarrow> pure (Ok ()))"

record local_acceptance_plan =
  lp_invitation_id :: b32
  lp_sender_pubkey :: pub_key
  lp_sender_root_pubkey :: "pub_key option"
  lp_sender_starter_id :: starter_id
  lp_sender_starter_type :: starter_kind
  lp_relationship_starter_id :: starter_id
  lp_relationship_kind :: starter_kind
  lp_peer_starter_id :: starter_id
  lp_created_starter :: "(starter_id \<times> starter_kind \<times> b32) option"

definition resolve_local_acceptance_plan ::
  "(u8 list \<Rightarrow> b32) \<Rightarrow> 'w ffi_state \<Rightarrow> seed \<Rightarrow> b32 \<Rightarrow> (string, local_acceptance_plan) result" where
  "resolve_local_acceptance_plan H s seed invitation_id =
    and_then (ok_or (find_invitation_sent_in_runtime_with_direction s invitation_id (Some True))
        ''matching incoming invitation not found'') (\<lambda>record.
    if \<not> lr_is_incoming record then Err ''matching incoming invitation not found''
    else
      let peer_starter_id = lr_starter_id record;
          invited_kind = lr_starter_kind record;
          sender_pubkey = lr_peer_pubkey record;
          sender_root_pubkey = lr_sender_root_pubkey record;
          inviter_anchor = unwrap_or sender_root_pubkey sender_pubkey
      in if incoming_invitation_reuses_empty_slot_rejected_sender_starter s invitation_id
              peer_starter_id inviter_anchor
         then Err ''incoming invitation reuses burned sender starter''
         else and_then (ok_or (fs_capsule s) ''no capsule'') (\<lambda>capsule.
           case plan_accept_for_kind (ca_ledger capsule) (layout_from_ledger (ca_ledger capsule))
                  invited_kind of
             UseExistingStarter relationship_starter_id created_starter \<Rightarrow>
               Ok \<lparr> lp_invitation_id = invitation_id, lp_sender_pubkey = sender_pubkey,
                    lp_sender_root_pubkey = sender_root_pubkey,
                    lp_sender_starter_id = peer_starter_id, lp_sender_starter_type = invited_kind,
                    lp_relationship_starter_id = relationship_starter_id,
                    lp_relationship_kind = invited_kind, lp_peer_starter_id = peer_starter_id,
                    lp_created_starter = map_option (\<lambda>planned.
                      let slot = slot_index_as_u8 (ps_slot planned) in
                      (StarterId (derive_starter_id_lineage H seed slot invitation_id inviter_anchor),
                       ps_kind planned,
                       derive_starter_nonce_lineage H seed slot invitation_id inviter_anchor))
                      created_starter \<rparr>
           | CreateStarterInEmptySlot slot kind \<Rightarrow>
               let slot_u8 = slot_index_as_u8 slot;
                   created_starter_id =
                     StarterId (derive_starter_id_lineage H seed slot_u8 invitation_id inviter_anchor)
               in Ok \<lparr> lp_invitation_id = invitation_id, lp_sender_pubkey = sender_pubkey,
                    lp_sender_root_pubkey = sender_root_pubkey,
                    lp_sender_starter_id = peer_starter_id, lp_sender_starter_type = invited_kind,
                    lp_relationship_starter_id = created_starter_id,
                    lp_relationship_kind = invited_kind, lp_peer_starter_id = peer_starter_id,
                    lp_created_starter = Some (created_starter_id, kind,
                      derive_starter_nonce_lineage H seed slot_u8 invitation_id inviter_anchor) \<rparr>
           | NoCapacity \<Rightarrow> Err ''no capacity to accept invitation''))"

definition finalize_local_acceptance ::
  "(u8 list \<Rightarrow> b32) \<Rightarrow> nat \<Rightarrow> 'w platform \<Rightarrow> 'w ffi_engine \<Rightarrow> local_acceptance_plan \<Rightarrow> b32
    \<Rightarrow> ('w, unit) ffi_action" where
  "finalize_local_acceptance H U pf en plan from_pubkey =
    seq (inspect capsule_network) (\<lambda>network.
    seq (case lp_created_starter plan of
           Some (created_starter_id, created_kind, created_nonce) \<Rightarrow>
             append_starter_created_if_missing H U pf en created_starter_id created_kind network
               created_nonce
         | None \<Rightarrow> pure (Ok ())) (\<lambda>_.
    seq (pure (map_err (\<lambda>_. ''prepare failed'') (engine_public_key en))) (\<lambda>own.
      append_relationship_established_if_missing H U pf en (PubKey from_pubkey)
        (lp_relationship_starter_id plan) (lp_peer_starter_id plan) (lp_relationship_kind plan)
        (lp_invitation_id plan) (lp_sender_pubkey plan) (lp_sender_starter_type plan)
        (lp_sender_starter_id plan) (lp_sender_root_pubkey plan) (Some own))))"

end
