(* ===== verification/Delivery_Gate.thy ===== *)
theory Delivery_Gate
  imports Invitation_Support
begin

text \<open>
  What the decision \<open>should_skip_incoming_delivery_append_with_timestamp\<close> guarantees
  (platform/hivra-ffi/src/invitation\_support.rs): a delivery that was appended is not appended again,
  and the deliveries that pass answer an open offer or break an active relationship.
\<close>

section \<open>The ledger the questions read\<close>

definition runtime_events :: "'w ffi_state \<Rightarrow> event list" where
  "runtime_events s = (case fs_capsule s of None \<Rightarrow> [] | Some c \<Rightarrow> l_events (ca_ledger c))"

named_theorems query_simps \<open>the questions of the delivery gate as statements about the events\<close>

lemma array_at_0: "length bs \<ge> 32 \<Longrightarrow> array_at bs 0 = i \<longleftrightarrow> take 32 bs = bytes i"
proof -
  assume "length bs \<ge> 32"
  then have "bytes (array_at bs 0) = take 32 bs" by (simp add: array_at_def)
  then show ?thesis by (metis bytes_eq_iff)
qed

lemma barray_of_whole: "length bs = 32 \<Longrightarrow> (barray_of bs = (i :: b32)) \<longleftrightarrow> bs = bytes i"
proof -
  assume "length bs = 32"
  then have "bytes (barray_of bs :: b32) = bs" by simp
  then show ?thesis by (metis bytes_eq_iff)
qed

lemma terminal_id_iff:
  "invitation_id_from_terminal_payload kind payload = Some i \<longleftrightarrow> answers_invitation i kind payload"
  by (auto simp: invitation_id_from_terminal_payload_def answers_invitation_def array_at_0 barray_of_whole
      split: event_kind.split)

lemma answers_unique: "answers_invitation i k p \<Longrightarrow> answers_invitation j k p \<longleftrightarrow> i = j"
  by (metis option.inject terminal_id_iff)

lemma event_exists_iff [query_simps]:
  "event_exists_in_runtime_with_signer s kind payload signer \<longleftrightarrow>
    (\<exists>e\<in>set (runtime_events s). ev_kind e = kind \<and> ev_payload e = payload \<and> ev_signer e = signer)"
  by (auto simp: event_exists_in_runtime_with_signer_def runtime_events_def list_ex_iff split: option.split)

lemma resolved_iff [query_simps]:
  "invitation_is_resolved_in_runtime s i \<longleftrightarrow>
    (\<exists>e\<in>set (runtime_events s). answers_invitation i (ev_kind e) (ev_payload e))"
  by (auto simp: invitation_is_resolved_in_runtime_def runtime_events_def list_ex_iff split: option.split)

lemma offer_exists_iff [query_simps]:
  "invitation_offer_exists_in_runtime s kind i signer \<longleftrightarrow>
    (\<exists>e\<in>set (runtime_events s). ev_kind e = kind \<and> ev_signer e = signer
      \<and> invitation_payload_has_known_shape (ev_payload e) \<and> take 32 (ev_payload e) = bytes i)"
  by (auto simp: invitation_offer_exists_in_runtime_def runtime_events_def list_ex_iff split: option.split)

lemma accepted_exists_iff [query_simps]:
  "invitation_accepted_exists_in_runtime s i \<longleftrightarrow>
    (\<exists>e\<in>set (runtime_events s). ev_kind e = InvitationAccepted
      \<and> (\<exists>p. invitation_accepted_from_bytes (ev_payload e) = Ok p \<and> acc_invitation_id p = i))"
  by (auto simp: invitation_accepted_exists_in_runtime_def runtime_events_def list_ex_iff
      split: option.splits)

lemma established_exists_iff [query_simps]:
  "relationship_established_exists_for_invitation_in_runtime s i \<longleftrightarrow>
    (\<exists>e\<in>set (runtime_events s). ev_kind e = RelationshipEstablished
      \<and> (\<exists>p. relationship_established_from_bytes (ev_payload e) = Ok p \<and> est_invitation_id p = i))"
  by (auto simp: relationship_established_exists_for_invitation_in_runtime_def runtime_events_def
      list_ex_iff split: option.splits)

section \<open>Relationship keys\<close>

definition establishes :: "relationship_key \<Rightarrow> event \<Rightarrow> bool" where
  "establishes key e \<longleftrightarrow> ev_kind e = RelationshipEstablished
    \<and> relationship_key_from_established_payload (ev_payload e) = Some key"

definition breaks :: "relationship_key \<Rightarrow> event \<Rightarrow> bool" where
  "breaks key e \<longleftrightarrow> ev_kind e = RelationshipBroken
    \<and> relationship_key_from_broken_payload (ev_payload e) = Some key"

lemma key_active_step_eq:
  "key_active_step key active e = (establishes key e \<or> active \<and> \<not> breaks key e)"
  by (auto simp: key_active_step_def establishes_def breaks_def split: event_kind.splits)

text \<open>A key is active when it was established and not broken since.\<close>

definition unbroken :: "relationship_key \<Rightarrow> event list \<Rightarrow> bool" where
  "unbroken key es \<longleftrightarrow>
    (\<exists>xs e ys. es = xs @ e # ys \<and> establishes key e \<and> list_all (\<lambda>f. \<not> breaks key f) ys)"

lemma unbroken_Nil [simp]: "\<not> unbroken key []"
  by (simp add: unbroken_def)

lemma unbroken_snoc [simp]:
  "unbroken key (es @ [e]) \<longleftrightarrow> establishes key e \<or> unbroken key es \<and> \<not> breaks key e"
proof
  assume "unbroken key (es @ [e])"
  then obtain xs f ys where eq: "es @ [e] = xs @ f # ys" and f: "establishes key f"
    "list_all (\<lambda>g. \<not> breaks key g) ys"
    by (auto simp: unbroken_def)
  from eq show "establishes key e \<or> unbroken key es \<and> \<not> breaks key e"
    using f by (cases ys rule: rev_cases) (auto simp: unbroken_def)
next
  assume "establishes key e \<or> unbroken key es \<and> \<not> breaks key e"
  then show "unbroken key (es @ [e])"
  proof
    assume "establishes key e"
    then show ?thesis unfolding unbroken_def by fastforce
  next
    assume u: "unbroken key es \<and> \<not> breaks key e"
    then obtain xs f ys where "es = xs @ f # ys" "establishes key f" "list_all (\<lambda>g. \<not> breaks key g) ys"
      by (auto simp: unbroken_def)
    then show ?thesis
      unfolding unbroken_def using u
      by (intro exI [of _ xs] exI [of _ f] exI [of _ "ys @ [e]"]) simp
  qed
qed

lemma key_active_iff [query_simps]:
  "relationship_key_is_active_in_runtime s key \<longleftrightarrow> unbroken key (runtime_events s)"
proof -
  have "foldl (key_active_step key) False es \<longleftrightarrow> unbroken key es" for es
    by (induction es rule: rev_induct) (auto simp: key_active_step_eq)
  then show ?thesis
    by (simp add: relationship_key_is_active_in_runtime_def runtime_events_def split: option.split)
qed

text \<open>The latest timestamps bound those of all breaks and of all establishments.\<close>

abbreviation event_ts :: "event \<Rightarrow> u64" where
  "event_ts e \<equiv> as_u64 (ev_timestamp e)"

lemma latest_timestamps_eq:
  "relationship_key_latest_timestamps_in_runtime s key =
    (foldl (\<lambda>acc t. latest_ts t acc) None (map event_ts (filter (establishes key) (runtime_events s))),
     foldl (\<lambda>acc t. latest_ts t acc) None (map event_ts (filter (breaks key) (runtime_events s))))"
proof -
  have "foldl (latest_timestamps_step key) (None, None) es =
    (foldl (\<lambda>acc t. latest_ts t acc) None (map event_ts (filter (establishes key) es)),
     foldl (\<lambda>acc t. latest_ts t acc) None (map event_ts (filter (breaks key) es)))" for es
    by (induction es rule: rev_induct)
      (auto simp: latest_timestamps_step_def establishes_def breaks_def Let_def split: event_kind.splits)
  then show ?thesis
    by (simp add: relationship_key_latest_timestamps_in_runtime_def runtime_events_def split: option.split)
qed

lemma latest_ts_bound:
  "(case foldl (\<lambda>acc t. latest_ts t acc) None ts of None \<Rightarrow> False | Some m \<Rightarrow> t \<le> m)
    \<longleftrightarrow> (\<exists>u\<in>set ts. t \<le> u)"
  "(case foldl (\<lambda>acc t. latest_ts t acc) None ts of None \<Rightarrow> False | Some m \<Rightarrow> t < m)
    \<longleftrightarrow> (\<exists>u\<in>set ts. t < u)"
  by (induction ts rule: rev_induct)
    (auto simp: latest_ts_def le_max_iff_disj less_max_iff_disj split: option.splits)

section \<open>Lookups\<close>

text \<open>The offers \<open>find_invitation_sent_in_runtime_with_direction\<close> answers with.\<close>

definition offers_id :: "b32 \<Rightarrow> event \<Rightarrow> bool" where
  "offers_id i e \<longleftrightarrow> (ev_kind e = InvitationSent \<or> ev_kind e = InvitationReceived)
    \<and> invitation_payload_has_known_shape (ev_payload e) \<and> take 32 (ev_payload e) = bytes i"

definition incoming_for :: "pub_key \<Rightarrow> event \<Rightarrow> bool" where
  "incoming_for local e \<longleftrightarrow> ev_kind e = InvitationReceived
    \<or> PubKey (array_at (ev_payload e) 64) = local \<and> ev_signer e \<noteq> local"

lemma known_shape_length: "invitation_payload_has_known_shape p \<Longrightarrow> length p \<ge> 96"
  by (auto simp: invitation_payload_has_known_shape_def)

lemma pub_key_as_bytes_eq_iff [simp]: "pub_key_as_bytes a = pub_key_as_bytes b \<longleftrightarrow> a = b"
  by (cases a; cases b) simp

lemma lookup_candidate_None:
  "lookup_candidate c i (Some incoming) e = None \<longleftrightarrow>
    \<not> (offers_id i e \<and> incoming_for (ca_pubkey c) e = incoming)"
proof (cases "invitation_payload_has_known_shape (ev_payload e)")
  case True
  have "x = pub_key_as_bytes (ca_pubkey c) \<longleftrightarrow> PubKey x = ca_pubkey c" for x
    by (cases "ca_pubkey c") simp
  moreover have "array_at (ev_payload e) 0 = i \<longleftrightarrow> take 32 (ev_payload e) = bytes i"
    using known_shape_length [OF True] by (simp add: array_at_0)
  ultimately show ?thesis
    using True by (auto simp: lookup_candidate_def offers_id_def incoming_for_def Let_def)
qed (simp add: lookup_candidate_def offers_id_def)

lemma lookup_None [query_simps]:
  "find_invitation_sent_in_runtime_with_direction s i (Some incoming) = None \<longleftrightarrow>
    (case fs_capsule s of None \<Rightarrow> True | Some c \<Rightarrow>
      \<not> (\<exists>e\<in>set (runtime_events s). offers_id i e \<and> incoming_for (ca_pubkey c) e = incoming))"
  by (auto simp: find_invitation_sent_in_runtime_with_direction_def runtime_events_def find_map_None
      lookup_candidate_None split: option.split)

section \<open>The gate\<close>

text \<open>The sender of a break: the root it names, or the peer it names.\<close>

definition break_sender :: "relationship_broken_payload \<Rightarrow> pub_key" where
  "break_sender p = unwrap_or (brk_peer_root_pubkey p) (brk_peer_pubkey p)"

definition break_key :: "relationship_broken_payload \<Rightarrow> relationship_key" where
  "break_key p = \<lparr> rk_peer_pubkey = brk_peer_pubkey p, rk_own_starter_id = brk_own_starter_id p \<rparr>"

definition established_key :: "relationship_established_payload \<Rightarrow> relationship_key" where
  "established_key p = \<lparr> rk_peer_pubkey = est_peer_pubkey p, rk_own_starter_id = est_own_starter_id p \<rparr>"

text \<open>A time that is later than every break and not earlier than any establishment of the key.\<close>

definition current_for :: "relationship_key \<Rightarrow> event list \<Rightarrow> u64 \<Rightarrow> bool" where
  "current_for key es t \<longleftrightarrow>
    list_all (\<lambda>e. (breaks key e \<longrightarrow> event_ts e < t) \<and> (establishes key e \<longrightarrow> event_ts e \<le> t)) es"

definition break_admissible :: "event list \<Rightarrow> u8 list \<Rightarrow> pub_key \<Rightarrow> u64 option \<Rightarrow> bool" where
  "break_admissible es payload signer t \<longleftrightarrow>
    (\<exists>p. relationship_broken_from_bytes payload = Ok p \<and> break_sender p = signer
      \<and> unbroken (break_key p) es \<and> (case t of None \<Rightarrow> True | Some t \<Rightarrow> current_for (break_key p) es t))"

definition established_admissible :: "event list \<Rightarrow> u8 list \<Rightarrow> pub_key \<Rightarrow> bool" where
  "established_admissible es payload signer \<longleftrightarrow>
    (\<exists>p. relationship_established_from_bytes payload = Ok p \<and> est_peer_pubkey p = signer
      \<and> (\<exists>e\<in>set es. ev_kind e = InvitationAccepted
          \<and> (\<exists>q. invitation_accepted_from_bytes (ev_payload e) = Ok q
              \<and> acc_invitation_id q = est_invitation_id p))
      \<and> \<not> (\<exists>e\<in>set es. ev_kind e = RelationshipEstablished
          \<and> (\<exists>q. relationship_established_from_bytes (ev_payload e) = Ok q
              \<and> est_invitation_id q = est_invitation_id p))
      \<and> \<not> unbroken (established_key p) es)"

lemma skip_broken_iff:
  "skip_broken s payload signer t \<longleftrightarrow> \<not> break_admissible (runtime_events s) payload signer t"
proof (cases "ok (relationship_broken_from_bytes payload)")
  case (Some p)
  have sender: "(case brk_peer_root_pubkey p of Some root \<Rightarrow> root = signer
      | None \<Rightarrow> brk_peer_pubkey p = signer) \<longleftrightarrow> break_sender p = signer"
    by (simp add: break_sender_def unwrap_or_def split: option.split)
  have current: "current_for key es u \<longleftrightarrow>
      \<not> (\<exists>x\<in>set (map event_ts (filter (breaks key) es)). u \<le> x)
      \<and> \<not> (\<exists>x\<in>set (map event_ts (filter (establishes key) es)). u < x)" for key es u
    by (auto simp: current_for_def list_all_iff not_le not_less)
  show ?thesis
    using Some
    by (auto simp: skip_broken_def break_admissible_def Let_def sender latest_timestamps_eq
        latest_ts_bound current key_active_iff break_key_def split: option.split)
qed (auto simp: skip_broken_def break_admissible_def)

lemma skip_established_iff:
  "skip_established s payload signer \<longleftrightarrow> \<not> established_admissible (runtime_events s) payload signer"
  by (auto simp: skip_established_def established_admissible_def query_simps established_key_def
      split: option.splits)

text \<open>An offer that answers nothing, repeats nothing and does not offer again the starter that its
  sender burned when an earlier offer was refused for want of an empty slot.\<close>

definition offer_admissible :: "'w ffi_state \<Rightarrow> u8 list \<Rightarrow> pub_key \<Rightarrow> bool" where
  "offer_admissible s payload signer \<longleftrightarrow>
    (let i = array_at payload 0 in
     \<not> (\<exists>e\<in>set (runtime_events s). answers_invitation i (ev_kind e) (ev_payload e))
     \<and> \<not> (\<exists>e\<in>set (runtime_events s). ev_kind e = InvitationReceived \<and> ev_signer e = signer
          \<and> invitation_payload_has_known_shape (ev_payload e) \<and> take 32 (ev_payload e) = bytes i)
     \<and> (invitation_payload_has_known_shape payload \<longrightarrow>
          \<not> incoming_invitation_reuses_empty_slot_rejected_sender_starter s i
             (StarterId (array_at payload 32)) (invitation_sender_anchor payload signer)))"

lemma skip_offer_iff: "skip_offer s payload signer \<longleftrightarrow> \<not> offer_admissible s payload signer"
  by (auto simp: skip_offer_def offer_admissible_def Let_def query_simps invitation_payload_starter_id_def)

text \<open>The sender of an offer: its transport key or the root key it names.\<close>

definition sender_of :: "invitation_lookup_record \<Rightarrow> pub_key set" where
  "sender_of record = insert (lr_peer_pubkey record) (set_option (lr_sender_root_pubkey record))"

definition answer_admissible :: "'w ffi_state \<Rightarrow> event_kind \<Rightarrow> b32 \<Rightarrow> pub_key \<Rightarrow> bool" where
  "answer_admissible s kind i signer \<longleftrightarrow>
    (if kind = InvitationExpired
     then \<exists>record. find_invitation_sent_in_runtime_with_direction s i (Some True) = Some record
       \<and> signer \<in> sender_of record
     else \<not> (\<exists>e\<in>set (runtime_events s). answers_invitation i (ev_kind e) (ev_payload e))
       \<and> (\<exists>c. fs_capsule s = Some c
          \<and> (\<exists>e\<in>set (runtime_events s). offers_id i e \<and> \<not> incoming_for (ca_pubkey c) e)))"

lemma skip_terminal_iff:
  assumes "answers_invitation i kind payload"
  shows "skip_terminal s kind i signer \<longleftrightarrow> \<not> answer_admissible s kind i signer"
proof -
  have kinds: "kind = InvitationAccepted \<or> kind = InvitationRejected \<or> kind = InvitationExpired"
    using assms by (auto simp: answers_invitation_def split: event_kind.splits)
  have matches: "incoming_invitation_expired_matches_runtime s i signer \<longleftrightarrow>
      (\<exists>record. find_invitation_sent_in_runtime_with_direction s i (Some True) = Some record
        \<and> signer \<in> sender_of record)"
    by (auto simp: incoming_invitation_expired_matches_runtime_def sender_of_def split: option.split)
  show ?thesis
  proof (cases "kind = InvitationExpired")
    case True
    then show ?thesis
      by (auto simp: skip_terminal_def answer_admissible_def matches sender_of_def split: option.split)
  next
    case False
    with kinds have "skip_terminal s kind i signer \<longleftrightarrow> invitation_is_resolved_in_runtime s i
        \<or> find_invitation_sent_in_runtime_with_direction s i (Some False) = None"
      by (auto simp: skip_terminal_def)
    with False show ?thesis
      by (auto simp: answer_admissible_def resolved_iff lookup_None split: option.splits)
  qed
qed

definition delivery_admissible ::
  "'w ffi_state \<Rightarrow> event_kind \<Rightarrow> u8 list \<Rightarrow> pub_key \<Rightarrow> u64 option \<Rightarrow> bool" where
  "delivery_admissible s kind payload signer t \<longleftrightarrow>
    (if kind = RelationshipBroken
     then break_admissible (runtime_events s) payload signer (map_option normalize_delivery_timestamp t)
     else (kind = RelationshipEstablished \<longrightarrow> established_admissible (runtime_events s) payload signer)
       \<and> (kind = InvitationReceived \<and> length payload \<ge> 32 \<longrightarrow> offer_admissible s payload signer)
       \<and> (\<forall>i. answers_invitation i kind payload \<longrightarrow> answer_admissible s kind i signer)
       \<and> \<not> (\<exists>e\<in>set (runtime_events s). ev_kind e = kind \<and> ev_payload e = payload \<and> ev_signer e = signer))"

lemma skip_iff:
  "should_skip_incoming_delivery_append_with_timestamp s kind payload signer t
    = (\<not> delivery_admissible s kind payload signer t)"
proof (cases "kind = RelationshipBroken")
  case True
  then show ?thesis
    by (simp add: should_skip_incoming_delivery_append_with_timestamp_def delivery_admissible_def
        skip_broken_iff Let_def)
next
  case False
  have "(case invitation_id_from_terminal_payload kind payload of
        None \<Rightarrow> False | Some i \<Rightarrow> skip_terminal s kind i signer)
      \<longleftrightarrow> \<not> (\<forall>i. answers_invitation i kind payload \<longrightarrow> answer_admissible s kind i signer)"
  proof (cases "invitation_id_from_terminal_payload kind payload")
    case (Some i)
    then have ans: "answers_invitation i kind payload" by (simp add: terminal_id_iff)
    then have "answers_invitation j kind payload \<longleftrightarrow> j = i" for j
      using answers_unique by metis
    with Some show ?thesis by (simp add: skip_terminal_iff [OF ans])
  qed (metis option.distinct(1) option.simps(4) terminal_id_iff)
  with False show ?thesis
    by (simp add: should_skip_incoming_delivery_append_with_timestamp_def delivery_admissible_def Let_def
        skip_established_iff skip_offer_iff event_exists_iff) blast
qed

text \<open>C17: The delivery gate is exact: a delivered event is appended precisely when it is a break that
  its peer signed of a key that is active, later than every break of that key and not earlier than its
  establishment; or it is new, establishes an accepted invitation of an inactive key once, offers
  an unanswered invitation, or answers an open outgoing offer, or is the sender's own revocation.\<close>

theorem delivery_gate_exact:
  "should_skip_incoming_delivery_append_with_timestamp s kind payload signer t
    = (\<not> delivery_admissible s kind payload signer t)"
  by (rule skip_iff)

section \<open>Deliveries that come again\<close>

lemma skip_recorded:
  assumes events: "runtime_events s = es @ [e]"
    and "ev_kind e = kind" and "ev_payload e = payload" and "ev_signer e = signer"
  shows "should_skip_incoming_delivery_append_with_timestamp s kind payload signer t"
proof (cases "kind = RelationshipBroken")
  case True
  have "\<not> unbroken (break_key p) (es @ [e])" if "relationship_broken_from_bytes payload = Ok p" for p
  proof -
    have "breaks (break_key p) e" "\<not> establishes (break_key p) e"
      using that assms(2,3) True
      by (simp_all add: breaks_def establishes_def relationship_key_from_broken_payload_def break_key_def)
    then show ?thesis by simp
  qed
  with True show ?thesis
    by (simp add: skip_iff delivery_admissible_def break_admissible_def events)
qed (use assms in \<open>auto simp: skip_iff delivery_admissible_def\<close>)

lemma append_verified_events:
  assumes "append_verified_runtime_event H U pf e s = (Ok (), s')"
  shows "\<exists>e'. runtime_events s' = runtime_events s @ [e'] \<and> ev_kind e' = ev_kind e
    \<and> ev_payload e' = ev_payload e \<and> ev_signer e' = ev_signer e"
proof -
  let ?Q = "\<lambda>r s'. r = Ok () \<longrightarrow> (\<exists>e'. runtime_events s' = runtime_events s @ [e'] \<and> ev_kind e' = ev_kind e
    \<and> ev_payload e' = ev_payload e \<and> ev_signer e' = ev_signer e)"
  have v5: "l_events l' = l_events l @ [e]" if "append_v5_event H en l e = Ok l'" for en l l'
    using append_v5_event_Ok [OF that] by metis
  have "outcome (append_verified_runtime_event H U pf e) s ?Q"
    unfolding append_verified_runtime_event_def Let_def store_ledger_def observe_ts_def load_seed_def outcome_simps
    by (auto simp: outcome_simps runtime_events_def ledger_append_Ok_iff event_new_def dest: v5
        split: result.splits)
  from outcomeD [OF this assms] show ?thesis by simp
qed

text \<open>C18: A delivery that was appended is skipped when it comes again, with whatever timestamp.\<close>

theorem redelivery_is_skipped:
  assumes "append_verified_runtime_event H U pf e s = (Ok (), s')"
  shows "should_skip_incoming_delivery_append_with_timestamp s' (ev_kind e) (ev_payload e) (ev_signer e) t"
  using append_verified_events [OF assms] skip_recorded by metis

definition sample_revocation :: event where
  "sample_revocation = event_new InvitationExpired (replicate 32 0) (Timestamp 3)
    (Signature (barray_of (replicate 32 7 @ replicate 32 34))) (PubKey (bfill 7))"

definition sample_v4_state :: "unit ffi_state" where
  "sample_v4_state =
    \<lparr> fs_capsule = Some \<lparr> ca_pubkey = PubKey (bfill 9), ca_capsule_type = Leaf, ca_network = Neste,
        ca_ledger = ledger_new (PubKey (bfill 9)) \<rparr>, fs_last_engine_ts = 0, fs_env = () \<rparr>"

theorem redelivery_is_skipped_witness:
  "\<exists>s'. append_verified_runtime_event length_hash 8 sample_platform sample_revocation sample_v4_state = (Ok (), s')
    \<and> should_skip_incoming_delivery_append_with_timestamp s' InvitationExpired (replicate 32 0)
        (PubKey (bfill 7)) None"
proof -
  have verified: "verify_event length_hash (build_engine_for_ledger sample_platform seed l) sample_revocation
      (ev_signer sample_revocation) = Ok ()" for seed l
    by (simp add: verify_event_def build_engine_for_ledger_def build_engine_with_config_def sample_platform_def
        sample_crypto_def ed25519_verify_def sample_revocation_def event_id_def event_id_preimage_def
        event_new_def length_hash_def)
  have "fst (append_verified_runtime_event length_hash 8 sample_platform sample_revocation sample_v4_state) = Ok ()"
    by (simp add: append_verified_runtime_event_def sample_v4_state_def load_seed_def seq_def pure_def
        sample_with_def in_env_def inspect_def modify_def store_ledger_def observe_ts_def sample_platform_def
        build_engine_for_active_ledger_def verified [unfolded sample_platform_def] ledger_new_def
        is_continuous_v5_def ledger_append_def event_new_def Let_def)
  then obtain s' where "append_verified_runtime_event length_hash 8 sample_platform sample_revocation
      sample_v4_state = (Ok (), s')"
    by (metis prod.collapse)
  from redelivery_is_skipped [OF this, of None] this show ?thesis
    by (simp add: sample_revocation_def event_new_def)
qed

end
