(* ===== verification/Acceptance.thy ===== *)
theory Acceptance
  imports Delivery_Gate
begin

text \<open>
  The effects projected into the runtime ledger when an invitation is accepted or rejected
  (platform/hivra-ffi/src/invitation\_support.rs): what they append, in which order, on success and on
  failure.
\<close>

section \<open>Appending prepared events\<close>

lemma append_prepared_outcome:
  "outcome (append_prepared_event H U pf p) s
    (\<lambda>r s'. runtime_events s' = runtime_events s @ (if r = Ok () then [pe_event p] else []))"
proof -
  have v5: "l_events l' = l_events l @ [e]" if "append_v5_event H en l e = Ok l'" for en l l' e
    using append_v5_event_Ok [OF that] by metis
  show ?thesis
    unfolding append_prepared_event_def store_ledger_def observe_ts_def load_seed_def outcome_simps
    by (auto simp: outcome_simps runtime_events_def ledger_append_Ok_iff dest: v5
        split: result.splits option.splits)
qed

text \<open>An engine over a seed, and what its prepared events are.\<close>

abbreviation prepares ::
  "event_kind \<Rightarrow> u8 list \<Rightarrow> ('w ffi_state, unit engine_error, prepared_event) action \<Rightarrow> bool" where
  "prepares kind payload m \<equiv> \<forall>s. outcome m s (\<lambda>r s'. fs_capsule s' = fs_capsule s
    \<and> (\<forall>p. r = Ok p \<longrightarrow> ev_kind (pe_event p) = kind \<and> ev_payload (pe_event p) = payload))"

lemma prepare_event_prepares:
  assumes "ed25519_law (pf_lib pf)"
  shows "prepares kind payload (prepare_event H (build_engine_with_config pf seed cfg) kind payload recipient)"
  unfolding prepare_domain_event_def [symmetric]
  by (intro allI prepare_domain_event_outcome [OF assms]) auto

text \<open>Prepare, ask the ledger, append: nothing or one event of the given kind and payload.\<close>

definition appends_at_most ::
  "event_kind \<Rightarrow> u8 list \<Rightarrow> 'w ffi_state \<Rightarrow> 'w ffi_state \<Rightarrow> event list \<Rightarrow> bool" where
  "appends_at_most kind payload s s' es \<longleftrightarrow> runtime_events s' = runtime_events s @ es
    \<and> (es = [] \<or> (\<exists>e. es = [e] \<and> ev_kind e = kind \<and> ev_payload e = payload))"

lemma append_unless_outcome:
  fixes s :: "'w ffi_state"
  assumes "prepares kind payload m" and "\<And>p s'. ev_payload (pe_event p) = payload \<Longrightarrow>
    fs_capsule s' = fs_capsule s \<Longrightarrow> ask p s' = Ok skip"
  shows "outcome (seq (with_error x m) (\<lambda>p. seq (inspect (ask p)) (\<lambda>b.
      if b then pure (Ok ()) else append_prepared_event H U pf p))) s
    (\<lambda>r s'. \<exists>es. appends_at_most kind payload s s' es \<and> (r = Ok () \<longrightarrow> skip \<or> es \<noteq> []))"
    (is "outcome _ s ?Q")
proof (rule outcome_seqI)
  show "outcome (with_error x m) s (\<lambda>r s'. fs_capsule s' = fs_capsule s
    \<and> (\<forall>p. r = Ok p \<longrightarrow> ev_kind (pe_event p) = kind \<and> ev_payload (pe_event p) = payload))"
    unfolding outcome_with_error using assms(1) by (rule allE) (erule outcome_weaken, auto)
next
  fix p :: prepared_event and s1 :: "'w ffi_state"
  assume p: "fs_capsule s1 = fs_capsule s \<and> (\<forall>q. Ok p = Ok q \<longrightarrow>
      ev_kind (pe_event q) = kind \<and> ev_payload (pe_event q) = payload)"
  then have frame: "fs_capsule s1 = fs_capsule s" "runtime_events s1 = runtime_events s"
    and content: "ev_kind (pe_event p) = kind" "ev_payload (pe_event p) = payload"
    by (simp_all add: runtime_events_def)
  have "outcome (append_prepared_event H U pf p) s1 ?Q"
  proof (rule outcome_weaken [OF append_prepared_outcome])
    fix r :: "(string, unit) result" and s' :: "'w ffi_state"
    assume "runtime_events s' = runtime_events s1 @ (if r = Ok () then [pe_event p] else [])"
    then show "?Q r s'"
      by (intro exI [of _ "if r = Ok () then [pe_event p] else []"])
        (simp add: appends_at_most_def frame content)
  qed
  moreover have "ask p s1 = Ok skip" by (rule assms(2) [OF content(2) frame(1)])
  moreover have "skip \<Longrightarrow> ?Q (Ok ()) s1" by (simp add: appends_at_most_def frame)
  ultimately show "outcome (seq (inspect (ask p)) (\<lambda>b. if b then pure (Ok ()) else append_prepared_event H U pf p)) s1 ?Q"
    by (cases skip) (simp_all add: outcome_simps)
qed (auto simp: appends_at_most_def runtime_events_def)

lemma append_starter_outcome:
  assumes "ed25519_law (pf_lib pf)"
  shows "outcome (append_starter_created_if_missing H U pf (build_engine_with_config pf seed cfg) i k nw n) s
    (\<lambda>r s'. \<exists>es. appends_at_most StarterCreated (starter_created_to_bytes
        \<lparr> cr_starter_id = i, cr_nonce = n, cr_kind = k, cr_network = network_to_byte nw \<rparr>) s s' es
      \<and> (r = Ok () \<longrightarrow> starter_is_active_in_runtime s i \<or> es \<noteq> []))"
  unfolding append_starter_created_if_missing_def prepare_starter_created_def
  by (rule append_unless_outcome [OF prepare_event_prepares [OF assms]])
    (simp add: starter_is_active_in_runtime_def)

lemma append_established_outcome:
  assumes "ed25519_law (pf_lib pf)"
  shows "outcome (append_relationship_established_if_missing H U pf (build_engine_with_config pf seed cfg)
      peer own_st peer_st kd inv_id snd_pk snd_ty snd_st peer_root snd_root) s
    (\<lambda>r s'. \<exists>es. appends_at_most RelationshipEstablished (relationship_established_to_bytes
        \<lparr> est_peer_pubkey = peer, est_own_starter_id = own_st, est_peer_starter_id = peer_st,
          est_kind = kd, est_invitation_id = inv_id, est_sender_pubkey = snd_pk,
          est_sender_starter_type = snd_ty, est_sender_starter_id = snd_st,
          est_peer_root_pubkey = peer_root, est_sender_root_pubkey = snd_root \<rparr>) s s' es
      \<and> (r = Ok () \<longrightarrow> event_exists_in_runtime s RelationshipEstablished (relationship_established_to_bytes
        \<lparr> est_peer_pubkey = peer, est_own_starter_id = own_st, est_peer_starter_id = peer_st,
          est_kind = kd, est_invitation_id = inv_id, est_sender_pubkey = snd_pk,
          est_sender_starter_type = snd_ty, est_sender_starter_id = snd_st,
          est_peer_root_pubkey = peer_root, est_sender_root_pubkey = snd_root \<rparr>) \<or> es \<noteq> []))"
  unfolding append_relationship_established_if_missing_def prepare_relationship_established_def
  by (rule append_unless_outcome [OF prepare_event_prepares [OF assms]])
    (simp add: event_exists_in_runtime_def)

lemma event_exists_any_iff:
  "event_exists_in_runtime s kind payload \<longleftrightarrow>
    (\<exists>e\<in>set (runtime_events s). ev_kind e = kind \<and> ev_payload e = payload)"
  by (auto simp: event_exists_in_runtime_def runtime_events_def list_ex_iff split: option.split)

section \<open>Acceptance\<close>

text \<open>The payloads that finalizing a plan records.\<close>

definition planned_creation :: "network \<Rightarrow> starter_id \<times> starter_kind \<times> b32 \<Rightarrow> u8 list" where
  "planned_creation nw planned = starter_created_to_bytes
    \<lparr> cr_starter_id = fst planned, cr_nonce = snd (snd planned), cr_kind = fst (snd planned),
      cr_network = network_to_byte nw \<rparr>"

definition planned_relationship :: "local_acceptance_plan \<Rightarrow> b32 \<Rightarrow> pub_key \<Rightarrow> u8 list" where
  "planned_relationship plan from_pubkey own = relationship_established_to_bytes
    \<lparr> est_peer_pubkey = PubKey from_pubkey, est_own_starter_id = lp_relationship_starter_id plan,
      est_peer_starter_id = lp_peer_starter_id plan, est_kind = lp_relationship_kind plan,
      est_invitation_id = lp_invitation_id plan, est_sender_pubkey = lp_sender_pubkey plan,
      est_sender_starter_type = lp_sender_starter_type plan,
      est_sender_starter_id = lp_sender_starter_id plan,
      est_peer_root_pubkey = lp_sender_root_pubkey plan, est_sender_root_pubkey = Some own \<rparr>"

definition creation_in :: "network \<Rightarrow> starter_id \<times> starter_kind \<times> b32 \<Rightarrow> event list \<Rightarrow> bool" where
  "creation_in nw planned es \<longleftrightarrow>
    list_ex (\<lambda>e. ev_kind e = StarterCreated \<and> ev_payload e = planned_creation nw planned) es"

definition relationship_in :: "local_acceptance_plan \<Rightarrow> b32 \<Rightarrow> pub_key \<Rightarrow> event list \<Rightarrow> bool" where
  "relationship_in plan from_pubkey own es \<longleftrightarrow>
    list_ex (\<lambda>e. ev_kind e = RelationshipEstablished
      \<and> ev_payload e = planned_relationship plan from_pubkey own) es"

text \<open>What finalizing appends: at most the creation of the planned starter and then at most the
  relationship.\<close>

definition acceptance_events ::
  "network \<Rightarrow> local_acceptance_plan \<Rightarrow> b32 \<Rightarrow> pub_key \<Rightarrow> event list \<Rightarrow> event list \<Rightarrow> bool" where
  "acceptance_events nw plan from_pubkey own created related \<longleftrightarrow>
    (created = [] \<or> (\<exists>planned. lp_created_starter plan = Some planned \<and> length created = 1
       \<and> creation_in nw planned created))
    \<and> (related = [] \<or> length related = 1 \<and> relationship_in plan from_pubkey own related)"

text \<open>Success means that the starter the plan creates was active or is recorded now, and that the
  relationship is recorded.\<close>

definition acceptance_recorded ::
  "'w ffi_state \<Rightarrow> network \<Rightarrow> local_acceptance_plan \<Rightarrow> b32 \<Rightarrow> pub_key \<Rightarrow> event list \<Rightarrow> event list \<Rightarrow> bool" where
  "acceptance_recorded s nw plan from_pubkey own created related \<longleftrightarrow>
    (case lp_created_starter plan of
       None \<Rightarrow> True
     | Some planned \<Rightarrow> starter_is_active_in_runtime s (fst planned) \<or> created \<noteq> [])
    \<and> relationship_in plan from_pubkey own (runtime_events s @ created @ related)"

lemma created_outcome:
  fixes s :: "'w ffi_state"
  assumes "ed25519_law (pf_lib pf)"
  shows "outcome (case lp_created_starter plan of
           Some (i, k, n) \<Rightarrow>
             append_starter_created_if_missing H U pf (build_engine_with_config pf seed cfg) i k nw n
         | None \<Rightarrow> pure (Ok ())) s
    (\<lambda>r s'. \<exists>created. runtime_events s' = runtime_events s @ created
      \<and> (created = [] \<or> (\<exists>planned. lp_created_starter plan = Some planned \<and> length created = 1
           \<and> creation_in nw planned created))
      \<and> (r = Ok () \<longrightarrow> (case lp_created_starter plan of None \<Rightarrow> True
           | Some planned \<Rightarrow> starter_is_active_in_runtime s (fst planned) \<or> created \<noteq> [])))"
proof (cases "lp_created_starter plan")
  case (Some planned)
  obtain i k n where planned: "planned = (i, k, n)" by (cases planned)
  show ?thesis
    unfolding Some planned option.case prod.case
    by (rule outcome_weaken [OF append_starter_outcome [OF assms]])
      (auto simp: appends_at_most_def creation_in_def planned_creation_def)
qed (simp add: outcome_pure)

lemma finalize_outcome:
  fixes s :: "'w ffi_state"
  assumes law: "ed25519_law (pf_lib pf)" and key: "derive_root_public_key (pf_lib pf) seed = Ok own"
    and c: "fs_capsule s = Some c"
  shows "outcome (finalize_local_acceptance H U pf (build_engine_with_config pf seed cfg) plan from_pubkey) s
    (\<lambda>r s'. \<exists>created related. runtime_events s' = runtime_events s @ created @ related
      \<and> acceptance_events (ca_network c) plan from_pubkey (PubKey own) created related
      \<and> (r = Ok () \<longrightarrow> acceptance_recorded s (ca_network c) plan from_pubkey (PubKey own) created related))"
    (is "outcome _ s ?Q")
proof -
  let ?en = "build_engine_with_config pf seed cfg"
  have own: "engine_public_key ?en = Ok (PubKey own)"
    by (rule built_engine_can_sign(1) [OF key])
  have net: "capsule_network s = Ok (ca_network c)"
    by (simp add: capsule_network_def c)
  have related: "outcome (append_relationship_established_if_missing H U pf ?en (PubKey from_pubkey)
        (lp_relationship_starter_id plan) (lp_peer_starter_id plan) (lp_relationship_kind plan)
        (lp_invitation_id plan) (lp_sender_pubkey plan) (lp_sender_starter_type plan)
        (lp_sender_starter_id plan) (lp_sender_root_pubkey plan) (Some (PubKey own))) s1 ?Q"
    if created: "runtime_events s1 = runtime_events s @ created"
      "created = [] \<or> (\<exists>planned. lp_created_starter plan = Some planned \<and> length created = 1
           \<and> creation_in (ca_network c) planned created)"
      "case lp_created_starter plan of None \<Rightarrow> True
           | Some planned \<Rightarrow> starter_is_active_in_runtime s (fst planned) \<or> created \<noteq> []"
    for s1 :: "'w ffi_state" and created
  proof (rule outcome_weaken [OF append_established_outcome [OF law]])
    fix r :: "(string, unit) result" and s' :: "'w ffi_state"
    assume "\<exists>es. appends_at_most RelationshipEstablished (relationship_established_to_bytes
        \<lparr> est_peer_pubkey = PubKey from_pubkey, est_own_starter_id = lp_relationship_starter_id plan,
          est_peer_starter_id = lp_peer_starter_id plan, est_kind = lp_relationship_kind plan,
          est_invitation_id = lp_invitation_id plan, est_sender_pubkey = lp_sender_pubkey plan,
          est_sender_starter_type = lp_sender_starter_type plan,
          est_sender_starter_id = lp_sender_starter_id plan,
          est_peer_root_pubkey = lp_sender_root_pubkey plan,
          est_sender_root_pubkey = Some (PubKey own) \<rparr>) s1 s' es
      \<and> (r = Ok () \<longrightarrow> event_exists_in_runtime s1 RelationshipEstablished (relationship_established_to_bytes
        \<lparr> est_peer_pubkey = PubKey from_pubkey, est_own_starter_id = lp_relationship_starter_id plan,
          est_peer_starter_id = lp_peer_starter_id plan, est_kind = lp_relationship_kind plan,
          est_invitation_id = lp_invitation_id plan, est_sender_pubkey = lp_sender_pubkey plan,
          est_sender_starter_type = lp_sender_starter_type plan,
          est_sender_starter_id = lp_sender_starter_id plan,
          est_peer_root_pubkey = lp_sender_root_pubkey plan,
          est_sender_root_pubkey = Some (PubKey own) \<rparr>) \<or> es \<noteq> [])"
    then obtain es where es: "appends_at_most RelationshipEstablished
        (planned_relationship plan from_pubkey (PubKey own)) s1 s' es"
      and recorded: "r = Ok () \<Longrightarrow> event_exists_in_runtime s1 RelationshipEstablished
        (planned_relationship plan from_pubkey (PubKey own)) \<or> es \<noteq> []"
      unfolding planned_relationship_def by blast
    have "acceptance_events (ca_network c) plan from_pubkey (PubKey own) created es"
      using es created(2)
      by (auto simp: appends_at_most_def acceptance_events_def relationship_in_def)
    moreover have "acceptance_recorded s (ca_network c) plan from_pubkey (PubKey own) created es" if "r = Ok ()"
      using recorded [OF that] es created(3)
      by (auto simp: acceptance_recorded_def relationship_in_def event_exists_any_iff created(1)
          appends_at_most_def list_ex_iff)
    moreover have "runtime_events s' = runtime_events s @ created @ es"
      using es created(1) by (simp add: appends_at_most_def)
    ultimately show "?Q r s'" by blast
  qed
  have stopped: "?Q (Err e) s1" "?Q Panic s1"
    if "\<exists>created. runtime_events s1 = runtime_events s @ created
      \<and> (created = [] \<or> (\<exists>planned. lp_created_starter plan = Some planned \<and> length created = 1
           \<and> creation_in (ca_network c) planned created))" for e and s1 :: "'w ffi_state"
  proof -
    from that obtain created where "runtime_events s1 = runtime_events s @ created @ []"
      "acceptance_events (ca_network c) plan from_pubkey (PubKey own) created []"
      by (auto simp: acceptance_events_def)
    then show "?Q (Err e) s1" "?Q Panic s1" by blast+
  qed
  show ?thesis
    unfolding finalize_local_acceptance_def outcome_seq [of "inspect _"] outcome_inspect net result.case
  proof (rule outcome_seqI [OF created_outcome [OF law]])
    fix x :: unit and s1 :: "'w ffi_state"
    assume "\<exists>created. runtime_events s1 = runtime_events s @ created
      \<and> (created = [] \<or> (\<exists>planned. lp_created_starter plan = Some planned \<and> length created = 1
           \<and> creation_in (ca_network c) planned created))
      \<and> (Ok x = Ok () \<longrightarrow> (case lp_created_starter plan of None \<Rightarrow> True
           | Some planned \<Rightarrow> starter_is_active_in_runtime s (fst planned) \<or> created \<noteq> []))"
    then show "outcome (seq (pure (map_err (\<lambda>_. ''prepare failed'') (engine_public_key ?en))) (\<lambda>own.
        append_relationship_established_if_missing H U pf ?en (PubKey from_pubkey)
        (lp_relationship_starter_id plan) (lp_peer_starter_id plan) (lp_relationship_kind plan)
        (lp_invitation_id plan) (lp_sender_pubkey plan) (lp_sender_starter_type plan)
        (lp_sender_starter_id plan) (lp_sender_root_pubkey plan) (Some own))) s1 ?Q"
      unfolding own map_err.simps seq_pure_Ok using related by auto
  qed (rule stopped, blast)+
qed

text \<open>C19: Finalizing an acceptance appends at most the creation of the planned starter and then at most
  the relationship, whether it succeeds or fails; when it succeeds, the planned starter was active or
  is recorded now, and the relationship is recorded with the fields of the plan.\<close>

theorem acceptance_appends_plan:
  assumes "ed25519_law (pf_lib pf)" and "derive_root_public_key (pf_lib pf) seed = Ok own"
    and "fs_capsule s = Some c"
    and "finalize_local_acceptance H U pf (build_engine_with_config pf seed cfg) plan from_pubkey s = (r, s')"
  shows "\<exists>created related. runtime_events s' = runtime_events s @ created @ related
    \<and> acceptance_events (ca_network c) plan from_pubkey (PubKey own) created related
    \<and> (r = Ok () \<longrightarrow> acceptance_recorded s (ca_network c) plan from_pubkey (PubKey own) created related)"
  by (rule outcomeD [OF finalize_outcome [OF assms(1-3)] assms(4)])

definition sample_plan :: local_acceptance_plan where
  "sample_plan =
    \<lparr> lp_invitation_id = bfill 1, lp_sender_pubkey = PubKey (bfill 2), lp_sender_root_pubkey = None,
      lp_sender_starter_id = StarterId (bfill 3), lp_sender_starter_type = Juice,
      lp_relationship_starter_id = StarterId (bfill 4), lp_relationship_kind = Juice,
      lp_peer_starter_id = StarterId (bfill 3), lp_created_starter = None \<rparr>"

theorem acceptance_appends_plan_witness:
  "\<exists>s' own. finalize_local_acceptance length_hash 8 sample_platform
      (build_engine_with_config sample_platform (KeySeed (bfill 9)) engine_config_default)
      sample_plan (bfill 5) sample_v4_state = (Ok (), s')
    \<and> relationship_in sample_plan (bfill 5) own (runtime_events s')"
proof -
  let ?run = "finalize_local_acceptance length_hash 8 sample_platform
      (build_engine_with_config sample_platform (KeySeed (bfill 9)) engine_config_default)
      sample_plan (bfill 5) sample_v4_state"
  obtain own where key: "derive_root_public_key (pf_lib sample_platform) (KeySeed (bfill 9)) = Ok own"
    by (simp add: derive_root_public_key_def derive_root_keypair_def derive_key_with_label_def
        sample_platform_def sample_crypto_def)
  have sign: "\<exists>sig. seed_sign (pf_lib sample_platform) (KeySeed (bfill 9)) m = Inr sig" for m
    by (simp add: seed_sign_def ed25519_sign_def derive_root_keypair_def derive_key_with_label_def
        sample_platform_def sample_crypto_def)
  then obtain sg where sg: "\<And>m. seed_sign (pf_lib sample_platform) (KeySeed (bfill 9)) m = Inr (sg m)"
    by metis
  have pub: "seed_public_key (pf_lib sample_platform) (KeySeed (bfill 9)) = Inr own"
    using key by simp
  have "fst ?run = Ok ()"
    by (simp add: finalize_local_acceptance_def sample_plan_def sample_v4_state_def seq_def pure_def inspect_def
        capsule_network_def append_relationship_established_if_missing_def prepare_relationship_established_def
        prepare_event_def with_error_def build_engine_with_config_def pub sg engine_public_key_def
        with_keystore_error_def engine_now_def sample_with_def ffi_now_def in_env_def Let_def
        new_event_of_version_def engine_config_default_def sign_event_def event_exists_in_runtime_def
        append_prepared_event_def ledger_new_def is_continuous_v5_def store_ledger_def modify_def
        ledger_append_def observe_ts_def event_new_def last_opt_def split: prod.split)
  then obtain s' where run: "?run = (Ok (), s')" by (metis prod.collapse)
  have "fs_capsule sample_v4_state = Some \<lparr> ca_pubkey = PubKey (bfill 9), ca_capsule_type = Leaf,
      ca_network = Neste, ca_ledger = ledger_new (PubKey (bfill 9)) \<rparr>"
    by (simp add: sample_v4_state_def)
  from acceptance_appends_plan [OF sample_crypto_law key this run] run show ?thesis
    unfolding acceptance_recorded_def by metis
qed

section \<open>The plan\<close>

text \<open>The plan answers the incoming offer that was looked up; its relationship uses a live starter of the
  kind offered, or the starter it creates in a free slot, and it never creates a second live starter
  of a kind.\<close>

definition plan_answers ::
  "ledger \<Rightarrow> invitation_lookup_record \<Rightarrow> b32 \<Rightarrow> local_acceptance_plan \<Rightarrow> bool" where
  "plan_answers l record invitation_id plan \<longleftrightarrow>
    (let slots = layout_from_ledger l; kind = lr_starter_kind record in
     lp_invitation_id plan = invitation_id
     \<and> lp_sender_pubkey plan = lr_peer_pubkey record
     \<and> lp_sender_root_pubkey plan = lr_sender_root_pubkey record
     \<and> lp_sender_starter_id plan = lr_starter_id record \<and> lp_peer_starter_id plan = lr_starter_id record
     \<and> lp_sender_starter_type plan = kind \<and> lp_relationship_kind plan = kind
     \<and> (lp_relationship_starter_id plan \<in> set (layout_ids slots)
          \<and> starter_kind_for_id l (lp_relationship_starter_id plan) = Some kind
        \<or> kind \<notin> live_kinds l slots
          \<and> (\<exists>n. lp_created_starter plan = Some (lp_relationship_starter_id plan, kind, n)))
     \<and> (case lp_created_starter plan of
          None \<Rightarrow> True
        | Some (i, k, n) \<Rightarrow> k \<notin> live_kinds l slots \<and> find_first_empty slots \<noteq> None))"

text \<open>Who offers: the root key the offer names, or else its transport key.\<close>

definition offer_anchor :: "invitation_lookup_record \<Rightarrow> pub_key" where
  "offer_anchor record = unwrap_or (lr_sender_root_pubkey record) (lr_peer_pubkey record)"

lemma lookup_incoming:
  "find_invitation_sent_in_runtime_with_direction s i (Some True) = Some record \<Longrightarrow>
    lr_is_incoming record \<and> (\<exists>c. fs_capsule s = Some c)"
  by (auto simp: find_invitation_sent_in_runtime_with_direction_def bind_eq_Some_conv lookup_candidate_def
      Let_def dest!: find_map_SomeD split: if_splits)

text \<open>The starter of an offer is burned when its sender offered it before, in another invitation that was rejected
  because it had no empty slot.\<close>

definition burned_starter :: "event list \<Rightarrow> b32 \<Rightarrow> starter_id \<Rightarrow> pub_key \<Rightarrow> bool" where
  "burned_starter es i starter anchor \<longleftrightarrow>
    (\<exists>e\<in>set es. \<exists>r\<in>set es. \<exists>q. ev_kind e = InvitationReceived \<and> invitation_payload_has_known_shape (ev_payload e)
      \<and> ev_kind r = InvitationRejected \<and> invitation_rejected_from_bytes (ev_payload r) = Ok q
      \<and> rej_reason q = EmptySlot \<and> rej_invitation_id q \<noteq> i
      \<and> take 32 (ev_payload e) = bytes (rej_invitation_id q)
      \<and> StarterId (array_at (ev_payload e) 32) = starter \<and> invitation_sender_anchor (ev_payload e) (ev_signer e) = anchor)"

lemma in_map_filter: "y \<in> set (List.map_filter f xs) \<longleftrightarrow> (\<exists>x\<in>set xs. f x = Some y)"
  by (induction xs) (auto simp: map_filter_simps split: option.splits)

lemma reuses_burned_iff:
  "incoming_invitation_reuses_empty_slot_rejected_sender_starter s i starter anchor \<longleftrightarrow>
    burned_starter (runtime_events s) i starter anchor"
proof (cases "fs_capsule s")
  case (Some c)
  let ?es = "l_events (ca_ledger c)"
  let ?ids = "List.map_filter (\<lambda>e.
     if ev_kind e \<noteq> InvitationRejected then None
     else case ok (invitation_rejected_from_bytes (ev_payload e)) of
            None \<Rightarrow> None
          | Some payload \<Rightarrow>
              if rej_reason payload = EmptySlot \<and> rej_invitation_id payload \<noteq> i
              then Some (rej_invitation_id payload) else None) ?es"
  have ids: "j \<in> set ?ids \<longleftrightarrow> (\<exists>r\<in>set ?es. \<exists>q. ev_kind r = InvitationRejected
      \<and> invitation_rejected_from_bytes (ev_payload r) = Ok q \<and> rej_reason q = EmptySlot \<and> rej_invitation_id q \<noteq> i
      \<and> rej_invitation_id q = j)" for j
    unfolding in_map_filter by (force split: if_splits option.splits)
  have "incoming_invitation_reuses_empty_slot_rejected_sender_starter s i starter anchor \<longleftrightarrow>
    (\<exists>e\<in>set ?es. ev_kind e = InvitationReceived \<and> invitation_payload_has_known_shape (ev_payload e)
      \<and> (\<exists>j\<in>set ?ids. take 32 (ev_payload e) = bytes j) \<and> StarterId (array_at (ev_payload e) 32) = starter
      \<and> invitation_sender_anchor (ev_payload e) (ev_signer e) = anchor)"
    by (auto simp: incoming_invitation_reuses_empty_slot_rejected_sender_starter_def Some Let_def list_ex_iff
        invitation_payload_starter_id_def)
  also have "\<dots> \<longleftrightarrow> burned_starter ?es i starter anchor"
    unfolding burned_starter_def Bex_def ids by blast
  finally show ?thesis by (simp add: runtime_events_def Some)
qed (simp add: incoming_invitation_reuses_empty_slot_rejected_sender_starter_def burned_starter_def runtime_events_def)

text \<open>C22: The resolved plan is exact. A plan answers the incoming offer that was looked up, whose starter is not
  burned, with a live starter of the offered kind or one it creates in a free slot. It is refused in three cases only,
  each with its own message: the capsule has no incoming offer of that identifier; the offer reuses a starter its
  sender burned; or the offered kind is not live and the five slots are taken.\<close>

theorem resolved_plan_sound:
  "case resolve_local_acceptance_plan H s seed invitation_id of
     Panic \<Rightarrow> False
   | Ok plan \<Rightarrow> \<exists>record c.
       find_invitation_sent_in_runtime_with_direction s invitation_id (Some True) = Some record
       \<and> fs_capsule s = Some c
       \<and> \<not> burned_starter (l_events (ca_ledger c)) invitation_id (lr_starter_id record) (offer_anchor record)
       \<and> plan_answers (ca_ledger c) record invitation_id plan
   | Err e \<Rightarrow>
       e = ''matching incoming invitation not found''
         \<and> \<not> (\<exists>c. fs_capsule s = Some c
               \<and> (\<exists>e\<in>set (l_events (ca_ledger c)). offers_id invitation_id e \<and> incoming_for (ca_pubkey c) e))
       \<or> (\<exists>record c.
           find_invitation_sent_in_runtime_with_direction s invitation_id (Some True) = Some record \<and> fs_capsule s = Some c
           \<and> (e = ''incoming invitation reuses burned sender starter''
               \<and> burned_starter (l_events (ca_ledger c)) invitation_id (lr_starter_id record) (offer_anchor record)
             \<or> e = ''no capacity to accept invitation''
               \<and> \<not> burned_starter (l_events (ca_ledger c)) invitation_id (lr_starter_id record) (offer_anchor record)
               \<and> lr_starter_kind record \<notin> live_kinds (ca_ledger c) (layout_from_ledger (ca_ledger c))
               \<and> length (layout_ids (layout_from_ledger (ca_ledger c))) = 5))"
proof (cases "find_invitation_sent_in_runtime_with_direction s invitation_id (Some True)")
  case None
  then show ?thesis
    using lookup_None [of s invitation_id True]
    by (auto simp: resolve_local_acceptance_plan_def runtime_events_def split: option.splits)
next
  case found: (Some rec)
  then obtain c where c: "fs_capsule s = Some c" and incoming: "lr_is_incoming rec"
    using lookup_incoming [OF found] by blast
  let ?l = "ca_ledger c"
  let ?plan = "plan_accept_for_kind ?l (layout_from_ledger ?l) (lr_starter_kind rec)"
  let ?burned = "burned_starter (l_events ?l) invitation_id (lr_starter_id rec) (offer_anchor rec)"
  have burned: "incoming_invitation_reuses_empty_slot_rejected_sender_starter s invitation_id (lr_starter_id rec)
      (unwrap_or (lr_sender_root_pubkey rec) (lr_peer_pubkey rec)) \<longleftrightarrow> ?burned"
    by (simp add: reuses_burned_iff runtime_events_def c offer_anchor_def)
  note resolve = resolve_local_acceptance_plan_def found Let_def c incoming burned
  have plan: "plan_correct ?l (layout_from_ledger ?l) (lr_starter_kind rec) ?plan"
    by (rule plan_correct_layout) simp
  have fresh: "find (\<lambda>k. k \<notin> live_kinds ?l slots) kind_order = Some k \<Longrightarrow> k \<notin> live_kinds ?l slots"
    for slots k
    by (auto simp: find_Some_iff)
  show ?thesis
  proof (cases ?burned)
    case True
    then show ?thesis by (simp add: resolve)
  next
    case sound: False
    show ?thesis
    proof (cases ?plan)
      case (UseExistingStarter i extra)
      with plan sound show ?thesis
        by (auto simp: resolve plan_correct_def plan_answers_def bind_eq_Some_conv dest: fresh split: option.splits)
    next
      case (CreateStarterInEmptySlot slot k)
      with plan sound show ?thesis by (auto simp: resolve plan_correct_def plan_answers_def)
    next
      case NoCapacity
      with plan sound show ?thesis by (auto simp: resolve plan_correct_def)
    qed
  qed
qed

end
