(* ===== verification/Invitation_Api.thy ===== *)
theory Invitation_Api
  imports Acceptance
begin

text \<open>
  The exported operations that record the owner's decisions (platform/hivra-ffi/src/invitation\_api.rs and
  relationship\_api.rs): offering a starter, accepting, rejecting and revoking an invitation, breaking a
  relationship. They append facts to the runtime ledger and publish nothing; delivery is \<open>Outbox\<close>.

  An argument pointer is an option (\<open>None\<close> is the null pointer), a return code an \<open>i32\<close>, and an early
  return the error of an action. \<open>N\<close> is the public key of a secret in the Nostr crate.
\<close>

section \<open>Building blocks\<close>

type_synonym code = "32 word"

type_synonym ('w, 'a) api = "('w ffi_state, code, 'a) action"

definition derive_nostr_public_key ::
  "crypto_lib \<Rightarrow> (b32 \<Rightarrow> b32 option) \<Rightarrow> seed \<Rightarrow> (unit, b32) result" where
  "derive_nostr_public_key lib N seed =
    and_then (map_err (\<lambda>_. ()) (derive_nostr_keypair lib seed)) (\<lambda>secret. ok_or (N secret) ())"

definition argument :: "'a option \<Rightarrow> ('w, 'a) api" where
  "argument p = pure (ok_or p (- 1))"

definition need_capsule :: "code \<Rightarrow> ('w, unit) api" where
  "need_capsule code = inspect (\<lambda>s. if fs_capsule s = None then Err code else Ok ())"

definition with_engine ::
  "'w platform \<Rightarrow> seed \<Rightarrow> ('w ffi_engine \<Rightarrow> ('w ffi_state, 'e, 'a) action) \<Rightarrow> ('w ffi_state, 'e, 'a) action"
  where
  "with_engine pf seed f = (\<lambda>s. f (build_engine pf seed s) s)"

section \<open>Offering a starter\<close>

text \<open>The payload of the engine, extended by the root of the sender when it is missing, the kind of the
  starter, the transport key of the sender and the signature of its contact card.\<close>

definition offer_payload ::
  "crypto_lib \<Rightarrow> seed \<Rightarrow> u8 list \<Rightarrow> starter_kind \<Rightarrow> b32 \<Rightarrow> b64 option \<Rightarrow> u8 list" where
  "offer_payload lib seed payload kind sender_pubkey card_signature =
    (if length payload = 96
     then (case derive_root_public_key lib seed of Ok root \<Rightarrow> payload @ bytes root | _ \<Rightarrow> payload)
     else payload)
    @ [starter_kind_to_byte kind] @ bytes sender_pubkey
    @ (case card_signature of Some sig \<Rightarrow> bytes sig | None \<Rightarrow> [])"

definition send_invitation_with_card_signature ::
  "(u8 list \<Rightarrow> b32) \<Rightarrow> nat \<Rightarrow> 'w platform \<Rightarrow> (b32 \<Rightarrow> b32 option) \<Rightarrow> b32 option \<Rightarrow> u8 \<Rightarrow> b64 option
    \<Rightarrow> ('w, code) api" where
  "send_invitation_with_card_signature H U pf N to_ptr starter_slot card_signature =
    seq (argument to_ptr) (\<lambda>to_pubkey.
    if starter_slot \<ge> 5 then pure (Err (- 1))
    else
      seq (with_error (- 2) (load_seed pf)) (\<lambda>seed.
      seq (need_capsule (- 4)) (\<lambda>_.
      seq (pure (map_err (\<lambda>_. - 3) (derive_nostr_public_key (pf_lib pf) N seed))) (\<lambda>sender_pubkey.
      with_engine pf seed (\<lambda>en.
      seq (inspect (\<lambda>s. ok_or (active_starter_id_for_slot s starter_slot) (- 6))) (\<lambda>starter_id.
      seq (inspect (\<lambda>s. ok_or (find_starter_kind_by_id_in_runtime s (starter_id_as_bytes starter_id)) (- 6)))
        (\<lambda>kind.
      seq (with_error (- 6) (prepare_invitation_sent H en starter_id (PubKey to_pubkey))) (\<lambda>invitation.
      seq (with_error (- 6) (prepare_domain_event H en InvitationSent
            (offer_payload (pf_lib pf) seed (ev_payload (pe_event invitation)) kind sender_pubkey card_signature)
            (Some (PubKey to_pubkey)))) (\<lambda>prepared.
      seq (with_error (- 6) (append_prepared_event H U pf prepared)) (\<lambda>_. pure (Ok 0)))))))))))"

section \<open>Answering an invitation\<close>

definition plan_failure_code :: "string \<Rightarrow> code" where
  "plan_failure_code err =
    (if err = ''matching incoming invitation not found'' then - 8
     else if err = ''no capacity to accept invitation'' then - 9 else - 10)"

definition accept_invitation ::
  "(u8 list \<Rightarrow> b32) \<Rightarrow> nat \<Rightarrow> 'w platform \<Rightarrow> (b32 \<Rightarrow> b32 option) \<Rightarrow> b32 option \<Rightarrow> b32 option
    \<Rightarrow> ('w, code) api" where
  "accept_invitation H U pf N invitation_id_ptr from_pubkey_ptr =
    seq (argument invitation_id_ptr) (\<lambda>invitation_id.
    seq (argument from_pubkey_ptr) (\<lambda>from_pubkey.
    seq (inspect (\<lambda>s. if invitation_is_resolved_in_runtime s invitation_id then Err (- 15) else Ok ())) (\<lambda>_.
    seq (with_error (- 2) (load_seed pf)) (\<lambda>seed.
    seq (need_capsule (- 5)) (\<lambda>_.
    seq (pure (map_err (\<lambda>_. - 4) (derive_nostr_public_key (pf_lib pf) N seed))) (\<lambda>sender_pubkey.
    if from_pubkey = sender_pubkey then pure (Err (- 11))
    else
      with_engine pf seed (\<lambda>en.
      seq (inspect (\<lambda>s. map_err plan_failure_code (resolve_local_acceptance_plan H s seed invitation_id))) (\<lambda>plan.
      seq (with_error (- 3) (prepare_invitation_accepted H en invitation_id (PubKey from_pubkey)
            (lp_relationship_starter_id plan))) (\<lambda>prepared.
      seq (inspect (\<lambda>s. Ok (event_exists_in_runtime s InvitationAccepted (ev_payload (pe_event prepared)))))
        (\<lambda>exists.
      if exists then pure (Ok 0)
      else
        seq (with_error (- 3) (append_prepared_event H U pf prepared)) (\<lambda>_.
        seq (with_error (- 10) (finalize_local_acceptance H U pf en plan from_pubkey)) (\<lambda>_.
          pure (Ok 0)))))))))))))"

definition reject_reason_argument :: "u8 \<Rightarrow> (code, reject_reason) result" where
  "reject_reason_argument reason =
    (if reason = 0 then Ok EmptySlot else if reason = 1 then Ok Other else Err (- 2))"

definition reject_invitation ::
  "(u8 list \<Rightarrow> b32) \<Rightarrow> nat \<Rightarrow> 'w platform \<Rightarrow> b32 option \<Rightarrow> u8 \<Rightarrow> ('w, code) api" where
  "reject_invitation H U pf invitation_id_ptr reason =
    seq (argument invitation_id_ptr) (\<lambda>invitation_id.
    seq (pure (reject_reason_argument reason)) (\<lambda>reject_reason.
    seq (with_error (- 3) (load_seed pf)) (\<lambda>seed.
    seq (need_capsule (- 4)) (\<lambda>_.
    with_engine pf seed (\<lambda>en.
    seq (inspect (\<lambda>s. ok_or (map_option lr_peer_pubkey (find_invitation_sent_in_runtime s invitation_id)) (- 4)))
      (\<lambda>peer_pubkey.
    seq (with_error (- 4) (prepare_invitation_rejected H en invitation_id peer_pubkey reject_reason)) (\<lambda>prepared.
    seq (inspect (\<lambda>s. Ok (event_exists_in_runtime s InvitationRejected (ev_payload (pe_event prepared))))) (\<lambda>exists.
    if exists then pure (Ok 0)
    else seq (with_error (- 4) (append_prepared_event H U pf prepared)) (\<lambda>_. pure (Ok 0))))))))))"

definition expire_invitation ::
  "(u8 list \<Rightarrow> b32) \<Rightarrow> nat \<Rightarrow> 'w platform \<Rightarrow> b32 option \<Rightarrow> ('w, code) api" where
  "expire_invitation H U pf invitation_id_ptr =
    seq (argument invitation_id_ptr) (\<lambda>invitation_id.
    seq (inspect (\<lambda>s. Ok (invitation_is_resolved_in_runtime s invitation_id))) (\<lambda>resolved.
    if resolved then pure (Ok 0)
    else
      seq (inspect (\<lambda>s. case find_invitation_sent_in_runtime s invitation_id of
            Some record \<Rightarrow> if \<not> lr_is_incoming record then Ok () else Err (- 4) | None \<Rightarrow> Err (- 4))) (\<lambda>_.
      seq (with_error (- 2) (load_seed pf)) (\<lambda>seed.
      with_engine pf seed (\<lambda>en.
      seq (with_error (- 3) (prepare_invitation_expired H en invitation_id)) (\<lambda>prepared.
      seq (with_error (- 3) (append_prepared_event H U pf prepared)) (\<lambda>_. pure (Ok 0))))))))"

section \<open>Breaking a relationship\<close>

definition peer_root_for_relationship ::
  "'w ffi_state \<Rightarrow> pub_key \<Rightarrow> starter_id \<Rightarrow> starter_id \<Rightarrow> pub_key option" where
  "peer_root_for_relationship s peer_pubkey own_starter_id peer_starter_id =
    Option.bind (fs_capsule s) (\<lambda>capsule.
      unwrap_or (find_map (\<lambda>e.
        if ev_kind e \<noteq> RelationshipEstablished then None
        else case ok (relationship_established_from_bytes (ev_payload e)) of
               None \<Rightarrow> None
             | Some payload \<Rightarrow>
                 if est_peer_pubkey payload = peer_pubkey \<and> est_own_starter_id payload = own_starter_id
                   \<and> est_peer_starter_id payload = peer_starter_id
                 then Some (est_peer_root_pubkey payload) else None)
        (rev (l_events (ca_ledger capsule)))) None)"

text \<open>The code and the identifier written to \<open>delivery_reference_out\<close>.\<close>

definition break_relationship_with_delivery_reference ::
  "(u8 list \<Rightarrow> b32) \<Rightarrow> nat \<Rightarrow> 'w platform \<Rightarrow> b32 option \<Rightarrow> b32 option \<Rightarrow> b32 option \<Rightarrow> ('w, code \<times> b32) api" where
  "break_relationship_with_delivery_reference H U pf peer_ptr own_ptr peer_starter_ptr =
    seq (argument peer_ptr) (\<lambda>peer.
    seq (argument own_ptr) (\<lambda>own.
    seq (argument peer_starter_ptr) (\<lambda>peer_starter.
    seq (with_error (- 2) (load_seed pf)) (\<lambda>seed.
    with_engine pf seed (\<lambda>en.
    seq (inspect (\<lambda>s. Ok (peer_root_for_relationship s (PubKey peer) (StarterId own) (StarterId peer_starter))))
      (\<lambda>peer_root_pubkey.
    seq (with_error (- 4) (prepare_relationship_broken H en (PubKey peer) (StarterId own) peer_root_pubkey))
      (\<lambda>prepared.
    seq (with_error (- 7) (append_prepared_event H U pf prepared)) (\<lambda>_.
      pure (Ok (0, event_id H (pe_event prepared)))))))))))"

end
