(* ===== verification/Api_Ledger.thy ===== *)
theory Api_Ledger
  imports Invitation_Api
begin

text \<open>
  What the exported operations (platform/hivra-ffi/src/invitation\_api.rs, relationship\_api.rs) do to the
  runtime ledger: every one keeps it verified and only adds events at its end.
\<close>

section \<open>The ledger stays verified\<close>

text \<open>An action that leaves the capsule alone and returns signed events.\<close>

definition signs ::
  "(u8 list \<Rightarrow> b32) \<Rightarrow> 'w platform \<Rightarrow> ('w ffi_state, 'e, prepared_event) action \<Rightarrow> bool" where
  "signs H pf m \<longleftrightarrow> (\<forall>s. outcome m s (\<lambda>r s'. fs_capsule s' = fs_capsule s
    \<and> (\<forall>p. r = Ok p \<longrightarrow> event_signed H (pf_lib pf) (pe_event p))))"

lemma signs_prepare:
  assumes "ed25519_law (pf_lib pf)"
  shows "signs H pf (prepare_event H (build_engine_with_config pf seed cfg) kind payload recipient)"
  unfolding signs_def prepare_domain_event_def [symmetric]
  by (intro allI prepare_signed_outcome [OF assms]) auto

lemma signs_seq:
  "(\<And>x. signs H pf (f x)) \<Longrightarrow> signs H pf (seq (pure r) f)"
  by (cases r) (auto simp: signs_def outcome_seq outcome_pure)

lemma signs_random:
  assumes "\<And>x. signs H pf (f x)"
  shows "signs H pf (seq (random_id (build_engine_with_config pf seed cfg)) f)"
  unfolding signs_def
proof
  fix s :: "'a ffi_state"
  let ?i = "fst (pf_fill_32 pf (fs_env s))" and ?s = "s\<lparr> fs_env := snd (pf_fill_32 pf (fs_env s)) \<rparr>"
  have "outcome (f ?i) ?s (\<lambda>r s'. fs_capsule s' = fs_capsule ?s
      \<and> (\<forall>p. r = Ok p \<longrightarrow> event_signed H (pf_lib pf) (pe_event p)))"
    using assms unfolding signs_def by blast
  then show "outcome (seq (random_id (build_engine_with_config pf seed cfg)) f) s (\<lambda>r s'. fs_capsule s' = fs_capsule s
      \<and> (\<forall>p. r = Ok p \<longrightarrow> event_signed H (pf_lib pf) (pe_event p)))"
    by (simp add: random_id_def build_engine_with_config_def outcome_seq outcome_sample_env)
qed

lemma signs_prepared:
  assumes "ed25519_law (pf_lib pf)"
  shows "signs H pf (prepare_domain_event H (build_engine_with_config pf seed cfg) kind payload recipient)"
    "signs H pf (prepare_invitation_sent H (build_engine_with_config pf seed cfg) i to)"
    "signs H pf (prepare_invitation_accepted H (build_engine_with_config pf seed cfg) inv_id to i)"
    "signs H pf (prepare_invitation_rejected H (build_engine_with_config pf seed cfg) inv_id to reason)"
    "signs H pf (prepare_invitation_expired H (build_engine_with_config pf seed cfg) inv_id)"
    "signs H pf (prepare_starter_created H (build_engine_with_config pf seed cfg) i n k nw)"
    "signs H pf (prepare_starter_burned H (build_engine_with_config pf seed cfg) i rc)"
    "signs H pf (prepare_relationship_established H (build_engine_with_config pf seed cfg) a b c d e f g h j l)"
    "signs H pf (prepare_relationship_broken H (build_engine_with_config pf seed cfg) to i root)"
  unfolding prepare_domain_event_def prepare_invitation_sent_def prepare_invitation_accepted_def
    prepare_invitation_rejected_def prepare_invitation_expired_def prepare_starter_created_def
    prepare_starter_burned_def prepare_relationship_established_def prepare_relationship_broken_def
  using assms by (auto intro!: signs_seq signs_random signs_prepare)

text \<open>The ledger verifies and its history starts with \<open>es0\<close>.\<close>

definition grown ::
  "(u8 list \<Rightarrow> b32) \<Rightarrow> nat \<Rightarrow> 'w platform \<Rightarrow> event list \<Rightarrow> 'w ffi_state \<Rightarrow> bool" where
  "grown H U pf es0 s \<longleftrightarrow> runtime_inv H U pf s \<and> (\<exists>xs. runtime_events s = es0 @ xs)"

lemma grown_frame: "fs_capsule s' = fs_capsule s \<Longrightarrow> grown H U pf es0 s \<Longrightarrow> grown H U pf es0 s'"
  using runtime_inv_frame [of s' s H U pf] by (simp add: grown_def runtime_events_def)

abbreviation keeps_ledger ::
  "(u8 list \<Rightarrow> b32) \<Rightarrow> nat \<Rightarrow> 'w platform \<Rightarrow> event list \<Rightarrow> ('w ffi_state, 'e, 'a) action \<Rightarrow> bool" where
  "keeps_ledger H U pf es0 \<equiv> preserves (grown H U pf es0)"

lemma keeps_signed [preserving]:
  assumes "signs H pf m" and "\<And>p. event_signed H (pf_lib pf) (pe_event p) \<Longrightarrow> keeps_ledger H U pf es0 (f p)"
  shows "keeps_ledger H U pf es0 (seq (with_error e m) f)"
proof (rule preservesI)
  fix s :: "'a ffi_state" assume inv: "grown H U pf es0 s"
  show "outcome (seq (with_error e m) f) s (\<lambda>r s'. grown H U pf es0 s')"
  proof (rule outcome_seqI)
    show "outcome (with_error e m) s (\<lambda>r s'. fs_capsule s' = fs_capsule s
        \<and> (\<forall>p. r = Ok p \<longrightarrow> event_signed H (pf_lib pf) (pe_event p)))"
      unfolding outcome_with_error using assms(1) unfolding signs_def
      by (rule allE) (erule outcome_weaken, auto)
  next
    fix p :: prepared_event and s1 :: "'a ffi_state"
    assume "fs_capsule s1 = fs_capsule s \<and> (\<forall>q. Ok p = Ok q \<longrightarrow> event_signed H (pf_lib pf) (pe_event q))"
    then show "outcome (f p) s1 (\<lambda>r s'. grown H U pf es0 s')"
      using assms(2) [of p] grown_frame [OF _ inv, of s1] by (simp add: preserves_def)
  qed (use inv grown_frame in blast)+
qed

lemma keeps_append:
  assumes "ed25519_law (pf_lib pf)" and "event_signed H (pf_lib pf) (pe_event p)"
  shows "keeps_ledger H U pf es0 (append_prepared_event H U pf p)"
proof (rule preservesI)
  fix s :: "'a ffi_state" assume "grown H U pf es0 s"
  then show "outcome (append_prepared_event H U pf p) s (\<lambda>r s'. grown H U pf es0 s')"
    using append_prepared_keeps [OF assms(1) _ assms(2), of U s] append_prepared_outcome [of H U pf p s]
    by (auto simp: grown_def outcome_def split: prod.splits)
qed

lemma keeps_load_seed [preserving]: "keeps_ledger H U pf es0 (load_seed pf)"
  by (auto simp: preserves_def load_seed_def outcome_simps intro: grown_frame [rotated])

lemma keeps_argument [preserving]:
  "keeps_ledger H U pf es0 (argument p)" "keeps_ledger H U pf es0 (need_capsule code)"
  by (simp_all add: argument_def need_capsule_def preserving)

lemma keeps_with_engine [preserving]:
  assumes "\<And>cfg. keeps_ledger H U pf es0 (f (build_engine_with_config pf seed cfg))"
  shows "keeps_ledger H U pf es0 (with_engine pf seed f)"
  using assms by (auto simp: preserves_def with_engine_def outcome_def build_engine_def)

lemma keeps_finalize:
  assumes "ed25519_law (pf_lib pf)"
  shows "keeps_ledger H U pf es0 (finalize_local_acceptance H U pf (build_engine_with_config pf seed cfg) plan from_pk)"
  unfolding finalize_local_acceptance_def append_starter_created_if_missing_def
    append_relationship_established_if_missing_def
  by (intro keeps_signed preserving signs_prepared keeps_append assms; assumption?)

lemma api_keeps_ledger:
  assumes "ed25519_law (pf_lib pf)"
  shows "keeps_ledger H U pf es0 (send_invitation_with_card_signature H U pf N to slot sig)"
    "keeps_ledger H U pf es0 (accept_invitation H U pf N i from_pk)"
    "keeps_ledger H U pf es0 (reject_invitation H U pf i reason)"
    "keeps_ledger H U pf es0 (expire_invitation H U pf i)"
    "keeps_ledger H U pf es0 (break_relationship_with_delivery_reference H U pf peer own peer_st)"
proof -
  note rules = keeps_signed preserving signs_prepared [OF assms] keeps_append [OF assms] keeps_finalize [OF assms]
  show "keeps_ledger H U pf es0 (send_invitation_with_card_signature H U pf N to slot sig)"
    unfolding send_invitation_with_card_signature_def by (intro rules; assumption?)
  show "keeps_ledger H U pf es0 (accept_invitation H U pf N i from_pk)"
    unfolding accept_invitation_def by (intro rules; assumption?)
  show "keeps_ledger H U pf es0 (reject_invitation H U pf i reason)"
    unfolding reject_invitation_def by (intro rules; assumption?)
  show "keeps_ledger H U pf es0 (expire_invitation H U pf i)"
    unfolding expire_invitation_def by (intro rules; assumption?)
  show "keeps_ledger H U pf es0 (break_relationship_with_delivery_reference H U pf peer own peer_st)"
    unfolding break_relationship_with_delivery_reference_def by (intro rules; assumption?)
qed

end
