(* ===== verification/Quarantine.thy ===== *)
theory Quarantine
  imports Disk Keystore Transport
begin

text \<open>
  The inbound quarantine (platform/hivra-ffi/src/inbound\_quarantine.rs): deliveries that cannot be
  applied yet are sealed, kept with limits per sender and retried; senders spend permits that refill
  with time; everything is one snapshot file, sealed and replaced atomically.

  Strings are their UTF-8 bytes. The wincode codecs are a third-party crate: the fields of
  \<open>quarantine_lib\<close>, next to the cryptography of \<open>Keystore\<close> and the source of nonces. The world holds the
  storage root, the disk and the snapshot of the open repository. Lengths are \<open>nat\<close>: they are bounded
  far below the width of \<open>usize\<close>. The locks are not modelled (one caller at a time).
\<close>

unbundle bit_operations_syntax

section \<open>Constants\<close>

definition SCHEMA_VERSION :: u16 where "SCHEMA_VERSION = 1"
definition ADAPTER :: utf8 where "ADAPTER = ascii ''nostr''"
definition SNAPSHOT_FILE :: utf8 where "SNAPSHOT_FILE = ascii ''inbound_quarantine.v1.bin''"
definition SNAPSHOT_TEMP_FILE :: utf8 where "SNAPSHOT_TEMP_FILE = ascii ''.inbound_quarantine.v1.tmp''"
definition MAX_RECORDS :: nat where "MAX_RECORDS = 256"
definition MAX_CIPHERTEXT_BYTES :: nat where "MAX_CIPHERTEXT_BYTES = 32 * 1024 * 1024"
definition MAX_RECORDS_PER_SENDER :: nat where "MAX_RECORDS_PER_SENDER = 32"
definition MAX_OBSERVATIONS :: nat where "MAX_OBSERVATIONS = 16"
definition PAYLOAD_RETENTION_SECS :: u64 where "PAYLOAD_RETENTION_SECS = 72 * 60 * 60"
definition TOMBSTONE_RETENTION_SECS :: u64 where "TOMBSTONE_RETENTION_SECS = 30 * 24 * 60 * 60"
definition MAX_TOMBSTONES :: nat where "MAX_TOMBSTONES = 1024"
definition MAX_TOMBSTONE_BYTES :: nat where "MAX_TOMBSTONE_BYTES = 1024 * 1024"
definition INITIAL_RETRY_DELAY_SECS :: u64 where "INITIAL_RETRY_DELAY_SECS = 15"
definition MAX_RETRY_DELAY_SECS :: u64 where "MAX_RETRY_DELAY_SECS = 15 * 60"
definition MAX_EVENT_ID_LEN :: nat where "MAX_EVENT_ID_LEN = 128"
definition MAX_ENDPOINT_LEN :: nat where "MAX_ENDPOINT_LEN = 512"
definition SENDER_POLICY_BURST :: u8 where "SENDER_POLICY_BURST = 8"
definition SENDER_POLICY_REFILL_SECS :: u64 where "SENDER_POLICY_REFILL_SECS = 15"
definition MAX_POLICY_SENDERS :: nat where "MAX_POLICY_SENDERS = 1024"
definition CHARGE_EVIDENCE_RETENTION_SECS :: u64 where
  "CHARGE_EVIDENCE_RETENTION_SECS = 8 * 24 * 60 * 60"
definition MAX_CHARGE_EVIDENCE :: nat where "MAX_CHARGE_EVIDENCE = 65536"
definition MAX_CHARGE_EVIDENCE_PER_SENDER :: nat where "MAX_CHARGE_EVIDENCE_PER_SENDER = 40960"
definition MAX_SENDER_POLICY_BYTES :: nat where "MAX_SENDER_POLICY_BYTES = 8 * 1024 * 1024"

section \<open>The snapshot\<close>

datatype quarantine_error =
    Uninitialized
  | InvalidScope
  | InvalidRecord
  | Capacity
  | TombstoneCapacity
  | Corrupt
  | Crypto
  | Io

fun quarantine_error_text :: "quarantine_error \<Rightarrow> string" where
  "quarantine_error_text Uninitialized = ''storage root is not initialized''"
| "quarantine_error_text InvalidScope = ''invalid quarantine scope''"
| "quarantine_error_text InvalidRecord = ''invalid quarantine record''"
| "quarantine_error_text Capacity = ''quarantine capacity exhausted''"
| "quarantine_error_text TombstoneCapacity = ''quarantine tombstone capacity exhausted''"
| "quarantine_error_text Corrupt = ''quarantine snapshot is corrupt''"
| "quarantine_error_text Crypto = ''quarantine cryptographic operation failed''"
| "quarantine_error_text Io = ''quarantine persistence failed''"

record quarantine_scope =
  qs_capsule_id :: utf8
  qs_network :: u8
  qs_transport_endpoint :: utf8

definition scope_for_runtime :: "u8 list \<Rightarrow> u8 \<Rightarrow> u8 list \<Rightarrow> quarantine_scope" where
  "scope_for_runtime capsule_id network transport_endpoint =
    \<lparr> qs_capsule_id = encode_hex capsule_id, qs_network = network,
      qs_transport_endpoint = encode_hex transport_endpoint \<rparr>"

record quarantine_record =
  qr_schema_version :: u16
  qr_scope :: quarantine_scope
  qr_adapter :: utf8
  qr_adapter_event_id :: utf8
  qr_authenticated_sender :: utf8
  qr_observed_by :: "utf8 list"
  qr_message_kind :: u32
  qr_reason :: utf8
  qr_first_observed_at :: u64
  qr_quarantined_at :: u64
  qr_eligible_after :: u64
  qr_expires_at :: u64
  qr_attempt_count :: u16
  qr_last_attempt_at :: "u64 option"
  qr_envelope_ciphertext :: "u8 list"

record quarantine_tombstone =
  qt_schema_version :: u16
  qt_scope :: quarantine_scope
  qt_adapter :: utf8
  qt_adapter_event_id :: utf8
  qt_authenticated_sender :: utf8
  qt_message_kind :: u32
  qt_terminal_reason :: utf8
  qt_first_observed_at :: u64
  qt_terminal_at :: u64

record charge_evidence =
  ce_adapter_event_id :: utf8
  ce_charged_at :: u64

record sender_policy =
  sp_schema_version :: u16
  sp_scope :: quarantine_scope
  sp_authenticated_sender :: utf8
  sp_available_permits :: u8
  sp_last_refill_at :: u64
  sp_last_activity_at :: u64
  sp_charged_events :: "charge_evidence list"

record quarantine_snapshot =
  sn_schema_version :: u16
  sn_scope :: quarantine_scope
  sn_records :: "quarantine_record list"
  sn_tombstones :: "quarantine_tombstone list"
  sn_sender_policies :: "sender_policy list"

record legacy_snapshot =
  ls_schema_version :: u16
  ls_scope :: quarantine_scope
  ls_records :: "quarantine_record list"
  ls_tombstones :: "quarantine_tombstone list"

record stored_envelope =
  se_schema_version :: u16
  se_from :: "u8 list"
  se_to :: "u8 list"
  se_kind :: u32
  se_payload :: "u8 list"
  se_timestamp :: u64
  se_correlation_id :: "u8 list option"
  se_domain_event :: "domain_event_proof option"

definition stored_of_envelope :: "delivery_envelope \<Rightarrow> stored_envelope" where
  "stored_of_envelope envelope =
    \<lparr> se_schema_version = en_schema_version envelope, se_from = bytes (en_from envelope),
      se_to = bytes (en_to envelope), se_kind = en_kind envelope, se_payload = en_payload envelope,
      se_timestamp = en_timestamp envelope,
      se_correlation_id = map_option bytes (en_correlation_id envelope),
      se_domain_event = en_domain_event envelope \<rparr>"

definition try_into_32 :: "u8 list \<Rightarrow> (quarantine_error, b32) result" where
  "try_into_32 bs = (if length bs = 32 then Ok (barray_of bs) else Err Corrupt)"

definition into_delivery_envelope :: "stored_envelope \<Rightarrow> (quarantine_error, delivery_envelope) result" where
  "into_delivery_envelope se =
    and_then (try_into_32 (se_from se)) (\<lambda>from.
    and_then (try_into_32 (se_to se)) (\<lambda>to.
    and_then (case se_correlation_id se of
                None \<Rightarrow> Ok None
              | Some value \<Rightarrow> and_then (try_into_32 value) (\<lambda>c. Ok (Some c))) (\<lambda>correlation.
      Ok \<lparr> en_schema_version = se_schema_version se, en_from = from, en_to = to, en_kind = se_kind se,
           en_payload = se_payload se, en_timestamp = se_timestamp se,
           en_correlation_id = correlation, en_domain_event = se_domain_event se \<rparr>)))"

datatype sender_ingress_decision = Permit | AlreadyCharged | Quarantined

text \<open>The crates the code relies on: the wincode codecs under \<open>capsule_binary_config\<close>, cryptography and
  the source of nonces.\<close>

record quarantine_lib =
  ql_crypto :: crypto_lib
  ql_nonce :: "nat \<Rightarrow> nonce12"
  ql_put_snapshot :: "quarantine_snapshot \<Rightarrow> u8 list option"
  ql_get_snapshot :: "u8 list \<Rightarrow> quarantine_snapshot option"
  ql_get_legacy :: "u8 list \<Rightarrow> legacy_snapshot option"
  ql_put_envelope :: "stored_envelope \<Rightarrow> u8 list option"
  ql_get_envelope :: "u8 list \<Rightarrow> stored_envelope option"
  ql_put_tombstones :: "quarantine_tombstone list \<Rightarrow> u8 list option"
  ql_put_tombstone :: "quarantine_tombstone \<Rightarrow> u8 list option"
  ql_put_policies :: "sender_policy list \<Rightarrow> u8 list option"

record repository =
  rp_seed :: seed
  rp_scope :: quarantine_scope
  rp_snapshot_path :: path

record quarantine_world =
  qw_root :: "path option"
  qw_disk :: disk
  qw_draws :: nat
  qw_snapshot :: quarantine_snapshot

type_synonym 'a repo_action = "(quarantine_world, quarantine_error, 'a) action"

definition on_disk :: "'a fs_call \<Rightarrow> 'a repo_action" where
  "on_disk call w = (case call (qw_disk w) of (r, d) \<Rightarrow> (map_err (\<lambda>_. Io) r, w\<lparr> qw_disk := d \<rparr>))"

definition draw_nonce :: "quarantine_lib \<Rightarrow> nonce12 repo_action" where
  "draw_nonce lib w = (Ok (ql_nonce lib (qw_draws w)), w\<lparr> qw_draws := Suc (qw_draws w) \<rparr>)"

section \<open>Validation\<close>

definition validate_hex32 :: "utf8 \<Rightarrow> (quarantine_error, unit) result" where
  "validate_hex32 value =
    (if length value \<noteq> 64 \<or> \<not> list_all is_ascii_hexdigit value then Err InvalidScope else Ok ())"

definition validate_scope :: "quarantine_scope \<Rightarrow> (quarantine_error, unit) result" where
  "validate_scope scope =
    and_then (validate_hex32 (qs_capsule_id scope)) (\<lambda>_.
    and_then (validate_hex32 (qs_transport_endpoint scope)) (\<lambda>_.
      if qs_network scope > 1 then Err InvalidScope else Ok ()))"

definition event_id_byte :: "u8 \<Rightarrow> bool" where
  "event_id_byte b \<longleftrightarrow> 48 \<le> b \<and> b \<le> 57 \<or> 65 \<le> b \<and> b \<le> 90 \<or> 97 \<le> b \<and> b \<le> 122
    \<or> b = 45 \<or> b = 95 \<or> b = 58"

definition validate_event_id :: "utf8 \<Rightarrow> (quarantine_error, unit) result" where
  "validate_event_id value =
    (if value = [] \<or> length value > MAX_EVENT_ID_LEN \<or> \<not> list_all event_id_byte value
     then Err InvalidRecord else Ok ())"

text \<open>The loop over the records: the \<open>BTreeSet\<close> of identifiers, the \<open>BTreeMap\<close> of counts per sender and
  the bytes of ciphertext.\<close>

fun validate_records ::
  "quarantine_scope \<Rightarrow> utf8 set \<Rightarrow> (utf8 \<Rightarrow> nat) \<Rightarrow> nat \<Rightarrow> quarantine_record list
    \<Rightarrow> (quarantine_error, utf8 set \<times> nat) result" where
  "validate_records scope ids sender_counts ciphertext_bytes [] = Ok (ids, ciphertext_bytes)"
| "validate_records scope ids sender_counts ciphertext_bytes (r # rs) =
    (if qr_schema_version r \<noteq> SCHEMA_VERSION \<or> qr_scope r \<noteq> scope \<or> qr_adapter r \<noteq> ADAPTER
        \<or> qr_adapter_event_id r \<in> ids
        \<or> length (qr_observed_by r) > MAX_OBSERVATIONS
        \<or> qr_expires_at r \<noteq> sat_add (qr_first_observed_at r) PAYLOAD_RETENTION_SECS
     then Err Corrupt
     else and_then (validate_event_id (qr_adapter_event_id r)) (\<lambda>_.
          and_then (validate_hex32 (qr_authenticated_sender r)) (\<lambda>_.
            let sender_count = sender_counts (qr_authenticated_sender r) + 1
            in if sender_count > MAX_RECORDS_PER_SENDER then Err Corrupt
               else validate_records scope (insert (qr_adapter_event_id r) ids)
                 (sender_counts(qr_authenticated_sender r := sender_count))
                 (ciphertext_bytes + length (qr_envelope_ciphertext r)) rs)))"

fun validate_tombstones ::
  "quarantine_scope \<Rightarrow> utf8 set \<Rightarrow> quarantine_tombstone list \<Rightarrow> (quarantine_error, unit) result" where
  "validate_tombstones scope ids [] = Ok ()"
| "validate_tombstones scope ids (t # ts) =
    (if qt_schema_version t \<noteq> SCHEMA_VERSION \<or> qt_scope t \<noteq> scope \<or> qt_adapter t \<noteq> ADAPTER
        \<or> qt_adapter_event_id t \<in> ids
     then Err Corrupt
     else and_then (validate_event_id (qt_adapter_event_id t)) (\<lambda>_.
          and_then (validate_hex32 (qt_authenticated_sender t)) (\<lambda>_.
            validate_tombstones scope (insert (qt_adapter_event_id t) ids) ts)))"

fun validate_charges ::
  "utf8 set \<Rightarrow> charge_evidence list \<Rightarrow> (quarantine_error, utf8 set) result" where
  "validate_charges charged_ids [] = Ok charged_ids"
| "validate_charges charged_ids (c # cs) =
    and_then (validate_event_id (ce_adapter_event_id c)) (\<lambda>_.
      if ce_adapter_event_id c \<in> charged_ids then Err Corrupt
      else validate_charges (insert (ce_adapter_event_id c) charged_ids) cs)"

fun validate_policies ::
  "quarantine_scope \<Rightarrow> utf8 set \<Rightarrow> utf8 set \<Rightarrow> nat \<Rightarrow> sender_policy list
    \<Rightarrow> (quarantine_error, nat) result" where
  "validate_policies scope policy_senders charged_ids charged_count [] = Ok charged_count"
| "validate_policies scope policy_senders charged_ids charged_count (p # ps) =
    (if sp_schema_version p \<noteq> SCHEMA_VERSION \<or> sp_scope p \<noteq> scope
        \<or> sp_available_permits p > SENDER_POLICY_BURST
        \<or> sp_authenticated_sender p \<in> policy_senders
        \<or> length (sp_charged_events p) > MAX_CHARGE_EVIDENCE_PER_SENDER
     then Err Corrupt
     else and_then (validate_hex32 (sp_authenticated_sender p)) (\<lambda>_.
          and_then (validate_charges charged_ids (sp_charged_events p)) (\<lambda>charged_ids.
            validate_policies scope (insert (sp_authenticated_sender p) policy_senders) charged_ids
              (charged_count + length (sp_charged_events p)) ps)))"

definition serialized :: "u8 list option \<Rightarrow> (quarantine_error, u8 list) result" where
  "serialized bs = ok_or bs Corrupt"

definition validate_snapshot ::
  "quarantine_lib \<Rightarrow> quarantine_snapshot \<Rightarrow> quarantine_scope \<Rightarrow> (quarantine_error, unit) result" where
  "validate_snapshot lib snapshot scope =
    (if sn_schema_version snapshot \<noteq> SCHEMA_VERSION \<or> sn_scope snapshot \<noteq> scope then Err Corrupt
     else if length (sn_records snapshot) > MAX_RECORDS
        \<or> length (sn_tombstones snapshot) > MAX_TOMBSTONES
        \<or> length (sn_sender_policies snapshot) > MAX_POLICY_SENDERS then Err Corrupt
     else
       and_then (validate_records scope {} (\<lambda>_. 0) 0 (sn_records snapshot)) (\<lambda>(ids, ciphertext_bytes).
       if ciphertext_bytes > MAX_CIPHERTEXT_BYTES then Err Corrupt
       else and_then (validate_tombstones scope ids (sn_tombstones snapshot)) (\<lambda>_.
       and_then (serialized (ql_put_tombstones lib (sn_tombstones snapshot))) (\<lambda>tombstone_bytes.
       if length tombstone_bytes > MAX_TOMBSTONE_BYTES then Err Corrupt
       else and_then (validate_policies scope {} {} 0 (sn_sender_policies snapshot)) (\<lambda>charged_count.
       if charged_count > MAX_CHARGE_EVIDENCE then Err Corrupt
       else and_then (serialized (ql_put_policies lib (sn_sender_policies snapshot))) (\<lambda>policy_bytes.
       if length policy_bytes > MAX_SENDER_POLICY_BYTES then Err Corrupt else Ok ()))))))"

section \<open>Names and associated data\<close>

definition join_with_colons :: "utf8 list \<Rightarrow> utf8" where
  "join_with_colons parts = concat (map (\<lambda>p. 58 # p) parts)"

definition snapshot_associated_data :: "quarantine_scope \<Rightarrow> utf8" where
  "snapshot_associated_data scope =
    ascii ''hivra:inbound-quarantine:snapshot:v1''
    @ join_with_colons [qs_capsule_id scope, decimal (unat (qs_network scope)),
        qs_transport_endpoint scope, ADAPTER]"

definition record_associated_data :: "quarantine_scope \<Rightarrow> utf8 \<Rightarrow> utf8" where
  "record_associated_data scope item_id =
    ascii ''hivra:inbound-quarantine:record:v1''
    @ join_with_colons [qs_capsule_id scope, decimal (unat (qs_network scope)),
        qs_transport_endpoint scope, ADAPTER, item_id]"

definition application_storage_root :: "path repo_action" where
  "application_storage_root = inspect (\<lambda>w. ok_or (qw_root w) Uninitialized)"

definition scope_dir :: "path \<Rightarrow> quarantine_scope \<Rightarrow> path" where
  "scope_dir root scope = root @ [ascii ''capsules'', qs_capsule_id scope, ascii ''transport_quarantine'',
      decimal (unat (qs_network scope)), qs_transport_endpoint scope, ADAPTER]"

definition snapshot_path :: "quarantine_scope \<Rightarrow> path repo_action" where
  "snapshot_path scope =
    seq application_storage_root (\<lambda>root. pure (Ok (scope_dir root scope @ [SNAPSHOT_FILE])))"

definition temp_path :: "path \<Rightarrow> path" where
  "temp_path p = butlast p @ [SNAPSHOT_TEMP_FILE]"

definition set_application_storage_root :: "bool \<Rightarrow> path \<Rightarrow> unit repo_action" where
  "set_application_storage_root is_absolute p =
    (if \<not> is_absolute then pure (Err InvalidScope) else modify (\<lambda>w. w\<lparr> qw_root := Some p \<rparr>))"

definition delete_capsule_quarantine :: "utf8 \<Rightarrow> unit repo_action" where
  "delete_capsule_quarantine capsule_id =
    seq (pure (validate_hex32 capsule_id)) (\<lambda>_.
    seq application_storage_root (\<lambda>root.
    let p = root @ [ascii ''capsules'', capsule_id, ascii ''transport_quarantine''] in
    seq (inspect (\<lambda>w. Ok (\<exists>q. under p q \<and> fs_exists q (qw_disk w)))) (\<lambda>exists.
      if exists then on_disk (fs_remove_dir_all p) else pure (Ok ()))))"

section \<open>The snapshot file\<close>

definition cleanup_temp_file :: "path \<Rightarrow> unit repo_action" where
  "cleanup_temp_file p =
    seq (inspect (\<lambda>w. Ok (fs_exists (temp_path p) (qw_disk w)))) (\<lambda>exists.
      if exists then on_disk (fs_remove_file (temp_path p)) else pure (Ok ()))"

text \<open>The directory sync after the rename is best effort and has no effect here.\<close>

definition atomic_write :: "path \<Rightarrow> u8 list \<Rightarrow> unit repo_action" where
  "atomic_write p bs =
    (let temp = temp_path p in
     seq (inspect (\<lambda>w. Ok (fs_exists temp (qw_disk w)))) (\<lambda>exists.
     seq (if exists then on_disk (fs_remove_file temp) else pure (Ok ())) (\<lambda>_.
     seq (on_disk (fs_create_new temp)) (\<lambda>_.
     seq (on_disk (fs_write_all temp bs)) (\<lambda>_.
     seq (on_disk (fs_sync_all temp)) (\<lambda>_.
       on_disk (fs_rename temp p)))))))"

definition load_snapshot ::
  "quarantine_lib \<Rightarrow> path \<Rightarrow> quarantine_scope \<Rightarrow> seed \<Rightarrow> quarantine_snapshot repo_action" where
  "load_snapshot lib p scope seed =
    seq (on_disk (fs_read p)) (\<lambda>sealed.
    seq (pure (map_err (\<lambda>_. Crypto) (open_inbound_quarantine_snapshot (ql_crypto lib) seed
          (snapshot_associated_data scope) sealed))) (\<lambda>plaintext.
      pure (case ql_get_snapshot lib plaintext of
              Some snapshot \<Rightarrow> Ok snapshot
            | None \<Rightarrow>
                and_then (ok_or (ql_get_legacy lib plaintext) Corrupt) (\<lambda>legacy.
                  Ok \<lparr> sn_schema_version = ls_schema_version legacy, sn_scope = ls_scope legacy,
                       sn_records = ls_records legacy, sn_tombstones = ls_tombstones legacy,
                       sn_sender_policies = [] \<rparr>))))"

definition empty_snapshot :: "quarantine_scope \<Rightarrow> quarantine_snapshot" where
  "empty_snapshot scope =
    \<lparr> sn_schema_version = SCHEMA_VERSION, sn_scope = scope, sn_records = [], sn_tombstones = [],
      sn_sender_policies = [] \<rparr>"

definition open_repository ::
  "quarantine_lib \<Rightarrow> quarantine_scope \<Rightarrow> seed \<Rightarrow> repository repo_action" where
  "open_repository lib scope seed =
    seq (pure (validate_scope scope)) (\<lambda>_.
    seq (snapshot_path scope) (\<lambda>p.
    seq (cleanup_temp_file p) (\<lambda>_.
    seq (inspect (\<lambda>w. Ok (fs_exists p (qw_disk w)))) (\<lambda>exists.
    seq (if exists then load_snapshot lib p scope seed else pure (Ok (empty_snapshot scope)))
      (\<lambda>snapshot.
    seq (pure (validate_snapshot lib snapshot scope)) (\<lambda>_.
    seq (modify (\<lambda>w. w\<lparr> qw_snapshot := snapshot \<rparr>)) (\<lambda>_.
      pure (Ok \<lparr> rp_seed = seed, rp_scope = scope, rp_snapshot_path = p \<rparr>))))))))"

definition persist :: "quarantine_lib \<Rightarrow> repository \<Rightarrow> unit repo_action" where
  "persist lib repo =
    seq (inspect (\<lambda>w. validate_snapshot lib (qw_snapshot w) (rp_scope repo))) (\<lambda>_.
    seq (on_disk (fs_create_dir_all (butlast (rp_snapshot_path repo)))) (\<lambda>_.
    seq (inspect (\<lambda>w. serialized (ql_put_snapshot lib (qw_snapshot w)))) (\<lambda>plaintext.
    seq (draw_nonce lib) (\<lambda>nonce.
    seq (pure (map_err (\<lambda>_. Crypto) (seal_inbound_quarantine_snapshot (ql_crypto lib) nonce (rp_seed repo)
          (snapshot_associated_data (rp_scope repo)) plaintext))) (\<lambda>sealed.
      atomic_write (rp_snapshot_path repo) sealed)))))"

text \<open>\<open>self.snapshot = next; self.persist()\<close>.\<close>

definition commit :: "quarantine_lib \<Rightarrow> repository \<Rightarrow> quarantine_snapshot \<Rightarrow> unit repo_action" where
  "commit lib repo snapshot' =
    seq (modify (\<lambda>w. w\<lparr> qw_snapshot := snapshot' \<rparr>)) (\<lambda>_. persist lib repo)"

section \<open>Records\<close>

definition merge_observations :: "utf8 list \<Rightarrow> utf8 list \<Rightarrow> utf8 list" where
  "merge_observations existing incoming =
    take MAX_OBSERVATIONS (sorted_list_of_set
      (set (filter (\<lambda>value. value \<noteq> [] \<and> length value \<le> MAX_ENDPOINT_LEN) (existing @ incoming))))"

text \<open>\<open>chars().take(n)\<close>: a character is a byte that is not a continuation byte and the continuation bytes after it.\<close>

fun take_chars :: "nat \<Rightarrow> utf8 \<Rightarrow> utf8" where
  "take_chars n [] = []"
| "take_chars n (b # bs) =
    (if b AND 0xC0 = 0x80 then b # take_chars n bs
     else if n = 0 then [] else b # take_chars (n - 1) bs)"

definition bounded_reason :: "utf8 \<Rightarrow> utf8" where
  "bounded_reason value = take_chars 96 value"

definition seal_envelope ::
  "quarantine_lib \<Rightarrow> repository \<Rightarrow> utf8 \<Rightarrow> delivery_envelope \<Rightarrow> u8 list repo_action" where
  "seal_envelope lib repo adapter_event_id envelope =
    seq (pure (serialized (ql_put_envelope lib (stored_of_envelope envelope)))) (\<lambda>envelope_bytes.
    seq (draw_nonce lib) (\<lambda>nonce.
      pure (map_err (\<lambda>_. Crypto) (seal_inbound_quarantine_record (ql_crypto lib) nonce (rp_seed repo)
        (record_associated_data (rp_scope repo) adapter_event_id) envelope_bytes))))"

definition new_record ::
  "quarantine_scope \<Rightarrow> utf8 \<Rightarrow> utf8 list \<Rightarrow> delivery_envelope \<Rightarrow> utf8 \<Rightarrow> u64 \<Rightarrow> u8 list \<Rightarrow> quarantine_record"
  where
  "new_record scope adapter_event_id observed_by envelope reason now ciphertext =
    \<lparr> qr_schema_version = SCHEMA_VERSION, qr_scope = scope, qr_adapter = ADAPTER,
      qr_adapter_event_id = adapter_event_id,
      qr_authenticated_sender = encode_hex (bytes (en_from envelope)),
      qr_observed_by = merge_observations [] observed_by, qr_message_kind = en_kind envelope,
      qr_reason = bounded_reason reason, qr_first_observed_at = now, qr_quarantined_at = now,
      qr_eligible_after = sat_add now INITIAL_RETRY_DELAY_SECS,
      qr_expires_at = sat_add now PAYLOAD_RETENTION_SECS, qr_attempt_count = 0,
      qr_last_attempt_at = None, qr_envelope_ciphertext = ciphertext \<rparr>"

definition append_quarantine_record ::
  "quarantine_lib \<Rightarrow> repository \<Rightarrow> quarantine_snapshot \<Rightarrow> utf8 \<Rightarrow> utf8 list \<Rightarrow> delivery_envelope \<Rightarrow> utf8
    \<Rightarrow> u64 \<Rightarrow> quarantine_snapshot repo_action" where
  "append_quarantine_record lib repo snapshot adapter_event_id observed_by envelope reason now =
    seq (pure (validate_event_id adapter_event_id)) (\<lambda>_.
    let authenticated_sender = encode_hex (bytes (en_from envelope));
        records = sn_records snapshot
    in case position (\<lambda>r. qr_adapter_event_id r = adapter_event_id) records of
         Some i \<Rightarrow>
           let existing = records ! i in
           if qr_authenticated_sender existing \<noteq> authenticated_sender
             \<or> qr_message_kind existing \<noteq> en_kind envelope then pure (Err InvalidRecord)
           else pure (Ok (snapshot\<lparr> sn_records := records[i := existing\<lparr> qr_observed_by :=
             merge_observations (qr_observed_by existing) observed_by \<rparr>] \<rparr>))
       | None \<Rightarrow>
           if length records \<ge> MAX_RECORDS
             \<or> length (filter (\<lambda>r. qr_authenticated_sender r = authenticated_sender) records)
                 \<ge> MAX_RECORDS_PER_SENDER
           then pure (Err Capacity)
           else seq (seal_envelope lib repo adapter_event_id envelope) (\<lambda>ciphertext.
             let current_bytes = sum_list (map (\<lambda>r. length (qr_envelope_ciphertext r)) records) in
             if current_bytes + length ciphertext > MAX_CIPHERTEXT_BYTES then pure (Err Capacity)
             else pure (Ok (snapshot\<lparr> sn_records := sort_key qr_adapter_event_id
               (records @ [new_record (rp_scope repo) adapter_event_id observed_by envelope reason now
                 ciphertext]) \<rparr>))))"

definition quarantine ::
  "quarantine_lib \<Rightarrow> repository \<Rightarrow> utf8 \<Rightarrow> utf8 list \<Rightarrow> delivery_envelope \<Rightarrow> utf8 \<Rightarrow> u64 \<Rightarrow> unit repo_action" where
  "quarantine lib repo adapter_event_id observed_by envelope reason now =
    seq (inspect (\<lambda>w. Ok (qw_snapshot w))) (\<lambda>snapshot.
    seq (append_quarantine_record lib repo snapshot adapter_event_id observed_by envelope reason now)
      (commit lib repo))"

section \<open>Tombstones\<close>

definition tombstone_of :: "quarantine_record \<Rightarrow> utf8 \<Rightarrow> u64 \<Rightarrow> quarantine_tombstone" where
  "tombstone_of r terminal_reason now =
    \<lparr> qt_schema_version = SCHEMA_VERSION, qt_scope = qr_scope r, qt_adapter = qr_adapter r,
      qt_adapter_event_id = qr_adapter_event_id r,
      qt_authenticated_sender = qr_authenticated_sender r, qt_message_kind = qr_message_kind r,
      qt_terminal_reason = terminal_reason, qt_first_observed_at = qr_first_observed_at r,
      qt_terminal_at = now \<rparr>"

definition append_tombstone ::
  "quarantine_lib \<Rightarrow> quarantine_snapshot \<Rightarrow> quarantine_record \<Rightarrow> utf8 \<Rightarrow> u64
    \<Rightarrow> (quarantine_error, quarantine_snapshot) result" where
  "append_tombstone lib snapshot r terminal_reason now =
    (if list_ex (\<lambda>t. qt_adapter_event_id t = qr_adapter_event_id r) (sn_tombstones snapshot)
     then Ok snapshot
     else let tombstone = tombstone_of r terminal_reason now in
       if length (sn_tombstones snapshot) \<ge> MAX_TOMBSTONES then Err TombstoneCapacity
       else
         and_then (serialized (ql_put_tombstones lib (sn_tombstones snapshot))) (\<lambda>current.
         and_then (serialized (ql_put_tombstone lib tombstone)) (\<lambda>new.
         if length current + length new > MAX_TOMBSTONE_BYTES then Err TombstoneCapacity
         else Ok (snapshot\<lparr> sn_tombstones :=
           sort_key qt_adapter_event_id (sn_tombstones snapshot @ [tombstone]) \<rparr>))))"

definition has_terminal_evidence :: "quarantine_snapshot \<Rightarrow> utf8 \<Rightarrow> bool" where
  "has_terminal_evidence snapshot adapter_event_id \<longleftrightarrow>
    list_ex (\<lambda>t. qt_adapter_event_id t = adapter_event_id) (sn_tombstones snapshot)"

definition remove_record :: "utf8 \<Rightarrow> quarantine_snapshot \<Rightarrow> quarantine_snapshot" where
  "remove_record item_id snapshot =
    snapshot\<lparr> sn_records := filter (\<lambda>r. qr_adapter_event_id r \<noteq> item_id) (sn_records snapshot) \<rparr>"

text \<open>The loop of \<open>expire_due\<close> over the expired identifiers.\<close>

fun expire_each ::
  "quarantine_lib \<Rightarrow> quarantine_snapshot \<Rightarrow> u64 \<Rightarrow> utf8 list \<Rightarrow> (quarantine_error, quarantine_snapshot) result"
  where
  "expire_each lib snapshot now [] = Ok snapshot"
| "expire_each lib snapshot now (item_id # rest) =
    and_then (ok_or (find (\<lambda>r. qr_adapter_event_id r = item_id) (sn_records snapshot)) Corrupt) (\<lambda>r.
    and_then (append_tombstone lib snapshot r (ascii ''expired'') now) (\<lambda>snapshot.
      expire_each lib (remove_record item_id snapshot) now rest))"

definition expire_due :: "quarantine_lib \<Rightarrow> repository \<Rightarrow> u64 \<Rightarrow> nat repo_action" where
  "expire_due lib repo now =
    seq (inspect (\<lambda>w. Ok (length (sn_tombstones (qw_snapshot w))))) (\<lambda>tombstones_before.
    seq (modify (\<lambda>w. w\<lparr> qw_snapshot := (qw_snapshot w)\<lparr> sn_tombstones :=
          filter (\<lambda>t. sat_sub now (qt_terminal_at t) \<le> TOMBSTONE_RETENTION_SECS)
            (sn_tombstones (qw_snapshot w)) \<rparr> \<rparr>)) (\<lambda>_.
    seq (inspect (\<lambda>w. Ok (qw_snapshot w))) (\<lambda>snapshot.
    let expired_ids = map qr_adapter_event_id (filter (\<lambda>r. qr_expires_at r \<le> now) (sn_records snapshot)) in
    if expired_ids = [] \<and> tombstones_before = length (sn_tombstones snapshot) then pure (Ok 0)
    else seq (pure (expire_each lib snapshot now expired_ids)) (\<lambda>snapshot'.
         seq (commit lib repo snapshot') (\<lambda>_. pure (Ok (length expired_ids)))))))"

definition mark_consumed :: "quarantine_lib \<Rightarrow> repository \<Rightarrow> utf8 \<Rightarrow> u64 \<Rightarrow> unit repo_action" where
  "mark_consumed lib repo adapter_event_id now =
    seq (inspect (\<lambda>w. Ok (qw_snapshot w))) (\<lambda>snapshot.
    seq (pure (ok_or (find (\<lambda>r. qr_adapter_event_id r = adapter_event_id) (sn_records snapshot))
          InvalidRecord)) (\<lambda>r.
    seq (pure (append_tombstone lib snapshot r (ascii ''consumed'') now)) (\<lambda>snapshot'.
      commit lib repo (remove_record adapter_event_id snapshot'))))"

section \<open>Retries\<close>

definition retry_delay :: "u16 \<Rightarrow> u64" where
  "retry_delay attempt_count =
    (let exponent = min (unat attempt_count) 6
     in min (sat_mul INITIAL_RETRY_DELAY_SECS (2 ^ exponent)) MAX_RETRY_DELAY_SECS)"

definition retried :: "u64 \<Rightarrow> quarantine_record \<Rightarrow> quarantine_record" where
  "retried now r =
    (let attempts = sat_add (qr_attempt_count r) 1 in
     r\<lparr> qr_attempt_count := attempts, qr_last_attempt_at := Some now,
        qr_eligible_after := min (sat_add now (retry_delay attempts)) (qr_expires_at r) \<rparr>)"

definition mark_retry :: "quarantine_lib \<Rightarrow> repository \<Rightarrow> utf8 \<Rightarrow> u64 \<Rightarrow> unit repo_action" where
  "mark_retry lib repo adapter_event_id now =
    seq (inspect (\<lambda>w. ok_or (position (\<lambda>r. qr_adapter_event_id r = adapter_event_id)
          (sn_records (qw_snapshot w))) InvalidRecord)) (\<lambda>i.
    seq (modify (\<lambda>w. w\<lparr> qw_snapshot := (qw_snapshot w)\<lparr> sn_records :=
          (sn_records (qw_snapshot w))[i := retried now (sn_records (qw_snapshot w) ! i)] \<rparr> \<rparr>)) (\<lambda>_.
      persist lib repo))"

text \<open>\<open>min_by\<close> returns the first of several least elements, as does the head of a stable sort.\<close>

definition least_by :: "('a \<Rightarrow> 'b::linorder) \<Rightarrow> 'a list \<Rightarrow> 'a option" where
  "least_by f xs = (case sort_key f xs of [] \<Rightarrow> None | x # _ \<Rightarrow> Some x)"

definition recovery_order :: "quarantine_record \<Rightarrow> u64 \<times> u64 \<times> utf8" where
  "recovery_order r = (qr_eligible_after r, qr_quarantined_at r, qr_adapter_event_id r)"

text \<open>The bytes of a validated hexadecimal string.\<close>

fun hex_pairs :: "utf8 \<Rightarrow> u8 list" where
  "hex_pairs (a # b # rest) =
    (16 * the (from_hex_nibble a) + the (from_hex_nibble b)) # hex_pairs rest"
| "hex_pairs _ = []"

definition decode_hex32 :: "utf8 \<Rightarrow> (quarantine_error, u8 list) result" where
  "decode_hex32 value = and_then (validate_hex32 value) (\<lambda>_. Ok (hex_pairs value))"

definition open_record ::
  "quarantine_lib \<Rightarrow> repository \<Rightarrow> quarantine_record \<Rightarrow> (quarantine_error, utf8 \<times> delivery_envelope) result"
  where
  "open_record lib repo r =
    and_then (map_err (\<lambda>_. Crypto) (open_inbound_quarantine_record (ql_crypto lib) (rp_seed repo)
      (record_associated_data (rp_scope repo) (qr_adapter_event_id r)) (qr_envelope_ciphertext r)))
      (\<lambda>plaintext.
    and_then (ok_or (ql_get_envelope lib plaintext) Corrupt) (\<lambda>stored.
    and_then (into_delivery_envelope stored) (\<lambda>envelope.
    if encode_hex (bytes (en_from envelope)) \<noteq> qr_authenticated_sender r then Err Corrupt
    else and_then (decode_hex32 (qs_transport_endpoint (rp_scope repo))) (\<lambda>endpoint.
      if bytes (en_to envelope) \<noteq> endpoint \<or> en_kind envelope \<noteq> qr_message_kind r then Err Corrupt
      else Ok (qr_adapter_event_id r, envelope)))))"

definition next_eligible ::
  "quarantine_lib \<Rightarrow> repository \<Rightarrow> u64 \<Rightarrow> (utf8 \<times> delivery_envelope) option repo_action" where
  "next_eligible lib repo now =
    inspect (\<lambda>w. case least_by recovery_order
        (filter (\<lambda>r. qr_eligible_after r \<le> now \<and> qr_expires_at r > now) (sn_records (qw_snapshot w))) of
        None \<Rightarrow> Ok None
      | Some r \<Rightarrow> and_then (open_record lib repo r) (\<lambda>found. Ok (Some found)))"

end
