(* ===== verification/Rate_Limit.thy ===== *)
theory Rate_Limit
  imports Sender_Policy
begin

text \<open>
  A bound on the deliveries a sender can push through the inbound quarantine
  (platform/hivra-ffi/src/inbound\_quarantine.rs): eight permits and one more for every fifteen seconds.
\<close>

section \<open>Refilling\<close>

lemma unat_min: "unat (min a b) = min (unat a) (unat b)"
  by (simp add: min_def word_le_nat_alt)

lemma refill_policy_sender [simp]:
  "sp_authenticated_sender (refill_policy now p) = sp_authenticated_sender p"
  by (simp add: refill_policy_def Let_def)

lemma refill_policy_bounds:
  assumes "unat (sp_last_refill_at p) \<le> unat now"
  shows "unat (sp_last_refill_at p) \<le> unat (sp_last_refill_at (refill_policy now p))"
    and "unat (sp_last_refill_at (refill_policy now p)) \<le> unat now"
    and "15 * unat (sp_available_permits (refill_policy now p)) + unat (sp_last_refill_at p)
      \<le> 15 * unat (sp_available_permits p) + unat (sp_last_refill_at (refill_policy now p))"
proof -
  let ?e = "unat now - unat (sp_last_refill_at p)"
  let ?refill = "sat_sub now (sp_last_refill_at p) div SENDER_POLICY_REFILL_SECS"
  have refill: "unat ?refill = ?e div 15"
    by (simp add: unat_div sat_sub_unat SENDER_POLICY_REFILL_SECS_def)
  have now: "unat now < 2 ^ 64" using unsigned_less [of now] by simp
  have product: "unat (sat_mul ?refill SENDER_POLICY_REFILL_SECS) = ?e div 15 * 15"
  proof -
    have "?e div 15 * 15 \<le> 2 ^ 64 - 1" using now by simp
    then show ?thesis unfolding unat_sat_mul refill by (simp add: SENDER_POLICY_REFILL_SECS_def)
  qed
  have last: "unat (sat_add (sp_last_refill_at p) (sat_mul ?refill SENDER_POLICY_REFILL_SECS))
      = unat (sp_last_refill_at p) + ?e div 15 * 15"
  proof -
    have "?e div 15 * 15 \<le> ?e" by simp
    then have "unat (sp_last_refill_at p) + ?e div 15 * 15 \<le> 2 ^ 64 - 1" using now assms by linarith
    then show ?thesis unfolding unat_sat_add product by simp
  qed
  have "unat (ucast (min ?refill 255) :: u8) \<le> ?e div 15"
  proof -
    have "unat (ucast (min ?refill 255) :: u8) \<le> unat (min ?refill 255)"
      by (simp add: unsigned_ucast_eq take_bit_nat_less_eq_self)
    also have "\<dots> \<le> ?e div 15" unfolding unat_min refill by simp
    finally show ?thesis .
  qed
  then have permits: "unat (min (sat_add (sp_available_permits p) (ucast (min ?refill 255))) SENDER_POLICY_BURST)
      \<le> unat (sp_available_permits p) + ?e div 15"
    by (simp add: unat_min unat_sat_add)
  show "unat (sp_last_refill_at p) \<le> unat (sp_last_refill_at (refill_policy now p))"
    "unat (sp_last_refill_at (refill_policy now p)) \<le> unat now"
    "15 * unat (sp_available_permits (refill_policy now p)) + unat (sp_last_refill_at p)
      \<le> 15 * unat (sp_available_permits p) + unat (sp_last_refill_at (refill_policy now p))"
    using last permits assms by (auto simp: refill_policy_def Let_def)
qed

section \<open>The invariant of the buckets\<close>

text \<open>After \<open>granted\<close> deliveries of the sender up to time \<open>t\<close>, in a run that began at \<open>t0\<close>: its bucket and
  the deliveries together are paid for by the burst and the time until the last refill; a sender
  without a bucket has had no more than the time alone pays for.\<close>

definition paid :: "nat \<Rightarrow> nat \<Rightarrow> nat \<Rightarrow> sender_policy \<Rightarrow> bool" where
  "paid t0 granted t p \<longleftrightarrow> t0 \<le> unat (sp_last_refill_at p) \<and> unat (sp_last_refill_at p) \<le> t
    \<and> t0 + 15 * (granted + unat (sp_available_permits p)) \<le> 120 + unat (sp_last_refill_at p)"

definition buckets_ok :: "utf8 \<Rightarrow> nat \<Rightarrow> nat \<Rightarrow> nat \<Rightarrow> sender_policy list \<Rightarrow> bool" where
  "buckets_ok sender t0 granted t ps \<longleftrightarrow>
    distinct (map sp_authenticated_sender ps)
    \<and> (\<forall>p\<in>set ps. sp_authenticated_sender p = sender \<longrightarrow> paid t0 granted t p)
    \<and> (sender \<notin> sp_authenticated_sender ` set ps \<longrightarrow> t0 + 15 * granted \<le> t)"

lemma paid_bound: "paid t0 granted t p \<Longrightarrow> t0 + 15 * granted \<le> 120 + t"
  by (simp add: paid_def)

lemma buckets_ok_bound: "buckets_ok sender t0 granted t ps \<Longrightarrow> t0 + 15 * granted \<le> 120 + t"
  by (cases "sender \<in> sp_authenticated_sender ` set ps") (auto simp: buckets_ok_def dest: paid_bound)

lemma paid_arith:
  "t0 + 15 * (g + a) \<le> 120 + l \<Longrightarrow> 15 * a' + l \<le> 15 * a + l' \<Longrightarrow> t0 + 15 * (g + a') \<le> 120 + (l' :: nat)"
  by (simp add: algebra_simps)

lemma paid_refill:
  assumes "paid t0 granted t p" and "t \<le> unat now"
  shows "paid t0 granted (unat now) (refill_policy now p)"
proof -
  have p: "t0 \<le> unat (sp_last_refill_at p)" "unat (sp_last_refill_at p) \<le> unat now"
    "t0 + 15 * (granted + unat (sp_available_permits p)) \<le> 120 + unat (sp_last_refill_at p)"
    using assms by (simp_all add: paid_def)
  note b = refill_policy_bounds [OF p(2)]
  show ?thesis unfolding paid_def
    using le_trans [OF p(1) b(1)] b(2) paid_arith [OF p(3) b(3)] by blast
qed

lemma buckets_ok_refill:
  assumes "buckets_ok sender t0 granted t ps" and "t \<le> unat now"
  shows "buckets_ok sender t0 granted (unat now) (map (refill_policy now) ps)"
  using assms paid_refill [OF _ assms(2)]
  by (auto simp: buckets_ok_def o_def image_image)

lemma paid_less:
  assumes "paid t0 granted t q" and "sp_last_refill_at p = sp_last_refill_at q"
    and "granted' + unat (sp_available_permits p) \<le> granted + unat (sp_available_permits q)"
  shows "paid t0 granted' t p"
  using assms by (simp add: paid_def)

text \<open>A bucket of another sender may change, and one of the sender may pay for deliveries.\<close>

lemma buckets_ok_update:
  assumes ok: "buckets_ok sender t0 granted t ps" and i: "i < length ps"
    and same: "sp_authenticated_sender p = sp_authenticated_sender (ps ! i)"
      "sp_last_refill_at p = sp_last_refill_at (ps ! i)"
    and paying: "if sp_authenticated_sender (ps ! i) = sender
      then granted' + unat (sp_available_permits p) \<le> granted + unat (sp_available_permits (ps ! i))
      else granted' = granted"
  shows "buckets_ok sender t0 granted' t (ps[i := p])"
proof -
  have senders: "map sp_authenticated_sender (ps[i := p]) = map sp_authenticated_sender ps"
    using i same(1) by (simp add: map_update list_update_same_conv)
  then have set_senders: "sp_authenticated_sender ` set (ps[i := p]) = sp_authenticated_sender ` set ps"
    by (metis list.set_map)
  have distinct: "distinct (map sp_authenticated_sender ps)" using ok by (simp add: buckets_ok_def)
  have "paid t0 granted' t q" if "q \<in> set (ps[i := p])" "sp_authenticated_sender q = sender" for q
  proof -
    from that(1) obtain j where "j < length (ps[i := p])" "ps[i := p] ! j = q"
      unfolding in_set_conv_nth by (elim exE conjE)
    then have j: "j < length ps" "q = ps[i := p] ! j" by (simp_all del: nth_list_update)
    show ?thesis
    proof (cases "j = i")
      case True
      then have q: "q = p" using j i by simp
      then have own: "sp_authenticated_sender (ps ! i) = sender" using that(2) same(1) by simp
      then have "paid t0 granted t (ps ! i)" using ok i by (simp add: buckets_ok_def)
      then show ?thesis
        unfolding q by (rule paid_less [OF _ same(2)]) (use paying own in simp)
    next
      case False
      then have q: "q = ps ! j" using j by simp
      have "sp_authenticated_sender (ps ! i) \<noteq> sender"
        using distinct i j(1) q that(2) False by (metis length_map nth_eq_iff_index_eq nth_map)
      then show ?thesis using ok paying j(1) q that(2) by (simp add: buckets_ok_def)
    qed
  qed
  moreover have "t0 + 15 * granted' \<le> t" if absent: "sender \<notin> sp_authenticated_sender ` set ps"
  proof -
    have "sp_authenticated_sender (ps ! i) \<noteq> sender" using absent i by (metis imageI nth_mem)
    then show ?thesis using ok absent paying by (simp add: buckets_ok_def)
  qed
  ultimately show ?thesis
    using senders distinct by (simp add: buckets_ok_def set_senders)
qed

text \<open>Adding a full bucket, and giving one up.\<close>

lemma buckets_ok_new:
  assumes "buckets_ok sender t0 granted (unat now) ps" and "s \<notin> sp_authenticated_sender ` set ps"
    and "t0 \<le> unat now"
  shows "buckets_ok sender t0 granted (unat now) (ps @ [new_policy scope s now])"
  using assms
  by (auto simp: buckets_ok_def paid_def new_policy_def SENDER_POLICY_BURST_def)

lemma buckets_ok_remove:
  assumes ok: "buckets_ok sender t0 granted t ps" and i: "i < length ps"
    and full: "sp_available_permits (ps ! i) = SENDER_POLICY_BURST"
  shows "buckets_ok sender t0 granted t (take i ps @ drop (Suc i) ps)"
proof -
  have split: "ps = take i ps @ ps ! i # drop (Suc i) ps" using i by (rule id_take_nth_drop)
  then have set_ps: "set ps = insert (ps ! i) (set (take i ps @ drop (Suc i) ps))" by (metis Un_insert_right list.simps(15) set_append)
  have "distinct (map sp_authenticated_sender (take i ps @ drop (Suc i) ps))"
    using ok unfolding buckets_ok_def by (subst (asm) split) auto
  moreover have "t0 + 15 * granted \<le> t" if "sender \<notin> sp_authenticated_sender ` set (take i ps @ drop (Suc i) ps)"
  proof (cases "sp_authenticated_sender (ps ! i) = sender")
    case True
    then have "paid t0 granted t (ps ! i)" using ok i by (simp add: buckets_ok_def)
    then show ?thesis using full by (simp add: paid_def SENDER_POLICY_BURST_def)
  next
    case False
    with that have "sender \<notin> sp_authenticated_sender ` set ps" by (simp add: set_ps)
    then show ?thesis using ok by (simp add: buckets_ok_def)
  qed
  moreover have "set (take i ps @ drop (Suc i) ps) \<subseteq> set ps" using set_ps by blast
  ultimately show ?thesis using ok unfolding buckets_ok_def by blast
qed

lemma buckets_ok_later:
  "buckets_ok sender t0 granted t ps \<Longrightarrow> t \<le> t' \<Longrightarrow> buckets_ok sender t0 granted t' ps"
  by (auto simp: buckets_ok_def paid_def)

section \<open>What the repository does to the buckets\<close>

lemma outcome_on_disk [outcome_simps]:
  "outcome (on_disk call) w Q \<longleftrightarrow>
    outcome call (qw_disk w) (\<lambda>r d. Q (map_err (\<lambda>_. Io) r) (w\<lparr> qw_disk := d \<rparr>))"
  by (simp add: outcome_def on_disk_def split: prod.split)

lemma outcome_draw [outcome_simps]:
  "outcome (draw_nonce lib) w Q \<longleftrightarrow>
    Q (Ok (ql_nonce lib (qw_draws w))) (w\<lparr> qw_draws := Suc (qw_draws w) \<rparr>)"
  by (simp add: outcome_def draw_nonce_def)

text \<open>An action that leaves the memory (storage root and snapshot) alone.\<close>

definition memory :: "quarantine_world \<Rightarrow> path option \<times> quarantine_snapshot" where
  "memory w = (qw_root w, qw_snapshot w)"

definition keeps_memory :: "'a repo_action \<Rightarrow> bool" where
  "keeps_memory m \<longleftrightarrow> (\<forall>w. memory (snd (m w)) = memory w)"

named_theorems keeping \<open>actions that leave the memory alone\<close>

lemma keeps_seq [keeping]:
  assumes "keeps_memory m" and "\<And>x. keeps_memory (f x)"
  shows "keeps_memory (seq m f)"
  unfolding keeps_memory_def
proof
  fix w
  obtain r w' where run: "m w = (r, w')" by (cases "m w")
  then have same: "memory w' = memory w" using assms(1) unfolding keeps_memory_def by (metis snd_conv)
  show "memory (snd (seq m f w)) = memory w"
  proof (cases r)
    case (Ok x)
    have "memory (snd (f x w')) = memory w'" using assms(2) unfolding keeps_memory_def by blast
    with Ok run same show ?thesis by (simp add: seq_def)
  qed (use run same in \<open>simp_all add: seq_def\<close>)
qed

lemma keeps_base [keeping]:
  "keeps_memory (pure r)" "keeps_memory (inspect g)" "keeps_memory (on_disk call)"
  "keeps_memory (draw_nonce lib)"
  by (simp_all add: keeps_memory_def memory_def pure_def inspect_def on_disk_def draw_nonce_def
      split: prod.split)

lemma keeps_persist [keeping]: "keeps_memory (persist lib repo)"
  unfolding persist_def atomic_write_def Let_def by (intro keeping) (auto intro: keeping)

lemma keeps_seal [keeping]: "keeps_memory (seal_envelope lib repo i envelope)"
  unfolding seal_envelope_def by (intro keeping)

lemma keeps_memoryD: "keeps_memory m \<Longrightarrow> outcome m w (\<lambda>r w'. memory w' = memory w)"
  unfolding keeps_memory_def outcome_def by (metis (mono_tags, lifting) case_prod_beta)

lemma keepsD: "keeps_memory m \<Longrightarrow> outcome m w (\<lambda>r w'. qw_snapshot w' = qw_snapshot w)"
  by (rule outcome_weaken [OF keeps_memoryD]) (simp_all add: memory_def)

lemma commit_outcome: "outcome (commit lib repo sn) w (\<lambda>r w'. qw_snapshot w' = sn)"
  unfolding commit_def outcome_seq outcome_modify
  by (simp, rule outcome_weaken [OF keepsD [OF keeps_persist]]) simp

lemma append_record_outcome:
  "outcome (append_quarantine_record lib repo sn i obs envelope reason now) w
    (\<lambda>r w'. qw_snapshot w' = qw_snapshot w
      \<and> (\<forall>sn'. r = Ok sn' \<longrightarrow> sn_sender_policies sn' = sn_sender_policies sn))"
proof -
  have seal: "outcome (seal_envelope lib repo i envelope) w
      (\<lambda>r w'. qw_snapshot w' = qw_snapshot w)" for w
    by (rule keepsD [OF keeps_seal])
  show ?thesis
    unfolding append_quarantine_record_def Let_def outcome_seq [of "pure _"] outcome_pure
    by (auto simp: outcome_simps(2) split: result.split option.split
        intro!: outcome_seqI [OF seal])
qed

lemma least_by_mem: "least_by f xs = Some x \<Longrightarrow> x \<in> set xs"
  unfolding least_by_def by (metis list.case_eq_if list.set_sel(1) option.distinct(1) option.inject set_sort)

lemma find_or_add_keeps_ok:
  assumes found: "find_or_add_policy repo sn s now = Ok (i, sn')"
    and ok: "buckets_ok sender t0 granted (unat now) (sn_sender_policies sn)" and "t0 \<le> unat now"
  shows "buckets_ok sender t0 granted (unat now) (sn_sender_policies sn')
    \<and> i < length (sn_sender_policies sn') \<and> sp_authenticated_sender (sn_sender_policies sn' ! i) = s"
proof (cases "position (\<lambda>p. sp_authenticated_sender p = s) (sn_sender_policies sn)")
  case (Some j)
  with found ok position_SomeD [OF Some] show ?thesis by (simp add: find_or_add_policy_def)
next
  case None
  then have absent: "s \<notin> sp_authenticated_sender ` set (sn_sender_policies sn)"
    by (auto simp: position_None)
  from None found obtain sn1 where cap: "make_sender_policy_capacity sn = Ok sn1"
    and i: "i = length (sn_sender_policies sn1)"
    and sn': "sn' = sn1\<lparr> sn_sender_policies := sn_sender_policies sn1 @ [new_policy (rp_scope repo) s now] \<rparr>"
    by (auto simp: find_or_add_policy_def)
  have "buckets_ok sender t0 granted (unat now) (sn_sender_policies sn1)
    \<and> set (sn_sender_policies sn1) \<subseteq> set (sn_sender_policies sn)"
  proof (cases "length (sn_sender_policies sn) < MAX_POLICY_SENDERS")
    case True
    with cap ok show ?thesis by (simp add: make_sender_policy_capacity_def)
  next
    case False
    let ?ps = "sn_sender_policies sn"
    from False cap obtain j where "least_by (\<lambda>i. sp_last_activity_at (?ps ! i))
        (filter (\<lambda>i. removable_policy sn (?ps ! i)) [0..<length ?ps]) = Some j"
      and sn1: "sn1 = sn\<lparr> sn_sender_policies := take j ?ps @ drop (Suc j) ?ps \<rparr>"
      by (auto simp: make_sender_policy_capacity_def Let_def split: option.splits)
    then have "j \<in> set (filter (\<lambda>i. removable_policy sn (?ps ! i)) [0..<length ?ps])"
      by (metis least_by_mem)
    then have "j < length ?ps" "sp_available_permits (?ps ! j) = SENDER_POLICY_BURST"
      by (auto simp: removable_policy_def)
    from buckets_ok_remove [OF ok this] show ?thesis
      by (simp add: sn1) (meson in_set_dropD in_set_takeD subsetI)
  qed
  then show ?thesis
    using buckets_ok_new [of sender t0 granted now "sn_sender_policies sn1" s] absent assms(3)
    by (auto simp: sn' i new_policy_def nth_append)
qed

abbreviation policies_of :: "quarantine_world \<Rightarrow> sender_policy list" where
  "policies_of w \<equiv> sn_sender_policies (qw_snapshot w)"

lemma commit_decision:
  assumes "\<And>r w'. qw_snapshot w' = sn \<Longrightarrow> r = Ok d \<or> (\<forall>x. r \<noteq> Ok x) \<Longrightarrow> Q r w'"
  shows "outcome (seq (commit lib repo sn) (\<lambda>_. pure (Ok d))) w Q"
  by (rule outcome_seqI [OF commit_outcome]) (use assms in \<open>auto simp: outcome_pure\<close>)

lemma buckets_ok_touch:
  assumes "buckets_ok sender t0 granted t (sn_sender_policies sn)" and "i < length (sn_sender_policies sn)"
  shows "buckets_ok sender t0 granted t (sn_sender_policies (touch_policy i now sn))"
  unfolding touch_policy_def by simp (rule buckets_ok_update [OF assms]; simp)

lemma buckets_ok_charge:
  assumes ok: "buckets_ok sender t0 granted t (sn_sender_policies sn)" and i: "i < length (sn_sender_policies sn)"
    and s: "sp_authenticated_sender (sn_sender_policies sn ! i) = s"
    and permits: "sp_available_permits (sn_sender_policies sn ! i) \<noteq> 0"
  shows "buckets_ok sender t0 (granted + (if s = sender then 1 else 0)) t
      (sn_sender_policies (charge_policy i item now sn))"
    and "buckets_ok sender t0 granted t (sn_sender_policies (charge_policy i item now sn))"
proof -
  have dec: "Suc (unat (sp_available_permits (sn_sender_policies sn ! i) - 1))
      = unat (sp_available_permits (sn_sender_policies sn ! i))"
  proof -
    have "0 < unat (sp_available_permits (sn_sender_policies sn ! i))"
      using permits by (simp add: unat_gt_0)
    moreover from this have "1 \<le> sp_available_permits (sn_sender_policies sn ! i)"
      by (simp add: word_le_nat_alt)
    ultimately show ?thesis by (simp add: unat_sub)
  qed
  have "buckets_ok sender t0 granted' t (sn_sender_policies (charge_policy i item now sn))"
    if "granted' = granted + (if s = sender then 1 else 0) \<or> granted' = granted" for granted'
  proof -
    let ?p = "(sn_sender_policies sn ! i)\<lparr> sp_available_permits := sp_available_permits (sn_sender_policies sn ! i) - 1,
        sp_last_activity_at := now, sp_charged_events := sort_key ce_adapter_event_id
          (sp_charged_events (sn_sender_policies sn ! i)
            @ [\<lparr> ce_adapter_event_id = item, ce_charged_at = now \<rparr>]) \<rparr>"
    have "sn_sender_policies (charge_policy i item now sn) = (sn_sender_policies sn)[i := ?p]"
      by (simp add: charge_policy_def Let_def)
    moreover have "buckets_ok sender t0 granted' t ((sn_sender_policies sn)[i := ?p])"
      by (rule buckets_ok_update [OF ok i]) (use that s dec in auto)
    ultimately show ?thesis by simp
  qed
  then show "buckets_ok sender t0 (granted + (if s = sender then 1 else 0)) t
      (sn_sender_policies (charge_policy i item now sn))"
    "buckets_ok sender t0 granted t (sn_sender_policies (charge_policy i item now sn))"
    by blast+
qed

lemma apply_keeps_buckets:
  fixes envelope :: delivery_envelope
  assumes ok: "buckets_ok sender t0 granted t (policies_of w)" and now: "t \<le> unat now" "t0 \<le> unat now"
  shows "outcome (apply_sender_policy lib repo i obs envelope now) w
    (\<lambda>r w'. buckets_ok sender t0
        (granted + (if r = Ok Permit \<and> encode_hex (bytes (en_from envelope)) = sender then 1 else 0))
        (unat now) (policies_of w'))"
    (is "outcome _ _ ?Q")
proof -
  let ?s = "encode_hex (bytes (en_from envelope))"
  let ?sn = "maintain_sender_policy_state (qw_snapshot w) now"
  have kept: "buckets_ok sender t0 granted (unat now) (policies_of w)"
    by (rule buckets_ok_later [OF ok now(1)])
  have refilled: "buckets_ok sender t0 granted (unat now) (sn_sender_policies ?sn)"
    using buckets_ok_refill [OF ok now(1)] by (simp add: maintain_sender_policy_state_def)
  have failed: "?Q r w'" if "qw_snapshot w' = qw_snapshot w" "\<And>d. r \<noteq> Ok d"
    for r :: "(quarantine_error, sender_ingress_decision) result" and w' :: quarantine_world
    using kept that by simp
  have not_permit: "?Q r w'"
    if "buckets_ok sender t0 granted (unat now) (policies_of w')" "r = Ok d \<or> (\<forall>x. r \<noteq> Ok x)" "d \<noteq> Permit"
    for r :: "(quarantine_error, sender_ingress_decision) result" and w' :: quarantine_world and d
    using that by auto
  have limited: "outcome (seq (append_quarantine_record lib repo sn i obs envelope reason now)
      (\<lambda>sn. seq (commit lib repo (g sn)) (\<lambda>_. pure (Ok Quarantined)))) w ?Q"
    if "\<And>sn' :: quarantine_snapshot. sn_sender_policies sn' = sn_sender_policies sn \<Longrightarrow>
        buckets_ok sender t0 granted (unat now) (sn_sender_policies (g sn'))" for g reason and sn :: quarantine_snapshot
  proof (rule outcome_seqI [OF append_record_outcome])
    fix sn' :: quarantine_snapshot and w' :: quarantine_world
    assume "qw_snapshot w' = qw_snapshot w \<and> (\<forall>sn''. Ok sn' = Ok sn'' \<longrightarrow>
        sn_sender_policies sn'' = sn_sender_policies sn)"
    then have "buckets_ok sender t0 granted (unat now) (sn_sender_policies (g sn'))" using that by simp
    then show "outcome (seq (commit lib repo (g sn')) (\<lambda>_. pure (Ok Quarantined))) w' ?Q"
      by (intro commit_decision not_permit) auto
  qed (rule failed; simp)+
  have bucket: "outcome (let policy = sn_sender_policies sn ! j in
      if list_ex (\<lambda>c. ce_adapter_event_id c = i) (sp_charged_events policy)
      then seq (commit lib repo (touch_policy j now sn)) (\<lambda>_. pure (Ok AlreadyCharged))
      else if sp_available_permits policy = 0
      then seq (append_quarantine_record lib repo sn i obs envelope (ascii ''sender_rate_limited'') now)
        (\<lambda>sn. seq (commit lib repo (touch_policy j now sn)) (\<lambda>_. pure (Ok Quarantined)))
      else seq (pure (ensure_charge_evidence_capacity lib sn j)) (\<lambda>_.
           seq (commit lib repo (charge_policy j i now sn)) (\<lambda>_. pure (Ok Permit)))) w ?Q"
    if found: "find_or_add_policy repo ?sn ?s now = Ok (j, sn)" for j sn
  proof -
    have sn: "buckets_ok sender t0 granted (unat now) (sn_sender_policies sn)" "j < length (sn_sender_policies sn)"
      "sp_authenticated_sender (sn_sender_policies sn ! j) = ?s"
      using find_or_add_keeps_ok [OF found refilled now(2)] by simp_all
    have touch: "buckets_ok sender t0 granted (unat now) (sn_sender_policies (touch_policy j now sn'))"
      if "sn_sender_policies sn' = sn_sender_policies sn" for sn' :: quarantine_snapshot
      using buckets_ok_touch [of sender t0 granted "unat now" sn'] sn(1,2) that by simp
    have replayed: "outcome (seq (commit lib repo (touch_policy j now sn)) (\<lambda>_. pure (Ok AlreadyCharged))) w ?Q"
      using touch [OF refl] by (intro commit_decision not_permit) auto
    have permit: "outcome (seq (pure (ensure_charge_evidence_capacity lib sn j)) (\<lambda>_.
        seq (commit lib repo (charge_policy j i now sn)) (\<lambda>_. pure (Ok Permit)))) w ?Q"
      if "sp_available_permits (sn_sender_policies sn ! j) \<noteq> 0"
    proof (cases "ensure_charge_evidence_capacity lib sn j")
      case (Ok u)
      have "outcome (seq (commit lib repo (charge_policy j i now sn)) (\<lambda>_. pure (result.Ok Permit))) w ?Q"
        using buckets_ok_charge [OF sn(1,2,3) that] by (intro commit_decision) (auto split: if_splits)
      then show ?thesis by (simp add: Ok)
    qed (simp_all add: outcome_seq outcome_pure kept)
    show ?thesis
      using replayed permit limited [OF touch] by (simp add: Let_def)
  qed
  have found: "outcome (seq (pure (find_or_add_policy repo ?sn ?s now)) f) w ?Q"
    if "\<And>j sn. find_or_add_policy repo ?sn ?s now = Ok (j, sn) \<Longrightarrow> outcome (f (j, sn)) w ?Q" for f
    using that kept
    by (cases "find_or_add_policy repo ?sn ?s now") (auto simp: outcome_seq outcome_pure)
  have known: "outcome (seq (append_quarantine_record lib repo ?sn i obs envelope reason now)
      (\<lambda>sn. seq (commit lib repo sn) (\<lambda>_. pure (Ok Quarantined)))) w ?Q" for reason
    using limited [of ?sn id] refilled by simp
  show ?thesis
  proof (cases "validate_event_id i")
    case (Ok u)
    show ?thesis
      unfolding apply_sender_policy_def Ok Let_def seq_pure_Ok outcome_seq [of "inspect _"] outcome_inspect
        result.case
      using known by (cases "list_ex (\<lambda>r. qr_adapter_event_id r = i) (sn_records ?sn)")
        (simp, simp only: if_False, rule found, use bucket in \<open>simp add: Let_def\<close>)
  qed (simp_all add: apply_sender_policy_def outcome_seq outcome_pure kept)
qed

text \<open>The other operations leave the buckets alone.\<close>

definition keeps_policies :: "'a repo_action \<Rightarrow> bool" where
  "keeps_policies m \<longleftrightarrow> (\<forall>w. outcome m w (\<lambda>r w'. policies_of w' = policies_of w))"

lemma commit_policies:
  "sn_sender_policies sn = policies_of w \<Longrightarrow> outcome (commit lib repo sn) w (\<lambda>r w'. policies_of w' = policies_of w)"
  by (rule outcome_weaken [OF commit_outcome]) simp

lemma append_tombstone_policies:
  "append_tombstone lib sn r reason now = Ok sn' \<Longrightarrow> sn_sender_policies sn' = sn_sender_policies sn"
  by (auto simp: append_tombstone_def Let_def split: if_splits)

lemma remove_record_policies [simp]: "sn_sender_policies (remove_record i sn) = sn_sender_policies sn"
  by (simp add: remove_record_def)

lemma expire_each_policies:
  "expire_each lib sn now ids = Ok sn' \<Longrightarrow> sn_sender_policies sn' = sn_sender_policies sn"
  by (induction ids arbitrary: sn) (auto dest!: append_tombstone_policies)

lemma quarantine_policies: "keeps_policies (quarantine lib repo i obs envelope reason now)"
  unfolding keeps_policies_def quarantine_def outcome_seq [of "inspect _"] outcome_inspect result.case
proof
  fix w
  show "outcome (seq (append_quarantine_record lib repo (qw_snapshot w) i obs envelope reason now)
      (commit lib repo)) w (\<lambda>r w'. policies_of w' = policies_of w)"
  proof (rule outcome_seqI [OF append_record_outcome])
    fix sn :: quarantine_snapshot and w1 :: quarantine_world
    assume a: "qw_snapshot w1 = qw_snapshot w \<and> (\<forall>sn'. Ok sn = Ok sn' \<longrightarrow> sn_sender_policies sn' = policies_of w)"
    then show "outcome (commit lib repo sn) w1 (\<lambda>r w'. policies_of w' = policies_of w)"
      using commit_policies [of sn w1 lib repo] by simp
  qed simp_all
qed

lemma expire_due_policies: "keeps_policies (expire_due lib repo now)"
proof -
  have counted: "outcome (seq (commit lib repo sn) (\<lambda>_. pure (Ok n))) w (\<lambda>r w'. policies_of w' = ps)"
    if "sn_sender_policies sn = ps" for sn w ps and n :: nat
    by (rule outcome_seqI [OF commit_outcome]) (use that in \<open>simp_all add: outcome_pure\<close>)
  show ?thesis
    unfolding keeps_policies_def expire_due_def Let_def
    by (auto simp: outcome_simps(2,3,4) outcome_seq [of "inspect _"] outcome_seq [of "modify _"]
        outcome_seq [of "pure _"] dest: expire_each_policies intro!: counted split: result.split)
qed

lemma mark_consumed_policies: "keeps_policies (mark_consumed lib repo i now)"
  unfolding keeps_policies_def mark_consumed_def
  using commit_policies
  by (auto simp: outcome_simps(2,3,4) outcome_seq [of "inspect _"] outcome_seq [of "pure _"]
      dest: append_tombstone_policies split: result.split)

lemma mark_retry_policies: "keeps_policies (mark_retry lib repo i now)"
  unfolding keeps_policies_def mark_retry_def
  using outcome_weaken [OF keepsD [OF keeps_persist]]
  by (auto simp: outcome_simps(2,3,4) outcome_seq [of "inspect _"] outcome_seq [of "modify _"]
      split: result.split)

section \<open>Runs\<close>

text \<open>The calls a repository receives while it is open.\<close>

datatype repo_call =
    ApplyPolicy utf8 "utf8 list" delivery_envelope (apply_now: u64)
  | QuarantineItem utf8 "utf8 list" delivery_envelope utf8 u64
  | ExpireDue u64
  | MarkConsumed utf8 u64
  | MarkRetry utf8 u64

text \<open>The deliveries of a sender that a run permits, and the world it ends in.\<close>

fun permitted ::
  "quarantine_lib \<Rightarrow> repository \<Rightarrow> utf8 \<Rightarrow> repo_call list \<Rightarrow> quarantine_world \<Rightarrow> nat" where
  "permitted lib repo sender [] w = 0"
| "permitted lib repo sender (ApplyPolicy i obs envelope now # calls) w =
    (case apply_sender_policy lib repo i obs envelope now w of (r, w') \<Rightarrow>
       (if r = Ok Permit \<and> encode_hex (bytes (en_from envelope)) = sender then 1 else 0)
       + permitted lib repo sender calls w')"
| "permitted lib repo sender (QuarantineItem i obs envelope reason now # calls) w =
    permitted lib repo sender calls (snd (quarantine lib repo i obs envelope reason now w))"
| "permitted lib repo sender (ExpireDue now # calls) w =
    permitted lib repo sender calls (snd (expire_due lib repo now w))"
| "permitted lib repo sender (MarkConsumed i now # calls) w =
    permitted lib repo sender calls (snd (mark_consumed lib repo i now w))"
| "permitted lib repo sender (MarkRetry i now # calls) w =
    permitted lib repo sender calls (snd (mark_retry lib repo i now w))"

definition policy_times :: "repo_call list \<Rightarrow> nat list" where
  "policy_times calls = map (\<lambda>c. unat (apply_now c)) (filter (\<lambda>c. case c of ApplyPolicy _ _ _ _ \<Rightarrow> True | _ \<Rightarrow> False) calls)"

lemma keeps_policies_snd: "keeps_policies m \<Longrightarrow> policies_of (snd (m w)) = policies_of w"
  unfolding keeps_policies_def outcome_def by (metis (mono_tags, lifting) case_prod_beta)

lemma permitted_bound:
  assumes "buckets_ok sender t0 granted t (policies_of w)" and "t0 \<le> t" and "t \<le> t1"
    and "sorted (t # policy_times calls)" and "set (policy_times calls) \<subseteq> {..t1}"
  shows "t0 + 15 * (granted + permitted lib repo sender calls w) \<le> 120 + t1"
  using assms
proof (induction calls arbitrary: granted t w)
  case Nil
  then show ?case using buckets_ok_bound [of sender t0 granted t] by fastforce
next
  case (Cons c calls)
  show ?case
  proof (cases c)
    case (ApplyPolicy i obs envelope now)
    let ?m = "apply_sender_policy lib repo i obs envelope now"
    obtain r w' where run: "?m w = (r, w')" by (cases "?m w")
    let ?n = "if r = Ok Permit \<and> encode_hex (bytes (en_from envelope)) = sender then 1 else 0"
    have times: "policy_times (c # calls) = unat now # policy_times calls"
      by (simp add: policy_times_def ApplyPolicy)
    have "t \<le> unat now" "unat now \<le> t1" using Cons.prems(4,5) by (simp_all add: times)
    moreover from this have "buckets_ok sender t0 (granted + ?n) (unat now) (policies_of w')"
      using outcomeD [OF apply_keeps_buckets [OF Cons.prems(1)] run] Cons.prems(2) by simp
    ultimately have "t0 + 15 * ((granted + ?n) + permitted lib repo sender calls w') \<le> 120 + t1"
      using Cons.prems(2,4,5) by (intro Cons.IH) (auto simp: times)
    then show ?thesis by (simp add: ApplyPolicy run add.assoc)
  next
    case (QuarantineItem i obs envelope reason now)
    with Cons show ?thesis
      by (simp add: policy_times_def keeps_policies_snd [OF quarantine_policies])
  next
    case (ExpireDue now)
    with Cons show ?thesis by (simp add: policy_times_def keeps_policies_snd [OF expire_due_policies])
  next
    case (MarkConsumed i now)
    with Cons show ?thesis by (simp add: policy_times_def keeps_policies_snd [OF mark_consumed_policies])
  next
    case (MarkRetry i now)
    with Cons show ?thesis by (simp add: policy_times_def keeps_policies_snd [OF mark_retry_policies])
  qed
qed

text \<open>C23: Over any run of the repository with a clock that does not go back, a sender that starts without a
  bucket is permitted at most eight deliveries and one for every fifteen seconds of the run, whatever
  the other calls are and however they fail.\<close>

theorem sender_rate_bounded:
  assumes "sorted (t0 # policy_times calls @ [t1])"
    and "distinct (map sp_authenticated_sender (policies_of w))"
    and "sender \<notin> sp_authenticated_sender ` set (policies_of w)"
  shows "permitted lib repo sender calls w \<le> 8 + (t1 - t0) div 15"
proof -
  have "buckets_ok sender t0 0 t0 (policies_of w)" using assms(2,3) by (auto simp: buckets_ok_def)
  moreover have "t0 \<le> t1" "sorted (t0 # policy_times calls)" "set (policy_times calls) \<subseteq> {..t1}"
    using assms(1) by (auto simp: sorted_append)
  ultimately have "t0 + 15 * (0 + permitted lib repo sender calls w) \<le> 120 + t1"
    by (intro permitted_bound) auto
  then have "15 * permitted lib repo sender calls w \<le> 15 * 8 + (t1 - t0)" using \<open>t0 \<le> t1\<close> by simp
  then have "15 * permitted lib repo sender calls w div 15 \<le> (15 * 8 + (t1 - t0)) div 15"
    by (rule div_le_mono)
  then show ?thesis by simp
qed

text \<open>A small instance of the parameters: codecs for one snapshot and one delivery.\<close>

definition sample_scope :: quarantine_scope where
  "sample_scope = scope_for_runtime (bytes (bfill 1 :: b32)) 0 (bytes (bfill 2 :: b32))"

definition sample_delivery :: delivery_envelope where
  "sample_delivery = \<lparr> en_schema_version = 1, en_from = bfill 3, en_to = bfill 2, en_kind = 7, en_payload = [9],
    en_timestamp = 100, en_correlation_id = Some (bfill 4), en_domain_event = None \<rparr>"

definition sample_quarantine :: quarantine_lib where
  "sample_quarantine = \<lparr> ql_crypto = sample_crypto, ql_nonce = (\<lambda>n. bfill (of_nat n)),
    ql_put_snapshot = (\<lambda>sn. Some [1]), ql_get_snapshot = (\<lambda>bs. Some (empty_snapshot sample_scope)),
    ql_get_legacy = (\<lambda>bs. None), ql_put_envelope = (\<lambda>se. Some [2]),
    ql_get_envelope = (\<lambda>bs. Some (stored_of_envelope sample_delivery)),
    ql_put_tombstones = (\<lambda>ts. Some []), ql_put_tombstone = (\<lambda>t. Some []), ql_put_policies = (\<lambda>ps. Some []) \<rparr>"

definition sample_repository :: repository where
  "sample_repository = \<lparr> rp_seed = KeySeed (bfill 9), rp_scope = sample_scope,
    rp_snapshot_path = scope_dir [] sample_scope @ [SNAPSHOT_FILE] \<rparr>"

definition sample_world :: quarantine_world where
  "sample_world = \<lparr> qw_root = Some [], qw_disk = \<lparr> dk_files = (\<lambda>p. None), dk_faults = [] \<rparr>, qw_draws = 0,
    qw_snapshot = empty_snapshot sample_scope \<rparr>"

theorem sender_rate_bounded_witness:
  "permitted sample_quarantine sample_repository (encode_hex (bytes (bfill 3 :: b32)))
     [ApplyPolicy (ascii ''a'') [] sample_delivery 10, MarkRetry (ascii ''a'') 12,
      ApplyPolicy (ascii ''b'') [] sample_delivery 25, ExpireDue 30]
     sample_world \<le> 9"
  using sender_rate_bounded [of 10 "[ApplyPolicy (ascii ''a'') [] sample_delivery 10, MarkRetry (ascii ''a'') 12,
      ApplyPolicy (ascii ''b'') [] sample_delivery 25, ExpireDue 30]" 30 sample_world]
  by (simp add: policy_times_def sample_world_def empty_snapshot_def)

end
