(* ===== verification/Quarantine_Store.thy ===== *)
theory Quarantine_Store
  imports Rate_Limit
begin

text \<open>
  The snapshot file of the inbound quarantine (platform/hivra-ffi/src/inbound\_quarantine.rs): what is on
  disk after a write that may fail at any call, what a repository reads when it is opened again, which
  snapshots are accepted, and that a quarantined delivery comes back as it was.
\<close>

section \<open>Writing the file\<close>

lemma snapshot_file_not_temp: "SNAPSHOT_FILE \<noteq> SNAPSHOT_TEMP_FILE"
  by (simp add: SNAPSHOT_FILE_def SNAPSHOT_TEMP_FILE_def ascii_def)

lemma temp_path_of: "temp_path (dir @ [f]) = dir @ [SNAPSHOT_TEMP_FILE]"
  by (simp add: temp_path_def)

text \<open>Calls that only touch the temporary file.\<close>

definition only_temp :: "path \<Rightarrow> disk \<Rightarrow> disk \<Rightarrow> bool" where
  "only_temp p d d' \<longleftrightarrow> (\<forall>q. q \<noteq> temp_path p \<longrightarrow> dk_files d' q = dk_files d q)"

definition temp_step :: "path \<Rightarrow> 'a fs_call \<Rightarrow> bool" where
  "temp_step p m \<longleftrightarrow> (\<forall>d. outcome m d (\<lambda>r d'. only_temp p d d'))"

lemma temp_steps:
  "temp_step p (fs_remove_file (temp_path p))" "temp_step p (fs_create_new (temp_path p))"
  "temp_step p (fs_write_all (temp_path p) bs)" "temp_step p (fs_sync_all q)"
  "temp_step p (fs_create_dir_all q)" "temp_step p (fs_read q)"
  unfolding temp_step_def fs_remove_file_def fs_create_new_def fs_write_all_def fs_sync_all_def
    fs_create_dir_all_def fs_read_def
  by (auto simp: outcome_fs_call outcome_simps only_temp_def split: prod.split option.split result.split)

text \<open>A write that fails leaves the file as it was; one that succeeds leaves the new content and no
  temporary file.\<close>

definition write_result :: "path \<Rightarrow> u8 list \<Rightarrow> disk \<Rightarrow> ('e, unit) result \<Rightarrow> disk \<Rightarrow> bool" where
  "write_result p bs d r d' \<longleftrightarrow>
    (if r = Ok () then dk_files d' = (dk_files d)(p := Some bs, temp_path p := None)
     else only_temp p d d')"

lemma only_temp_trans: "only_temp p d d1 \<Longrightarrow> only_temp p d1 d2 \<Longrightarrow> only_temp p d d2"
  by (simp add: only_temp_def)

lemma temp_stepD: "temp_step p m \<Longrightarrow> outcome m d (\<lambda>r d'. only_temp p d d')"
  by (simp add: temp_step_def)

lemma write_all_outcome:
  "outcome (fs_write_all q bs) d (\<lambda>r d'. r = Ok () \<longrightarrow> dk_files d' q = Some bs)"
  by (auto simp: fs_write_all_def outcome_fs_call outcome_simps split: prod.split option.split)

lemma sync_all_outcome: "outcome (fs_sync_all q) d (\<lambda>r d'. dk_files d' = dk_files d)"
  by (auto simp: fs_sync_all_def outcome_fs_call outcome_simps split: prod.split option.split)

lemma rename_outcome:
  "outcome (fs_rename q p) d (\<lambda>r d'. if r = Ok ()
     then \<exists>bs. dk_files d q = Some bs \<and> dk_files d' = (dk_files d)(p := Some bs, q := None)
     else dk_files d' = dk_files d)"
  by (cases "dk_files d q") (auto simp: fs_rename_def outcome_fs_call outcome_simps split: prod.split option.split)

lemma write_result_stop:
  "only_temp p d d' \<Longrightarrow> write_result p bs d (Err e) d'" "only_temp p d d' \<Longrightarrow> write_result p bs d Panic d'"
  by (simp_all add: write_result_def)

lemma temp_then:
  fixes m :: "unit fs_call" and w w1 :: quarantine_world and R :: "quarantine_world \<Rightarrow> bool"
  assumes before: "only_temp p d (qw_disk w1)" and step: "temp_step p m"
    and after: "\<And>x w2. only_temp p d (qw_disk w2) \<Longrightarrow> R w2 \<Longrightarrow>
      outcome (f x) w2 (\<lambda>r w'. write_result p bs d r (qw_disk w'))"
    and post: "outcome m (qw_disk w1) (\<lambda>r d'. \<forall>x. r = Ok x \<longrightarrow> R (w1\<lparr> qw_disk := d' \<rparr>))"
  shows "outcome (seq (on_disk m) f) w1 (\<lambda>r w'. write_result p bs d r (qw_disk w'))"
proof (rule outcome_seqI)
  show "outcome (on_disk m) w1 (\<lambda>r w2. only_temp p d (qw_disk w2) \<and> (\<forall>x. r = Ok x \<longrightarrow> R w2))"
    unfolding outcome_on_disk
    by (rule outcome_weaken [OF outcome_conj [OF temp_stepD [OF step] post]])
      (use only_temp_trans [OF before] in \<open>auto elim!: map_err.elims\<close>)
qed (use after write_result_stop in auto)

lemma atomic_write_outcome:
  assumes "temp_path p \<noteq> p"
  shows "outcome (atomic_write p bs) w (\<lambda>r w'. write_result p bs (qw_disk w) r (qw_disk w'))"
    (is "outcome _ _ ?Q")
proof -
  let ?temp = "temp_path p"
  have rename: "outcome (on_disk (fs_rename ?temp p)) w' ?Q"
    if "only_temp p (qw_disk w) (qw_disk w')" "dk_files (qw_disk w') ?temp = Some bs"
    for w' :: quarantine_world
    unfolding outcome_on_disk
    by (rule outcome_weaken [OF rename_outcome])
      (use that assms in \<open>auto simp: write_result_def only_temp_def fun_eq_iff split: if_splits elim!: map_err.elims\<close>)
  have from_create: "outcome (seq (on_disk (fs_create_new ?temp)) (\<lambda>_.
      seq (on_disk (fs_write_all ?temp bs)) (\<lambda>_. seq (on_disk (fs_sync_all ?temp)) (\<lambda>_.
       on_disk (fs_rename ?temp p))))) w' ?Q" if "only_temp p (qw_disk w) (qw_disk w')" for w' :: quarantine_world
  proof (rule temp_then [where R = "\<lambda>_. True", OF that temp_steps(2)])
    fix x and w1 :: quarantine_world
    assume w1: "only_temp p (qw_disk w) (qw_disk w1)"
    show "outcome (seq (on_disk (fs_write_all ?temp bs)) (\<lambda>_. seq (on_disk (fs_sync_all ?temp)) (\<lambda>_.
       on_disk (fs_rename ?temp p)))) w1 ?Q"
    proof (rule temp_then [where R = "\<lambda>w. dk_files (qw_disk w) ?temp = Some bs", OF w1 temp_steps(3)])
      fix x and w2 :: quarantine_world
      assume w2: "only_temp p (qw_disk w) (qw_disk w2)" "dk_files (qw_disk w2) ?temp = Some bs"
      show "outcome (seq (on_disk (fs_sync_all ?temp)) (\<lambda>_. on_disk (fs_rename ?temp p))) w2 ?Q"
        by (rule temp_then [where R = "\<lambda>w. dk_files (qw_disk w) ?temp = Some bs", OF w2(1) temp_steps(4)])
          (use rename w2(2) in \<open>auto intro: outcome_weaken [OF sync_all_outcome]\<close>)
    qed (rule outcome_weaken [OF write_all_outcome], simp)
  qed (simp add: outcome_def)
  have refl: "only_temp p (qw_disk w) (qw_disk w)" by (simp add: only_temp_def)
  show ?thesis
    unfolding atomic_write_def Let_def outcome_seq [of "inspect _"] outcome_inspect result.case
  proof (cases "fs_exists ?temp (qw_disk w)")
    case True
    show "outcome (seq (if fs_exists ?temp (qw_disk w) then on_disk (fs_remove_file ?temp) else pure (Ok ())) (\<lambda>_.
      seq (on_disk (fs_create_new ?temp)) (\<lambda>_.
      seq (on_disk (fs_write_all ?temp bs)) (\<lambda>_. seq (on_disk (fs_sync_all ?temp)) (\<lambda>_.
       on_disk (fs_rename ?temp p)))))) w ?Q"
      unfolding if_P [OF True]
      by (rule temp_then [where R = "\<lambda>_. True", OF refl temp_steps(1)])
        (use from_create in \<open>auto simp: outcome_def\<close>)
  qed (use from_create [OF refl] in simp)
qed

section \<open>Opening again\<close>

text \<open>A process that starts again: nothing in memory, no more faults.\<close>

definition restart :: "quarantine_world \<Rightarrow> quarantine_world" where
  "restart w = w\<lparr> qw_disk := (qw_disk w)\<lparr> dk_faults := [] \<rparr>, qw_snapshot := empty_snapshot \<lparr> qs_capsule_id = [],
    qs_network = 0, qs_transport_endpoint = [] \<rparr> \<rparr>"

definition reopened ::
  "quarantine_lib \<Rightarrow> repository \<Rightarrow> quarantine_world \<Rightarrow> (quarantine_error, quarantine_snapshot) result" where
  "reopened lib repo w =
    (case open_repository lib (rp_scope repo) (rp_seed repo) (restart w) of
       (Ok _, w') \<Rightarrow> Ok (qw_snapshot w') | (Err e, _) \<Rightarrow> Err e | (Panic, _) \<Rightarrow> Panic)"

definition read_content ::
  "quarantine_lib \<Rightarrow> repository \<Rightarrow> u8 list option \<Rightarrow> (quarantine_error, quarantine_snapshot) result" where
  "read_content lib repo content =
    (case content of
       None \<Rightarrow> Ok (empty_snapshot (rp_scope repo))
     | Some sealed \<Rightarrow>
         and_then (map_err (\<lambda>_. Crypto) (open_inbound_quarantine_snapshot (ql_crypto lib) (rp_seed repo)
           (snapshot_associated_data (rp_scope repo)) sealed)) (\<lambda>plaintext.
         case ql_get_snapshot lib plaintext of
           Some snapshot \<Rightarrow> Ok snapshot
         | None \<Rightarrow>
             and_then (ok_or (ql_get_legacy lib plaintext) Corrupt) (\<lambda>legacy.
               Ok \<lparr> sn_schema_version = ls_schema_version legacy, sn_scope = ls_scope legacy,
                    sn_records = ls_records legacy, sn_tombstones = ls_tombstones legacy,
                    sn_sender_policies = [] \<rparr>)))"

lemma no_faults:
  "dk_faults d = [] \<Longrightarrow> fs_call broken act d = act d"
  by (simp add: fs_call_def next_fault_def)

lemma cleanup_without_faults:
  assumes "dk_faults (qw_disk w) = []" and "temp_path p \<noteq> p"
  obtains w' where "cleanup_temp_file p w = (Ok (), w')" "dk_faults (qw_disk w') = []"
    "dk_files (qw_disk w') p = dk_files (qw_disk w) p" "qw_root w' = qw_root w"
proof (cases "dk_files (qw_disk w) (temp_path p)")
  case None
  then have "cleanup_temp_file p w = (Ok (), w)"
    by (simp add: cleanup_temp_file_def seq_def inspect_def pure_def fs_exists_def)
  with assms(1) that show thesis by blast
next
  case (Some bs)
  then have "cleanup_temp_file p w = (Ok (), w\<lparr> qw_disk := set_file (temp_path p) None (qw_disk w) \<rparr>)"
    by (simp add: cleanup_temp_file_def seq_def inspect_def pure_def fs_exists_def on_disk_def fs_remove_file_def
        no_faults [OF assms(1)] modify_def)
  with assms that show thesis by (auto simp: set_file_def)
qed

lemma reopened_eq:
  assumes root: "qw_root w = Some root" and p: "p = scope_dir root (rp_scope repo) @ [SNAPSHOT_FILE]"
  shows "reopened lib repo w =
    and_then (validate_scope (rp_scope repo)) (\<lambda>_.
    and_then (read_content lib repo (dk_files (qw_disk w) p)) (\<lambda>sn.
    and_then (validate_snapshot lib sn (rp_scope repo)) (\<lambda>_. Ok sn)))"
proof (cases "validate_scope (rp_scope repo)")
  case (Ok u)
  have not_temp: "temp_path p \<noteq> p" by (simp add: p temp_path_of snapshot_file_not_temp [symmetric])
  obtain w1 where w1: "cleanup_temp_file p (restart w) = (result.Ok (), w1)" "dk_faults (qw_disk w1) = []"
    "dk_files (qw_disk w1) p = dk_files (qw_disk w) p" "qw_root w1 = qw_root w"
    by (rule cleanup_without_faults [OF _ not_temp, of "restart w"]) (simp_all add: restart_def)
  have path: "snapshot_path (rp_scope repo) (restart w) = (result.Ok p, restart w)"
    by (simp add: snapshot_path_def application_storage_root_def seq_def inspect_def pure_def restart_def root p)
  let ?content = "dk_files (qw_disk w) p"
  have load: "(if fs_exists p (qw_disk w1) then load_snapshot lib p (rp_scope repo) (rp_seed repo)
      else pure (result.Ok (empty_snapshot (rp_scope repo)))) w1 = (read_content lib repo ?content, w1)"
  proof (cases ?content)
    case None
    then show ?thesis by (simp add: fs_exists_def w1 read_content_def pure_def)
  next
    case (Some sealed)
    then have "on_disk (fs_read p) w1 = (result.Ok sealed, w1)"
      by (simp add: on_disk_def fs_read_def no_faults [OF w1(2)] inspect_def w1(3))
    then show ?thesis
      using Some by (auto simp: fs_exists_def w1(3) load_snapshot_def read_content_def seq_def pure_def
          split: result.split)
  qed
  have first: "seq (snapshot_path (rp_scope repo)) f (restart w) = f p (restart w)" for f :: "path \<Rightarrow> repository repo_action"
    by (rule seq_run) (rule path)
  have second: "seq (cleanup_temp_file p) f (restart w) = f () w1" for f :: "unit \<Rightarrow> repository repo_action"
    by (rule seq_run) (rule w1(1))
  show ?thesis
    unfolding reopened_def open_repository_def Ok seq_pure_Ok and_then.simps first second
    using load by (auto simp: seq_def inspect_def pure_def modify_def split: result.split)
qed (simp_all add: reopened_def open_repository_def seq_def pure_def)

lemma sealed_opens:
  assumes "aead_correct lib" "seal_with_label lib nonce seed label a p = Ok s"
  shows "open_with_label lib seed label a s = Ok p"
proof -
  from assms(2) obtain key c where "derive_key_with_label lib seed label = Ok key" "aes_key_accepted lib key"
    "aes_encrypt lib key (bytes nonce) a p = Some c" "s = [SEALED_PAYLOAD_VERSION] @ bytes nonce @ c"
    by (auto simp: seal_with_label_Ok)
  moreover from this(3) assms(1) have "c \<noteq> []" "aes_decrypt lib key (bytes nonce) a c = Some p"
    by (auto simp: aead_correct_def)
  ultimately show ?thesis by (auto simp: open_with_label_Ok)
qed

lemma persist_outcome:
  assumes "temp_path (rp_snapshot_path repo) \<noteq> rp_snapshot_path repo"
  shows "outcome (persist lib repo) w (\<lambda>r w'.
    if r = Ok ()
    then validate_snapshot lib (qw_snapshot w) (rp_scope repo) = Ok ()
      \<and> (\<exists>plaintext nonce sealed. ql_put_snapshot lib (qw_snapshot w) = Some plaintext
          \<and> seal_inbound_quarantine_snapshot (ql_crypto lib) nonce (rp_seed repo)
              (snapshot_associated_data (rp_scope repo)) plaintext = Ok sealed
          \<and> dk_files (qw_disk w') (rp_snapshot_path repo) = Some sealed)
    else dk_files (qw_disk w') (rp_snapshot_path repo) = dk_files (qw_disk w) (rp_snapshot_path repo))"
    (is "outcome _ _ ?Q")
proof -
  let ?p = "rp_snapshot_path repo"
  have mkdir: "outcome (on_disk (fs_create_dir_all q)) w (\<lambda>r w'. qw_snapshot w' = qw_snapshot w
      \<and> dk_files (qw_disk w') = dk_files (qw_disk w))" for q w
    by (auto simp: outcome_on_disk fs_create_dir_all_def outcome_fs_call outcome_pure
        split: prod.split option.split)
  have written: "outcome (atomic_write ?p sealed) w1 ?Q"
    if "validate_snapshot lib (qw_snapshot w) (rp_scope repo) = Ok ()"
      "dk_files (qw_disk w1) = dk_files (qw_disk w)"
      "ql_put_snapshot lib (qw_snapshot w) = Some plaintext"
      "seal_inbound_quarantine_snapshot (ql_crypto lib) nonce (rp_seed repo)
        (snapshot_associated_data (rp_scope repo)) plaintext = Ok sealed" for w1 plaintext nonce sealed
    by (rule outcome_weaken [OF atomic_write_outcome [OF assms]])
      (use that assms in \<open>auto simp: write_result_def only_temp_def split: if_splits\<close>)
  have after: "outcome (seq (inspect (\<lambda>w. serialized (ql_put_snapshot lib (qw_snapshot w)))) (\<lambda>plaintext.
    seq (draw_nonce lib) (\<lambda>nonce.
    seq (pure (map_err (\<lambda>_. Crypto) (seal_inbound_quarantine_snapshot (ql_crypto lib) nonce (rp_seed repo)
          (snapshot_associated_data (rp_scope repo)) plaintext))) (\<lambda>sealed.
      atomic_write ?p sealed)))) w1 ?Q"
    if "validate_snapshot lib (qw_snapshot w) (rp_scope repo) = Ok ()" "qw_snapshot w1 = qw_snapshot w"
      "dk_files (qw_disk w1) = dk_files (qw_disk w)" for w1
  proof (cases "ql_put_snapshot lib (qw_snapshot w)")
    case (Some plaintext)
    let ?nonce = "ql_nonce lib (qw_draws w1)"
    show ?thesis
    proof (cases "seal_inbound_quarantine_snapshot (ql_crypto lib) ?nonce (rp_seed repo)
        (snapshot_associated_data (rp_scope repo)) plaintext")
      case (Ok sealed)
      show ?thesis
        using written [OF that(1) _ Some Ok, of "w1\<lparr> qw_draws := Suc (qw_draws w1) \<rparr>"] that Some Ok
        by (simp add: outcome_seq [of "inspect _"] outcome_inspect serialized_def outcome_seq [of "draw_nonce _"]
            outcome_draw outcome_seq [of "pure _"] outcome_pure)
    qed (use that Some in \<open>simp_all add: outcome_seq outcome_inspect serialized_def outcome_draw outcome_pure\<close>)
  qed (use that in \<open>simp add: outcome_seq outcome_inspect serialized_def\<close>)
  let ?rest = "\<lambda>_. seq (inspect (\<lambda>w. serialized (ql_put_snapshot lib (qw_snapshot w)))) (\<lambda>plaintext.
    seq (draw_nonce lib) (\<lambda>nonce.
    seq (pure (map_err (\<lambda>_. Crypto) (seal_inbound_quarantine_snapshot (ql_crypto lib) nonce (rp_seed repo)
          (snapshot_associated_data (rp_scope repo)) plaintext))) (\<lambda>sealed.
      atomic_write ?p sealed)))"
  have valid: "outcome (seq (on_disk (fs_create_dir_all q)) ?rest) w ?Q"
    if "validate_snapshot lib (qw_snapshot w) (rp_scope repo) = Ok ()" for q
    by (rule outcome_seqI [OF mkdir]; (elim conjE)?; (rule after [OF that])?) simp_all
  show ?thesis
    unfolding persist_def outcome_seq [of "inspect _" "\<lambda>_. seq _ _"] outcome_inspect
    using valid [of "butlast ?p"] by (cases "validate_snapshot lib (qw_snapshot w) (rp_scope repo)") simp_all
qed

lemma persist_reopened:
  assumes law: "aead_correct (ql_crypto lib)"
    and codec: "\<And>plaintext. ql_put_snapshot lib (qw_snapshot w) = Some plaintext \<Longrightarrow>
      ql_get_snapshot lib plaintext = Some (qw_snapshot w)"
    and root: "qw_root w = Some root"
    and path: "rp_snapshot_path repo = scope_dir root (rp_scope repo) @ [SNAPSHOT_FILE]"
    and scope: "validate_scope (rp_scope repo) = Ok ()"
    and run: "persist lib repo w = (r, w')"
  shows "reopened lib repo w' = (if r = Ok () then Ok (qw_snapshot w) else reopened lib repo w)"
proof -
  have "temp_path (rp_snapshot_path repo) \<noteq> rp_snapshot_path repo"
    by (simp add: path temp_path_of snapshot_file_not_temp [symmetric])
  note disk = outcomeD [OF persist_outcome [OF this] run]
  have "memory w' = memory w" using outcomeD [OF keeps_memoryD [OF keeps_persist] run] .
  then have root': "qw_root w' = Some root" using root by (simp add: memory_def)
  note eq = reopened_eq [OF root' refl] reopened_eq [OF root refl]
  show ?thesis
  proof (cases "r = Ok ()")
    case True
    then obtain plaintext nonce sealed where "validate_snapshot lib (qw_snapshot w) (rp_scope repo) = Ok ()"
      "ql_put_snapshot lib (qw_snapshot w) = Some plaintext"
      and seal: "seal_inbound_quarantine_snapshot (ql_crypto lib) nonce (rp_seed repo)
          (snapshot_associated_data (rp_scope repo)) plaintext = Ok sealed"
      and content: "dk_files (qw_disk w') (scope_dir root (rp_scope repo) @ [SNAPSHOT_FILE]) = Some sealed"
      using disk by (auto simp: path)
    moreover have "open_inbound_quarantine_snapshot (ql_crypto lib) (rp_seed repo)
        (snapshot_associated_data (rp_scope repo)) sealed = Ok plaintext"
      using sealed_opens [OF law] seal
      unfolding seal_inbound_quarantine_snapshot_def open_inbound_quarantine_snapshot_def by blast
    ultimately show ?thesis using True scope codec by (simp add: eq read_content_def)
  next
    case False
    then have "dk_files (qw_disk w') (scope_dir root (rp_scope repo) @ [SNAPSHOT_FILE])
        = dk_files (qw_disk w) (scope_dir root (rp_scope repo) @ [SNAPSHOT_FILE])"
      using disk by (simp add: path)
    with False show ?thesis by (simp add: eq)
  qed
qed

text \<open>C24: A snapshot that was persisted is what a restarted process reads, and when persisting fails, at
  whichever call and leaving whatever of the temporary file, the restarted process reads what it would
  have read before.\<close>

theorem persisted_snapshot_survives:
  assumes law: "aead_correct (ql_crypto lib)"
    and codec: "\<And>plaintext. ql_put_snapshot lib (qw_snapshot w) = Some plaintext \<Longrightarrow>
      ql_get_snapshot lib plaintext = Some (qw_snapshot w)"
    and root: "qw_root w = Some root"
    and path: "rp_snapshot_path repo = scope_dir root (rp_scope repo) @ [SNAPSHOT_FILE]"
    and scope: "validate_scope (rp_scope repo) = Ok ()"
    and run: "persist lib repo w = (r, w')"
  shows "reopened lib repo w' = (if r = Ok () then Ok (qw_snapshot w) else reopened lib repo w)"
  by (rule persist_reopened [OF assms])

lemma sample_scope_valid: "validate_scope sample_scope = Ok ()"
  using encode_hex_digits by (simp add: validate_scope_def sample_scope_def scope_for_runtime_def validate_hex32_def)

theorem persisted_snapshot_survives_witness:
  "\<exists>w'. persist sample_quarantine sample_repository sample_world = (Ok (), w')
    \<and> reopened sample_quarantine sample_repository w' = Ok (empty_snapshot sample_scope)"
proof -
  obtain sealed where seal: "seal_inbound_quarantine_snapshot sample_crypto (bfill 0) (KeySeed (bfill 9))
      (snapshot_associated_data sample_scope) [1] = Ok sealed"
    by (auto simp: seal_inbound_quarantine_snapshot_def seal_with_label_Ok derive_key_with_label_def
        sample_crypto_def)
  have p: "rp_snapshot_path sample_repository = scope_dir [] (rp_scope sample_repository) @ [SNAPSHOT_FILE]"
    by (simp add: sample_repository_def)
  have valid: "validate_snapshot sample_quarantine (empty_snapshot sample_scope) sample_scope = Ok ()"
    by (simp add: validate_snapshot_def empty_snapshot_def sample_quarantine_def serialized_def)
  have "dk_files (qw_disk sample_world) q = None" "dk_faults (qw_disk sample_world) = []" for q
    by (simp_all add: sample_world_def)
  then obtain w' where run: "persist sample_quarantine sample_repository sample_world = (Ok (), w')"
    using seal valid
    by (simp add: persist_def atomic_write_def seq_def inspect_def on_disk_def no_faults fs_create_dir_all_def
        pure_def draw_nonce_def serialized_def Let_def fs_exists_def fs_create_new_def fs_write_all_def
        fs_sync_all_def fs_rename_def modify_def set_file_def sample_quarantine_def sample_repository_def
        sample_world_def)
  then have "reopened sample_quarantine sample_repository w' = Ok (qw_snapshot sample_world)"
    using persisted_snapshot_survives [OF _ _ _ p _ run]
    by (simp add: sample_crypto_ideal sample_quarantine_def sample_world_def sample_scope_valid sample_repository_def)
  with run show ?thesis by (auto simp: sample_world_def)
qed

end
