(* ===== verification/Chat_Handoff.thy ===== *)
theory Chat_Handoff
  imports Quarantine_Store Utf8 Starter_Capsule
begin

text \<open>
  The durable handoff of chat messages (platform/hivra-ffi/src/chat\_api.rs): a received message is kept in a
  sealed snapshot file until the application acknowledges it; the identifiers of acknowledged and evicted
  messages stay as tombstones. The wincode codec of the snapshot is a parameter (\<open>chat_lib\<close>). The storage
  root, the disk and the source of nonces are those of the inbound quarantine.
\<close>

section \<open>The snapshot\<close>

definition CAPSULE_CHAT_KIND :: u32 where "CAPSULE_CHAT_KIND = 4097"
definition CHAT_INBOX_CAPACITY :: nat where "CHAT_INBOX_CAPACITY = 512"
definition CHAT_HANDOFF_MAX_PLAINTEXT_BYTES :: nat where
  "CHAT_HANDOFF_MAX_PLAINTEXT_BYTES = 32 * 1024 * 1024"
definition CHAT_TOMBSTONE_CAPACITY :: nat where "CHAT_TOMBSTONE_CAPACITY = 65536"
definition CHAT_HANDOFF_SCHEMA_VERSION :: u16 where "CHAT_HANDOFF_SCHEMA_VERSION = 1"
definition CHAT_HANDOFF_FILE :: utf8 where "CHAT_HANDOFF_FILE = ascii ''chat_handoff.v1.bin''"
definition CHAT_HANDOFF_TEMP_FILE :: utf8 where "CHAT_HANDOFF_TEMP_FILE = ascii ''.chat_handoff.v1.tmp''"

record chat_message =
  cm_event_id :: utf8
  cm_from_hex :: utf8
  cm_to_hex :: utf8
  cm_payload_json :: utf8
  cm_timestamp_ms :: u64

record chat_snapshot =
  ch_schema_version :: u16
  ch_capsule_id :: utf8
  ch_network :: u8
  ch_transport_endpoint :: utf8
  ch_records :: "chat_message list"
  ch_tombstones :: "utf8 list"

text \<open>\<open>cl_size\<close> is \<open>wincode::config::serialized_size\<close>.\<close>

record chat_lib =
  cl_crypto :: crypto_lib
  cl_nonce :: "nat \<Rightarrow> nonce12"
  cl_put :: "chat_snapshot \<Rightarrow> u8 list option"
  cl_get :: "u8 list \<Rightarrow> chat_snapshot option"
  cl_size :: "chat_snapshot \<Rightarrow> u64 option"

type_synonym 'a chat_action = "(quarantine_world, string, 'a) action"

datatype inbound_route_result = NotMatched | RouteConsumed | RouteRetry

definition on_chat_disk :: "string \<Rightarrow> 'a fs_call \<Rightarrow> 'a chat_action" where
  "on_chat_disk message call = with_error message (on_disk call)"

definition draw_chat_nonce :: "chat_lib \<Rightarrow> nonce12 chat_action" where
  "draw_chat_nonce cl w = (Ok (cl_nonce cl (qw_draws w)), w\<lparr> qw_draws := Suc (qw_draws w) \<rparr>)"

section \<open>The file\<close>

definition chat_handoff_aad :: "utf8 \<Rightarrow> u8 \<Rightarrow> utf8 \<Rightarrow> utf8" where
  "chat_handoff_aad capsule_id network endpoint =
    ascii ''hivra.chat_handoff.v1|'' @ capsule_id @ [124] @ decimal (unat network) @ [124] @ endpoint"

definition chat_dir :: "path \<Rightarrow> utf8 \<Rightarrow> path" where
  "chat_dir root capsule_id = root @ [ascii ''capsules'', capsule_id, ascii ''capability_state'', ascii ''chat'']"

definition chat_handoff_path :: "utf8 \<Rightarrow> path chat_action" where
  "chat_handoff_path capsule_id =
    seq (inspect (\<lambda>w. map_err quarantine_error_text (fst (application_storage_root w)))) (\<lambda>root.
      pure (Ok (chat_dir root capsule_id @ [CHAT_HANDOFF_FILE])))"

definition empty_handoff :: "capsule_state \<Rightarrow> b32 \<Rightarrow> chat_snapshot" where
  "empty_handoff capsule local_pubkey =
    \<lparr> ch_schema_version = CHAT_HANDOFF_SCHEMA_VERSION, ch_capsule_id = encode_hex (bytes (cs_public_key capsule)),
      ch_network = cs_network capsule, ch_transport_endpoint = encode_hex (bytes local_pubkey),
      ch_records = [], ch_tombstones = [] \<rparr>"

text \<open>The scope and bounds a loaded snapshot must have.\<close>

definition handoff_accepted :: "capsule_state \<Rightarrow> b32 \<Rightarrow> chat_snapshot \<Rightarrow> bool" where
  "handoff_accepted capsule local_pubkey snapshot \<longleftrightarrow>
    \<not> (ch_schema_version snapshot \<noteq> CHAT_HANDOFF_SCHEMA_VERSION
       \<or> ch_capsule_id snapshot \<noteq> encode_hex (bytes (cs_public_key capsule))
       \<or> ch_network snapshot \<noteq> cs_network capsule
       \<or> ch_transport_endpoint snapshot \<noteq> encode_hex (bytes local_pubkey)
       \<or> length (ch_records snapshot) > CHAT_INBOX_CAPACITY
       \<or> length (ch_tombstones snapshot) > CHAT_TOMBSTONE_CAPACITY)"

definition load_chat_handoff ::
  "chat_lib \<Rightarrow> capsule_state \<Rightarrow> b32 \<Rightarrow> seed \<Rightarrow> chat_snapshot chat_action" where
  "load_chat_handoff cl capsule local_pubkey seed =
    (let capsule_id = encode_hex (bytes (cs_public_key capsule));
         endpoint = encode_hex (bytes local_pubkey)
     in seq (chat_handoff_path capsule_id) (\<lambda>p.
        seq (inspect (\<lambda>w. Ok (fs_exists p (qw_disk w)))) (\<lambda>exists.
        if \<not> exists then pure (Ok (empty_handoff capsule local_pubkey))
        else
          seq (on_chat_disk ''read failed'' (fs_read p)) (\<lambda>sealed.
          seq (pure (map_err (\<lambda>_. ''authentication failed'') (open_chat_handoff_snapshot (cl_crypto cl) seed
                (chat_handoff_aad capsule_id (cs_network capsule) endpoint) sealed))) (\<lambda>plaintext.
          seq (pure (ok_or (cl_get cl plaintext) ''snapshot corrupt'')) (\<lambda>snapshot.
            pure (if \<not> handoff_accepted capsule local_pubkey snapshot
                  then Err ''scope or bounds mismatch'' else Ok snapshot)))))))"

definition chat_temp :: "path \<Rightarrow> path" where
  "chat_temp p = butlast p @ [CHAT_HANDOFF_TEMP_FILE]"

text \<open>The directory sync after the rename is best effort and has no effect here.\<close>

definition write_chat_handoff :: "chat_lib \<Rightarrow> chat_snapshot \<Rightarrow> seed \<Rightarrow> unit chat_action" where
  "write_chat_handoff cl snapshot seed =
    seq (chat_handoff_path (ch_capsule_id snapshot)) (\<lambda>p.
    seq (on_chat_disk ''directory create failed'' (fs_create_dir_all (butlast p))) (\<lambda>_.
    seq (pure (ok_or (cl_put cl snapshot) ''serialize failed'')) (\<lambda>plaintext.
    if length plaintext > CHAT_HANDOFF_MAX_PLAINTEXT_BYTES then pure (Err ''snapshot capacity exhausted'')
    else
      seq (draw_chat_nonce cl) (\<lambda>nonce.
      seq (pure (map_err (\<lambda>_. ''encryption failed'') (seal_chat_handoff_snapshot (cl_crypto cl) nonce seed
            (chat_handoff_aad (ch_capsule_id snapshot) (ch_network snapshot) (ch_transport_endpoint snapshot))
            plaintext))) (\<lambda>sealed.
      seq (inspect (\<lambda>w. Ok (fs_exists (chat_temp p) (qw_disk w)))) (\<lambda>exists.
      seq (if exists then on_chat_disk ''temp cleanup failed'' (fs_remove_file (chat_temp p)) else pure (Ok ()))
        (\<lambda>_.
      seq (on_chat_disk ''temp open failed'' (fs_create_new (chat_temp p))) (\<lambda>_.
      seq (on_chat_disk ''write failed'' (fs_write_all (chat_temp p) sealed)) (\<lambda>_.
      seq (on_chat_disk ''sync failed'' (fs_sync_all (chat_temp p))) (\<lambda>_.
        on_chat_disk ''rename failed'' (fs_rename (chat_temp p) p)))))))))))"

section \<open>Messages\<close>

definition append_chat_tombstones :: "utf8 list \<Rightarrow> chat_snapshot \<Rightarrow> chat_snapshot" where
  "append_chat_tombstones event_ids snapshot =
    (let tombstones = fold (\<lambda>i ts. if i \<in> set ts then ts else ts @ [i]) event_ids (ch_tombstones snapshot);
         overflow = length tombstones - CHAT_TOMBSTONE_CAPACITY
     in snapshot\<lparr> ch_tombstones := drop overflow tombstones \<rparr>)"

text \<open>\<open>records.remove(0)\<close> and its tombstone.\<close>

definition evict_first :: "chat_snapshot \<Rightarrow> chat_snapshot" where
  "evict_first snapshot =
    append_chat_tombstones [cm_event_id (hd (ch_records snapshot))]
      (snapshot\<lparr> ch_records := tl (ch_records snapshot) \<rparr>)"

lemma evict_first_records [simp]: "ch_records (evict_first sn) = tl (ch_records sn)"
  by (simp add: evict_first_def append_chat_tombstones_def Let_def)

function evict_over_capacity :: "chat_snapshot \<Rightarrow> chat_snapshot" where
  "evict_over_capacity snapshot =
    (if length (ch_records snapshot) > CHAT_INBOX_CAPACITY
     then evict_over_capacity (evict_first snapshot) else snapshot)"
  by pat_completeness auto

termination
  by (relation "measure (\<lambda>sn. length (ch_records sn))") (auto simp: CHAT_INBOX_CAPACITY_def)

function evict_over_size :: "chat_lib \<Rightarrow> chat_snapshot \<Rightarrow> (string, chat_snapshot) result" where
  "evict_over_size cl snapshot =
    (if unwrap_or (cl_size cl snapshot) (- 1) > of_nat CHAT_HANDOFF_MAX_PLAINTEXT_BYTES
     then if length (ch_records snapshot) \<le> 1 then Err ''record exceeds snapshot capacity''
          else evict_over_size cl (evict_first snapshot)
     else Ok snapshot)"
  by pat_completeness auto

termination
  by (relation "measure (\<lambda>(cl, sn). length (ch_records sn))") auto

declare evict_over_capacity.simps [simp del] evict_over_size.simps [simp del]

definition persist_chat_handoff ::
  "chat_lib \<Rightarrow> capsule_state \<Rightarrow> b32 \<Rightarrow> seed \<Rightarrow> chat_message \<Rightarrow> unit chat_action" where
  "persist_chat_handoff cl capsule local_pubkey seed message =
    seq (load_chat_handoff cl capsule local_pubkey seed) (\<lambda>snapshot.
    if cm_event_id message \<in> set (ch_tombstones snapshot)
      \<or> cm_event_id message \<in> cm_event_id ` set (ch_records snapshot)
    then pure (Ok ())
    else
      let snapshot = snapshot\<lparr> ch_records := sort_key (\<lambda>m. (cm_timestamp_ms m, cm_event_id m))
            (ch_records snapshot @ [message]) \<rparr>
      in seq (pure (evict_over_size cl (evict_over_capacity snapshot))) (\<lambda>snapshot.
           write_chat_handoff cl snapshot seed))"

definition list_chat_handoff ::
  "chat_lib \<Rightarrow> capsule_state \<Rightarrow> b32 \<Rightarrow> seed \<Rightarrow> chat_message list chat_action" where
  "list_chat_handoff cl capsule local_pubkey seed =
    seq (load_chat_handoff cl capsule local_pubkey seed) (\<lambda>snapshot. pure (Ok (ch_records snapshot)))"

definition acknowledge_chat_handoff ::
  "chat_lib \<Rightarrow> capsule_state \<Rightarrow> b32 \<Rightarrow> seed \<Rightarrow> utf8 list \<Rightarrow> unit chat_action" where
  "acknowledge_chat_handoff cl capsule local_pubkey seed event_ids =
    seq (load_chat_handoff cl capsule local_pubkey seed) (\<lambda>snapshot.
    if event_ids = [] then pure (Ok ())
    else
      let gone = (\<lambda>m. cm_event_id m \<in> set event_ids);
          acknowledged = map cm_event_id (filter gone (ch_records snapshot))
      in write_chat_handoff cl (append_chat_tombstones acknowledged
           (snapshot\<lparr> ch_records := filter (\<lambda>m. \<not> gone m) (ch_records snapshot) \<rparr>)) seed)"

definition queue_incoming_chat_if_match ::
  "chat_lib \<Rightarrow> delivery_envelope \<Rightarrow> utf8 \<Rightarrow> b32 \<Rightarrow> capsule_state \<Rightarrow> seed
    \<Rightarrow> quarantine_world \<Rightarrow> inbound_route_result \<times> quarantine_world" where
  "queue_incoming_chat_if_match cl message item_id local_pubkey capsule seed w =
    (if en_kind message \<noteq> CAPSULE_CHAT_KIND then (NotMatched, w)
     else if en_to message \<noteq> local_pubkey \<or> en_from message = local_pubkey then (RouteConsumed, w)
     else case trimmed_text (en_payload message) of
       None \<Rightarrow> (RouteConsumed, w)
     | Some payload_json \<Rightarrow>
         if payload_json = [] then (RouteConsumed, w)
         else
           (case persist_chat_handoff cl capsule local_pubkey seed
                   \<lparr> cm_event_id = item_id, cm_from_hex = encode_hex (bytes (en_from message)),
                     cm_to_hex = encode_hex (bytes (en_to message)), cm_payload_json = payload_json,
                     cm_timestamp_ms = en_timestamp message \<rparr> w of
              (Ok _, w) \<Rightarrow> (RouteConsumed, w)
            | (_, w) \<Rightarrow> (RouteRetry, w)))"

end
