(* ===== verification/Attestation_Inbox.thy ===== *)
theory Attestation_Inbox
  imports Utf8 Transport Keystore Chat_Handoff
begin

text \<open>
  The inbox of consensus attestations (platform/hivra-ffi/src/consensus\_attestation\_api.rs): attestations
  wait in memory, per local endpoint, until the application drains them. A \<open>HashMap\<close> is a map.
\<close>

definition PAIR_CONSENSUS_ATTESTATION_KIND :: u32 where "PAIR_CONSENSUS_ATTESTATION_KIND = 4098"
definition ATTESTATION_INBOX_CAPACITY :: nat where "ATTESTATION_INBOX_CAPACITY = 512"

record queued_attestation =
  qa_event_id :: utf8
  qa_from_hex :: utf8
  qa_to_hex :: utf8
  qa_payload_json :: utf8
  qa_timestamp_ms :: u64

type_synonym attestation_inbox = "b32 \<Rightarrow> queued_attestation list option"

definition queue_incoming_attestation_if_match ::
  "delivery_envelope \<Rightarrow> utf8 \<Rightarrow> b32 \<Rightarrow> attestation_inbox \<Rightarrow> inbound_route_result \<times> attestation_inbox" where
  "queue_incoming_attestation_if_match message item_id local_pubkey inbox =
    (if en_kind message \<noteq> PAIR_CONSENSUS_ATTESTATION_KIND then (NotMatched, inbox)
     else if en_to message \<noteq> local_pubkey \<or> en_from message = local_pubkey then (RouteConsumed, inbox)
     else case trimmed_text (en_payload message) of
       None \<Rightarrow> (RouteConsumed, inbox)
     | Some payload_json \<Rightarrow>
         if payload_json = [] then (RouteConsumed, inbox)
         else
           let messages = unwrap_or (inbox local_pubkey) [];
               inbox = inbox(local_pubkey \<mapsto> messages)
           in if list_ex (\<lambda>q. qa_event_id q = item_id) messages then (RouteConsumed, inbox)
              else if length messages \<ge> ATTESTATION_INBOX_CAPACITY then (RouteRetry, inbox)
              else (RouteConsumed, inbox(local_pubkey \<mapsto> messages @
                [\<lparr> qa_event_id = item_id, qa_from_hex = encode_hex (bytes (en_from message)),
                   qa_to_hex = encode_hex (bytes (en_to message)), qa_payload_json = payload_json,
                   qa_timestamp_ms = en_timestamp message \<rparr>])))"

definition drain_queued_attestations ::
  "b32 \<Rightarrow> attestation_inbox \<Rightarrow> queued_attestation list \<times> attestation_inbox" where
  "drain_queued_attestations local_pubkey inbox =
    (unwrap_or (inbox local_pubkey) [], inbox(local_pubkey := None))"

end
