(* ===== verification/Host.thy ===== *)
theory Host
  imports Attestation_Inbox Invitation_Api
begin

text \<open>
  The process the FFI modules share: the runtime, the receipts of the last deliveries
  (platform/hivra-ffi/src/delivery\_receipts\_api.rs), the cached transport
  (platform/hivra-ffi/src/transport\_cache.rs), the storage of the inbound quarantine and of the chat handoff,
  and the attestation inbox. The transport adapter is a parameter (\<open>transport_ops\<close>): it works on the
  environment of the runtime and on handles \<open>'t\<close>. Locks are not modelled (one caller at a time), nor are
  the texts kept by \<open>set_last_error\<close>.
\<close>

section \<open>State\<close>

record labeled_delivery_receipt =
  lb_label :: string
  lb_correlation_id_hex :: "utf8 option"
  lb_receipt :: delivery_receipt

record 't cached_nostr_transport =
  ct_sender_secret :: b32
  ct_transport :: 't

record ('w, 't) host =
  ho_ffi :: "'w ffi_state"
  ho_receipts :: "labeled_delivery_receipt list"
  ho_transport :: "'t cached_nostr_transport option"
  ho_store :: quarantine_world
  ho_inbox :: attestation_inbox

type_synonym ('w, 't, 'a) host_action = "(('w, 't) host, code, 'a) action"

definition on_ffi :: "('w ffi_state, 'e, 'a) action \<Rightarrow> (('w, 't) host, 'e, 'a) action" where
  "on_ffi m h = (case m (ho_ffi h) of (r, s) \<Rightarrow> (r, h\<lparr> ho_ffi := s \<rparr>))"

definition on_store :: "(quarantine_world, 'e, 'a) action \<Rightarrow> (('w, 't) host, 'e, 'a) action" where
  "on_store m h = (case m (ho_store h) of (r, w) \<Rightarrow> (r, h\<lparr> ho_store := w \<rparr>))"

text \<open>What an exported function returns.\<close>

fun returned :: "(code, code) result \<Rightarrow> code option" where
  "returned (Ok c) = Some c"
| "returned (Err c) = Some c"
| "returned Panic = None"

section \<open>Receipts\<close>

definition clear_delivery_receipts :: "(('w, 't) host, 'e, unit) action" where
  "clear_delivery_receipts = modify (\<lambda>h. h\<lparr> ho_receipts := [] \<rparr>)"

definition record_delivery_receipt_with_correlation ::
  "string \<Rightarrow> delivery_receipt \<Rightarrow> b32 option \<Rightarrow> (('w, 't) host, 'e, unit) action" where
  "record_delivery_receipt_with_correlation label receipt correlation_id =
    modify (\<lambda>h. h\<lparr> ho_receipts := ho_receipts h @
      [\<lparr> lb_label = label, lb_correlation_id_hex = map_option (\<lambda>i. encode_hex (bytes i)) correlation_id,
         lb_receipt = receipt \<rparr>] \<rparr>)"

definition record_delivery_receipt :: "string \<Rightarrow> delivery_receipt \<Rightarrow> (('w, 't) host, 'e, unit) action" where
  "record_delivery_receipt label receipt = record_delivery_receipt_with_correlation label receipt None"

text \<open>The receipts as JSON; \<open>json\<close> is the serializer (of the schema version and the list) with \<open>CString::new\<close>.\<close>

definition hivra_last_delivery_receipts_json ::
  "(nat \<times> labeled_delivery_receipt list \<Rightarrow> u8 list option) \<Rightarrow> ('w, 't) host \<Rightarrow> u8 list option" where
  "hivra_last_delivery_receipts_json json h = json (1, ho_receipts h)"

section \<open>The cached transport\<close>

datatype transport_profile = Default | Quick

record ('w, 't) transport_ops =
  to_new :: "b32 \<Rightarrow> 'w \<Rightarrow> 't option \<times> 'w"
  to_send :: "'t \<Rightarrow> delivery_envelope \<Rightarrow> u64 \<Rightarrow> 'w \<Rightarrow> (transport_error, delivery_receipt) result \<times> 'w"
  to_receive_batch :: "'t \<Rightarrow> u64 \<Rightarrow> 'w \<Rightarrow> (transport_error, inbound_delivery_batch) result \<times> 'w"
  to_resolve_batch ::
    "'t \<Rightarrow> u64 \<Rightarrow> inbound_delivery_resolution list \<Rightarrow> 'w \<Rightarrow> (transport_error, unit) result \<times> 'w"

text \<open>The budgets of \<open>NostrConfig\<close>, in seconds.\<close>

definition receive_timeout_secs :: "transport_profile \<Rightarrow> u64" where
  "receive_timeout_secs profile = (case profile of Default \<Rightarrow> 12 | Quick \<Rightarrow> 8)"

definition publish_timeout_secs :: "transport_profile \<Rightarrow> u64" where
  "publish_timeout_secs profile = (case profile of Default \<Rightarrow> 6 | Quick \<Rightarrow> 3)"

definition should_retry_with_fresh_transport :: "transport_profile \<Rightarrow> code \<Rightarrow> bool" where
  "should_retry_with_fresh_transport profile code =
    (if profile = Quick then False else code \<in> {- 5, - 11, - 12, - 14})"

definition in_host_env :: "('w \<Rightarrow> 'a \<times> 'w) \<Rightarrow> (('w, 't) host, 'e, 'a) action" where
  "in_host_env f = on_ffi (sample_with (in_env f))"

definition rebuild_transport_for_profile ::
  "('w, 't) transport_ops \<Rightarrow> b32 \<Rightarrow> code \<Rightarrow> ('w, 't, 't cached_nostr_transport) host_action" where
  "rebuild_transport_for_profile ops sender_secret init_failure_code =
    seq (in_host_env (to_new ops sender_secret)) (\<lambda>transport.
      pure (and_then (ok_or transport init_failure_code) (\<lambda>t.
        Ok \<lparr> ct_sender_secret = sender_secret, ct_transport = t \<rparr>)))"

definition cache_rebuilt ::
  "('w, 't) transport_ops \<Rightarrow> b32 \<Rightarrow> code \<Rightarrow> ('w, 't, unit) host_action" where
  "cache_rebuilt ops sender_secret init_failure_code =
    seq (rebuild_transport_for_profile ops sender_secret init_failure_code) (\<lambda>rebuilt.
      modify (\<lambda>h. h\<lparr> ho_transport := Some rebuilt \<rparr>))"

definition cached_transport :: "code \<Rightarrow> ('w, 't, 't) host_action" where
  "cached_transport init_failure_code =
    inspect (\<lambda>h. and_then (ok_or (ho_transport h) init_failure_code) (\<lambda>c. Ok (ct_transport c)))"

definition with_cached_nostr_transport ::
  "('w, 't) transport_ops \<Rightarrow> b32 \<Rightarrow> transport_profile \<Rightarrow> code \<Rightarrow> ('t \<Rightarrow> ('w, 't, 'a) host_action)
    \<Rightarrow> ('w, 't, 'a) host_action" where
  "with_cached_nostr_transport ops sender_secret profile init_failure_code operation =
    seq (inspect (\<lambda>h. Ok (case ho_transport h of
          Some entry \<Rightarrow> ct_sender_secret entry \<noteq> sender_secret | None \<Rightarrow> True))) (\<lambda>must_recreate.
    seq (if must_recreate then cache_rebuilt ops sender_secret init_failure_code else pure (Ok ())) (\<lambda>_.
    seq (cached_transport init_failure_code) (\<lambda>transport.
    attempt (operation transport) (\<lambda>value. pure (Ok value)) (\<lambda>code.
      if should_retry_with_fresh_transport profile code
      then seq (cache_rebuilt ops sender_secret init_failure_code) (\<lambda>_.
           seq (cached_transport init_failure_code) operation)
      else pure (Err code)))))"

definition with_current_nostr_transport ::
  "b32 \<Rightarrow> code \<Rightarrow> ('t \<Rightarrow> ('w, 't, 'a) host_action) \<Rightarrow> ('w, 't, 'a) host_action" where
  "with_current_nostr_transport sender_secret missing_code operation =
    seq (inspect (\<lambda>h. and_then (ok_or (ho_transport h) missing_code) (\<lambda>entry.
          if ct_sender_secret entry \<noteq> sender_secret then Err missing_code else Ok (ct_transport entry))))
      operation"

definition clear_cached_nostr_transports :: "('w, 't) host \<Rightarrow> ('w, 't) host" where
  "clear_cached_nostr_transports h = h\<lparr> ho_transport := None \<rparr>"

end
