(* ===== verification/Outbox.thy ===== *)
theory Outbox
  imports Host
begin

text \<open>
  What the host publishes (platform/hivra-ffi/src/invitation\_api.rs, chat\_api.rs and
  consensus\_attestation\_api.rs): one exact ledger fact per call (the break of a relationship, the offer or
  the answer of an invitation), a chat message, a consensus attestation. Log lines are not modelled; the
  three copies of \<open>map_delivery_error\<close> and \<open>describe_transport_error\<close> are one definition each.
\<close>

section \<open>Delivery errors\<close>

text \<open>\<open>to_lowercase\<close> of ASCII letters; no other character has a lower case with a letter of the three
  patterns.\<close>

definition to_lower :: "string \<Rightarrow> string" where
  "to_lower = map (\<lambda>c. if of_char c \<ge> (65::nat) \<and> of_char c \<le> (90::nat) then char_of (of_char c + (32::nat)) else c)"

fun contains :: "string \<Rightarrow> string \<Rightarrow> bool" where
  "contains [] pattern = (pattern = [])"
| "contains (c # cs) pattern = (take (length pattern) (c # cs) = pattern \<or> contains cs pattern)"

definition map_delivery_error :: "transport_error \<Rightarrow> code \<Rightarrow> code" where
  "map_delivery_error err default_code =
    (case err of
       ConnectionFailed \<Rightarrow> - 11
     | Timeout \<Rightarrow> - 12
     | OtherError reason \<Rightarrow>
         let lower = to_lower reason in
         if contains lower ''auth'' then - 14
         else if contains lower ''timeout'' \<or> contains lower ''timed out'' then - 12
         else - 13
     | _ \<Rightarrow> default_code)"

definition describe_transport_error :: "transport_error \<Rightarrow> utf8 option" where
  "describe_transport_error err =
    (case err of
       OtherError reason \<Rightarrow>
         let trimmed = unwrap_or (trimmed_text (ascii reason)) [] in
         if trimmed = [] then None else Some trimmed
     | Timeout \<Rightarrow> Some (ascii ''transport timeout'')
     | ConnectionFailed \<Rightarrow> Some (ascii ''connection failed'')
     | SendFailed \<Rightarrow> Some (ascii ''send failed'')
     | ReceiveFailed \<Rightarrow> Some (ascii ''receive failed'')
     | InvalidMessage \<Rightarrow> Some (ascii ''invalid message'')
     | EncodingFailed \<Rightarrow> Some (ascii ''encoding failed'')
     | DecodingFailed \<Rightarrow> Some (ascii ''decoding failed'')
     | InvalidKey \<Rightarrow> Some (ascii ''invalid key'')
     | SenderMismatch \<Rightarrow> Some (ascii ''decrypted sender does not match signed transport event'')
     | NotImplemented \<Rightarrow> Some (ascii ''transport not implemented''))"

section \<open>Sending one message\<close>

type_synonym delivery_failure = "code \<times> utf8 option"

definition transport_call ::
  "('w \<Rightarrow> (transport_error, 'a) result \<times> 'w) \<Rightarrow> (transport_error \<Rightarrow> 'e) \<Rightarrow> (('w, 't) host, 'e, 'a) action" where
  "transport_call f g = seq (in_host_env f) (\<lambda>r. pure (map_err g r))"

definition load_invitation_delivery_context ::
  "'w platform \<Rightarrow> (b32 \<Rightarrow> b32 option) \<Rightarrow> seed \<Rightarrow> (code, b32 \<times> b32) result" where
  "load_invitation_delivery_context pf N seed =
    and_then (map_err (\<lambda>_. - 3) (derive_nostr_keypair (pf_lib pf) seed)) (\<lambda>sender_secret.
    and_then (map_err (\<lambda>_. - 3) (derive_nostr_public_key (pf_lib pf) N seed)) (\<lambda>sender_pubkey.
      Ok (sender_secret, sender_pubkey)))"

definition send_delivery_message ::
  "('w, 't) transport_ops \<Rightarrow> 't \<Rightarrow> delivery_envelope \<Rightarrow> u64 \<Rightarrow> code \<Rightarrow> string
    \<Rightarrow> (('w, 't) host, delivery_failure, delivery_receipt) action" where
  "send_delivery_message ops transport message timeout_secs failure_code debug_label =
    seq (transport_call (to_send ops transport message timeout_secs)
          (\<lambda>err. (map_delivery_error err failure_code, describe_transport_error err))) (\<lambda>receipt.
    seq (record_delivery_receipt_with_correlation debug_label receipt (en_correlation_id message)) (\<lambda>_.
      pure (Ok receipt)))"

text \<open>A fact prepared for a peer as the delivery of kind \<open>envelope_kind\<close>.\<close>

definition delivery_of ::
  "b32 \<Rightarrow> b32 \<Rightarrow> event_kind \<Rightarrow> u8 list \<Rightarrow> b32 \<Rightarrow> prepared_event \<Rightarrow> delivery_envelope" where
  "delivery_of from to envelope_kind payload correlation prepared =
    \<lparr> en_schema_version = 1, en_from = from, en_to = to, en_kind = ucast (event_kind_to_u8 envelope_kind),
      en_payload = payload, en_timestamp = as_u64 (ev_timestamp (pe_event prepared)),
      en_correlation_id = Some correlation, en_domain_event = Some (event_proof (pe_event prepared)) \<rparr>"

section \<open>Relationship breaks\<close>

definition retry_outgoing_relationship_break_by_event_id_over_transport ::
  "(u8 list \<Rightarrow> b32) \<Rightarrow> ('w, 't) transport_ops \<Rightarrow> 't \<Rightarrow> 'w ffi_engine \<Rightarrow> b32 \<Rightarrow> b32 \<Rightarrow> u64
    \<Rightarrow> ('w, 't, code) host_action" where
  "retry_outgoing_relationship_break_by_event_id_over_transport H ops transport en sender_pubkey item_id
      timeout_secs =
    seq (inspect (\<lambda>h. Ok (List.find (\<lambda>d. bd_event_id d = item_id)
          (pending_outgoing_relationship_break_deliveries_in_runtime H (ho_ffi h) (PubKey sender_pubkey)))))
      (\<lambda>pending.
    case pending of
      None \<Rightarrow> pure (Ok 0)
    | Some pending_delivery \<Rightarrow>
        let payload = relationship_broken_to_bytes
              \<lparr> brk_peer_pubkey = PubKey sender_pubkey, brk_own_starter_id = bd_peer_starter_id pending_delivery,
                brk_peer_root_pubkey = Some (bd_local_root_pubkey pending_delivery) \<rparr>
        in seq (on_ffi (with_error (- 7) (prepare_domain_event H en RelationshipBroken payload
                 (Some (PubKey (bd_to_pubkey pending_delivery)))))) (\<lambda>remote_prepared.
           seq (map_error fst (send_delivery_message ops transport
                  (delivery_of sender_pubkey (bd_to_pubkey pending_delivery) RelationshipBroken payload item_id
                     remote_prepared) timeout_secs (- 7) ''RelationshipBrokenRetry'')) (\<lambda>_. pure (Ok 1))))"

section \<open>Invitations\<close>

datatype invitation_delivery_mode = Offer | Terminal

text \<open>One pending delivery as the loops see it: what to sign, how to address it, how to label it.\<close>

record pending_message =
  pm_signed_kind :: event_kind
  pm_envelope_kind :: event_kind
  pm_to :: b32
  pm_payload :: "u8 list"
  pm_invitation_id :: b32
  pm_label :: string

definition offer_message :: "invitation_delivery \<Rightarrow> pending_message" where
  "offer_message d =
    \<lparr> pm_signed_kind = InvitationReceived, pm_envelope_kind = InvitationSent, pm_to = sd_to_pubkey d,
      pm_payload = sd_payload d, pm_invitation_id = sd_invitation_id d, pm_label = ''InvitationSentRetry'' \<rparr>"

definition retry_label :: "event_kind \<Rightarrow> string" where
  "retry_label kind =
    (case kind of
       InvitationAccepted \<Rightarrow> ''InvitationAcceptedRetry''
     | InvitationRejected \<Rightarrow> ''InvitationRejectedRetry''
     | InvitationExpired \<Rightarrow> ''InvitationExpiredRetry''
     | _ \<Rightarrow> ''InvitationTerminalRetry'')"

definition terminal_message :: "invitation_terminal_delivery \<Rightarrow> pending_message" where
  "terminal_message d =
    \<lparr> pm_signed_kind = td_kind d, pm_envelope_kind = td_kind d, pm_to = td_to_pubkey d, pm_payload = td_payload d,
      pm_invitation_id = td_invitation_id d, pm_label = retry_label (td_kind d) \<rparr>"

text \<open>The body of the two loops, with \<open>delivered_count\<close> and \<open>first_delivery_error\<close>.\<close>

definition deliver_pending ::
  "(u8 list \<Rightarrow> b32) \<Rightarrow> ('w, 't) transport_ops \<Rightarrow> 't \<Rightarrow> 'w ffi_engine \<Rightarrow> b32 \<Rightarrow> u64 \<Rightarrow> pending_message
    \<Rightarrow> code \<times> delivery_failure option \<Rightarrow> ('w, 't, code \<times> delivery_failure option) host_action" where
  "deliver_pending H ops transport en sender_pubkey timeout_secs m progress =
    (case progress of (delivered, first_error) \<Rightarrow>
       attempt (on_ffi (prepare_domain_event H en (pm_signed_kind m) (pm_payload m) (Some (PubKey (pm_to m)))))
         (\<lambda>remote_prepared.
           attempt (send_delivery_message ops transport
               (delivery_of sender_pubkey (pm_to m) (pm_envelope_kind m) (pm_payload m) (pm_invitation_id m)
                  remote_prepared) timeout_secs (- 7) (pm_label m))
             (\<lambda>_. pure (Ok (delivered + 1, first_error)))
             (\<lambda>delivery_error. pure (Ok (delivered, Some (unwrap_or first_error delivery_error)))))
         (\<lambda>_. pure (Ok (delivered,
           Some (unwrap_or first_error (- 7, Some (ascii ''event signing failed'')))))))"

fun deliver_all ::
  "(u8 list \<Rightarrow> b32) \<Rightarrow> ('w, 't) transport_ops \<Rightarrow> 't \<Rightarrow> 'w ffi_engine \<Rightarrow> b32 \<Rightarrow> u64 \<Rightarrow> pending_message list
    \<Rightarrow> code \<times> delivery_failure option \<Rightarrow> ('w, 't, code \<times> delivery_failure option) host_action" where
  "deliver_all H ops transport en sender_pubkey timeout_secs [] progress = pure (Ok progress)"
| "deliver_all H ops transport en sender_pubkey timeout_secs (m # ms) progress =
    seq (deliver_pending H ops transport en sender_pubkey timeout_secs m progress)
      (deliver_all H ops transport en sender_pubkey timeout_secs ms)"

definition wanted :: "b32 option \<Rightarrow> b32 \<Rightarrow> bool" where
  "wanted only_invitation_id i = unwrap_or (map_option (\<lambda>only. i = only) only_invitation_id) True"

definition pending_messages :: "'w ffi_state \<Rightarrow> b32 option \<Rightarrow> invitation_delivery_mode \<Rightarrow> pending_message list" where
  "pending_messages s only_invitation_id mode =
    (if mode = Terminal then []
     else map offer_message (filter (\<lambda>d. wanted only_invitation_id (sd_invitation_id d))
            (pending_outgoing_invitation_deliveries_in_runtime s)))
    @ (if mode = Offer then []
       else map terminal_message (filter (\<lambda>d. wanted only_invitation_id (td_invitation_id d))
            (pending_outgoing_invitation_terminal_deliveries_in_runtime s)))"

definition retry_pending_outgoing_invitations_over_transport ::
  "(u8 list \<Rightarrow> b32) \<Rightarrow> ('w, 't) transport_ops \<Rightarrow> 't \<Rightarrow> 'w ffi_engine \<Rightarrow> b32 \<Rightarrow> b32 option
    \<Rightarrow> invitation_delivery_mode \<Rightarrow> u64 \<Rightarrow> ('w, 't, code) host_action" where
  "retry_pending_outgoing_invitations_over_transport H ops transport en sender_pubkey only_invitation_id mode
      timeout_secs =
    seq (inspect (\<lambda>h. Ok (pending_messages (ho_ffi h) only_invitation_id mode))) (\<lambda>pending.
    if pending = [] then pure (Ok 0)
    else
      seq (deliver_all H ops transport en sender_pubkey timeout_secs pending (0, None)) (\<lambda>progress.
      case progress of (delivered_count, first_delivery_error) \<Rightarrow>
        pure (if 0 <s delivered_count then Ok delivered_count
              else case first_delivery_error of Some (code, reason) \<Rightarrow> Err code | None \<Rightarrow> Ok 0)))"

section \<open>Exported retries\<close>

definition host_engine :: "'w platform \<Rightarrow> seed \<Rightarrow> ('w, 't, 'w ffi_engine) host_action" where
  "host_engine pf seed = inspect (\<lambda>h. Ok (build_engine pf seed (ho_ffi h)))"

definition hivra_retry_outgoing_relationship_break_by_event_id ::
  "(u8 list \<Rightarrow> b32) \<Rightarrow> 'w platform \<Rightarrow> (b32 \<Rightarrow> b32 option) \<Rightarrow> ('w, 't) transport_ops \<Rightarrow> b32 option
    \<Rightarrow> ('w, 't, code) host_action" where
  "hivra_retry_outgoing_relationship_break_by_event_id H pf N ops event_id_ptr =
    seq clear_delivery_receipts (\<lambda>_.
    seq (on_ffi (argument event_id_ptr)) (\<lambda>item_id.
    seq (on_ffi (with_error (- 2) (load_seed pf))) (\<lambda>seed.
    seq (pure (load_invitation_delivery_context pf N seed)) (\<lambda>(sender_secret, sender_pubkey).
    seq (host_engine pf seed) (\<lambda>en.
      with_cached_nostr_transport ops sender_secret Quick (- 5) (\<lambda>transport.
        retry_outgoing_relationship_break_by_event_id_over_transport H ops transport en sender_pubkey item_id
          (publish_timeout_secs Quick)))))))"

definition retry_outgoing_invitation_by_id ::
  "(u8 list \<Rightarrow> b32) \<Rightarrow> 'w platform \<Rightarrow> (b32 \<Rightarrow> b32 option) \<Rightarrow> ('w, 't) transport_ops \<Rightarrow> b32 option
    \<Rightarrow> invitation_delivery_mode \<Rightarrow> ('w, 't, code) host_action" where
  "retry_outgoing_invitation_by_id H pf N ops invitation_id_ptr mode =
    seq clear_delivery_receipts (\<lambda>_.
    seq (on_ffi (argument invitation_id_ptr)) (\<lambda>invitation_id.
    seq (on_ffi (with_error (- 2) (load_seed pf))) (\<lambda>seed.
    seq (on_ffi (need_capsule (- 4))) (\<lambda>_.
    seq (pure (load_invitation_delivery_context pf N seed)) (\<lambda>(sender_secret, sender_pubkey).
    seq (host_engine pf seed) (\<lambda>en.
      with_cached_nostr_transport ops sender_secret Quick (- 5) (\<lambda>transport.
        retry_pending_outgoing_invitations_over_transport H ops transport en sender_pubkey (Some invitation_id)
          mode (publish_timeout_secs Quick))))))))"

definition hivra_retry_outgoing_invitation_offer_by_id ::
  "(u8 list \<Rightarrow> b32) \<Rightarrow> 'w platform \<Rightarrow> (b32 \<Rightarrow> b32 option) \<Rightarrow> ('w, 't) transport_ops \<Rightarrow> b32 option
    \<Rightarrow> ('w, 't, code) host_action" where
  "hivra_retry_outgoing_invitation_offer_by_id H pf N ops invitation_id_ptr =
    retry_outgoing_invitation_by_id H pf N ops invitation_id_ptr Offer"

definition hivra_retry_outgoing_invitation_terminal_by_id ::
  "(u8 list \<Rightarrow> b32) \<Rightarrow> 'w platform \<Rightarrow> (b32 \<Rightarrow> b32 option) \<Rightarrow> ('w, 't) transport_ops \<Rightarrow> b32 option
    \<Rightarrow> ('w, 't, code) host_action" where
  "hivra_retry_outgoing_invitation_terminal_by_id H pf N ops invitation_id_ptr =
    retry_outgoing_invitation_by_id H pf N ops invitation_id_ptr Terminal"

section \<open>Chat messages and attestations\<close>

text \<open>The text argument of the two senders: UTF-8, trimmed, not empty.\<close>

definition text_argument :: "u8 list option \<Rightarrow> (code, utf8) result" where
  "text_argument p =
    and_then (ok_or p (- 1)) (\<lambda>raw.
    and_then (ok_or (trimmed_text raw) (- 1)) (\<lambda>text. if text = [] then Err (- 1) else Ok text))"

text \<open>What the senders of chat messages and of attestations have in common.\<close>

definition send_plain_message ::
  "'w platform \<Rightarrow> (b32 \<Rightarrow> b32 option) \<Rightarrow> ('w, 't) transport_ops \<Rightarrow> u32 \<Rightarrow> string \<Rightarrow> b32 option
    \<Rightarrow> u8 list option \<Rightarrow> ('w, 't, code) host_action" where
  "send_plain_message pf N ops kind label to_ptr payload_ptr =
    seq clear_delivery_receipts (\<lambda>_.
    seq (on_ffi (argument to_ptr)) (\<lambda>to_pubkey.
    seq (pure (text_argument payload_ptr)) (\<lambda>payload.
    seq (on_ffi (with_error (- 2) (load_seed pf))) (\<lambda>seed.
    seq (on_ffi (need_capsule (- 4))) (\<lambda>_.
    seq (pure (load_invitation_delivery_context pf N seed)) (\<lambda>(sender_secret, sender_pubkey).
    seq (in_host_env (pf_wall_clock pf)) (\<lambda>now_ms.
    let message = \<lparr> en_schema_version = 1, en_from = sender_pubkey, en_to = to_pubkey, en_kind = kind,
          en_payload = payload, en_timestamp = unwrap_or now_ms 0, en_correlation_id = None,
          en_domain_event = None \<rparr>
    in seq (with_cached_nostr_transport ops sender_secret Quick (- 5) (\<lambda>transport.
         seq (transport_call (to_send ops transport message (publish_timeout_secs Quick))
               (\<lambda>err. map_delivery_error err (- 6))) (record_delivery_receipt label))) (\<lambda>_. pure (Ok 0)))))))))"

definition hivra_send_capsule_chat ::
  "'w platform \<Rightarrow> (b32 \<Rightarrow> b32 option) \<Rightarrow> ('w, 't) transport_ops \<Rightarrow> b32 option \<Rightarrow> u8 list option
    \<Rightarrow> ('w, 't, code) host_action" where
  "hivra_send_capsule_chat pf N ops = send_plain_message pf N ops CAPSULE_CHAT_KIND ''CapsuleChat''"

definition hivra_send_pair_consensus_attestation ::
  "'w platform \<Rightarrow> (b32 \<Rightarrow> b32 option) \<Rightarrow> ('w, 't) transport_ops \<Rightarrow> b32 option \<Rightarrow> u8 list option
    \<Rightarrow> ('w, 't, code) host_action" where
  "hivra_send_pair_consensus_attestation pf N ops =
    send_plain_message pf N ops PAIR_CONSENSUS_ATTESTATION_KIND ''PairConsensusAttestation''"

section \<open>Chat handoff and attestations for the application\<close>

text \<open>The seed, the transport key and the capsule, each failing with its own code.\<close>

definition local_context ::
  "(u8 list \<Rightarrow> b32) \<Rightarrow> 'w platform \<Rightarrow> (b32 \<Rightarrow> b32 option) \<Rightarrow> ('w, 't, seed \<times> b32 \<times> capsule_state) host_action" where
  "local_context H pf N =
    seq (on_ffi (with_error (- 2) (load_seed pf))) (\<lambda>seed.
    seq (pure (map_err (\<lambda>_. - 3) (derive_nostr_public_key (pf_lib pf) N seed))) (\<lambda>local_pubkey.
    seq (inspect (\<lambda>h. ok_or (current_capsule_state H (ho_ffi h)) (- 4))) (\<lambda>capsule.
      pure (Ok (seed, local_pubkey, capsule)))))"

text \<open>The JSON of the queued messages and the code (their number); \<open>json\<close> is the serializer and \<open>CString::new\<close>.\<close>

definition hivra_receive_capsule_chat_json ::
  "(u8 list \<Rightarrow> b32) \<Rightarrow> 'w platform \<Rightarrow> (b32 \<Rightarrow> b32 option) \<Rightarrow> chat_lib
    \<Rightarrow> (chat_message list \<Rightarrow> (code, u8 list) result) \<Rightarrow> bool \<Rightarrow> ('w, 't, code \<times> u8 list) host_action" where
  "hivra_receive_capsule_chat_json H pf N cl json out_given =
    seq (pure (if out_given then Ok () else Err (- 1))) (\<lambda>_.
    seq (local_context H pf N) (\<lambda>(seed, local_pubkey, capsule).
    seq (on_store (with_error (- 9) (list_chat_handoff cl capsule local_pubkey seed))) (\<lambda>queued.
    seq (pure (json queued)) (\<lambda>text. pure (Ok (of_nat (length queued), text))))))"

definition hivra_ack_capsule_chat_events_json ::
  "(u8 list \<Rightarrow> b32) \<Rightarrow> 'w platform \<Rightarrow> (b32 \<Rightarrow> b32 option) \<Rightarrow> chat_lib \<Rightarrow> (utf8 \<Rightarrow> utf8 list option) \<Rightarrow> u8 list option
    \<Rightarrow> ('w, 't, code) host_action" where
  "hivra_ack_capsule_chat_events_json H pf N cl parse event_ids_ptr =
    seq (on_ffi (argument event_ids_ptr)) (\<lambda>raw.
    seq (pure (ok_or (utf8_chars raw) (- 1))) (\<lambda>_.
    seq (pure (ok_or (parse raw) (- 1))) (\<lambda>event_ids.
    if length event_ids > CHAT_INBOX_CAPACITY \<or> list_ex (\<lambda>i. i = [] \<or> length i > 128) event_ids
    then pure (Err (- 1))
    else
      seq (local_context H pf N) (\<lambda>(seed, local_pubkey, capsule).
      seq (on_store (with_error (- 9) (acknowledge_chat_handoff cl capsule local_pubkey seed event_ids)))
        (\<lambda>_. pure (Ok 0))))))"

definition hivra_receive_pair_consensus_attestations_json ::
  "(u8 list \<Rightarrow> b32) \<Rightarrow> 'w platform \<Rightarrow> (b32 \<Rightarrow> b32 option)
    \<Rightarrow> (queued_attestation list \<Rightarrow> (code, u8 list) result) \<Rightarrow> bool \<Rightarrow> ('w, 't, code \<times> u8 list) host_action" where
  "hivra_receive_pair_consensus_attestations_json H pf N json out_given =
    seq (pure (if out_given then Ok () else Err (- 1))) (\<lambda>_.
    seq (local_context H pf N) (\<lambda>(seed, local_pubkey, capsule).
    seq (\<lambda>h. case drain_queued_attestations local_pubkey (ho_inbox h) of
          (queued, inbox) \<Rightarrow> (Ok queued, h\<lparr> ho_inbox := inbox \<rparr>)) (\<lambda>queued.
    seq (pure (json queued)) (\<lambda>text. pure (Ok (of_nat (length queued), text))))))"

end
