(* ===== verification/Ingress.thy ===== *)
theory Ingress
  imports Outbox
begin

text \<open>
  What the host does with deliveries (platform/hivra-ffi/src/invitation\_api.rs): one call recovers at most one
  quarantined delivery, receives one batch from the transport, decides every item of it and reports the
  decisions. The early returns of \<open>route_inbound_envelope\<close> are errors of an action that carry the
  disposition; a function call of the code is an action over the host and the counters of the call.
\<close>

section \<open>Counters\<close>

text \<open>The struct \<open>IngressCounters\<close> is a function from the names of its fields.\<close>

datatype ingress_counter =
    Appended | Loopback | RoutedNonCore | Unsupported | NotAddressed | ProofInvalid | SignerMismatch
  | Replayed | AppendFailed | CapacityBackpressure | QuarantinedItems | QuarantineRecovered
  | QuarantineExpired | QuarantineFailed | QuarantineTerminalReplay | SenderPolicyPermitted
  | SenderPolicyReplayed | SenderPolicyThrottled | SenderPolicyFailed | AdapterRejections
  | AcceptedSeen | AcceptedReplayed | AcceptedAppended | AcceptedProjectionReconciled

type_synonym ingress_counters = "ingress_counter \<Rightarrow> nat"

record ('w, 't) ingress =
  ig_host :: "('w, 't) host"
  ig_counters :: ingress_counters

type_synonym ('w, 't, 'e, 'a) ingress_action = "(('w, 't) ingress, 'e, 'a) action"

definition bump_by :: "ingress_counter \<Rightarrow> nat \<Rightarrow> ('w, 't, 'e, unit) ingress_action" where
  "bump_by c n = modify (\<lambda>g. g\<lparr> ig_counters := (ig_counters g)(c := ig_counters g c + n) \<rparr>)"

definition bump :: "ingress_counter \<Rightarrow> ('w, 't, 'e, unit) ingress_action" where
  "bump c = bump_by c 1"

text \<open>Counting and returning early.\<close>

definition leave ::
  "ingress_counter \<Rightarrow> inbound_delivery_disposition
    \<Rightarrow> ('w, 't, inbound_delivery_disposition, 'a) ingress_action" where
  "leave c disposition = seq (bump c) (\<lambda>_. pure (Err disposition))"

definition on_host :: "(('w, 't) host, 'e, 'a) action \<Rightarrow> ('w, 't, 'e, 'a) ingress_action" where
  "on_host m g = (case m (ig_host g) of (r, h) \<Rightarrow> (r, g\<lparr> ig_host := h \<rparr>))"

abbreviation on_runtime :: "('w ffi_state, 'e, 'a) action \<Rightarrow> ('w, 't, 'e, 'a) ingress_action" where
  "on_runtime m \<equiv> on_host (on_ffi m)"

abbreviation on_quarantine :: "'a repo_action \<Rightarrow> ('w, 't, quarantine_error, 'a) ingress_action" where
  "on_quarantine m \<equiv> on_host (on_store m)"

abbreviation ig_ffi :: "('w, 't) ingress \<Rightarrow> 'w ffi_state" where
  "ig_ffi g \<equiv> ho_ffi (ig_host g)"

section \<open>The event of a message\<close>

definition verified_event_from_message :: "delivery_envelope \<Rightarrow> event_kind \<Rightarrow> (string, event) result" where
  "verified_event_from_message message expected_kind =
    and_then (ok_or (en_domain_event message) ''missing domain event proof'') (\<lambda>proof.
    if dp_kind proof \<noteq> event_kind_to_u8 expected_kind then Err ''domain event kind mismatch''
    else if length (dp_signature proof) \<noteq> 64 then Err ''invalid domain event signature length''
    else
      let timestamp = Timestamp (en_timestamp message);
          signer = PubKey (dp_signer proof);
          signature = Signature (barray_of (dp_signature proof))
      in if dp_version proof = PROTOCOL_VERSION
         then Ok (event_new expected_kind (en_payload message) timestamp signature signer)
         else if dp_version proof = CONTINUOUS_LEDGER_PROTOCOL_VERSION
         then Ok (event_new_v5 expected_kind (en_payload message) timestamp signature signer)
         else Err ''unsupported domain event version'')"

text \<open>\<open>&payload[i..i + 32]\<close> panics out of range, and so does \<open>copy_from_slice\<close> into 32 bytes when the lengths
  differ.\<close>

definition payload_slice :: "u8 list \<Rightarrow> nat \<Rightarrow> ('e, b32) result" where
  "payload_slice payload i = (if i + 32 \<le> length payload then Ok (array_at payload i) else Panic)"

definition payload_copy :: "u8 list \<Rightarrow> ('e, b32) result" where
  "payload_copy payload = (if length payload = 32 then Ok (array_at payload 0) else Panic)"

definition proof_signer_matches_payload ::
  "event_kind \<Rightarrow> u8 list \<Rightarrow> pub_key \<Rightarrow> (inbound_delivery_disposition, bool) result" where
  "proof_signer_matches_payload kind payload signer =
    (if kind = InvitationReceived \<and> length payload \<ge> 128
     then and_then (payload_slice payload 96) (\<lambda>root. Ok (root = pub_key_as_bytes signer))
     else if kind = InvitationAccepted \<and> length payload = 128
     then and_then (payload_slice payload 96) (\<lambda>root. Ok (root = pub_key_as_bytes signer))
     else if kind = RelationshipBroken \<and> length payload = 96
     then and_then (payload_slice payload 64) (\<lambda>root. Ok (root = pub_key_as_bytes signer))
     else Ok (kind = InvitationRejected \<or> kind = InvitationExpired))"

definition project_invitation_accepted_delivery ::
  "(u8 list \<Rightarrow> b32) \<Rightarrow> nat \<Rightarrow> 'w platform \<Rightarrow> seed \<Rightarrow> b32 \<Rightarrow> u8 list \<Rightarrow> ('w, unit) ffi_action" where
  "project_invitation_accepted_delivery H U pf seed message_from payload =
    seq (pure (map_err (\<lambda>_. ''invalid InvitationAccepted payload'') (invitation_accepted_from_bytes payload)))
      (\<lambda>payload. with_engine pf seed (\<lambda>en.
        project_relationship_from_invitation_accepted H U pf en message_from payload))"

text \<open>What a delivered answer changes besides the event: also run for an answer that is known already.\<close>

definition project_delivery_effects ::
  "(u8 list \<Rightarrow> b32) \<Rightarrow> nat \<Rightarrow> 'w platform \<Rightarrow> seed \<Rightarrow> event_kind \<Rightarrow> delivery_envelope \<Rightarrow> ('w, unit) ffi_action" where
  "project_delivery_effects H U pf seed kind message =
    (if kind = InvitationAccepted
     then project_invitation_accepted_delivery H U pf seed (en_from message) (en_payload message)
     else if kind = InvitationRejected \<and> length (en_payload message) = 33
     then case invitation_rejected_from_bytes (en_payload message) of
            Ok payload \<Rightarrow> with_engine pf seed (\<lambda>en. project_effects_from_invitation_rejected H U pf en payload)
          | Err _ \<Rightarrow> pure (Ok ())
          | Panic \<Rightarrow> pure Panic
     else pure (Ok ()))"

section \<open>Routing one delivery\<close>

definition message_kind :: "u32 \<Rightarrow> event_kind option" where
  "message_kind kind = (if kind \<le> 255 then event_kind_from_u8 (ucast kind) else None)"

definition payload_targets_local ::
  "event_kind \<Rightarrow> u8 list \<Rightarrow> b32 \<Rightarrow> (inbound_delivery_disposition, bool) result" where
  "payload_targets_local kind payload local_endpoint =
    (if kind = InvitationSent \<and> length payload \<ge> 96
     then and_then (payload_slice payload 64) (\<lambda>to_from_payload. Ok (to_from_payload = local_endpoint))
     else Ok False)"

definition expired_targets_local ::
  "'w ffi_state \<Rightarrow> event_kind \<Rightarrow> delivery_envelope \<Rightarrow> (inbound_delivery_disposition, bool) result" where
  "expired_targets_local s kind message =
    (if kind = InvitationExpired \<and> length (en_payload message) = 32
     then and_then (payload_copy (en_payload message)) (\<lambda>invitation_id.
            Ok (incoming_invitation_expired_matches_runtime s invitation_id (PubKey (en_from message))))
     else Ok False)"

definition delivered_kind :: "event_kind \<Rightarrow> event_kind" where
  "delivered_kind kind = (if kind = InvitationSent then InvitationReceived else kind)"

text \<open>A queue outside the ledger may take the message.\<close>

definition offer_to_queue ::
  "(('w, 't) host \<Rightarrow> inbound_route_result \<times> ('w, 't) host)
    \<Rightarrow> ('w, 't, inbound_delivery_disposition, unit) ingress_action" where
  "offer_to_queue queue g =
    (case queue (ig_host g) of (taken, h) \<Rightarrow>
       let g = g\<lparr> ig_host := h \<rparr> in
       case taken of
         RouteConsumed \<Rightarrow> leave RoutedNonCore Consumed g
       | RouteRetry \<Rightarrow> leave CapacityBackpressure Retry g
       | NotMatched \<Rightarrow> (Ok (), g))"

definition chat_queue ::
  "chat_lib \<Rightarrow> delivery_envelope \<Rightarrow> utf8 \<Rightarrow> b32 \<Rightarrow> capsule_state \<Rightarrow> seed
    \<Rightarrow> ('w, 't) host \<Rightarrow> inbound_route_result \<times> ('w, 't) host" where
  "chat_queue cl message item_id local_endpoint capsule seed h =
    (case queue_incoming_chat_if_match cl message item_id local_endpoint capsule seed (ho_store h) of
       (taken, w) \<Rightarrow> (taken, h\<lparr> ho_store := w \<rparr>))"

definition attestation_queue ::
  "delivery_envelope \<Rightarrow> utf8 \<Rightarrow> b32 \<Rightarrow> ('w, 't) host \<Rightarrow> inbound_route_result \<times> ('w, 't) host" where
  "attestation_queue message item_id local_endpoint h =
    (case queue_incoming_attestation_if_match message item_id local_endpoint (ho_inbox h) of
       (taken, inbox) \<Rightarrow> (taken, h\<lparr> ho_inbox := inbox \<rparr>))"

text \<open>The event of a delivery that is for this capsule is skipped or appended.\<close>

definition admit_event ::
  "(u8 list \<Rightarrow> b32) \<Rightarrow> nat \<Rightarrow> 'w platform \<Rightarrow> seed \<Rightarrow> delivery_envelope \<Rightarrow> event_kind \<Rightarrow> event
    \<Rightarrow> ('w, 't, inbound_delivery_disposition, inbound_delivery_disposition) ingress_action" where
  "admit_event H U pf seed message local_kind event =
    (let is_accepted = local_kind = InvitationAccepted in
     seq (inspect (\<lambda>g. Ok (should_skip_incoming_delivery_append_with_timestamp (ig_ffi g) local_kind
           (en_payload message) (ev_signer event) (Some (en_timestamp message))))) (\<lambda>skip.
     if skip
     then
       seq (bump Replayed) (\<lambda>_.
       seq (if is_accepted then bump AcceptedReplayed else pure (Ok ())) (\<lambda>_.
       seq (on_runtime (with_error Retry (project_delivery_effects H U pf seed local_kind message))) (\<lambda>_.
       seq (if is_accepted then bump AcceptedProjectionReconciled else pure (Ok ())) (\<lambda>_.
         pure (Ok Consumed)))))
     else
       seq (attempt (on_runtime (append_verified_runtime_event H U pf event)) (\<lambda>_. pure (Ok ()))
              (\<lambda>_. leave AppendFailed Retry)) (\<lambda>_.
       seq (bump Appended) (\<lambda>_.
       seq (if is_accepted then bump AcceptedAppended else pure (Ok ())) (\<lambda>_.
       seq (on_runtime (with_error Retry (project_delivery_effects H U pf seed local_kind message))) (\<lambda>_.
         pure (Ok Consumed)))))))"

text \<open>The part of the routing that concerns ledger events.\<close>

definition route_event ::
  "(u8 list \<Rightarrow> b32) \<Rightarrow> nat \<Rightarrow> 'w platform \<Rightarrow> delivery_envelope \<Rightarrow> b32 \<Rightarrow> seed
    \<Rightarrow> ('w, 't, inbound_delivery_disposition, inbound_delivery_disposition) ingress_action" where
  "route_event H U pf message local_endpoint seed =
    (case message_kind (en_kind message) of
       None \<Rightarrow> leave Unsupported Consumed
     | Some kind \<Rightarrow>
         seq (inspect (\<lambda>g.
               and_then (payload_targets_local kind (en_payload message) local_endpoint) (\<lambda>payload_targets.
               and_then (expired_targets_local (ig_ffi g) kind message) (\<lambda>expired_targets.
                 Ok (en_to message = local_endpoint \<or> payload_targets \<or> expired_targets))))) (\<lambda>addressed.
         if \<not> addressed then leave NotAddressed Consumed
         else
           seq (if delivered_kind kind = InvitationAccepted then bump AcceptedSeen else pure (Ok ())) (\<lambda>_.
           case verified_event_from_message message (delivered_kind kind) of
             Ok event \<Rightarrow>
               seq (pure (proof_signer_matches_payload (delivered_kind kind) (en_payload message) (ev_signer event)))
                 (\<lambda>matches.
               if \<not> matches then leave SignerMismatch Consumed
               else admit_event H U pf seed message (delivered_kind kind) event)
           | _ \<Rightarrow> leave ProofInvalid Consumed)))"

definition route_steps ::
  "(u8 list \<Rightarrow> b32) \<Rightarrow> nat \<Rightarrow> 'w platform \<Rightarrow> chat_lib \<Rightarrow> utf8 \<Rightarrow> delivery_envelope \<Rightarrow> b32 \<Rightarrow> seed
    \<Rightarrow> ('w, 't, inbound_delivery_disposition, inbound_delivery_disposition) ingress_action" where
  "route_steps H U pf cl item_id message local_endpoint seed =
    seq (if en_from message = local_endpoint then leave Loopback Consumed else pure (Ok ())) (\<lambda>_.
    seq (inspect (\<lambda>g. ok_or (current_capsule_state H (ig_ffi g)) Retry)) (\<lambda>capsule.
    seq (offer_to_queue (chat_queue cl message item_id local_endpoint capsule seed)) (\<lambda>_.
    seq (offer_to_queue (attestation_queue message item_id local_endpoint)) (\<lambda>_.
      route_event H U pf message local_endpoint seed))))"

definition route_inbound_envelope ::
  "(u8 list \<Rightarrow> b32) \<Rightarrow> nat \<Rightarrow> 'w platform \<Rightarrow> chat_lib \<Rightarrow> utf8 \<Rightarrow> delivery_envelope \<Rightarrow> b32 \<Rightarrow> seed
    \<Rightarrow> ('w, 't, 'e, inbound_delivery_disposition) ingress_action" where
  "route_inbound_envelope H U pf cl item_id message local_endpoint seed =
    attempt (route_steps H U pf cl item_id message local_endpoint seed) (\<lambda>disposition. pure (Ok disposition))
      (\<lambda>disposition. pure (Ok disposition))"

text \<open>The length guards make every slice of the routing return.\<close>

lemma payload_slices_return:
  "\<exists>b. proof_signer_matches_payload kind payload signer = Ok b" "\<exists>b. payload_targets_local kind payload local = Ok b"
  "\<exists>b. expired_targets_local s kind message = Ok b"
  by (auto simp: proof_signer_matches_payload_def payload_targets_local_def expired_targets_local_def payload_slice_def
      payload_copy_def)

lemma payload_slices_not_Panic [simp]:
  "proof_signer_matches_payload kind payload signer \<noteq> Panic" "payload_targets_local kind payload local \<noteq> Panic"
  "expired_targets_local s kind message \<noteq> Panic"
  using payload_slices_return by (metis result.distinct(3))+

section \<open>Receiving\<close>

definition recover_one_quarantined_envelope ::
  "(u8 list \<Rightarrow> b32) \<Rightarrow> nat \<Rightarrow> 'w platform \<Rightarrow> chat_lib \<Rightarrow> quarantine_lib \<Rightarrow> repository \<Rightarrow> b32 \<Rightarrow> seed \<Rightarrow> u64
    \<Rightarrow> ('w, 't, quarantine_error, unit) ingress_action" where
  "recover_one_quarantined_envelope H U pf cl ql repo local_pubkey seed now =
    seq (on_quarantine (expire_due ql repo now)) (\<lambda>expired.
    seq (bump_by QuarantineExpired expired) (\<lambda>_.
    seq (on_quarantine (next_eligible ql repo now)) (\<lambda>recovered.
    case recovered of
      None \<Rightarrow> pure (Ok ())
    | Some (item_id, envelope) \<Rightarrow>
        seq (route_inbound_envelope H U pf cl item_id envelope local_pubkey seed) (\<lambda>disposition.
        case disposition of
          Consumed \<Rightarrow> seq (on_quarantine (mark_consumed ql repo item_id now)) (\<lambda>_. bump QuarantineRecovered)
        | Retry \<Rightarrow> on_quarantine (mark_retry ql repo item_id now)
        | _ \<Rightarrow> pure (Err InvalidRecord)))))"

text \<open>A message of the batch that no earlier call has finished.\<close>

definition decide_message ::
  "(u8 list \<Rightarrow> b32) \<Rightarrow> nat \<Rightarrow> 'w platform \<Rightarrow> chat_lib \<Rightarrow> quarantine_lib \<Rightarrow> repository \<Rightarrow> b32 \<Rightarrow> seed \<Rightarrow> u64
    \<Rightarrow> utf8 \<Rightarrow> utf8 list \<Rightarrow> delivery_envelope \<Rightarrow> ('w, 't, 'e, inbound_delivery_disposition) ingress_action" where
  "decide_message H U pf cl ql repo local_pubkey seed now item_id observed_by message =
    attempt (on_quarantine (apply_sender_policy ql repo item_id observed_by message now))
      (\<lambda>decision.
          if decision = sender_ingress_decision.Quarantined
          then seq (bump QuarantinedItems) (\<lambda>_. seq (bump SenderPolicyThrottled) (\<lambda>_. pure (Ok inbound_delivery_disposition.Quarantined)))
          else
            seq (bump (if decision = Permit then SenderPolicyPermitted else SenderPolicyReplayed)) (\<lambda>_.
            seq (route_inbound_envelope H U pf cl item_id message local_pubkey seed) (\<lambda>disposition.
            if disposition = Retry
            then attempt (on_quarantine (quarantine ql repo item_id observed_by message
                   (ascii ''canonical_route_retry'') now))
                 (\<lambda>_. seq (bump QuarantinedItems) (\<lambda>_. pure (Ok inbound_delivery_disposition.Quarantined)))
                 (\<lambda>_. seq (bump QuarantineFailed) (\<lambda>_. pure (Ok Retry)))
            else pure (Ok disposition))))
      (\<lambda>_. seq (bump SenderPolicyFailed) (\<lambda>_. pure (Ok Retry)))"

definition decide_item ::
  "(u8 list \<Rightarrow> b32) \<Rightarrow> nat \<Rightarrow> 'w platform \<Rightarrow> chat_lib \<Rightarrow> quarantine_lib \<Rightarrow> repository \<Rightarrow> b32 \<Rightarrow> seed \<Rightarrow> u64
    \<Rightarrow> inbound_delivery_item \<Rightarrow> ('w, 't, 'e, inbound_delivery_resolution) ingress_action" where
  "decide_item H U pf cl ql repo local_pubkey seed now item =
    (let item_id = ascii (di_event_id item) in
     seq (case di_payload item of
            AdapterRejectedPayload reason \<Rightarrow> seq (bump AdapterRejections) (\<lambda>_. pure (Ok AdapterRejected))
          | Envelope message \<Rightarrow>
              seq (inspect (\<lambda>g. Ok (has_terminal_evidence (qw_snapshot (ho_store (ig_host g))) item_id)))
                (\<lambda>known.
              if known then seq (bump QuarantineTerminalReplay) (\<lambda>_. pure (Ok Consumed))
              else decide_message H U pf cl ql repo local_pubkey seed now item_id
                     (map ascii (di_observed_by item)) message)) (\<lambda>disposition.
       pure (Ok \<lparr> dr_event_id = di_event_id item, dr_disposition = disposition \<rparr>)))"

fun decide_items ::
  "(u8 list \<Rightarrow> b32) \<Rightarrow> nat \<Rightarrow> 'w platform \<Rightarrow> chat_lib \<Rightarrow> quarantine_lib \<Rightarrow> repository \<Rightarrow> b32 \<Rightarrow> seed \<Rightarrow> u64
    \<Rightarrow> inbound_delivery_item list \<Rightarrow> ('w, 't, 'e, inbound_delivery_resolution list) ingress_action" where
  "decide_items H U pf cl ql repo local_pubkey seed now [] = pure (Ok [])"
| "decide_items H U pf cl ql repo local_pubkey seed now (item # rest) =
    seq (decide_item H U pf cl ql repo local_pubkey seed now item) (\<lambda>resolution.
    seq (decide_items H U pf cl ql repo local_pubkey seed now rest) (\<lambda>resolutions.
      pure (Ok (resolution # resolutions))))"

text \<open>The part of a receive that runs with an open repository.\<close>

definition receive_batch_with ::
  "(u8 list \<Rightarrow> b32) \<Rightarrow> nat \<Rightarrow> 'w platform \<Rightarrow> chat_lib \<Rightarrow> quarantine_lib \<Rightarrow> ('w, 't) transport_ops
    \<Rightarrow> transport_profile \<Rightarrow> repository \<Rightarrow> b32 \<Rightarrow> b32 \<Rightarrow> seed \<Rightarrow> u64 \<Rightarrow> ('w, 't, code, code) ingress_action" where
  "receive_batch_with H U pf cl ql ops profile repo local_pubkey sender_secret seed now =
    seq (with_error (- 7) (recover_one_quarantined_envelope H U pf cl ql repo local_pubkey seed now)) (\<lambda>_.
    seq (on_host (with_cached_nostr_transport ops sender_secret profile (- 4) (\<lambda>transport.
          transport_call (to_receive_batch ops transport (receive_timeout_secs profile)) (\<lambda>_. - 5)))) (\<lambda>batch.
    seq (decide_items H U pf cl ql repo local_pubkey seed now (db_items batch)) (\<lambda>resolutions.
    seq (with_error (- 6) (on_host (with_current_nostr_transport sender_secret (- 6) (\<lambda>transport.
          transport_call (to_resolve_batch ops transport (db_batch_id batch) resolutions) (\<lambda>_. - 6))))) (\<lambda>_.
      inspect (\<lambda>g. Ok (of_nat (ig_counters g Appended)))))))"

definition with_counters :: "('w, 't, 'e, 'a) ingress_action \<Rightarrow> (('w, 't) host, 'e, 'a) action" where
  "with_counters m h = (case m \<lparr> ig_host = h, ig_counters = (\<lambda>_. 0) \<rparr> of (r, g) \<Rightarrow> (r, ig_host g))"

text \<open>\<open>SystemTime::now()\<close> in seconds.\<close>

definition receive_now :: "'w platform \<Rightarrow> ('w, 't, u64) host_action" where
  "receive_now pf = seq (in_host_env (pf_wall_clock pf)) (\<lambda>now_ms. pure (Ok (unwrap_or now_ms 0 div 1000)))"

definition hivra_transport_receive_with_profile ::
  "(u8 list \<Rightarrow> b32) \<Rightarrow> nat \<Rightarrow> 'w platform \<Rightarrow> (b32 \<Rightarrow> b32 option) \<Rightarrow> chat_lib \<Rightarrow> quarantine_lib
    \<Rightarrow> ('w, 't) transport_ops \<Rightarrow> transport_profile \<Rightarrow> ('w, 't, code) host_action" where
  "hivra_transport_receive_with_profile H U pf N cl ql ops profile =
    seq clear_delivery_receipts (\<lambda>_.
    seq (on_ffi (with_error (- 1) (load_seed pf))) (\<lambda>seed.
    seq (pure (map_err (\<lambda>_. - 2) (derive_nostr_public_key (pf_lib pf) N seed))) (\<lambda>local_pubkey.
    seq (pure (map_err (\<lambda>_. - 2) (derive_nostr_keypair (pf_lib pf) seed))) (\<lambda>sender_secret.
    seq (inspect (\<lambda>h. ok_or (current_capsule_state H (ho_ffi h)) (- 3))) (\<lambda>capsule.
    seq (on_store (with_error (- 7) (open_repository ql (scope_for_runtime (bytes (cs_public_key capsule))
          (cs_network capsule) (bytes local_pubkey)) seed))) (\<lambda>repo.
    seq (receive_now pf) (\<lambda>now.
      with_counters (receive_batch_with H U pf cl ql ops profile repo local_pubkey sender_secret seed now))))))))"

definition hivra_transport_receive ::
  "(u8 list \<Rightarrow> b32) \<Rightarrow> nat \<Rightarrow> 'w platform \<Rightarrow> (b32 \<Rightarrow> b32 option) \<Rightarrow> chat_lib \<Rightarrow> quarantine_lib
    \<Rightarrow> ('w, 't) transport_ops \<Rightarrow> ('w, 't, code) host_action" where
  "hivra_transport_receive H U pf N cl ql ops =
    hivra_transport_receive_with_profile H U pf N cl ql ops Default"

definition hivra_transport_receive_quick ::
  "(u8 list \<Rightarrow> b32) \<Rightarrow> nat \<Rightarrow> 'w platform \<Rightarrow> (b32 \<Rightarrow> b32 option) \<Rightarrow> chat_lib \<Rightarrow> quarantine_lib
    \<Rightarrow> ('w, 't) transport_ops \<Rightarrow> ('w, 't, code) host_action" where
  "hivra_transport_receive_quick H U pf N cl ql ops =
    hivra_transport_receive_with_profile H U pf N cl ql ops Quick"

end
