(* ===== verification/Capsule_Api.thy ===== *)
theory Capsule_Api
  imports Outbox History Pair Ledger_Json
begin

text \<open>
  The exported operations on the seed, the capsule and the ledger (platform/hivra-ffi/src/seed\_api.rs,
  capsule\_api.rs, ledger\_api.rs, selfcheck\_api.rs). An output pointer that is null is \<open>False\<close>, an output is
  returned beside the code; the JSON codecs are arguments. The key store of the operating system is the
  parameter \<open>seed_store\<close>.
\<close>

section \<open>Arguments and outputs\<close>

record 'w seed_store =
  ss_store :: "seed \<Rightarrow> 'w \<Rightarrow> bool \<times> 'w"
  ss_delete :: "'w \<Rightarrow> bool \<times> 'w"
  ss_delete_for :: "seed \<Rightarrow> 'w \<Rightarrow> bool \<times> 'w"
  ss_exists :: "'w \<Rightarrow> bool \<times> 'w"

definition out_pointer :: "bool \<Rightarrow> ('w, unit) api" where
  "out_pointer given = pure (if given then Ok () else Err (- 1))"

text \<open>\<open>CStr::to_str\<close>: the bytes of a text are its characters.\<close>

definition c_string :: "u8 list option \<Rightarrow> (code, string) result" where
  "c_string p =
    and_then (ok_or p (- 1)) (\<lambda>raw.
    and_then (ok_or (utf8_chars raw) (- 2)) (\<lambda>_. Ok (map (\<lambda>b. char_of (unat b)) raw)))"

definition succeeded :: "code \<Rightarrow> ('w \<Rightarrow> bool \<times> 'w) \<Rightarrow> ('w, unit) api" where
  "succeeded code f = seq (sample_with (in_env f)) (\<lambda>stored. pure (if stored then Ok () else Err code))"

section \<open>Seeds\<close>

definition hivra_seed_to_mnemonic :: "crypto_lib \<Rightarrow> b32 option \<Rightarrow> u32 \<Rightarrow> bool \<Rightarrow> (code, string) result" where
  "hivra_seed_to_mnemonic lib seed_ptr word_count out =
    and_then (ok_or seed_ptr (- 1)) (\<lambda>seed.
    if \<not> out then Err (- 1) else map_err (\<lambda>_. - 1) (seed_to_mnemonic lib (KeySeed seed) (unat word_count)))"

definition hivra_mnemonic_to_seed :: "crypto_lib \<Rightarrow> u8 list option \<Rightarrow> bool \<Rightarrow> (code, b32) result" where
  "hivra_mnemonic_to_seed lib phrase_ptr out =
    (if phrase_ptr = None \<or> \<not> out then Err (- 1)
     else and_then (map_err (\<lambda>_. - 1) (c_string phrase_ptr)) (\<lambda>phrase.
       map_err (\<lambda>_. - 1) (and_then (mnemonic_to_seed lib phrase) (\<lambda>seed. Ok (seed_as_bytes seed)))))"

definition hivra_generate_random_seed :: "'w platform \<Rightarrow> bool \<Rightarrow> ('w, b32) api" where
  "hivra_generate_random_seed pf out = seq (out_pointer out) (\<lambda>_. sample_with (in_env (pf_fill_32 pf)))"

definition hivra_seed_root_public_key :: "crypto_lib \<Rightarrow> b32 option \<Rightarrow> bool \<Rightarrow> (code, b32) result" where
  "hivra_seed_root_public_key lib seed_ptr out =
    and_then (ok_or seed_ptr (- 1)) (\<lambda>seed.
    if \<not> out then Err (- 1) else map_err (\<lambda>_. - 1) (derive_root_public_key lib (KeySeed seed)))"

definition hivra_seed_nostr_public_key ::
  "crypto_lib \<Rightarrow> (b32 \<Rightarrow> b32 option) \<Rightarrow> b32 option \<Rightarrow> bool \<Rightarrow> (code, b32) result" where
  "hivra_seed_nostr_public_key lib N seed_ptr out =
    and_then (ok_or seed_ptr (- 1)) (\<lambda>seed.
    if \<not> out then Err (- 1) else map_err (\<lambda>_. - 1) (derive_nostr_public_key lib N (KeySeed seed)))"

definition hivra_seed_exists :: "'w seed_store \<Rightarrow> ('w, code) api" where
  "hivra_seed_exists ss = seq (sample_with (in_env (ss_exists ss))) (\<lambda>found. pure (Ok (if found then 1 else 0)))"

definition hivra_seed_save :: "'w seed_store \<Rightarrow> b32 option \<Rightarrow> ('w, code) api" where
  "hivra_seed_save ss seed_ptr =
    seq (argument seed_ptr) (\<lambda>seed. seq (succeeded (- 1) (ss_store ss (KeySeed seed))) (\<lambda>_. pure (Ok 0)))"

definition hivra_seed_load :: "'w platform \<Rightarrow> bool \<Rightarrow> ('w, b32) api" where
  "hivra_seed_load pf out =
    seq (out_pointer out) (\<lambda>_. seq (with_error (- 1) (load_seed pf)) (\<lambda>seed. pure (Ok (seed_as_bytes seed))))"

definition hivra_seed_delete :: "'w seed_store \<Rightarrow> ('w, code) api" where
  "hivra_seed_delete ss = seq (succeeded (- 1) (ss_delete ss)) (\<lambda>_. pure (Ok 0))"

definition hivra_seed_delete_for :: "'w seed_store \<Rightarrow> b32 option \<Rightarrow> ('w, code) api" where
  "hivra_seed_delete_for ss seed_ptr =
    seq (argument seed_ptr) (\<lambda>seed. seq (succeeded (- 1) (ss_delete_for ss (KeySeed seed))) (\<lambda>_. pure (Ok 0)))"

section \<open>The capsule\<close>

definition hivra_capsule_create ::
  "(u8 list \<Rightarrow> b32) \<Rightarrow> 'w platform \<Rightarrow> 'w seed_store \<Rightarrow> b32 option \<Rightarrow> u8 \<Rightarrow> u8 \<Rightarrow> u8 \<Rightarrow> ('w, code) api" where
  "hivra_capsule_create H pf ss seed_ptr network capsule_type owner_mode =
    seq (argument seed_ptr) (\<lambda>seed_bytes.
    let seed = KeySeed seed_bytes in
    seq (succeeded (- 1) (ss_store ss seed)) (\<lambda>_.
    seq (with_error (- 2) (init_runtime_state H pf seed (if network = 0 then Hood else Neste)
          (if capsule_type = 1 then Relay else Leaf) (owner_mode_from_u8 owner_mode))) (\<lambda>_. pure (Ok 0))))"

definition hivra_capsule_runtime_owner_public_key :: "bool \<Rightarrow> ('w, b32) api" where
  "hivra_capsule_runtime_owner_public_key out =
    seq (out_pointer out) (\<lambda>_.
      inspect (\<lambda>s. ok_or (map_option (\<lambda>c. pub_key_as_bytes (ca_pubkey c)) (fs_capsule s)) (- 1)))"

definition hivra_capsule_root_public_key :: "'w platform \<Rightarrow> bool \<Rightarrow> ('w, b32) api" where
  "hivra_capsule_root_public_key pf out =
    seq (out_pointer out) (\<lambda>_.
    seq (with_error (- 1) (load_seed pf)) (\<lambda>seed.
      pure (map_err (\<lambda>_. - 1) (derive_root_public_key (pf_lib pf) seed))))"

definition hivra_capsule_nostr_public_key :: "'w platform \<Rightarrow> (b32 \<Rightarrow> b32 option) \<Rightarrow> bool \<Rightarrow> ('w, b32) api" where
  "hivra_capsule_nostr_public_key pf N out =
    seq (out_pointer out) (\<lambda>_.
    seq (with_error (- 1) (load_seed pf)) (\<lambda>seed.
      pure (map_err (\<lambda>_. - 1) (derive_nostr_public_key (pf_lib pf) N seed))))"

text \<open>The cached transport is dropped with the runtime.\<close>

definition hivra_capsule_reset :: "'w platform \<Rightarrow> 'w seed_store \<Rightarrow> ('w, 't, code) host_action" where
  "hivra_capsule_reset pf ss =
    seq (on_ffi (succeeded (- 1) (ss_delete ss))) (\<lambda>_.
    seq (modify (\<lambda>h. clear_cached_nostr_transports (h\<lparr> ho_ffi := clear_runtime_state pf (ho_ffi h) \<rparr>)))
      (\<lambda>_. pure (Ok 0)))"

section \<open>Starters\<close>

definition hivra_starter_get_id :: "u8 \<Rightarrow> bool \<Rightarrow> ('w, b32) api" where
  "hivra_starter_get_id slot out =
    inspect (\<lambda>s.
      if \<not> out \<or> slot \<ge> 5 then Err (- 1)
      else and_then (ok_or (fs_capsule s) (- 1)) (\<lambda>capsule.
        and_then (ok_or (slot_index_new slot) (- 1)) (\<lambda>index.
        and_then (ok_or (starter_id_at (layout_from_ledger (ca_ledger capsule)) index) (- 1)) (\<lambda>i.
          Ok (starter_id_as_bytes i)))))"

definition hivra_starter_get_type :: "u8 \<Rightarrow> ('w, code) api" where
  "hivra_starter_get_type slot =
    inspect (\<lambda>s.
      if slot \<ge> 5 then Err (- 1)
      else and_then (ok_or (fs_capsule s) (- 1)) (\<lambda>capsule.
        and_then (ok_or (slot_index_new slot) (- 1)) (\<lambda>index.
          let entries = entries_with_kinds (layout_from_ledger (ca_ledger capsule)) (ca_ledger capsule)
          in if unat (slot_index_as_u8 index) \<ge> length entries then Panic
             else Ok (unwrap_or (map_option (\<lambda>kind. ucast (starter_kind_to_byte kind))
               (se_starter_kind (entries ! unat (slot_index_as_u8 index)))) (- 1)))))"

definition hivra_starter_exists :: "u8 \<Rightarrow> 'w ffi_state \<Rightarrow> bool" where
  "hivra_starter_exists slot s =
    (slot < 5 \<and> (case fs_capsule s of
       None \<Rightarrow> False
     | Some capsule \<Rightarrow>
         (case slot_index_new slot of
            None \<Rightarrow> False
          | Some index \<Rightarrow> starter_id_at (layout_from_ledger (ca_ledger capsule)) index \<noteq> None)))"

section \<open>The ledger\<close>

definition hivra_export_capsule_state_json ::
  "(u8 list \<Rightarrow> b32) \<Rightarrow> (capsule_state \<Rightarrow> u8 list option) \<Rightarrow> bool \<Rightarrow> ('w, u8 list) api" where
  "hivra_export_capsule_state_json H json out =
    seq (out_pointer out) (\<lambda>_.
      inspect (\<lambda>s. and_then (ok_or (current_capsule_state H s) (- 3)) (\<lambda>state. ok_or (json state) (- 2))))"

text \<open>\<open>CString::new\<close> refuses a text with a zero byte.\<close>

definition hivra_export_ledger :: "(u8 list \<Rightarrow> b32) \<Rightarrow> serde_json \<Rightarrow> bool \<Rightarrow> ('w, string) api" where
  "hivra_export_ledger H js out =
    seq (out_pointer out) (\<lambda>_.
    seq (with_error (- 2) (inspect (export_runtime_ledger H js))) (\<lambda>json.
      pure (if CHR 0x00 \<in> set json then Err (- 2) else Ok json)))"

text \<open>The common part of the four projections of a ledger document.\<close>

definition project_document ::
  "'w platform \<Rightarrow> u8 list option \<Rightarrow> bool \<Rightarrow> (ledger \<Rightarrow> (code, u8 list) result) \<Rightarrow> (code, u8 list) result" where
  "project_document pf ledger_json out view =
    (if ledger_json = None \<or> \<not> out then Err (- 1)
     else and_then (c_string ledger_json) (\<lambda>text.
       and_then (ok_or (pf_parse_ledger pf text) (- 3)) view))"

definition hivra_project_invitation_current_view_v1 ::
  "'w platform \<Rightarrow> (invitation_current_view \<Rightarrow> u8 list option) \<Rightarrow> u8 list option \<Rightarrow> bool
    \<Rightarrow> (code, u8 list) result" where
  "hivra_project_invitation_current_view_v1 pf json ledger_json out =
    project_document pf ledger_json out (\<lambda>l. ok_or (json (invitation_current_view_v1 l)) (- 4))"

definition hivra_project_relationship_current_view_v1 ::
  "'w platform \<Rightarrow> (relationship_current_view \<Rightarrow> u8 list option) \<Rightarrow> u8 list option \<Rightarrow> b32 option \<Rightarrow> bool
    \<Rightarrow> (code, u8 list) result" where
  "hivra_project_relationship_current_view_v1 pf json ledger_json local_transport out =
    project_document pf ledger_json out
      (\<lambda>l. ok_or (json (relationship_current_view_v1 l (map_option PubKey local_transport))) (- 4))"

definition hivra_project_pair_view_v1 ::
  "'w platform \<Rightarrow> (pair_view \<Rightarrow> u8 list option) \<Rightarrow> u8 list option \<Rightarrow> b32 option \<Rightarrow> bool
    \<Rightarrow> (code, u8 list) result" where
  "hivra_project_pair_view_v1 pf json ledger_json local_transport out =
    project_document pf ledger_json out
      (\<lambda>l. ok_or (json (pair_view_v1 l (map_option PubKey local_transport))) (- 4))"

record history_view_request =
  hq_schema :: string
  hq_version :: u16
  hq_subject :: history_subject

definition hivra_project_history_view_v1 ::
  "'w platform \<Rightarrow> (string \<Rightarrow> history_view_request option) \<Rightarrow> (history_view \<Rightarrow> u8 list option)
    \<Rightarrow> u8 list option \<Rightarrow> u8 list option \<Rightarrow> bool \<Rightarrow> (code, u8 list) result" where
  "hivra_project_history_view_v1 pf parse json ledger_json request_json out =
    (if ledger_json = None \<or> request_json = None \<or> \<not> out then Err (- 1)
     else
       and_then (c_string ledger_json) (\<lambda>ledger_text.
       and_then (c_string request_json) (\<lambda>request_text.
       and_then (ok_or (pf_parse_ledger pf ledger_text) (- 3)) (\<lambda>l.
       and_then (ok_or (parse request_text) (- 5)) (\<lambda>request.
       if hq_schema request \<noteq> ''hivra.history_view.request'' \<or> hq_version request \<noteq> 1 then Err (- 5)
       else ok_or (json (history_view_v1 l (hq_subject request))) (- 4))))))"

definition hivra_validate_backup_ledger_v1 ::
  "(u8 list \<Rightarrow> b32) \<Rightarrow> nat \<Rightarrow> 'w platform \<Rightarrow> (b32 \<Rightarrow> b32 option) \<Rightarrow> u8 list option \<Rightarrow> b32 option
    \<Rightarrow> (code, code) result" where
  "hivra_validate_backup_ledger_v1 H U pf N json_ptr seed_ptr =
    (if json_ptr = None \<or> seed_ptr = None then Err (- 1)
     else
       and_then (c_string json_ptr) (\<lambda>json.
       let seed = KeySeed (the seed_ptr) in
       and_then (ok_or (pf_parse_ledger pf json) (- 3)) (\<lambda>l.
       and_then (map_err (\<lambda>_. - 3) (derive_root_public_key (pf_lib pf) seed)) (\<lambda>root.
       and_then (map_err (\<lambda>_. - 3) (derive_nostr_public_key (pf_lib pf) N seed)) (\<lambda>nostr.
       if l_owner l \<noteq> PubKey root \<and> l_owner l \<noteq> PubKey nostr then Err (- 3)
       else and_then (map_err (\<lambda>_. - 3) (validate_imported_ledger H U (pf_lib pf) l (l_owner l) True)) (\<lambda>_.
         and_then (if is_continuous_v5 l
           then map_err (\<lambda>_. - 3) (verify_ledger_v5 H U (build_engine_for_ledger pf seed l) l)
           else Ok ()) (\<lambda>_. Ok 0)))))))"

definition hivra_import_ledger ::
  "(u8 list \<Rightarrow> b32) \<Rightarrow> nat \<Rightarrow> 'w platform \<Rightarrow> u8 list option \<Rightarrow> ('w, code) api" where
  "hivra_import_ledger H U pf json_ptr =
    seq (pure (c_string json_ptr)) (\<lambda>json.
    seq (with_error (- 3) (import_runtime_ledger H U pf json)) (\<lambda>_. pure (Ok 0)))"

text \<open>A null pointer is accepted for an empty payload only: \<open>None\<close> stands for a null pointer with a length.\<close>

definition hivra_ledger_append_event ::
  "(u8 list \<Rightarrow> b32) \<Rightarrow> nat \<Rightarrow> 'w platform \<Rightarrow> u8 \<Rightarrow> u8 list option \<Rightarrow> ('w, code) api" where
  "hivra_ledger_append_event H U pf kind payload_ptr =
    seq (argument payload_ptr) (\<lambda>payload.
    seq (pure (ok_or (event_kind_from_u8 kind) (- 2))) (\<lambda>event_kind.
    seq (with_error (- 3) (append_runtime_event H U pf event_kind payload)) (\<lambda>_. pure (Ok 0))))"

section \<open>Self checks and signatures\<close>

definition sign_root_digest32 :: "crypto_lib \<Rightarrow> seed \<Rightarrow> b32 \<Rightarrow> (string, b64) result" where
  "sign_root_digest32 lib seed message =
    and_then (map_err (\<lambda>_. ''root key derivation failed'') (derive_root_keypair lib seed)) (\<lambda>privkey.
      map_err (\<lambda>_. ''root signing failed'') (of_sum (ed25519_sign lib (bytes message) privkey)))"

definition hivra_crypto_self_check :: "'w platform \<Rightarrow> ('w, code) api" where
  "hivra_crypto_self_check pf =
    seq (with_error (- 1) (load_seed pf)) (\<lambda>seed.
    seq (pure (map_err (\<lambda>_. - 2) (derive_root_keypair (pf_lib pf) seed))) (\<lambda>privkey.
    seq (pure (map_err (\<lambda>_. - 3) (derive_root_public_key (pf_lib pf) seed))) (\<lambda>pubkey.
    let msg = replicate 32 0x42 in
    seq (pure (map_err (\<lambda>_. - 4) (of_sum (ed25519_sign (pf_lib pf) msg privkey)))) (\<lambda>sig.
    seq (pure (map_err (\<lambda>_. - 5) (of_sum (ed25519_verify (pf_lib pf) msg pubkey sig)))) (\<lambda>_. pure (Ok 0))))))"

definition hivra_verify_ed25519_signature32 ::
  "crypto_lib \<Rightarrow> b32 option \<Rightarrow> b32 option \<Rightarrow> b64 option \<Rightarrow> (code, code) result" where
  "hivra_verify_ed25519_signature32 lib message_ptr pubkey_ptr signature_ptr =
    and_then (ok_or message_ptr (- 1)) (\<lambda>message.
    and_then (ok_or pubkey_ptr (- 1)) (\<lambda>pubkey.
    and_then (ok_or signature_ptr (- 1)) (\<lambda>signature.
    and_then (map_err (\<lambda>_. - 2) (of_sum (ed25519_verify lib (bytes message) pubkey signature))) (\<lambda>_. Ok 0))))"

definition hivra_sign_root_digest32 :: "'w platform \<Rightarrow> b32 option \<Rightarrow> bool \<Rightarrow> ('w, b64) api" where
  "hivra_sign_root_digest32 pf message_ptr out =
    seq (argument message_ptr) (\<lambda>message.
    seq (out_pointer out) (\<lambda>_.
    seq (with_error (- 2) (load_seed pf)) (\<lambda>seed.
      pure (map_err (\<lambda>_. - 3) (sign_root_digest32 (pf_lib pf) seed message)))))"

end
