(* ===== verification/Host_Calls.thy ===== *)
theory Host_Calls
  imports Api_Ledger Ingress Capsule_Api
begin

text \<open>
  The calls the application makes and what they do to the ledger of the active capsule: a run of any calls,
  each of which may fail at any point, leaves a ledger that verifies in full, and but for creation, import and
  reset a call only adds events at its end.
\<close>

section \<open>Exported wrappers\<close>

text \<open>What the exported functions rely on: hash, pointer width, the platform, and the crates.\<close>

record ('w, 't) libraries =
  li_H :: "u8 list \<Rightarrow> b32"
  li_U :: nat
  li_pf :: "'w platform"
  li_N :: "b32 \<Rightarrow> b32 option"
  li_cl :: chat_lib
  li_ql :: quarantine_lib
  li_ops :: "('w, 't) transport_ops"
  li_ss :: "'w seed_store"
  li_parse_ids :: "utf8 \<Rightarrow> utf8 list option"
  li_attestations_json :: "queued_attestation list \<Rightarrow> (code, u8 list) result"

definition hivra_send_invitation_with_card ::
  "('w, 't) libraries \<Rightarrow> b32 option \<Rightarrow> u8 \<Rightarrow> b64 option \<Rightarrow> ('w, 't, code) host_action" where
  "hivra_send_invitation_with_card L to_ptr starter_slot card_signature =
    seq clear_delivery_receipts (\<lambda>_. on_ffi (send_invitation_with_card_signature (li_H L) (li_U L) (li_pf L)
      (li_N L) to_ptr starter_slot card_signature))"

definition hivra_send_invitation ::
  "('w, 't) libraries \<Rightarrow> b32 option \<Rightarrow> u8 \<Rightarrow> ('w, 't, code) host_action" where
  "hivra_send_invitation L to_ptr starter_slot = hivra_send_invitation_with_card L to_ptr starter_slot None"

text \<open>The reference is written to \<open>delivery_reference_out\<close>; the plain call drops it.\<close>

definition hivra_break_relationship_with_delivery_reference ::
  "('w, 't) libraries \<Rightarrow> b32 option \<Rightarrow> b32 option \<Rightarrow> b32 option \<Rightarrow> bool \<Rightarrow> ('w, 't, code \<times> b32) host_action" where
  "hivra_break_relationship_with_delivery_reference L peer_ptr own_ptr peer_starter_ptr out =
    seq (on_ffi (out_pointer out)) (\<lambda>_. on_ffi (break_relationship_with_delivery_reference (li_H L) (li_U L)
      (li_pf L) peer_ptr own_ptr peer_starter_ptr))"

definition hivra_break_relationship ::
  "('w, 't) libraries \<Rightarrow> b32 option \<Rightarrow> b32 option \<Rightarrow> b32 option \<Rightarrow> ('w, 't, code) host_action" where
  "hivra_break_relationship L peer_ptr own_ptr peer_starter_ptr =
    seq (on_ffi (break_relationship_with_delivery_reference (li_H L) (li_U L) (li_pf L) peer_ptr own_ptr
      peer_starter_ptr)) (\<lambda>(code, reference). pure (Ok code))"

section \<open>Calls\<close>

datatype host_call =
    SeedSave "b32 option" | SeedDelete | SeedDeleteFor "b32 option"
  | CapsuleCreate "b32 option" u8 u8 u8 | CapsuleReset
  | ImportLedger "u8 list option" | AppendEvent u8 "u8 list option"
  | SendInvitation "b32 option" u8 "b64 option"
  | AcceptInvitation "b32 option" "b32 option"
  | RejectInvitation "b32 option" u8
  | ExpireInvitation "b32 option"
  | BreakRelationship "b32 option" "b32 option" "b32 option" bool
  | RetryBreak "b32 option" | RetryInvitation "b32 option" invitation_delivery_mode
  | SendChat "b32 option" "u8 list option" | SendAttestation "b32 option" "u8 list option"
  | AckChat "u8 list option" | ReceiveAttestations bool
  | Receive transport_profile

fun run_call :: "('w, 't) libraries \<Rightarrow> host_call \<Rightarrow> ('w, 't) host \<Rightarrow> ('w, 't) host" where
  "run_call L (SeedSave p) h = snd (on_ffi (hivra_seed_save (li_ss L) p) h)"
| "run_call L SeedDelete h = snd (on_ffi (hivra_seed_delete (li_ss L)) h)"
| "run_call L (SeedDeleteFor p) h = snd (on_ffi (hivra_seed_delete_for (li_ss L) p) h)"
| "run_call L (CapsuleCreate p network capsule_type owner_mode) h =
    snd (on_ffi (hivra_capsule_create (li_H L) (li_pf L) (li_ss L) p network capsule_type owner_mode) h)"
| "run_call L CapsuleReset h = snd (hivra_capsule_reset (li_pf L) (li_ss L) h)"
| "run_call L (ImportLedger p) h = snd (on_ffi (hivra_import_ledger (li_H L) (li_U L) (li_pf L) p) h)"
| "run_call L (AppendEvent kind p) h =
    snd (on_ffi (hivra_ledger_append_event (li_H L) (li_U L) (li_pf L) kind p) h)"
| "run_call L (SendInvitation to slot card_signature) h =
    snd (hivra_send_invitation_with_card L to slot card_signature h)"
| "run_call L (AcceptInvitation i from_pubkey) h =
    snd (on_ffi (accept_invitation (li_H L) (li_U L) (li_pf L) (li_N L) i from_pubkey) h)"
| "run_call L (RejectInvitation i reason) h =
    snd (on_ffi (reject_invitation (li_H L) (li_U L) (li_pf L) i reason) h)"
| "run_call L (ExpireInvitation i) h = snd (on_ffi (expire_invitation (li_H L) (li_U L) (li_pf L) i) h)"
| "run_call L (BreakRelationship peer own peer_starter out) h =
    snd (hivra_break_relationship_with_delivery_reference L peer own peer_starter out h)"
| "run_call L (RetryBreak i) h =
    snd (hivra_retry_outgoing_relationship_break_by_event_id (li_H L) (li_pf L) (li_N L) (li_ops L) i h)"
| "run_call L (RetryInvitation i mode) h =
    snd (retry_outgoing_invitation_by_id (li_H L) (li_pf L) (li_N L) (li_ops L) i mode h)"
| "run_call L (SendChat to payload) h = snd (hivra_send_capsule_chat (li_pf L) (li_N L) (li_ops L) to payload h)"
| "run_call L (SendAttestation to payload) h =
    snd (hivra_send_pair_consensus_attestation (li_pf L) (li_N L) (li_ops L) to payload h)"
| "run_call L (AckChat p) h =
    snd (hivra_ack_capsule_chat_events_json (li_H L) (li_pf L) (li_N L) (li_cl L) (li_parse_ids L) p h)"
| "run_call L (ReceiveAttestations out) h =
    snd (hivra_receive_pair_consensus_attestations_json (li_H L) (li_pf L) (li_N L) (li_attestations_json L) out h)"
| "run_call L (Receive profile) h =
    snd (hivra_transport_receive_with_profile (li_H L) (li_U L) (li_pf L) (li_N L) (li_cl L) (li_ql L) (li_ops L)
      profile h)"

definition run_calls :: "('w, 't) libraries \<Rightarrow> host_call list \<Rightarrow> ('w, 't) host \<Rightarrow> ('w, 't) host" where
  "run_calls L calls h = fold (run_call L) calls h"

text \<open>The calls that replace the ledger.\<close>

fun replaces_ledger :: "host_call \<Rightarrow> bool" where
  "replaces_ledger (CapsuleCreate _ _ _ _) = True"
| "replaces_ledger CapsuleReset = True"
| "replaces_ledger (ImportLedger _) = True"
| "replaces_ledger _ = False"

section \<open>Lifting to the host\<close>

abbreviation host_keeps ::
  "(u8 list \<Rightarrow> b32) \<Rightarrow> nat \<Rightarrow> 'w platform \<Rightarrow> event list \<Rightarrow> (('w, 't) host, 'e, 'a) action \<Rightarrow> bool" where
  "host_keeps H U pf es0 \<equiv> preserves (\<lambda>h. grown H U pf es0 (ho_ffi h))"

abbreviation ingress_keeps ::
  "(u8 list \<Rightarrow> b32) \<Rightarrow> nat \<Rightarrow> 'w platform \<Rightarrow> event list \<Rightarrow> (('w, 't) ingress, 'e, 'a) action \<Rightarrow> bool" where
  "ingress_keeps H U pf es0 \<equiv> preserves (\<lambda>g. grown H U pf es0 (ig_ffi g))"

lemma preserves_same: "(\<And>s. f (snd (m s)) = f s) \<Longrightarrow> preserves (\<lambda>s. I (f s)) m"
  by (metis (mono_tags, lifting) case_prod_beta outcome_def preservesI)

lemma keeps_lift [preserving]:
  "keeps_ledger H U pf es0 m \<Longrightarrow> host_keeps H U pf es0 (on_ffi m)"
  "host_keeps H U pf es0 (on_store m')"
  "host_keeps H U pf es0 m'' \<Longrightarrow> ingress_keeps H U pf es0 (on_host m'')"
  by (auto simp: preserves_def outcome_def on_ffi_def on_store_def on_host_def split: prod.splits)

lemma keeps_env [preserving]: "keeps_ledger H U pf es0 (sample_with (in_env f))"
  by (auto simp: preserves_def outcome_simps intro: grown_frame [rotated])

lemma keeps_host_env [preserving]: "host_keeps H U pf es0 (in_host_env f)"
  unfolding in_host_env_def by (rule keeps_lift, rule keeps_env)

lemma keeps_modify: "(\<And>s. f (g s) = f s) \<Longrightarrow> preserves (\<lambda>s. I (f s)) (modify g)"
  by (simp add: preserves_def outcome_simps)

lemma keeps_counts [preserving]:
  "ingress_keeps H U pf es0 (bump_by c n)" "ingress_keeps H U pf es0 (bump c)"
  "ingress_keeps H U pf es0 (leave c d)"
  by (simp_all add: preserves_def bump_def bump_by_def leave_def outcome_simps)

lemma keeps_receipts [preserving]:
  "host_keeps H U pf es0 clear_delivery_receipts"
  "host_keeps H U pf es0 (record_delivery_receipt label receipt)"
  "host_keeps H U pf es0 (record_delivery_receipt_with_correlation label receipt i)"
  by (simp_all add: preserves_def outcome_simps clear_delivery_receipts_def record_delivery_receipt_def
      record_delivery_receipt_with_correlation_def)

section \<open>The transport\<close>

lemma keeps_transport_call [preserving]: "host_keeps H U pf es0 (transport_call f g)"
  unfolding transport_call_def by (intro preserving)

lemma keeps_cache_rebuilt [preserving]: "host_keeps H U pf es0 (cache_rebuilt ops secret code)"
  unfolding cache_rebuilt_def rebuild_transport_for_profile_def
  by (intro preserving) (simp add: preserves_def outcome_simps)

lemma keeps_cached [preserving]: "host_keeps H U pf es0 (cached_transport code)"
  unfolding cached_transport_def by (intro preserving)

lemma keeps_with_cached [preserving]:
  assumes "\<And>t. host_keeps H U pf es0 (op t)"
  shows "host_keeps H U pf es0 (with_cached_nostr_transport ops secret profile code op)"
  unfolding with_cached_nostr_transport_def by (intro preserving assms)

lemma keeps_with_current [preserving]:
  assumes "\<And>t. host_keeps H U pf es0 (op t)"
  shows "host_keeps H U pf es0 (with_current_nostr_transport secret code op)"
  unfolding with_current_nostr_transport_def by (intro preserving assms)

lemma keeps_send [preserving]:
  "host_keeps H U pf es0 (send_delivery_message ops t message timeout_secs code label)"
  unfolding send_delivery_message_def by (intro preserving)

section \<open>Publishing\<close>

lemma keeps_prepare:
  assumes "ed25519_law (pf_lib pf)"
  shows "keeps_ledger H U pf es0 (prepare_domain_event H (build_engine_with_config pf seed cfg) kind payload to)"
proof -
  have "outcome (prepare_domain_event H (build_engine_with_config pf seed cfg) kind payload to) s
      (\<lambda>r s'. fs_capsule s' = fs_capsule s)" for s
    by (rule prepare_domain_event_outcome [OF assms]) simp
  then show ?thesis
    by (auto simp: preserves_def intro: outcome_weaken grown_frame)
qed

lemma keeps_retry_break:
  assumes "ed25519_law (pf_lib pf)"
  shows "host_keeps H U pf es0 (retry_outgoing_relationship_break_by_event_id_over_transport H ops t
    (build_engine_with_config pf seed cfg) sender i timeout_secs)"
  unfolding retry_outgoing_relationship_break_by_event_id_over_transport_def Let_def
  by (intro preserving keeps_prepare [OF assms])

lemma keeps_deliver_pending:
  assumes "ed25519_law (pf_lib pf)"
  shows "host_keeps H U pf es0 (deliver_pending H ops t (build_engine_with_config pf seed cfg) sender timeout_secs
    m progress)"
  unfolding deliver_pending_def by (intro preserving keeps_prepare [OF assms])

lemma keeps_deliver_all:
  assumes "ed25519_law (pf_lib pf)"
  shows "host_keeps H U pf es0 (deliver_all H ops t (build_engine_with_config pf seed cfg) sender timeout_secs
    ms progress)"
  by (induction ms arbitrary: progress) (simp_all, intro preserving,
    (intro preserving keeps_deliver_pending [OF assms] | assumption)+)

lemma keeps_retry_invitations:
  assumes "ed25519_law (pf_lib pf)"
  shows "host_keeps H U pf es0 (retry_pending_outgoing_invitations_over_transport H ops t
    (build_engine_with_config pf seed cfg) sender only mode timeout_secs)"
  unfolding retry_pending_outgoing_invitations_over_transport_def
  by (intro preserving keeps_deliver_all [OF assms])

lemma keeps_host_engine [preserving]:
  assumes "\<And>cfg. host_keeps H U pf es0 (f (build_engine_with_config pf seed cfg))"
  shows "host_keeps H U pf es0 (seq (host_engine pf seed) f)"
  using assms by (auto simp: preserves_def host_engine_def outcome_simps build_engine_def)

lemma keeps_publishing:
  assumes "ed25519_law (pf_lib pf)"
  shows "host_keeps H U pf es0 (hivra_retry_outgoing_relationship_break_by_event_id H pf N ops p)"
    "host_keeps H U pf es0 (retry_outgoing_invitation_by_id H pf N ops p mode)"
    "host_keeps H U pf es0 (send_plain_message pf N ops kind label to payload)"
proof -
  note rules = keeps_host_engine preserving keeps_retry_break [OF assms] keeps_retry_invitations [OF assms]
  show "host_keeps H U pf es0 (hivra_retry_outgoing_relationship_break_by_event_id H pf N ops p)"
    unfolding hivra_retry_outgoing_relationship_break_by_event_id_def by (intro rules)
  show "host_keeps H U pf es0 (retry_outgoing_invitation_by_id H pf N ops p mode)"
    unfolding retry_outgoing_invitation_by_id_def by (intro rules)
  show "host_keeps H U pf es0 (send_plain_message pf N ops kind label to payload)"
    unfolding send_plain_message_def Let_def by (intro rules)
qed

lemma keeps_application:
  "host_keeps H U pf es0 (hivra_ack_capsule_chat_events_json H pf N cl parse p)"
  "host_keeps H U pf es0 (hivra_receive_pair_consensus_attestations_json H pf N json out)"
  unfolding hivra_ack_capsule_chat_events_json_def hivra_receive_pair_consensus_attestations_json_def
    local_context_def
  by (intro preserving, (intro preserving | simp add: preserves_def outcome_def split: prod.split)+)+

section \<open>Receiving\<close>

lemma append_verified_outcome:
  "outcome (append_verified_runtime_event H U pf e) s (\<lambda>r s'.
    if r = Ok () then \<exists>e'. runtime_events s' = runtime_events s @ [e'] \<and> ev_kind e' = ev_kind e
      \<and> ev_payload e' = ev_payload e \<and> ev_signer e' = ev_signer e
    else runtime_events s' = runtime_events s)"
proof -
  have "runtime_events s' = runtime_events s"
    if "append_verified_runtime_event H U pf e s = (r, s')" and "r \<noteq> Ok ()" for r s'
  proof -
    have "outcome (append_verified_runtime_event H U pf e) s
        (\<lambda>r s'. r = Ok () \<or> runtime_events s' = runtime_events s)"
      unfolding append_verified_runtime_event_def Let_def store_ledger_def observe_ts_def load_seed_def outcome_simps
      by (auto simp: outcome_simps runtime_events_def split: result.splits)
    from outcomeD [OF this that(1)] that(2) show ?thesis by blast
  qed
  then show ?thesis
    using append_verified_events [of H U pf e s] by (auto simp: outcome_def)
qed

lemma keeps_append_verified:
  assumes "ed25519_law (pf_lib pf)"
  shows "keeps_ledger H U pf es0 (append_verified_runtime_event H U pf e)"
proof (rule preservesI)
  fix s :: "'a ffi_state" assume "grown H U pf es0 s"
  then obtain xs where inv: "runtime_inv H U pf s" and ext: "runtime_events s = es0 @ xs"
    by (auto simp: grown_def)
  show "outcome (append_verified_runtime_event H U pf e) s (\<lambda>r s'. grown H U pf es0 s')"
    by (rule outcome_weaken [OF outcome_conj [OF append_verified_keeps [OF assms inv] append_verified_outcome]])
      (auto simp: grown_def ext split: if_splits)
qed

lemma preserves_reason [preserving]:
  "preserves I m \<Longrightarrow> preserves I m' \<Longrightarrow> preserves I (case reason of EmptySlot \<Rightarrow> m | Other \<Rightarrow> m')"
  by (cases reason) simp_all

lemma keeps_effects:
  assumes "ed25519_law (pf_lib pf)"
  shows "keeps_ledger H U pf es0 (project_delivery_effects H U pf seed kind message)"
  unfolding project_delivery_effects_def project_invitation_accepted_delivery_def
    project_relationship_from_invitation_accepted_def project_effects_from_invitation_rejected_def
    append_relationship_established_if_missing_def
  by (cases "invitation_rejected_from_bytes (en_payload message)"; simp only: result.case)
    (intro keeps_signed preserving signs_prepared [OF assms] keeps_append [OF assms];
      assumption?)+

lemma keeps_offer_to_queue [preserving]:
  "ingress_keeps H U pf es0 (offer_to_queue (chat_queue cl message i local capsule seed))"
  "ingress_keeps H U pf es0 (offer_to_queue (attestation_queue message i local))"
  by (auto simp: preserves_def outcome_def offer_to_queue_def chat_queue_def attestation_queue_def leave_def
      bump_def bump_by_def modify_def seq_def pure_def Let_def split: prod.splits inbound_route_result.splits)

lemma keeps_route:
  assumes "ed25519_law (pf_lib pf)"
  shows "ingress_keeps H U pf es0 (route_inbound_envelope H U pf cl i message local seed)"
proof -
  note rules = preserving keeps_append_verified [OF assms] keeps_effects [OF assms]
  have admit: "ingress_keeps H U pf es0 (admit_event H U pf seed message kind e)" for kind e
    unfolding admit_event_def Let_def by (intro rules)
  show ?thesis
    unfolding route_inbound_envelope_def route_steps_def route_event_def by (intro rules admit)
qed

lemma preserves_disposition [preserving]:
  "preserves I m1 \<Longrightarrow> preserves I m2 \<Longrightarrow> preserves I m3 \<Longrightarrow> preserves I m4 \<Longrightarrow>
    preserves I (case d of Consumed \<Rightarrow> m1 | inbound_delivery_disposition.Quarantined \<Rightarrow> m2 | Retry \<Rightarrow> m3
      | AdapterRejected \<Rightarrow> m4)"
  by (cases d) simp_all

lemma preserves_payload [preserving]:
  "(\<And>message. preserves I (f message)) \<Longrightarrow> (\<And>reason. preserves I (g reason)) \<Longrightarrow>
    preserves I (case payload of Envelope message \<Rightarrow> f message | AdapterRejectedPayload reason \<Rightarrow> g reason)"
  by (cases payload) simp_all

lemma keeps_recover:
  assumes "ed25519_law (pf_lib pf)"
  shows "ingress_keeps H U pf es0 (recover_one_quarantined_envelope H U pf cl ql repo local seed now)"
  unfolding recover_one_quarantined_envelope_def by (intro preserving keeps_route [OF assms])

lemma keeps_decide:
  assumes "ed25519_law (pf_lib pf)"
  shows "ingress_keeps H U pf es0 (decide_items H U pf cl ql repo local seed now items)"
proof (induction items)
  case (Cons item rest)
  show ?case
    unfolding decide_items.simps decide_item_def decide_message_def Let_def
    by (intro preserving keeps_route [OF assms] Cons.IH)
qed (unfold decide_items.simps, rule preserves_base)

lemma keeps_with_counters:
  assumes "ingress_keeps H U pf es0 m"
  shows "host_keeps H U pf es0 (with_counters m)"
proof (rule preservesI)
  fix h :: "('a, 'b) host" assume "grown H U pf es0 (ho_ffi h)"
  then have "grown H U pf es0 (ig_ffi \<lparr> ig_host = h, ig_counters = (\<lambda>_. 0) \<rparr>)" by simp
  from preserves_snd [OF assms this]
  show "outcome (with_counters m) h (\<lambda>r h. grown H U pf es0 (ho_ffi h))"
    by (simp add: outcome_def with_counters_def case_prod_beta)
qed

lemma keeps_receive:
  assumes "ed25519_law (pf_lib pf)"
  shows "host_keeps H U pf es0 (hivra_transport_receive_with_profile H U pf N cl ql ops profile)"
  unfolding hivra_transport_receive_with_profile_def receive_batch_with_def receive_now_def
  by (intro preserving keeps_with_counters keeps_recover [OF assms] keeps_decide [OF assms])

section \<open>Every call\<close>

lemma keeps_succeeded [preserving]: "keeps_ledger H U pf es0 (succeeded code f)"
  unfolding succeeded_def by (intro preserving)

lemma keeps_out_pointer [preserving]: "keeps_ledger H U pf es0 (out_pointer out)"
  unfolding out_pointer_def by (intro preserving)

lemma keeps_append_runtime:
  assumes "ed25519_law (pf_lib pf)"
  shows "keeps_ledger H U pf es0 (append_runtime_event H U pf kind payload)"
proof -
  have "append_runtime_event H U pf kind payload
    = seq (load_seed pf) (\<lambda>seed. with_engine pf seed (\<lambda>en. seq (with_error ''event signing failed''
        (prepare_domain_event H en kind payload None)) (append_prepared_event H U pf)))"
    by (simp add: append_runtime_event_def with_engine_def seq_def with_error_def)
  then show ?thesis
    by (simp only:) (intro keeps_signed preserving signs_prepared [OF assms] keeps_append [OF assms])
qed

lemma host_snd:
  "host_keeps H U pf es0 m \<Longrightarrow> grown H U pf es0 (ho_ffi h) \<Longrightarrow> grown H U pf es0 (ho_ffi (snd (m h)))"
  by (rule preserves_snd [where I = "\<lambda>h. grown H U pf es0 (ho_ffi h)"])

lemma call_keeps_history:
  assumes law: "ed25519_law (pf_lib (li_pf L))" and "\<not> replaces_ledger call"
    and "grown (li_H L) (li_U L) (li_pf L) es0 (ho_ffi h)"
  shows "grown (li_H L) (li_U L) (li_pf L) es0 (ho_ffi (run_call L call h))"
proof -
  note rules = preserving keeps_append_runtime [OF law] api_keeps_ledger [OF law] keeps_publishing [OF law]
    keeps_application keeps_receive [OF law]
  note defs = hivra_seed_save_def hivra_seed_delete_def hivra_seed_delete_for_def hivra_ledger_append_event_def
    hivra_send_invitation_with_card_def hivra_break_relationship_with_delivery_reference_def
    hivra_send_capsule_chat_def hivra_send_pair_consensus_attestation_def
  show ?thesis
    by (cases call; (use assms(2) in \<open>simp; fail\<close>)?; simp only: run_call.simps;
        rule host_snd [OF _ assms(3)]; (unfold defs)?; intro rules)
qed

lemma grown_Nil: "grown H U pf [] s \<longleftrightarrow> runtime_inv H U pf s"
  by (simp add: grown_def)

lemma keeps_create:
  assumes "ed25519_law (pf_lib pf)"
  shows "keeps_ledger H U pf [] (hivra_capsule_create H pf ss p network capsule_type owner_mode)"
proof -
  have init: "keeps_ledger H U pf [] (init_runtime_state H pf seed n ct mode)" for seed n ct mode
    unfolding grown_Nil
    by (rule preservesI, rule outcome_weaken [OF init_outcome [OF assms]])
      (auto simp: init_spec_def runtime_inv_def split: if_splits)
  show ?thesis
    unfolding hivra_capsule_create_def Let_def by (intro preserving init)
qed

lemma keeps_import:
  assumes "ed25519_law (pf_lib pf)"
  shows "keeps_ledger H U pf [] (hivra_import_ledger H U pf p)"
proof -
  have "keeps_ledger H U pf [] (import_runtime_ledger H U pf json)" for json
    unfolding grown_Nil by (rule preservesI) (rule import_keeps [OF assms])
  then show ?thesis
    unfolding hivra_import_ledger_def by (intro preserving)
qed

lemma keeps_reset: "host_keeps H U pf [] (hivra_capsule_reset pf ss)"
  unfolding hivra_capsule_reset_def
  by (intro preserving)
    (simp add: preserves_def outcome_simps grown_Nil clear_cached_nostr_transports_def clear_runtime_state_def
      runtime_inv_def)

lemma call_keeps_inv:
  assumes law: "ed25519_law (pf_lib (li_pf L))" and "runtime_inv (li_H L) (li_U L) (li_pf L) (ho_ffi h)"
  shows "runtime_inv (li_H L) (li_U L) (li_pf L) (ho_ffi (run_call L call h))"
proof (cases "replaces_ledger call")
  case True
  have start: "grown (li_H L) (li_U L) (li_pf L) [] (ho_ffi h)" using assms(2) by (simp add: grown_Nil)
  show ?thesis
    unfolding grown_Nil [symmetric]
    by (cases call; (use True in \<open>simp; fail\<close>)?; simp only: run_call.simps;
        rule host_snd [OF _ start]; intro preserving keeps_create [OF law] keeps_import [OF law] keeps_reset)
next
  case False
  with call_keeps_history [OF law False, of "[]"] assms(2) show ?thesis by (simp add: grown_Nil)
qed

text \<open>The hosts a process can reach: it starts without a capsule, with any storage and environment.\<close>

definition host_reachable :: "('w, 't) libraries \<Rightarrow> ('w, 't) host \<Rightarrow> bool" where
  "host_reachable L h \<longleftrightarrow> (\<exists>h0 calls. fs_capsule (ho_ffi h0) = None \<and> h = run_calls L calls h0)"

lemma run_calls_inv:
  assumes "ed25519_law (pf_lib (li_pf L))"
  shows "runtime_inv (li_H L) (li_U L) (li_pf L) (ho_ffi h) \<Longrightarrow>
    runtime_inv (li_H L) (li_U L) (li_pf L) (ho_ffi (run_calls L calls h))"
  by (induction calls arbitrary: h) (simp_all add: run_calls_def call_keeps_inv [OF assms])

lemma host_reachable_inv:
  assumes "ed25519_law (pf_lib (li_pf L))" and "host_reachable L h"
  shows "runtime_inv (li_H L) (li_U L) (li_pf L) (ho_ffi h)"
proof -
  obtain h0 calls where start: "fs_capsule (ho_ffi h0) = None" and h: "h = run_calls L calls h0"
    using assms(2) by (auto simp: host_reachable_def)
  have "runtime_inv (li_H L) (li_U L) (li_pf L) (ho_ffi h0)" by (simp add: runtime_inv_def start)
  then show ?thesis unfolding h by (rule run_calls_inv [OF assms(1)])
qed

text \<open>C4: Whatever calls the application makes (creation, reset, import, appends, invitations, retries,
  deliveries received from the transport), in whatever order, whether they succeed or fail at any point and
  whatever the transport delivers, an active capsule owns a continuous ledger that passes the full
  verification, and so do the signatures of all its events.\<close>

theorem ledger_verifies_after_any_calls:
  assumes "ed25519_law (pf_lib (li_pf L))" and "host_reachable L h" and "fs_capsule (ho_ffi h) = Some c"
  shows "l_owner (ca_ledger c) = ca_pubkey c \<and> is_continuous_v5 (ca_ledger c)
    \<and> ledger_verify (li_H L) (li_U L) (ca_ledger c)
    \<and> verify_ledger_event_signatures (li_H L) (pf_lib (li_pf L)) (ca_ledger c) = Ok ()
    \<and> verify_ledger_v5 (li_H L) (li_U L) (build_engine_for_ledger (li_pf L) seed (ca_ledger c)) (ca_ledger c) = Ok ()"
  using runtime_invD [OF host_reachable_inv [OF assms(1,2)] assms(3)]
  by (auto simp: runtime_ledger_ok_full runtime_ledger_ok_def)

definition sample_chat :: chat_lib where
  "sample_chat = \<lparr> cl_crypto = sample_crypto, cl_nonce = (\<lambda>n. bfill (of_nat n)), cl_put = (\<lambda>sn. None),
    cl_get = (\<lambda>bs. None), cl_size = (\<lambda>sn. None) \<rparr>"

definition sample_libraries :: "(unit, unit) libraries" where
  "sample_libraries =
    \<lparr> li_H = length_hash, li_U = 8, li_pf = sample_platform, li_N = Some, li_cl = sample_chat,
      li_ql = sample_quarantine,
      li_ops = \<lparr> to_new = (\<lambda>_ w. (Some (), w)), to_send = (\<lambda>_ _ _ w. (Err SendFailed, w)),
        to_receive_batch = (\<lambda>_ _ w. (Ok \<lparr> db_batch_id = 1, db_items = [] \<rparr>, w)),
        to_resolve_batch = (\<lambda>_ _ _ w. (Ok (), w)) \<rparr>,
      li_ss = \<lparr> ss_store = (\<lambda>_ w. (True, w)), ss_delete = (\<lambda>w. (True, w)), ss_delete_for = (\<lambda>_ w. (True, w)),
        ss_exists = (\<lambda>w. (True, w)) \<rparr>,
      li_parse_ids = (\<lambda>_. None), li_attestations_json = (\<lambda>_. Err (- 7)) \<rparr>"

definition sample_host :: "(unit, unit) host" where
  "sample_host = \<lparr> ho_ffi = sample_start, ho_receipts = [], ho_transport = None, ho_store = sample_world,
    ho_inbox = (\<lambda>_. None) \<rparr>"

definition created_host :: "(unit, unit) host" where
  "created_host = run_calls sample_libraries [CapsuleCreate (Some (bfill 9)) 1 0 1] sample_host"

lemma sample_law: "ed25519_law (pf_lib (li_pf sample_libraries))"
  using sample_crypto_law by (simp add: sample_libraries_def)

lemma created_host_capsule: obtains c where "fs_capsule (ho_ffi created_host) = Some c"
proof -
  obtain s c where run: "init_runtime_state length_hash sample_platform (KeySeed (bfill 9)) Neste Leaf Root
      sample_start = (Ok (), s)" and c: "fs_capsule s = Some c"
    by (rule sample_creation)
  have "created_host = sample_host\<lparr> ho_ffi := s \<rparr>"
    unfolding created_host_def run_calls_def sample_host_def
    using run by (simp add: sample_libraries_def on_ffi_def hivra_capsule_create_def argument_def succeeded_def
        owner_mode_from_u8_def with_error_def seq_def pure_def sample_with_def in_env_def sample_start_def)
  then have "ho_ffi created_host = ho_ffi (sample_host\<lparr> ho_ffi := s \<rparr>)" by (rule arg_cong)
  then have "ho_ffi created_host = s" by (simp add: sample_host_def)
  then have "fs_capsule (ho_ffi created_host) = Some c" using c by (rule ssubst)
  then show thesis by (rule that)
qed

lemma created_host_reachable: "host_reachable sample_libraries created_host"
  unfolding host_reachable_def created_host_def
  by (rule exI [of _ sample_host], rule exI, rule conjI [OF _ refl]) (simp add: sample_host_def sample_start_def)

theorem ledger_verifies_after_any_calls_witness:
  "\<exists>h c. host_reachable sample_libraries h \<and> fs_capsule (ho_ffi h) = Some c
    \<and> ledger_verify length_hash 8 (ca_ledger c)"
proof -
  obtain c where c: "fs_capsule (ho_ffi created_host) = Some c" by (rule created_host_capsule)
  from ledger_verifies_after_any_calls [OF sample_law created_host_reachable c] created_host_reachable c show ?thesis
    by (auto simp: sample_libraries_def)
qed

text \<open>C5: History is append-only: between calls that create, import or reset, every sequence of calls and
  every delivery leaves the recorded events as they are and adds events at the end.\<close>

theorem calls_only_extend_history:
  assumes "ed25519_law (pf_lib (li_pf L))" and "host_reachable L h"
    and "list_all (\<lambda>call. \<not> replaces_ledger call) calls"
  shows "\<exists>xs. runtime_events (ho_ffi (run_calls L calls h)) = runtime_events (ho_ffi h) @ xs"
proof -
  have "grown (li_H L) (li_U L) (li_pf L) es0 (ho_ffi h) \<Longrightarrow>
      grown (li_H L) (li_U L) (li_pf L) es0 (ho_ffi (run_calls L calls h))" for es0 h
    using assms(3)
    by (induction calls arbitrary: h) (simp_all add: run_calls_def call_keeps_history [OF assms(1)])
  moreover have "grown (li_H L) (li_U L) (li_pf L) (runtime_events (ho_ffi h)) (ho_ffi h)"
    using host_reachable_inv [OF assms(1,2)] by (simp add: grown_def)
  ultimately show ?thesis by (auto simp: grown_def)
qed

theorem calls_only_extend_history_witness:
  "\<exists>xs. runtime_events (ho_ffi (run_calls sample_libraries [Receive Quick, SendChat None None] created_host))
    = runtime_events (ho_ffi created_host) @ xs"
  by (rule calls_only_extend_history [OF sample_law created_host_reachable]) simp

end
