(* ===== verification/Ingress_Route.thy ===== *)
theory Ingress_Route
  imports Host_Calls
begin

text \<open>
  What routing one delivery does to the history (\<open>route_inbound_envelope\<close> in
  platform/hivra-ffi/src/invitation\_api.rs): at most the delivered event, when it is for this capsule and
  admissible, and then at most one event of the owner that follows from it.
\<close>

section \<open>Effects of an answer\<close>

text \<open>The relationship that a delivered acceptance establishes, the burn that a rejection for want of a slot
  causes: both refer to an outgoing offer of the capsule.\<close>

definition relationship_from :: "'w ffi_state \<Rightarrow> delivery_envelope \<Rightarrow> event \<Rightarrow> bool" where
  "relationship_from s message y \<longleftrightarrow> ev_kind y = RelationshipEstablished
    \<and> (\<exists>p record q. invitation_accepted_from_bytes (en_payload message) = Ok p
      \<and> find_invitation_sent_in_runtime_with_direction s (acc_invitation_id p) (Some False) = Some record
      \<and> ev_payload y = relationship_established_to_bytes q
      \<and> est_invitation_id q = acc_invitation_id p \<and> est_peer_pubkey q = PubKey (en_from message)
      \<and> est_own_starter_id q = lr_starter_id record \<and> est_peer_starter_id q = acc_created_starter_id p)"

definition burn_from :: "'w ffi_state \<Rightarrow> delivery_envelope \<Rightarrow> event \<Rightarrow> bool" where
  "burn_from s message y \<longleftrightarrow> ev_kind y = StarterBurned
    \<and> (\<exists>p record. invitation_rejected_from_bytes (en_payload message) = Ok p \<and> rej_reason p = EmptySlot
      \<and> find_invitation_sent_in_runtime_with_direction s (rej_invitation_id p) (Some False) = Some record
      \<and> starter_is_active_in_runtime s (lr_starter_id record)
      \<and> ev_payload y = starter_burned_to_bytes
          \<lparr> bu_starter_id = lr_starter_id record, bu_reason = reject_reason_to_u8 EmptySlot \<rparr>)"

definition effect_of :: "'w ffi_state \<Rightarrow> event_kind \<Rightarrow> delivery_envelope \<Rightarrow> event \<Rightarrow> bool" where
  "effect_of s kind message y \<longleftrightarrow>
    (if kind = InvitationAccepted then relationship_from s message y
     else kind = InvitationRejected \<and> burn_from s message y)"

text \<open>Nothing or one effect; after success of an acceptance the relationship is recorded.\<close>

definition effects_done ::
  "event_kind \<Rightarrow> delivery_envelope \<Rightarrow> 'w ffi_state \<Rightarrow> ('e, unit) result \<Rightarrow> 'w ffi_state \<Rightarrow> bool" where
  "effects_done kind message s r s' \<longleftrightarrow>
    (\<exists>ys. runtime_events s' = runtime_events s @ ys \<and> (ys = [] \<or> (\<exists>y. ys = [y] \<and> effect_of s kind message y)))
    \<and> (r = Ok () \<and> kind = InvitationAccepted \<longrightarrow> list_ex (relationship_from s message) (runtime_events s'))"

lemma effects_none:
  "fs_capsule s' = fs_capsule s \<Longrightarrow> r \<noteq> Ok () \<or> kind \<noteq> InvitationAccepted \<Longrightarrow> effects_done kind message s r s'"
  by (auto simp: effects_done_def runtime_events_def)

lemma relationship_outcome:
  assumes law: "ed25519_law (pf_lib pf)" and p: "invitation_accepted_from_bytes (en_payload message) = Ok p"
  shows "outcome (project_relationship_from_invitation_accepted H U pf (build_engine_with_config pf seed cfg)
    (en_from message) p) s (effects_done InvitationAccepted message s)"
proof -
  have appended: "outcome (append_relationship_established_if_missing H U pf (build_engine_with_config pf seed cfg)
      (PubKey (en_from message)) (lr_starter_id rec) (acc_created_starter_id p) kd (acc_invitation_id p)
      snd_pk snd_ty snd_st peer_root snd_root) s (effects_done InvitationAccepted message s)"
    if found: "find_invitation_sent_in_runtime_with_direction s (acc_invitation_id p) (Some False) = Some rec"
    for rec kd snd_pk snd_ty snd_st peer_root snd_root
  proof (rule outcome_weaken [OF append_established_outcome [OF law]])
    fix r :: "(string, unit) result" and s' :: "'a ffi_state"
    let ?q = "\<lparr> est_peer_pubkey = PubKey (en_from message), est_own_starter_id = lr_starter_id rec,
        est_peer_starter_id = acc_created_starter_id p, est_kind = kd, est_invitation_id = acc_invitation_id p,
        est_sender_pubkey = snd_pk, est_sender_starter_type = snd_ty, est_sender_starter_id = snd_st,
        est_peer_root_pubkey = peer_root, est_sender_root_pubkey = snd_root \<rparr>"
    assume "\<exists>es. appends_at_most RelationshipEstablished (relationship_established_to_bytes ?q) s s' es
      \<and> (r = Ok () \<longrightarrow> event_exists_in_runtime s RelationshipEstablished (relationship_established_to_bytes ?q)
        \<or> es \<noteq> [])"
    then obtain es where es: "appends_at_most RelationshipEstablished (relationship_established_to_bytes ?q) s s' es"
      and ex: "r = Ok () \<Longrightarrow> (\<exists>e\<in>set (runtime_events s). ev_kind e = RelationshipEstablished
        \<and> ev_payload e = relationship_established_to_bytes ?q) \<or> es \<noteq> []"
      by (auto simp: event_exists_any_iff)
    have rel: "relationship_from s message y"
      if "ev_kind y = RelationshipEstablished" "ev_payload y = relationship_established_to_bytes ?q" for y
      unfolding relationship_from_def using p that found
      by (intro conjI exI [of _ p] exI [of _ rec] exI [of _ ?q]) simp_all
    show "effects_done InvitationAccepted message s r s'"
      unfolding effects_done_def
      using es ex rel by (auto simp: appends_at_most_def effect_of_def list_ex_iff)
  qed
  show ?thesis
    unfolding project_relationship_from_invitation_accepted_def
    by (auto simp: outcome_simps effects_none appended split: option.splits result.splits)
qed

lemma effects_outcome:
  assumes law: "ed25519_law (pf_lib pf)"
  shows "outcome (project_delivery_effects H U pf seed kind message) s (effects_done kind message s)"
proof -
  consider "kind = InvitationAccepted" | "kind = InvitationRejected" "length (en_payload message) = 33"
    | "kind \<noteq> InvitationAccepted" "\<not> (kind = InvitationRejected \<and> length (en_payload message) = 33)"
    by blast
  then show ?thesis
  proof cases
    case 1
    then show ?thesis
      unfolding project_delivery_effects_def project_invitation_accepted_delivery_def with_engine_def
      by (cases "invitation_accepted_from_bytes (en_payload message)")
        (use relationship_outcome [OF law] in \<open>auto simp: outcome_simps effects_none outcome_def build_engine_def
          seq_def pure_def\<close>)
  next
    case 2
    have burned: "outcome (project_effects_from_invitation_rejected H U pf (build_engine_with_config pf seed cfg) p) s
        (effects_done kind message s)" if p: "invitation_rejected_from_bytes (en_payload message) = Ok p" for cfg p
    proof -
      have append: "outcome (seq (with_error ''prepare failed'' (prepare_starter_burned H
            (build_engine_with_config pf seed cfg) (lr_starter_id rec) (reject_reason_to_u8 EmptySlot)))
          (append_prepared_event H U pf)) s (effects_done kind message s)"
        if "find_invitation_sent_in_runtime_with_direction s (rej_invitation_id p) (Some False) = Some rec"
          "rej_reason p = EmptySlot" "starter_is_active_in_runtime s (lr_starter_id rec)" for rec
      proof (rule outcome_seqI)
        show "outcome (with_error ''prepare failed'' (prepare_starter_burned H (build_engine_with_config pf seed cfg)
            (lr_starter_id rec) (reject_reason_to_u8 EmptySlot))) s
          (\<lambda>r s'. fs_capsule s' = fs_capsule s \<and> (\<forall>q. r = Ok q \<longrightarrow> ev_kind (pe_event q) = StarterBurned
            \<and> ev_payload (pe_event q) = starter_burned_to_bytes
              \<lparr> bu_starter_id = lr_starter_id rec, bu_reason = reject_reason_to_u8 EmptySlot \<rparr>))"
          unfolding outcome_with_error prepare_starter_burned_def
          using prepare_event_prepares [OF law] by (rule allE) (erule outcome_weaken, auto)
      next
        fix q :: prepared_event and s1 :: "'a ffi_state"
        assume q: "fs_capsule s1 = fs_capsule s \<and> (\<forall>q'. Ok q = Ok q' \<longrightarrow> ev_kind (pe_event q') = StarterBurned
            \<and> ev_payload (pe_event q') = starter_burned_to_bytes
              \<lparr> bu_starter_id = lr_starter_id rec, bu_reason = reject_reason_to_u8 EmptySlot \<rparr>)"
        then have "effect_of s kind message (pe_event q)"
          using 2 p that by (auto simp: effect_of_def burn_from_def)
        with q show "outcome (append_prepared_event H U pf q) s1 (effects_done kind message s)"
          using 2 by (intro outcome_weaken [OF append_prepared_outcome])
            (auto simp: effects_done_def runtime_events_def)
      qed (use 2 in \<open>simp_all add: effects_none\<close>)
      show ?thesis
        unfolding project_effects_from_invitation_rejected_def
        using 2 append
        by (cases "rej_reason p";
            cases "find_invitation_sent_in_runtime_with_direction s (rej_invitation_id p) (Some False)")
          (simp_all add: outcome_simps effects_none)
    qed
    from 2 burned show ?thesis
      unfolding project_delivery_effects_def with_engine_def
      by (cases "invitation_rejected_from_bytes (en_payload message)")
        (auto simp: outcome_simps effects_none outcome_def build_engine_def)
  next
    case 3
    then show ?thesis
      by (auto simp: project_delivery_effects_def outcome_simps effects_none)
  qed
qed

section \<open>One delivery\<close>

text \<open>\<open>e\<close> is the event of the message: addressed to this capsule, from somebody else, of the kind and
  payload of the message, with the signer of its proof where the payload names one, and admissible.\<close>

definition addressed :: "b32 \<Rightarrow> 'w ffi_state \<Rightarrow> event_kind \<Rightarrow> delivery_envelope \<Rightarrow> bool" where
  "addressed local s kind message \<longleftrightarrow> en_to message = local
    \<or> payload_targets_local kind (en_payload message) local = Ok True \<or> expired_targets_local s kind message = Ok True"

definition delivered_event :: "b32 \<Rightarrow> 'w ffi_state \<Rightarrow> delivery_envelope \<Rightarrow> event \<Rightarrow> bool" where
  "delivered_event local s message e \<longleftrightarrow> en_from message \<noteq> local
    \<and> (\<exists>kind proof. message_kind (en_kind message) = Some kind \<and> en_domain_event message = Some proof
      \<and> addressed local s kind message
      \<and> ev_kind e = delivered_kind kind \<and> ev_payload e = en_payload message \<and> ev_signer e = PubKey (dp_signer proof)
      \<and> proof_signer_matches_payload (ev_kind e) (ev_payload e) (ev_signer e) = Ok True
      \<and> delivery_admissible s (ev_kind e) (ev_payload e) (ev_signer e) (Some (en_timestamp message)))"

text \<open>The same capsule with events added to its ledger.\<close>

definition extended :: "'w ffi_state \<Rightarrow> event list \<Rightarrow> 'w ffi_state \<Rightarrow> bool" where
  "extended s xs s1 \<longleftrightarrow> map_option ca_pubkey (fs_capsule s1) = map_option ca_pubkey (fs_capsule s)
    \<and> runtime_events s1 = runtime_events s @ xs"

text \<open>\<open>n\<close> is the counter of appended deliveries.\<close>

definition routed ::
  "b32 \<Rightarrow> delivery_envelope \<Rightarrow> 'w ffi_state \<times> nat \<Rightarrow> inbound_delivery_disposition \<Rightarrow> 'w ffi_state \<times> nat \<Rightarrow> bool"
  where
  "routed local message sn d sn' \<longleftrightarrow> (d = Consumed \<or> d = Retry)
    \<and> (\<exists>xs s1 ys. extended (fst sn) xs s1 \<and> runtime_events (fst sn') = runtime_events s1 @ ys
        \<and> snd sn' = snd sn + length xs
        \<and> (xs = [] \<or> (\<exists>e. xs = [e] \<and> delivered_event local (fst sn) message e))
        \<and> (ys = [] \<or> (\<exists>y kind. ys = [y] \<and> message_kind (en_kind message) = Some kind \<and> effect_of s1 kind message y))
        \<and> (d = Consumed \<and> xs \<noteq> [] \<and> message_kind (en_kind message) = Some InvitationAccepted \<longrightarrow>
             list_ex (relationship_from s1 message) (runtime_events (fst sn'))))"

abbreviation ig_view :: "('w, 't) ingress \<Rightarrow> 'w ffi_state \<times> nat" where
  "ig_view g \<equiv> (ig_ffi g, ig_counters g Appended)"

lemma extended_refl [simp]: "extended s [] s"
  by (simp add: extended_def)

lemma routed_same: "d = Consumed \<or> d = Retry \<Longrightarrow> routed local message sn d sn"
  unfolding routed_def
  by (rule conjI, assumption, rule exI [of _ "[]"], rule exI [of _ "fst sn"], rule exI [of _ "[]"]) simp

lemma append_verified_extends:
  "outcome (append_verified_runtime_event H U pf e) s (\<lambda>r s'.
    if r = Ok () then \<exists>e'. extended s [e'] s' \<and> ev_kind e' = ev_kind e
      \<and> ev_payload e' = ev_payload e \<and> ev_signer e' = ev_signer e
    else extended s [] s')"
proof -
  have "outcome (append_verified_runtime_event H U pf e) s
      (\<lambda>r s'. map_option ca_pubkey (fs_capsule s') = map_option ca_pubkey (fs_capsule s))"
    unfolding append_verified_runtime_event_def Let_def store_ledger_def observe_ts_def load_seed_def outcome_simps
    by (auto simp: outcome_simps split: result.splits)
  from outcome_conj [OF this append_verified_outcome [of H U pf e s]] show ?thesis
    by (rule outcome_weaken) (auto simp: extended_def)
qed

lemma effects_routed:
  assumes "effects_done kind message s1 r s'" and "extended s xs s1" and "d = Consumed \<and> r = Ok () \<or> d = Retry"
    and "delivered_kind kind' = kind" and "message_kind (en_kind message) = Some kind'"
    and "xs = [] \<or> (\<exists>e. xs = [e] \<and> delivered_event local s message e)" and "n' = n + length xs"
  shows "routed local message (s, n) d (s', n')"
proof -
  obtain ys where ys: "runtime_events s' = runtime_events s1 @ ys" "ys = [] \<or> (\<exists>y. ys = [y] \<and> effect_of s1 kind message y)"
    and rel: "r = Ok () \<and> kind = InvitationAccepted \<Longrightarrow> list_ex (relationship_from s1 message) (runtime_events s')"
    using assms(1) by (auto simp: effects_done_def)
  have same: "effect_of s1 kind message y \<Longrightarrow> effect_of s1 kind' message y" for y
    using assms(4) by (auto simp: effect_of_def delivered_kind_def split: if_splits)
  show ?thesis
    unfolding routed_def
    using assms(2-7) ys rel same
    by (intro conjI exI [of _ xs] exI [of _ s1] exI [of _ ys]) (auto simp: delivered_kind_def)
qed

text \<open>Steps that change neither the runtime nor the counter, and may stop.\<close>

definition quiet :: "('w, 't) ingress \<Rightarrow> (inbound_delivery_disposition, 'a) result \<Rightarrow> ('w, 't) ingress \<Rightarrow> bool" where
  "quiet g r g' \<longleftrightarrow> ig_view g' = ig_view g \<and> (\<forall>d. r = Err d \<longrightarrow> d = Consumed \<or> d = Retry)"

definition routes ::
  "b32 \<Rightarrow> delivery_envelope \<Rightarrow> ('w, 't) ingress
    \<Rightarrow> (inbound_delivery_disposition, inbound_delivery_disposition) result \<Rightarrow> ('w, 't) ingress \<Rightarrow> bool" where
  "routes local message g r g' \<longleftrightarrow>
    (\<forall>d. r = Ok d \<or> r = Err d \<longrightarrow> routed local message (ig_view g) d (ig_view g'))"

lemma quiet_then:
  fixes m :: "('w, 't, inbound_delivery_disposition, 'x) ingress_action"
  assumes "outcome m g (quiet g)" and "\<And>x g1. ig_view g1 = ig_view g \<Longrightarrow> outcome (f x) g1 (routes local message g1)"
  shows "outcome (seq m f) g (routes local message g)"
proof (rule outcome_seqI [OF assms(1)])
  fix x :: 'x and g1 :: "('w, 't) ingress"
  assume "quiet g (Ok x) g1"
  then have same: "ig_view g1 = ig_view g" by (simp add: quiet_def)
  show "outcome (f x) g1 (routes local message g)"
    using assms(2) [OF same, of x] same by (simp add: routes_def [abs_def])
qed (auto simp: quiet_def routes_def intro: routed_same)

lemma leave_outcome [outcome_simps]:
  "outcome (leave c d) g Q \<longleftrightarrow> Q (Err d) (g\<lparr> ig_counters := (ig_counters g)(c := Suc (ig_counters g c)) \<rparr>)"
  by (simp add: leave_def bump_def bump_by_def outcome_simps)

lemma bump_outcome [outcome_simps]:
  "outcome (bump c) g Q \<longleftrightarrow> Q (Ok ()) (g\<lparr> ig_counters := (ig_counters g)(c := Suc (ig_counters g c)) \<rparr>)"
  by (simp add: bump_def bump_by_def outcome_simps)

lemma on_runtime_outcome [outcome_simps]:
  "outcome (on_runtime m) g Q \<longleftrightarrow>
    outcome m (ig_ffi g) (\<lambda>r s. Q r (g\<lparr> ig_host := (ig_host g)\<lparr> ho_ffi := s \<rparr> \<rparr>))"
  by (simp add: outcome_def on_host_def on_ffi_def split: prod.split)

lemma leave_routes:
  "c \<noteq> Appended \<Longrightarrow> d = Consumed \<or> d = Retry \<Longrightarrow> outcome (leave c d) g (routes local message g)"
  by (simp add: outcome_simps routes_def routed_same)

lemma queue_quiet:
  "outcome (offer_to_queue (chat_queue cl message i local capsule seed)) g (quiet g)"
  "outcome (offer_to_queue (attestation_queue message i local)) g (quiet g)"
  by (auto simp: outcome_def offer_to_queue_def chat_queue_def attestation_queue_def leave_def bump_def bump_by_def
      modify_def seq_def pure_def Let_def quiet_def split: prod.splits inbound_route_result.splits)

lemma verified_event_of:
  assumes "verified_event_from_message message kind = Ok e"
  shows "ev_kind e = kind \<and> ev_payload e = en_payload message
    \<and> (\<exists>proof. en_domain_event message = Some proof \<and> ev_signer e = PubKey (dp_signer proof))"
  using assms by (cases "en_domain_event message")
    (auto simp: verified_event_from_message_def Let_def event_new_def event_new_v5_def split: if_splits)

lemma effects_then_routes:
  fixes g g2 :: "('w, 't) ingress"
  assumes law: "ed25519_law (pf_lib pf)" and kind: "message_kind (en_kind message) = Some kind"
    and ext: "extended (ig_ffi g) xs (ig_ffi g2)" and n: "ig_counters g2 Appended = ig_counters g Appended + length xs"
    and xs: "xs = [] \<or> (\<exists>e. xs = [e] \<and> delivered_event local (ig_ffi g) message e)"
  shows "outcome (seq (on_runtime (with_error Retry (project_delivery_effects H U pf seed (delivered_kind kind) message)))
    (\<lambda>_. seq (if b then bump AcceptedProjectionReconciled else pure (Ok ())) (\<lambda>_. pure (Ok Consumed)))) g2
    (routes local message g)"
proof -
  have finish: "routed local message (ig_view g) d (s', ig_counters g2 Appended)"
    if "effects_done (delivered_kind kind) message (ig_ffi g2) r s'" "d = Consumed \<and> r = Ok () \<or> d = Retry"
    for d s' and r :: "(string, unit) result"
    by (rule effects_routed [OF that(1) ext that(2) refl kind xs]) (rule n)
  have stop: "routes local message g (Err Retry) (g2\<lparr> ig_host := (ig_host g2)\<lparr> ho_ffi := s' \<rparr> \<rparr>)"
    if "effects_done (delivered_kind kind) message (ig_ffi g2) r s'" for s' and r :: "(string, unit) result"
    using finish [OF that, of Retry] by (simp add: routes_def)
  show ?thesis
    unfolding outcome_seq [of "on_runtime _"] on_runtime_outcome outcome_with_error
  proof (rule outcome_weaken [OF effects_outcome [OF law]])
    fix r :: "(string, unit) result" and s' :: "'w ffi_state"
    assume done_now: "effects_done (delivered_kind kind) message (ig_ffi g2) r s'"
    from finish [OF this, of Consumed] stop [OF this]
    show "case map_err (\<lambda>_. Retry) r of
        Ok x \<Rightarrow> outcome (seq (if b then bump AcceptedProjectionReconciled else pure (Ok ())) (\<lambda>_. pure (Ok Consumed)))
          (g2\<lparr> ig_host := (ig_host g2)\<lparr> ho_ffi := s' \<rparr> \<rparr>) (routes local message g)
      | Err e \<Rightarrow> routes local message g (Err e) (g2\<lparr> ig_host := (ig_host g2)\<lparr> ho_ffi := s' \<rparr> \<rparr>)
      | Panic \<Rightarrow> routes local message g Panic (g2\<lparr> ig_host := (ig_host g2)\<lparr> ho_ffi := s' \<rparr> \<rparr>)"
      by (cases r) (simp_all add: outcome_simps routes_def)
  qed
qed

lemma framed_seq:
  fixes m :: "('w, 't, 'e, 'x) ingress_action"
  assumes "outcome m g (\<lambda>r g1. (\<exists>x. r = Ok x) \<and> ig_view g1 = v)"
    and "\<And>x g1. ig_view g1 = v \<Longrightarrow> outcome (f x) g1 Q"
  shows "outcome (seq m f) g Q"
  by (rule outcome_seqI [OF assms(1)]) (use assms(2) in auto)

lemma bump_frames:
  "c \<noteq> Appended \<Longrightarrow> ig_view g = v \<Longrightarrow> outcome (bump c) g (\<lambda>r g1. (\<exists>x. r = Ok x) \<and> ig_view g1 = v)"
  "c \<noteq> Appended \<Longrightarrow> ig_view g = v \<Longrightarrow>
    outcome (if b then bump c else pure (Ok ())) g (\<lambda>r g1. (\<exists>x. r = Ok x) \<and> ig_view g1 = v)"
  by (auto simp: outcome_simps)

lemma routed_still:
  "d = Consumed \<or> d = Retry \<Longrightarrow> extended s [] s' \<Longrightarrow> routed local message (s, n) d (s', n)"
  unfolding routed_def
  by (rule conjI, assumption, rule exI [of _ "[]"], rule exI [of _ s'], rule exI [of _ "[]"]) simp

lemma admit_routes:
  fixes g :: "('w, 't) ingress"
  assumes law: "ed25519_law (pf_lib pf)" and kind: "message_kind (en_kind message) = Some kind"
    and event: "verified_event_from_message message (delivered_kind kind) = Ok e"
    and signer: "proof_signer_matches_payload (delivered_kind kind) (en_payload message) (ev_signer e) = Ok True"
    and addr: "addressed local (ig_ffi g) kind message" and other: "en_from message \<noteq> local"
  shows "outcome (admit_event H U pf seed message (delivered_kind kind) e) g (routes local message g)"
proof (cases "should_skip_incoming_delivery_append_with_timestamp (ig_ffi g) (delivered_kind kind)
    (en_payload message) (ev_signer e) (Some (en_timestamp message))")
  case True
  show ?thesis
    unfolding admit_event_def Let_def outcome_seq [of "inspect _"] outcome_inspect result.case if_P [OF True]
  proof (rule framed_seq [OF bump_frames(1)], simp, rule refl)
    fix x and g1 :: "('w, 't) ingress"
    assume g1: "ig_view g1 = ig_view g"
    show "outcome (seq (if delivered_kind kind = InvitationAccepted then bump AcceptedReplayed else pure (Ok ())) (\<lambda>_.
        seq (on_runtime (with_error Retry (project_delivery_effects H U pf seed (delivered_kind kind) message))) (\<lambda>_.
        seq (if delivered_kind kind = InvitationAccepted then bump AcceptedProjectionReconciled else pure (Ok ())) (\<lambda>_.
          pure (Ok Consumed))))) g1 (routes local message g)"
      by (rule framed_seq [OF bump_frames(2) [OF _ g1]], simp)
        (rule effects_then_routes [OF law kind, where xs = "[]"], auto)
  qed
next
  case False
  have delivered: "delivered_event local (ig_ffi g) message e'"
    if "ev_kind e' = ev_kind e" "ev_payload e' = ev_payload e" "ev_signer e' = ev_signer e" for e'
    using verified_event_of [OF event] kind signer addr other False that
    by (auto simp: delivered_event_def skip_iff)
  let ?R = "\<lambda>(r :: (inbound_delivery_disposition, unit) result) g1 :: ('w, 't) ingress.
      ig_counters g1 Appended = ig_counters g Appended
      \<and> (r = Ok () \<longrightarrow> (\<exists>e'. extended (ig_ffi g) [e'] (ig_ffi g1) \<and> delivered_event local (ig_ffi g) message e'))
      \<and> (\<forall>d. r = Err d \<longrightarrow> d = Retry \<and> extended (ig_ffi g) [] (ig_ffi g1))"
  show ?thesis
    unfolding admit_event_def Let_def outcome_seq [of "inspect _"] outcome_inspect result.case if_not_P [OF False]
  proof (rule outcome_seqI [where R = ?R])
    show "outcome (attempt (on_runtime (append_verified_runtime_event H U pf e)) (\<lambda>_. pure (Ok ()))
        (\<lambda>_. leave AppendFailed Retry)) g ?R"
      unfolding outcome_attempt on_runtime_outcome
      by (rule outcome_weaken [OF append_verified_extends])
        (auto simp: outcome_simps delivered split: result.split if_splits)
  next
    fix x :: unit and g1 :: "('w, 't) ingress"
    assume "?R (Ok x) g1"
    then obtain e' where n: "ig_counters g1 Appended = ig_counters g Appended"
      and e': "extended (ig_ffi g) [e'] (ig_ffi g1)" "delivered_event local (ig_ffi g) message e'"
      by auto
    show "outcome (seq (bump Appended) (\<lambda>_.
        seq (if delivered_kind kind = InvitationAccepted then bump AcceptedAppended else pure (Ok ())) (\<lambda>_.
        seq (on_runtime (with_error Retry (project_delivery_effects H U pf seed (delivered_kind kind) message))) (\<lambda>_.
          pure (Ok Consumed))))) g1 (routes local message g)"
    proof (rule framed_seq [where v = "(ig_ffi g1, Suc (ig_counters g Appended))"])
      fix x and g2 :: "('w, 't) ingress"
      assume g2: "ig_view g2 = (ig_ffi g1, Suc (ig_counters g Appended))"
      show "outcome (seq (if delivered_kind kind = InvitationAccepted then bump AcceptedAppended else pure (Ok ()))
          (\<lambda>_. seq (on_runtime (with_error Retry (project_delivery_effects H U pf seed (delivered_kind kind) message)))
          (\<lambda>_. pure (Ok Consumed)))) g2 (routes local message g)"
        by (rule framed_seq [OF bump_frames(2) [OF _ g2]], simp)
          (rule effects_then_routes [OF law kind, where xs = "[e']" and b = False, unfolded if_False seq_pure_Ok], use e' in auto)
    qed (simp add: outcome_simps n)
  qed (auto simp: routes_def intro: routed_still)
qed

lemma addressed_decided:
  "and_then (payload_targets_local kind (en_payload message) local) (\<lambda>payload_targets.
     and_then (expired_targets_local s kind message) (\<lambda>expired_targets.
       Ok (en_to message = local \<or> payload_targets \<or> expired_targets))) = Ok (addressed local s kind message)"
proof -
  obtain t where t: "payload_targets_local kind (en_payload message) local = Ok t"
    using payload_slices_return(2) by blast
  obtain e where e: "expired_targets_local s kind message = Ok e"
    using payload_slices_return(3) by blast
  show ?thesis by (simp add: t e addressed_def)
qed

lemma event_routes:
  fixes g :: "('w, 't) ingress"
  assumes law: "ed25519_law (pf_lib pf)" and other: "en_from message \<noteq> local"
  shows "outcome (route_event H U pf message local seed) g (routes local message g)"
proof (cases "message_kind (en_kind message)")
  case None
  then show ?thesis by (simp add: route_event_def leave_routes)
next
  case (Some kind)
  show ?thesis
  proof (cases "addressed local (ig_ffi g) kind message")
    case True
    have event: "outcome (case verified_event_from_message message (delivered_kind kind) of
          Ok event \<Rightarrow>
            seq (pure (proof_signer_matches_payload (delivered_kind kind) (en_payload message) (ev_signer event))) (\<lambda>matches.
            if \<not> matches then leave SignerMismatch Consumed
            else admit_event H U pf seed message (delivered_kind kind) event)
        | _ \<Rightarrow> leave ProofInvalid Consumed) g1 (routes local message g1)"
      if "ig_view g1 = ig_view g" for g1 :: "('w, 't) ingress"
    proof (cases "verified_event_from_message message (delivered_kind kind)")
      case (Ok e)
      obtain matches where "proof_signer_matches_payload (delivered_kind kind) (en_payload message) (ev_signer e)
          = result.Ok matches"
        using payload_slices_return(1) by blast
      with Ok show ?thesis
        using admit_routes [OF law Some Ok _ _ other, of g1] True that by (simp add: leave_routes)
    qed (simp_all add: leave_routes)
    show ?thesis
      using True
      unfolding route_event_def Some option.case outcome_seq [of "inspect _"] outcome_inspect addressed_decided result.case
      by (simp only: simp_thms if_True if_False) (rule quiet_then, simp add: outcome_simps quiet_def, rule event)
  next
    case False
    then show ?thesis
      by (simp add: route_event_def Some outcome_simps addressed_decided leave_routes routes_def routed_same)
  qed
qed

lemma route_outcome:
  fixes g :: "('w, 't) ingress"
  assumes law: "ed25519_law (pf_lib pf)"
  shows "outcome (route_inbound_envelope H U pf cl i message local seed) g
    (\<lambda>r g'. \<forall>d. r = Ok d \<longrightarrow> routed local message (ig_view g) d (ig_view g'))"
proof -
  have "outcome (route_steps H U pf cl i message local seed) g (routes local message g)"
  proof (cases "en_from message = local")
    case True
    then show ?thesis by (simp add: route_steps_def outcome_simps routes_def routed_same)
  next
    case False
    have capsule: "outcome (inspect (\<lambda>g. ok_or (current_capsule_state H (ig_ffi g)) Retry)) g (quiet g)"
      by (cases "current_capsule_state H (ig_ffi g)") (simp_all add: outcome_simps quiet_def)
    show ?thesis
      unfolding route_steps_def if_not_P [OF False] seq_pure_Ok
      by (rule quiet_then, rule capsule, rule quiet_then, rule queue_quiet, rule quiet_then,
        rule queue_quiet, rule event_routes [OF law False])
  qed
  then show ?thesis
    by (auto simp: route_inbound_envelope_def outcome_simps routes_def elim!: outcome_weaken split: result.split)
qed

section \<open>What a delivery can do\<close>

text \<open>C6: Routing a delivery decides Consumed or Retry and appends at most the delivered event: only when it
  comes from somebody else, is addressed to this capsule, has the kind and payload of the message and the
  signer its proof and its payload name, and passes the delivery gate. After it comes at most one event of
  the owner, the relationship a delivered acceptance establishes or the burn a rejection causes, for an
  offer of the owner; a consumed new acceptance has its relationship recorded. The counter counts exactly
  the delivered events appended.\<close>

theorem routing_appends_admissible_delivery:
  assumes "ed25519_law (pf_lib pf)"
    and "route_inbound_envelope H U pf cl i message local seed g = (Ok d, g')"
  shows "routed local message (ig_view g) d (ig_view g')"
  using outcomeD [OF route_outcome [OF assms(1)] assms(2)] by blast

definition sample_offer :: delivery_envelope where
  "sample_offer =
    \<lparr> en_schema_version = 1, en_from = bfill 3, en_to = bfill 2, en_kind = 1,
      en_payload = replicate 32 1 @ replicate 32 4 @ replicate 32 2 @ replicate 32 7 @ [0],
      en_timestamp = 3, en_correlation_id = None,
      en_domain_event = Some \<lparr> dp_version = 4, dp_kind = 9, dp_signer = bfill 7,
        dp_signature = replicate 32 7 @ replicate 32 131 \<rparr> \<rparr>"

definition sample_v4_host :: "(unit, unit) ingress" where
  "sample_v4_host = \<lparr> ig_host = sample_host\<lparr> ho_ffi := sample_v4_state \<rparr>, ig_counters = (\<lambda>_. 0) \<rparr>"

definition sample_offer_event :: event where
  "sample_offer_event = event_new InvitationReceived (en_payload sample_offer) (Timestamp 3)
    (Signature (barray_of (replicate 32 7 @ replicate 32 131))) (PubKey (bfill 7))"

lemma offer_admitted: "\<not> should_skip_incoming_delivery_append_with_timestamp sample_v4_state InvitationReceived
   (en_payload sample_offer) (PubKey (bfill 7)) (Some 3)"
  by (simp add: should_skip_incoming_delivery_append_with_timestamp_def skip_offer_def sample_v4_state_def
     ledger_new_def sample_offer_def invitation_is_resolved_in_runtime_def event_exists_in_runtime_with_signer_def
     incoming_invitation_reuses_empty_slot_rejected_sender_starter_def invitation_id_from_terminal_payload_def Let_def
     invitation_offer_exists_in_runtime_def split: option.split)

lemma offer_verified: "verify_event length_hash (build_engine_for_ledger sample_platform seed l) sample_offer_event
      (PubKey (bfill 7)) = Ok ()" 
  by (simp add: verify_event_def build_engine_for_ledger_def build_engine_with_config_def sample_platform_def
        sample_crypto_def ed25519_verify_def sample_offer_event_def sample_offer_def event_id_def event_id_preimage_def
        event_new_def length_hash_def)

lemma offer_root: "array_at (en_payload sample_offer) 96 = bfill 7"
  by (simp add: array_at_def sample_offer_def bfill_def barray_of_def)

lemma offer_appended: "fst (append_verified_runtime_event length_hash 8 sample_platform sample_offer_event sample_v4_state) = Ok ()"
    using offer_verified [unfolded sample_platform_def sample_offer_event_def] by (simp add: append_verified_runtime_event_def sample_v4_state_def load_seed_def seq_def pure_def
        sample_with_def in_env_def inspect_def modify_def store_ledger_def observe_ts_def sample_platform_def
        build_engine_for_active_ledger_def ledger_new_def sample_offer_event_def
        is_continuous_v5_def ledger_append_def event_new_def Let_def)
lemma offer_event: "verified_event_from_message sample_offer InvitationReceived = Ok sample_offer_event"
  by (simp add: verified_event_from_message_def sample_offer_def sample_offer_event_def PROTOCOL_VERSION_def Let_def)


lemma offer_routed:
  "\<exists>g'. route_inbound_envelope length_hash 8 sample_platform sample_chat [] sample_offer (bfill 2) (KeySeed (bfill 9))
     sample_v4_host = (Ok Consumed :: (code, inbound_delivery_disposition) result, g')
   \<and> ig_counters g' Appended = 1"
proof -
  obtain s' where app: "append_verified_runtime_event length_hash 8 sample_platform sample_offer_event sample_v4_state
      = (Ok (), s')"
    using offer_appended by (metis prod.collapse)
  have admit: "admit_event length_hash 8 sample_platform (KeySeed (bfill 9)) sample_offer InvitationReceived
      sample_offer_event sample_v4_host = (Ok Consumed, sample_v4_host\<lparr> ig_host := sample_host\<lparr> ho_ffi := s' \<rparr>,
        ig_counters := (\<lambda>_. 0)(Appended := 1) \<rparr>)"
    using offer_admitted app
    by (simp add: admit_event_def sample_v4_host_def inspect_def seq_def pure_def attempt_def on_host_def on_ffi_def
      bump_def bump_by_def modify_def project_delivery_effects_def with_error_def sample_offer_def sample_offer_event_def)
  have "route_event length_hash 8 sample_platform sample_offer (bfill 2) (KeySeed (bfill 9)) sample_v4_host =
    (Ok Consumed, sample_v4_host\<lparr> ig_host := sample_host\<lparr> ho_ffi := s' \<rparr>,
        ig_counters := (\<lambda>_. 0)(Appended := 1) \<rparr>)"
    using admit offer_event offer_root
    by (simp add: route_event_def message_kind_def event_kind_from_u8_def sample_offer_def delivered_kind_def
      seq_def inspect_def pure_def proof_signer_matches_payload_def
      payload_targets_local_def expired_targets_local_def payload_slice_def sample_offer_event_def)
  then show ?thesis
    by (simp add: route_inbound_envelope_def route_steps_def attempt_def seq_def pure_def inspect_def
      offer_to_queue_def chat_queue_def attestation_queue_def queue_incoming_chat_if_match_def
      queue_incoming_attestation_if_match_def sample_v4_host_def current_capsule_state_def sample_v4_state_def
      sample_offer_def CAPSULE_CHAT_KIND_def PAIR_CONSENSUS_ATTESTATION_KIND_def)
qed
theorem routing_appends_admissible_delivery_witness:
  "\<exists>g' :: (unit, unit) ingress. routed (bfill 2) sample_offer (ig_view sample_v4_host) Consumed (ig_view g') \<and> ig_counters g' Appended = 1"
proof -
  obtain g' where run: "route_inbound_envelope length_hash 8 sample_platform sample_chat [] sample_offer (bfill 2)
      (KeySeed (bfill 9)) sample_v4_host = (Ok Consumed :: (code, inbound_delivery_disposition) result, g')"
    and n: "ig_counters g' Appended = 1"
    using offer_routed by blast
  show ?thesis
    by (rule exI [of _ g'], rule conjI, rule routing_appends_admissible_delivery [OF sample_crypto_law run], rule n)
qed

end
