(* ===== verification/Calm.thy ===== *)
theory Calm
  imports Ingress
begin

text \<open>
  A panic of the exported functions aborts the application. \<open>calm m\<close>: \<open>m\<close> returns a value or an error
  from every state. The slices of the router and the decoding of the payloads it reads are results that may be
  \<open>Panic\<close>; what a remote sender puts into a delivery reaches neither.
\<close>

definition good :: "('e \<Rightarrow> bool) \<Rightarrow> ('a \<Rightarrow> bool) \<Rightarrow> ('e, 'a) result \<Rightarrow> bool" where
  "good E A r \<longleftrightarrow> (case r of Ok x \<Rightarrow> A x | Err e \<Rightarrow> E e | Panic \<Rightarrow> False)"

text \<open>\<open>gives E A m\<close>: from every state \<open>m\<close> returns a value with \<open>A\<close> or an error with \<open>E\<close>.\<close>

definition gives :: "('e \<Rightarrow> bool) \<Rightarrow> ('a \<Rightarrow> bool) \<Rightarrow> ('s, 'e, 'a) action \<Rightarrow> bool" where
  "gives E A m \<longleftrightarrow> (\<forall>s. good E A (fst (m s)))"

abbreviation calm :: "('s, 'e, 'a) action \<Rightarrow> bool" where
  "calm m \<equiv> gives (\<lambda>_. True) (\<lambda>_. True) m"

lemma good_simps [simp]: "good E A (Ok x) = A x" "good E A (Err e) = E e" "\<not> good E A Panic"
  by (simp_all add: good_def)

lemma good_calm [simp]: "good (\<lambda>_. True) (\<lambda>_. True) r \<longleftrightarrow> r \<noteq> Panic"
  by (cases r) simp_all

lemma good_ok_or [simp]: "good E A (ok_or x e) \<longleftrightarrow> (x = None \<longrightarrow> E e) \<and> (\<forall>y. x = Some y \<longrightarrow> A y)"
  by (cases x) simp_all

lemma good_map_err: "r \<noteq> Panic \<Longrightarrow> E e \<Longrightarrow> good E (\<lambda>_. True) (map_err (\<lambda>_. e) r)"
  by (cases r) simp_all

named_theorems calm_rules \<open>what actions give\<close>

lemma gives_run: "gives E A m \<Longrightarrow> good E A (fst (m s))"
  by (simp add: gives_def)

lemma gives_seqI:
  assumes "gives E B m" and "\<And>x. B x \<Longrightarrow> gives E A (f x)"
  shows "gives E A (seq m f)"
proof -
  have "good E A (fst (seq m f s))" for s
    using gives_run [OF assms(1), of s] gives_run [OF assms(2)]
    by (cases "m s"; cases "fst (m s)") (auto simp: seq_def)
  then show ?thesis by (simp add: gives_def)
qed

lemma gives_seq [calm_rules]:
  assumes "gives E (\<lambda>_. True) m" and "\<And>x. gives E A (f x)"
  shows "gives E A (seq m f)"
  by (rule gives_seqI [OF assms])

lemma gives_attempt [calm_rules]:
  assumes "calm m" and "\<And>x. gives E A (f x)" and "\<And>e. gives E A (k e)"
  shows "gives E A (attempt m f k)"
proof -
  have "good E A (fst (attempt m f k s))" for s
    using gives_run [OF assms(1), of s] gives_run [OF assms(2)] gives_run [OF assms(3)]
    by (cases "m s"; cases "fst (m s)") (auto simp: attempt_def)
  then show ?thesis by (simp add: gives_def)
qed

lemma gives_either:
  assumes "gives P P m"
  shows "gives E P (attempt m (\<lambda>x. pure (Ok x)) (\<lambda>x. pure (Ok x)))"
proof -
  have "good E P (fst (attempt m (\<lambda>x. pure (Ok x)) (\<lambda>x. pure (Ok x)) s))" for s
    using gives_run [OF assms, of s] by (cases "m s"; cases "fst (m s)") (auto simp: attempt_def)
  then show ?thesis by (simp add: gives_def)
qed

lemma gives_base [calm_rules]:
  "good E A r \<Longrightarrow> gives E A (pure r)" "(\<And>s. good E B (g s)) \<Longrightarrow> gives E B (inspect g)"
  "gives E (\<lambda>_. True) (modify h)" "gives E (\<lambda>_. True) (sample_with f)"
  by (simp_all add: gives_def inspect_def modify_def sample_with_def split: prod.split)

lemma gives_with_error [calm_rules]: "calm m \<Longrightarrow> E e \<Longrightarrow> gives E (\<lambda>_. True) (with_error e m)"
  by (simp add: gives_def with_error_def split_beta good_map_err)

lemma gives_if [calm_rules]: "(b \<Longrightarrow> gives E A m) \<Longrightarrow> (\<not> b \<Longrightarrow> gives E A m') \<Longrightarrow> gives E A (if b then m else m')"
  by simp

lemma gives_option [calm_rules]:
  "(x = None \<Longrightarrow> gives E A m) \<Longrightarrow> (\<And>y. x = Some y \<Longrightarrow> gives E A (f y)) \<Longrightarrow>
    gives E A (case x of None \<Rightarrow> m | Some y \<Rightarrow> f y)"
  by (cases x) simp_all

lemma gives_prod [calm_rules]: "(\<And>a b. gives E A (f a b)) \<Longrightarrow> gives E A (case p of (a, b) \<Rightarrow> f a b)"
  by (cases p) simp

lemma gives_result [calm_rules]:
  "(\<And>x. r = Ok x \<Longrightarrow> gives E A (f x)) \<Longrightarrow> (\<And>e. r = Err e \<Longrightarrow> gives E A (k e)) \<Longrightarrow> (r = Panic \<Longrightarrow> gives E A p) \<Longrightarrow>
    gives E A (case r of Ok x \<Rightarrow> f x | Err e \<Rightarrow> k e | Panic \<Rightarrow> p)"
  by (cases r) simp_all

lemma gives_lift [calm_rules]:
  "gives E A m \<Longrightarrow> gives E A (on_ffi m)" "gives E A n \<Longrightarrow> gives E A (on_store n)"
  "gives E A k \<Longrightarrow> gives E A (on_host k)"
  by (simp_all add: gives_def on_ffi_def on_store_def on_host_def split_beta)

lemma calm_disk [calm_rules]: "calm d \<Longrightarrow> calm (on_disk d)" "calm d \<Longrightarrow> calm (on_chat_disk message d)"
  by (simp_all add: gives_def on_disk_def on_chat_disk_def with_error_def split_beta)

lemma calm_fs_call: "calm act \<Longrightarrow> calm (fs_call broken act)"
  by (auto simp: gives_def fs_call_def split: prod.split option.split)

lemma calm_fs [calm_rules]:
  "calm (fs_read p)" "calm (fs_create_dir_all p)" "calm (fs_sync_all p)" "calm (fs_remove_file p)"
  "calm (fs_create_new p)" "calm (fs_write_all p bs)" "calm (fs_rename p q)"
  unfolding fs_read_def fs_create_dir_all_def fs_sync_all_def fs_remove_file_def fs_create_new_def fs_write_all_def
    fs_rename_def
  by (intro calm_fs_call calm_rules; simp)+

section \<open>The ledger\<close>

lemma engine_not_Panic [simp]:
  "engine_public_key en \<noteq> Panic" "sign_event H en e \<noteq> Panic" "verify_event H en e k \<noteq> Panic"
  "new_event_of_version v kind payload t sig signer \<noteq> Panic"
  "prepare_ledger_entry_v5 H en n p e \<noteq> Panic"
  by (simp_all add: engine_public_key_def sign_event_def verify_event_def new_event_of_version_def
      prepare_ledger_entry_v5_def Let_def and_then_eq_Panic)

lemma calm_prepare_event [calm_rules]: "calm (prepare_event H en kind payload recipient)"
  unfolding prepare_event_def engine_now_def with_keystore_error_def
  by (intro calm_rules; simp)

lemma append_v5_event_not_Panic [simp]: "append_v5_event H en l e \<noteq> Panic"
  by (simp add: append_v5_event_def next_sequence_v5_def and_then_eq_Panic split: option.split)

lemma calm_load_seed [calm_rules]: "calm (load_seed pf)"
  unfolding load_seed_def by (intro calm_rules; simp)

lemma active_engine_not_Panic [simp]: "build_engine_for_active_ledger pf seed s \<noteq> Panic"
  by (simp add: build_engine_for_active_ledger_def and_then_eq_Panic)

lemma calm_appends [calm_rules]:
  "calm (append_verified_runtime_event H U pf e)" "calm (append_prepared_event H U pf prepared)"
  unfolding append_verified_runtime_event_def append_prepared_event_def store_ledger_def observe_ts_def Let_def
  by (intro calm_rules; simp split: option.split)+

lemma calm_effects [calm_rules]:
  "calm (project_relationship_from_invitation_accepted H U pf en message_from ap)"
  "calm (project_effects_from_invitation_rejected H U pf en rp)"
  unfolding project_relationship_from_invitation_accepted_def append_relationship_established_if_missing_def
    prepare_relationship_established_def project_effects_from_invitation_rejected_def prepare_starter_burned_def
  by (cases "rej_reason rp"; intro calm_rules; simp)+

lemma calm_with_engine [calm_rules]: "(\<And>en. calm (f en)) \<Longrightarrow> calm (with_engine pf seed f)"
  by (simp add: gives_def with_engine_def)

lemma calm_delivery_effects [calm_rules]: "calm (project_delivery_effects H U pf seed kind message)"
  unfolding project_delivery_effects_def project_invitation_accepted_delivery_def
  by (intro calm_rules; simp)

section \<open>The stores\<close>

lemma storage_not_Panic [simp]:
  "derive_key_with_label lib seed label \<noteq> Panic" "seal_with_label lib nonce seed label ad text \<noteq> Panic"
  "open_with_label lib seed label ad sealed \<noteq> Panic" "serialized bs \<noteq> Panic" "validate_event_id i \<noteq> Panic"
  "find_or_add_policy repo sn sender now \<noteq> Panic" "ensure_charge_evidence_capacity ql sn n \<noteq> Panic"
  by (simp_all add: derive_key_with_label_def seal_with_label_def open_with_label_def serialized_def
      validate_event_id_def find_or_add_policy_def make_sender_policy_capacity_def ensure_charge_evidence_capacity_def
      Let_def and_then_eq_Panic split: option.split)

lemma evict_over_size_not_Panic [simp]: "evict_over_size cl sn \<noteq> Panic"
  by (induction cl sn rule: evict_over_size.induct) (subst evict_over_size.simps, simp)

lemma calm_draws [calm_rules]: "calm (draw_chat_nonce cl)" "calm (draw_nonce ql)"
  by (simp_all add: gives_def draw_chat_nonce_def draw_nonce_def)

lemma storage_root_not_Panic [simp]: "fst (application_storage_root w) \<noteq> Panic"
  by (simp add: application_storage_root_def inspect_def)

lemma calm_chat [calm_rules]: "calm (persist_chat_handoff cl capsule local seed message)"
  unfolding persist_chat_handoff_def load_chat_handoff_def write_chat_handoff_def chat_handoff_path_def
    open_chat_handoff_snapshot_def seal_chat_handoff_snapshot_def Let_def
  by (intro calm_rules; simp)

lemma validate_hex32_not_Panic [simp]: "validate_hex32 value \<noteq> Panic"
  by (simp add: validate_hex32_def)

lemma validate_records_not_Panic [simp]: "validate_records scope ids counts n rs \<noteq> Panic"
  by (induction scope ids counts n rs rule: validate_records.induct)
    (auto simp: and_then_eq_Panic Let_def simp del: fun_upd_apply)

lemma validate_tombstones_not_Panic [simp]: "validate_tombstones scope ids ts \<noteq> Panic"
  by (induction scope ids ts rule: validate_tombstones.induct) (auto simp: and_then_eq_Panic)

lemma validate_charges_not_Panic [simp]: "validate_charges charged cs \<noteq> Panic"
  by (induction charged cs rule: validate_charges.induct) (auto simp: and_then_eq_Panic)

lemma validate_policies_not_Panic [simp]: "validate_policies scope seen charged m ps \<noteq> Panic"
  by (induction scope seen charged m ps rule: validate_policies.induct) (auto simp: and_then_eq_Panic)

lemma validate_snapshot_not_Panic [simp]: "validate_snapshot ql sn scope \<noteq> Panic"
  by (auto simp: validate_snapshot_def and_then_eq_Panic)

lemma calm_commit [calm_rules]: "calm (commit ql repo sn)"
  unfolding commit_def persist_def atomic_write_def seal_inbound_quarantine_snapshot_def Let_def
  by (intro calm_rules; simp)

lemma calm_quarantine [calm_rules]:
  "calm (append_quarantine_record ql repo sn i obs message reason now)"
  "calm (quarantine ql repo i obs message reason now)"
  "calm (apply_sender_policy ql repo i obs message now)"
proof -
  show append: "calm (append_quarantine_record ql repo sn i obs message reason now)" for sn reason
    unfolding append_quarantine_record_def seal_envelope_def seal_inbound_quarantine_record_def Let_def
    by (intro calm_rules; simp)
  show "calm (quarantine ql repo i obs message reason now)"
    unfolding quarantine_def by (intro calm_rules append; simp)
  show "calm (apply_sender_policy ql repo i obs message now)"
    unfolding apply_sender_policy_def Let_def by (intro calm_rules append; simp)
qed

section \<open>One item\<close>

text \<open>Routing decides that the item is done or that it has to come back.\<close>

abbreviation routed_as :: "inbound_delivery_disposition \<Rightarrow> bool" where
  "routed_as d \<equiv> d = Consumed \<or> d = Retry"

lemma gives_bump [calm_rules]: "gives E (\<lambda>_. True) (bump_by c n)" "gives E (\<lambda>_. True) (bump c)"
  unfolding bump_def bump_by_def by (intro calm_rules)+

lemma gives_leave [calm_rules]: "E d \<Longrightarrow> gives E A (leave c d)"
  unfolding leave_def by (intro calm_rules) simp

lemma gives_offer [calm_rules]: "gives routed_as (\<lambda>_. True) (offer_to_queue queue)"
proof -
  have leave: "good routed_as (\<lambda>_. True) (fst (leave c d g))" if "routed_as d" for c d g
    by (rule gives_run, rule gives_leave) (rule that)
  show ?thesis
    by (auto simp: gives_def offer_to_queue_def Let_def leave split: prod.split inbound_route_result.split)
qed

lemma verified_event_not_Panic [simp]: "verified_event_from_message message kind \<noteq> Panic"
  by (simp add: verified_event_from_message_def and_then_eq_Panic Let_def)

lemma good_and_then: "(\<exists>x. r = Ok x) \<Longrightarrow> (\<And>x. good E A (f x)) \<Longrightarrow> good E A (and_then r f)"
  by auto

lemma good_payload_slices [simp]:
  "(\<And>t. good E A (f t)) \<Longrightarrow> good E A (and_then (payload_targets_local kind payload local) f)"
  "(\<And>e. good E A (f e)) \<Longrightarrow> good E A (and_then (expired_targets_local s kind message) f)"
  "good E (\<lambda>_. True) (proof_signer_matches_payload kind payload signer)"
  using payload_slices_return(1) [of kind payload signer]
  by (auto intro: good_and_then payload_slices_return)

lemma gives_route [calm_rules]: "gives E routed_as (route_inbound_envelope H U pf cl i message local seed)"
  unfolding route_inbound_envelope_def route_steps_def route_event_def admit_event_def Let_def
  by (intro gives_either calm_rules; simp)

text \<open>What the adapter accepts for an item of its batch.\<close>

definition answers :: "inbound_delivery_item \<Rightarrow> inbound_delivery_resolution \<Rightarrow> bool" where
  "answers item resolution \<longleftrightarrow> dr_event_id resolution = di_event_id item
    \<and> (case di_payload item of
         AdapterRejectedPayload _ \<Rightarrow> dr_disposition resolution = AdapterRejected
       | Envelope _ \<Rightarrow> dr_disposition resolution \<noteq> AdapterRejected)"

lemma gives_after_route:
  "(\<And>d. routed_as d \<Longrightarrow> gives E A (f d)) \<Longrightarrow>
    gives E A (seq (route_inbound_envelope H U pf cl i message local seed) f)"
  by (rule gives_seqI [OF gives_route])

lemma gives_decide_message:
  "gives E (\<lambda>d. d \<noteq> AdapterRejected) (decide_message H U pf cl ql repo local seed now i obs message)"
  unfolding decide_message_def by (intro gives_after_route calm_rules) auto

lemma gives_decide_item:
  "gives E (answers item) (decide_item H U pf cl ql repo local seed now item)"
proof (cases "di_payload item")
  case (Envelope message)
  have "gives E (\<lambda>d. d \<noteq> AdapterRejected)
    (seq (inspect (\<lambda>g. Ok (has_terminal_evidence (qw_snapshot (ho_store (ig_host g))) (ascii (di_event_id item)))))
      (\<lambda>known. if known then seq (bump QuarantineTerminalReplay) (\<lambda>_. pure (Ok Consumed))
        else decide_message H U pf cl ql repo local seed now (ascii (di_event_id item)) (map ascii (di_observed_by item))
          message))"
    by (intro calm_rules gives_decide_message) auto
  then show ?thesis
    unfolding decide_item_def Let_def Envelope inbound_delivery_payload.case
    by (rule gives_seqI) (intro calm_rules; simp add: answers_def Envelope)
next
  case (AdapterRejectedPayload reason)
  have "gives E (\<lambda>d. d = AdapterRejected) (seq (bump AdapterRejections) (\<lambda>_. pure (Ok AdapterRejected)))"
    by (intro calm_rules) auto
  then show ?thesis
    unfolding decide_item_def Let_def AdapterRejectedPayload inbound_delivery_payload.case
    by (rule gives_seqI) (intro calm_rules; simp add: answers_def AdapterRejectedPayload)
qed

lemma gives_decide_items:
  "gives E (list_all2 answers items) (decide_items H U pf cl ql repo local seed now items)"
proof (induction items)
  case (Cons item items)
  show ?case
    unfolding decide_items.simps
    by (rule gives_seqI [OF gives_decide_item], rule gives_seqI [OF Cons.IH], intro calm_rules) simp
qed (simp add: gives_def)

lemma batch_is_answered:
  "\<exists>resolutions g'. decide_items H U pf cl ql repo local seed now items g
      = (Ok resolutions :: (code, inbound_delivery_resolution list) result, g')
    \<and> list_all2 answers items resolutions"
proof -
  obtain r :: "(code, inbound_delivery_resolution list) result" and g'
    where run: "decide_items H U pf cl ql repo local seed now items g = (r, g')"
    by (rule prod.exhaust)
  have "good (\<lambda>_. False) (list_all2 answers items) r"
    using gives_run [OF gives_decide_items] run by (metis fst_conv)
  with run show ?thesis by (cases r) auto
qed

text \<open>C7: Whatever a batch holds, the receiver answers it: no delivery stops it half way, and no slice that the router
  itself takes of a delivered payload is out of range. Every item gets exactly one resolution, in the order of the
  batch and under its own identifier, and an item is resolved as rejected by the adapter exactly when the adapter
  rejected it. The readers of recorded events (invitation\_support.rs), which slice behind length checks of their
  own, are total functions of the model, so the statement is silent about them.\<close>

theorem every_item_is_resolved:
  "\<exists>resolutions g'. decide_items H U pf cl ql repo local seed now items g
      = (Ok resolutions :: (code, inbound_delivery_resolution list) result, g')
    \<and> list_all2 answers items resolutions"
  by (rule batch_is_answered)

end
