(* ===== verification/Quarantine_Items.thy ===== *)
theory Quarantine_Items
  imports Quarantine_Store "HOL-Library.Multiset"
begin

text \<open>
  Single items of the inbound quarantine (platform/hivra-ffi/src/inbound\_quarantine.rs): a delivery that was
  set aside is handed back as it was, and an item that was consumed or has expired leaves evidence that
  stays for the whole retention time.
\<close>

section \<open>Hexadecimal names\<close>

lemma from_hex_nibble_HEX: "n < 16 \<Longrightarrow> from_hex_nibble (HEX ! n) = Some (of_nat n)"
proof -
  assume "n < 16"
  then have "n \<in> set [0..<16]" by simp
  moreover have "list_all (\<lambda>n. from_hex_nibble (HEX ! n) = Some (of_nat n)) [0..<16]"
    by (simp add: upt_rec HEX_eq from_hex_nibble_def)
  ultimately show ?thesis by (auto simp: list_all_iff)
qed

lemma byte_of_nibbles: "16 * drop_bit 4 b + (b AND 0x0f) = (b :: u8)"
proof -
  have "b AND 0x0f = take_bit 4 b" by (simp add: take_bit_eq_mask mask_eq_exp_minus_1)
  moreover have "16 * drop_bit 4 b = push_bit 4 (drop_bit 4 b)" by (simp add: push_bit_eq_mult)
  ultimately show ?thesis by (simp add: bits_ident)
qed

lemma hex_pairs_encode [simp]: "hex_pairs (encode_hex bs) = bs"
proof (induction bs)
  case (Cons b bs)
  note small = byte_nibbles_small [of b]
  have "(of_nat (unat (drop_bit 4 b)) :: u8) = drop_bit 4 b" "(of_nat (unat (b AND 0x0f)) :: u8) = b AND 0x0f"
    by simp_all
  with Cons small byte_of_nibbles [of b] show ?case
    by (simp add: encode_hex_def from_hex_nibble_HEX del: of_nat_unat)
qed (simp add: encode_hex_def)

lemma encode_hex_inject: "encode_hex as = encode_hex bs \<longleftrightarrow> as = bs"
  by (metis hex_pairs_encode)

lemma validate_encoded: "length bs = 32 \<Longrightarrow> validate_hex32 (encode_hex bs) = Ok ()"
  using encode_hex_digits by (simp add: validate_hex32_def)

section \<open>A delivery comes back\<close>

lemma stored_envelope_back: "into_delivery_envelope (stored_of_envelope envelope) = Ok envelope"
  by (cases "en_correlation_id envelope") (simp_all add: into_delivery_envelope_def stored_of_envelope_def try_into_32_def)

lemma seal_envelope_outcome:
  "outcome (seal_envelope lib repo i envelope) w (\<lambda>r w'. qw_snapshot w' = qw_snapshot w
    \<and> (\<forall>c. r = Ok c \<longrightarrow> (\<exists>bs nonce. ql_put_envelope lib (stored_of_envelope envelope) = Some bs
        \<and> seal_inbound_quarantine_record (ql_crypto lib) nonce (rp_seed repo)
            (record_associated_data (rp_scope repo) i) bs = Ok c)))"
  by (auto simp: seal_envelope_def outcome_seq [of "pure _"] outcome_seq [of "draw_nonce _"] outcome_pure
      outcome_draw serialized_def elim!: map_err.elims ok_or.elims split: result.split)

lemma append_new_record:
  assumes "i \<notin> qr_adapter_event_id ` set (sn_records sn)"
  shows "outcome (append_quarantine_record lib repo sn i obs envelope reason now) w
    (\<lambda>r w'. \<forall>sn'. r = Ok sn' \<longrightarrow> (\<exists>c bs nonce. ql_put_envelope lib (stored_of_envelope envelope) = Some bs
        \<and> seal_inbound_quarantine_record (ql_crypto lib) nonce (rp_seed repo)
            (record_associated_data (rp_scope repo) i) bs = Ok c
        \<and> mset (sn_records sn') = add_mset (new_record (rp_scope repo) i obs envelope reason now c)
            (mset (sn_records sn))))"
proof -
  have "position (\<lambda>r. qr_adapter_event_id r = i) (sn_records sn) = None"
    using assms by (auto simp: position_None)
  then show ?thesis
    unfolding append_quarantine_record_def Let_def outcome_seq [of "pure _"] outcome_pure
    by (auto simp: outcome_pure split: result.split intro!: outcome_seqI [OF seal_envelope_outcome])
      blast
qed

text \<open>C25: A delivery that was set aside under a new identifier adds exactly one record, which opens to
  the same delivery, waits fifteen seconds before its first retry and expires after 72 hours.\<close>

theorem quarantined_delivery_comes_back:
  assumes "aead_correct (ql_crypto lib)"
    and "\<And>bs. ql_put_envelope lib (stored_of_envelope envelope) = Some bs \<Longrightarrow>
      ql_get_envelope lib bs = Some (stored_of_envelope envelope)"
    and "qs_transport_endpoint (rp_scope repo) = encode_hex (bytes (en_to envelope))"
    and "i \<notin> qr_adapter_event_id ` set (sn_records (qw_snapshot w))"
    and "quarantine lib repo i obs envelope reason now w = (Ok (), w')"
  shows "\<exists>r. mset (sn_records (qw_snapshot w')) = add_mset r (mset (sn_records (qw_snapshot w)))
    \<and> open_record lib repo r = Ok (i, envelope)
    \<and> unat (qr_eligible_after r) = min (unat now + 15) (2 ^ 64 - 1)
    \<and> unat (qr_expires_at r) = min (unat now + 259200) (2 ^ 64 - 1)"
proof -
  let ?new = "new_record (rp_scope repo) i obs envelope reason now"
  have opens: "open_record lib repo (?new c) = Ok (i, envelope)"
    if "ql_put_envelope lib (stored_of_envelope envelope) = Some bs"
      "seal_inbound_quarantine_record (ql_crypto lib) nonce (rp_seed repo)
        (record_associated_data (rp_scope repo) i) bs = Ok c" for c bs nonce
    using sealed_opens [OF assms(1) that(2) [unfolded seal_inbound_quarantine_record_def]]
      assms(2) [OF that(1)] assms(3)
    by (simp add: open_inbound_quarantine_record_def open_record_def new_record_def stored_envelope_back decode_hex32_def validate_encoded)
  have "outcome (quarantine lib repo i obs envelope reason now) w (\<lambda>r w'. r = Ok () \<longrightarrow>
    (\<exists>c bs nonce. ql_put_envelope lib (stored_of_envelope envelope) = Some bs
        \<and> seal_inbound_quarantine_record (ql_crypto lib) nonce (rp_seed repo)
            (record_associated_data (rp_scope repo) i) bs = Ok c
        \<and> mset (sn_records (qw_snapshot w')) = add_mset (?new c) (mset (sn_records (qw_snapshot w)))))"
    unfolding quarantine_def outcome_seq [of "inspect _"] outcome_inspect result.case
    by (rule outcome_seqI [OF append_new_record [OF assms(4)]])
      (auto intro: outcome_weaken [OF commit_outcome])
  from outcomeD [OF this assms(5)] obtain c bs nonce where
    "ql_put_envelope lib (stored_of_envelope envelope) = Some bs"
    "seal_inbound_quarantine_record (ql_crypto lib) nonce (rp_seed repo)
            (record_associated_data (rp_scope repo) i) bs = Ok c"
    "mset (sn_records (qw_snapshot w')) = add_mset (?new c) (mset (sn_records (qw_snapshot w)))" by blast
  with opens show ?thesis
    by (intro exI [of _ "?new c"]) (simp add: new_record_def unat_sat_add INITIAL_RETRY_DELAY_SECS_def
      PAYLOAD_RETENTION_SECS_def)
qed

text \<open>The sample instance writes a valid snapshot to its empty disk.\<close>

lemma sample_lib_commit:
  assumes "validate_snapshot lib sn sample_scope = Ok ()" and "qw_disk w = qw_disk sample_world"
    and "ql_put_snapshot lib sn = Some [1]" and "ql_crypto lib = sample_crypto" and "ql_nonce lib = ql_nonce sample_quarantine"
  obtains w' where "commit lib sample_repository sn w = (Ok (), w')" "qw_snapshot w' = sn"
proof -
  let ?w = "w\<lparr> qw_snapshot := sn, qw_draws := Suc (qw_draws w) \<rparr>"
  obtain sealed where seal: "seal_inbound_quarantine_snapshot sample_crypto (bfill (of_nat (qw_draws w)))
      (KeySeed (bfill 9)) (snapshot_associated_data sample_scope) [1] = Ok sealed"
    by (auto simp: seal_inbound_quarantine_snapshot_def seal_with_label_Ok derive_key_with_label_def
        sample_crypto_def)
  obtain w' where run: "commit lib sample_repository sn w = (Ok (), w')"
    using seal assms
    by (simp add: commit_def persist_def atomic_write_def seq_def inspect_def on_disk_def no_faults
        fs_create_dir_all_def pure_def draw_nonce_def serialized_def Let_def fs_exists_def fs_create_new_def
        fs_write_all_def fs_sync_all_def fs_rename_def modify_def set_file_def sample_quarantine_def
        sample_repository_def sample_world_def)
  from outcomeD [OF commit_outcome run] run that show thesis by blast
qed

lemma sample_commit:
  assumes "validate_snapshot sample_quarantine sn sample_scope = Ok ()"
    and "qw_disk w = qw_disk sample_world"
  obtains w' where "commit sample_quarantine sample_repository sn w = (Ok (), w')" "qw_snapshot w' = sn"
  by (rule sample_lib_commit [OF assms]) (simp_all add: sample_quarantine_def)

definition sample_record :: "u8 list \<Rightarrow> quarantine_record" where
  "sample_record = new_record sample_scope (ascii ''e1'') [] sample_delivery (ascii ''later'') 1000"

lemma sample_record_valid:
  "length c \<le> 1000 \<Longrightarrow>
    validate_snapshot sample_quarantine (empty_snapshot sample_scope\<lparr> sn_records := [sample_record c] \<rparr>) sample_scope
      = Ok ()"
  by (simp add: validate_snapshot_def empty_snapshot_def sample_quarantine_def serialized_def sample_record_def
      new_record_def SCHEMA_VERSION_def merge_observations_def validate_event_id_def ascii_def event_id_byte_def
      MAX_EVENT_ID_LEN_def validate_encoded MAX_CIPHERTEXT_BYTES_def MAX_RECORDS_PER_SENDER_def MAX_RECORDS_def)

lemma sample_seal:
  obtains c where "seal_envelope sample_quarantine sample_repository (ascii ''e1'') sample_delivery w =
      (Ok c, w\<lparr> qw_draws := Suc (qw_draws w) \<rparr>)" "length c \<le> 1000"
proof -
  let ?a = "record_associated_data sample_scope (ascii ''e1'')"
  have a: "length ?a \<le> 200"
    by (simp add: record_associated_data_def join_with_colons_def sample_scope_def scope_for_runtime_def
        ascii_def ADAPTER_def decimal.simps)
  obtain c key where c: "seal_inbound_quarantine_record sample_crypto (bfill (of_nat (qw_draws w)))
      (KeySeed (bfill 9)) ?a [2] = Ok c"
    "c = [SEALED_PAYLOAD_VERSION] @ bytes (bfill (of_nat (qw_draws w)) :: nonce12) @ sample_header key ?a @ [2]"
    by (auto simp: seal_inbound_quarantine_record_def seal_with_label_Ok derive_key_with_label_def
        sample_crypto_def)
  then have "length c \<le> 1000" using a by (simp add: sample_header_def)
  moreover from c(1) have "seal_envelope sample_quarantine sample_repository (ascii ''e1'') sample_delivery w =
      (Ok c, w\<lparr> qw_draws := Suc (qw_draws w) \<rparr>)"
    by (simp add: seal_envelope_def seq_def pure_def draw_nonce_def sample_quarantine_def sample_repository_def
        serialized_def)
  ultimately show thesis using that by blast
qed

theorem quarantined_delivery_comes_back_witness:
  "\<exists>w' r. quarantine sample_quarantine sample_repository (ascii ''e1'') [] sample_delivery (ascii ''later'') 1000
      sample_world = (Ok (), w')
    \<and> mset (sn_records (qw_snapshot w')) = {#r#}
    \<and> open_record sample_quarantine sample_repository r = Ok (ascii ''e1'', sample_delivery)"
proof -
  let ?run = "quarantine sample_quarantine sample_repository (ascii ''e1'') [] sample_delivery (ascii ''later'') 1000
      sample_world"
  obtain c where c: "seal_envelope sample_quarantine sample_repository (ascii ''e1'') sample_delivery sample_world =
      (Ok c, sample_world\<lparr> qw_draws := 1 \<rparr>)" "length c \<le> 1000"
    by (rule sample_seal [of sample_world]) (auto simp: sample_world_def)
  obtain w' where w': "commit sample_quarantine sample_repository
      (empty_snapshot sample_scope\<lparr> sn_records := [sample_record c] \<rparr>) (sample_world\<lparr> qw_draws := 1 \<rparr>) = (Ok (), w')"
    by (rule sample_commit [OF sample_record_valid [OF c(2)]]) (auto simp: sample_world_def)
  have run: "?run = (Ok (), w')"
    using c w'
    by (simp add: quarantine_def append_quarantine_record_def seq_def inspect_def pure_def sample_record_def
        sample_world_def empty_snapshot_def sample_repository_def validate_event_id_def ascii_def event_id_byte_def
        MAX_EVENT_ID_LEN_def MAX_CIPHERTEXT_BYTES_def MAX_RECORDS_PER_SENDER_def MAX_RECORDS_def)
  have "sn_records (qw_snapshot sample_world) = []" by (simp add: sample_world_def empty_snapshot_def)
  moreover have "aead_correct (ql_crypto sample_quarantine)"
    "ql_get_envelope sample_quarantine bs = Some (stored_of_envelope sample_delivery)" for bs
    by (simp_all add: sample_quarantine_def sample_crypto_ideal)
  moreover have "qs_transport_endpoint (rp_scope sample_repository) = encode_hex (bytes (en_to sample_delivery))"
    by (simp add: sample_repository_def sample_scope_def scope_for_runtime_def sample_delivery_def)
  ultimately have "\<exists>r. mset (sn_records (qw_snapshot w')) = {#r#}
      \<and> open_record sample_quarantine sample_repository r = Ok (ascii ''e1'', sample_delivery)"
    using quarantined_delivery_comes_back [OF _ _ _ _ run] by simp blast
  with run show ?thesis by blast
qed

section \<open>Evidence of what was done\<close>

text \<open>There is a tombstone of the identifier made at \<open>t\<close> or later.\<close>

definition evidence :: "utf8 \<Rightarrow> u64 \<Rightarrow> quarantine_snapshot \<Rightarrow> bool" where
  "evidence i t sn \<longleftrightarrow> (\<exists>x\<in>set (sn_tombstones sn). qt_adapter_event_id x = i \<and> t \<le> qt_terminal_at x)"

definition keeps_evidence :: "utf8 \<Rightarrow> u64 \<Rightarrow> 'a repo_action \<Rightarrow> bool" where
  "keeps_evidence i t m \<longleftrightarrow> (\<forall>w. evidence i t (qw_snapshot w) \<longrightarrow> outcome m w (\<lambda>r w'. evidence i t (qw_snapshot w')))"

lemma evidence_tombstones: "evidence i t sn' \<Longrightarrow> sn_tombstones sn = sn_tombstones sn' \<Longrightarrow> evidence i t sn"
  by (simp add: evidence_def)

lemma evidence_append:
  "append_tombstone lib sn r reason now = Ok sn' \<Longrightarrow> evidence i t sn \<Longrightarrow> evidence i t sn'"
  by (auto simp: append_tombstone_def evidence_def Let_def split: if_splits)

lemma evidence_remove [simp]: "evidence i t (remove_record j sn) = evidence i t sn"
  by (simp add: evidence_def remove_record_def)

lemma evidence_expire_each:
  "expire_each lib sn now ids = Ok sn' \<Longrightarrow> evidence i t sn \<Longrightarrow> evidence i t sn'"
  by (induction ids arbitrary: sn) (auto dest: evidence_append)

lemma append_record_evidence:
  "outcome (append_quarantine_record lib repo sn j obs envelope reason now) w
    (\<lambda>r w'. qw_snapshot w' = qw_snapshot w
      \<and> (\<forall>sn'. r = Ok sn' \<longrightarrow> sn_tombstones sn' = sn_tombstones sn))"
  unfolding append_quarantine_record_def Let_def outcome_seq [of "pure _"] outcome_pure
  by (auto simp: outcome_pure split: result.split option.split
      intro!: outcome_seqI [OF keepsD [OF keeps_seal]])

lemma policy_tombstones [simp]:
  "sn_tombstones (touch_policy k now sn) = sn_tombstones sn"
  "sn_tombstones (charge_policy k j now sn) = sn_tombstones sn"
  "sn_tombstones (maintain_sender_policy_state sn now) = sn_tombstones sn"
  by (simp_all add: touch_policy_def charge_policy_def Let_def maintain_sender_policy_state_def)

lemma find_or_add_tombstones:
  "find_or_add_policy repo sn s now = Ok (k, sn') \<Longrightarrow> sn_tombstones sn' = sn_tombstones sn"
  by (auto simp: find_or_add_policy_def make_sender_policy_capacity_def Let_def split: option.splits if_splits)

lemma commit_evidence:
  "evidence i t sn \<Longrightarrow> outcome (commit lib repo sn) w (\<lambda>r w'. evidence i t (qw_snapshot w'))"
  "evidence i t sn \<Longrightarrow> outcome (seq (commit lib repo sn) (\<lambda>_. pure (Ok d))) w (\<lambda>r w'. evidence i t (qw_snapshot w'))"
  by (rule outcome_weaken [OF commit_outcome], simp, rule commit_decision, simp)

lemma limited_evidence:
  assumes "evidence i t sn" and "evidence i t (qw_snapshot w)"
    and "\<And>sn'. sn_tombstones (g sn') = sn_tombstones sn'"
  shows "outcome (seq (append_quarantine_record lib repo sn j obs envelope reason now)
      (\<lambda>sn. seq (commit lib repo (g sn)) (\<lambda>_. pure (Ok d)))) w (\<lambda>r w'. evidence i t (qw_snapshot w'))"
proof (rule outcome_seqI [OF append_record_evidence])
  fix sn' :: quarantine_snapshot and w' :: quarantine_world
  assume "qw_snapshot w' = qw_snapshot w \<and> (\<forall>x. Ok sn' = Ok x \<longrightarrow> sn_tombstones x = sn_tombstones sn)"
  then have "evidence i t (g sn')" by (intro evidence_tombstones [OF assms(1)]) (simp add: assms(3))
  then show "outcome (seq (commit lib repo (g sn')) (\<lambda>_. pure (Ok d))) w' (\<lambda>r w'. evidence i t (qw_snapshot w'))"
    by (rule commit_evidence(2))
qed (simp_all add: assms(2))

lemma apply_evidence: "keeps_evidence i t (apply_sender_policy lib repo j obs envelope now)"
  unfolding keeps_evidence_def
proof (intro allI impI)
  fix w :: quarantine_world assume ev: "evidence i t (qw_snapshot w)"
  let ?Q = "\<lambda>(r :: (quarantine_error, sender_ingress_decision) result) w'. evidence i t (qw_snapshot w')"
  let ?sn = "maintain_sender_policy_state (qw_snapshot w) now"
  have maintained: "evidence i t ?sn" by (rule evidence_tombstones [OF ev]) simp
  have bucket: "outcome (let policy = sn_sender_policies sn ! k in
      if list_ex (\<lambda>c. ce_adapter_event_id c = j) (sp_charged_events policy)
      then seq (commit lib repo (touch_policy k now sn)) (\<lambda>_. pure (Ok AlreadyCharged))
      else if sp_available_permits policy = 0
      then seq (append_quarantine_record lib repo sn j obs envelope (ascii ''sender_rate_limited'') now)
        (\<lambda>sn. seq (commit lib repo (touch_policy k now sn)) (\<lambda>_. pure (Ok Quarantined)))
      else seq (pure (ensure_charge_evidence_capacity lib sn k)) (\<lambda>_.
           seq (commit lib repo (charge_policy k j now sn)) (\<lambda>_. pure (Ok Permit)))) w ?Q"
    if "find_or_add_policy repo ?sn s now = Ok (k, sn)" for k sn s
  proof -
    have sn: "evidence i t sn"
      by (rule evidence_tombstones [OF maintained find_or_add_tombstones [OF that]])
    then have "evidence i t (touch_policy k now sn)" "evidence i t (charge_policy k j now sn)"
      by (auto intro: evidence_tombstones)
    then show ?thesis
      using sn ev by (auto simp: Let_def outcome_seq [of "pure _"] outcome_pure
          intro!: commit_evidence(2) limited_evidence split: result.split)
  qed
  have found: "outcome (seq (pure (find_or_add_policy repo ?sn s now)) f) w ?Q"
    if "\<And>k sn. find_or_add_policy repo ?sn s now = Ok (k, sn) \<Longrightarrow> outcome (f (k, sn)) w ?Q" for f s
    using that ev by (cases "find_or_add_policy repo ?sn s now") (auto simp: outcome_seq outcome_pure)
  have known: "outcome (seq (append_quarantine_record lib repo ?sn j obs envelope reason now)
      (\<lambda>sn. seq (commit lib repo sn) (\<lambda>_. pure (Ok Quarantined)))) w ?Q" for reason
    using limited_evidence [OF maintained ev, of id] by simp
  show "outcome (apply_sender_policy lib repo j obs envelope now) w ?Q"
  proof (cases "validate_event_id j")
    case (Ok u)
    show ?thesis
      unfolding apply_sender_policy_def Ok Let_def seq_pure_Ok outcome_seq [of "inspect _"] outcome_inspect
        result.case
      using known by (cases "list_ex (\<lambda>r. qr_adapter_event_id r = j) (sn_records ?sn)")
        (simp, simp only: if_False, rule found, use bucket in \<open>simp add: Let_def\<close>)
  qed (simp_all add: apply_sender_policy_def outcome_seq outcome_pure ev)
qed

lemma quarantine_evidence: "keeps_evidence i t (quarantine lib repo j obs envelope reason now)"
  unfolding keeps_evidence_def quarantine_def outcome_seq [of "inspect _"] outcome_inspect result.case
proof (intro allI impI)
  fix w :: quarantine_world assume ev: "evidence i t (qw_snapshot w)"
  show "outcome (seq (append_quarantine_record lib repo (qw_snapshot w) j obs envelope reason now)
      (commit lib repo)) w (\<lambda>r w'. evidence i t (qw_snapshot w'))"
    by (rule outcome_seqI [OF append_record_evidence])
      (use ev in \<open>auto intro: commit_evidence(1) evidence_tombstones\<close>)
qed

lemma expire_due_evidence:
  assumes "unat now \<le> unat t + unat TOMBSTONE_RETENTION_SECS"
  shows "keeps_evidence i t (expire_due lib repo now)"
proof -
  have kept: "evidence i t (sn\<lparr> sn_tombstones :=
      filter (\<lambda>x. sat_sub now (qt_terminal_at x) \<le> TOMBSTONE_RETENTION_SECS) (sn_tombstones sn) \<rparr>)"
    if ev: "evidence i t sn" for sn :: quarantine_snapshot
  proof -
    from ev obtain x where x: "x \<in> set (sn_tombstones sn)" "qt_adapter_event_id x = i" "t \<le> qt_terminal_at x"
      by (auto simp: evidence_def)
    have "sat_sub now (qt_terminal_at x) \<le> TOMBSTONE_RETENTION_SECS"
      using assms x(3) by (simp add: word_le_nat_alt sat_sub_unat)
    with x show ?thesis by (auto simp: evidence_def)
  qed
  show ?thesis
    unfolding keeps_evidence_def expire_due_def Let_def
    by (auto simp: outcome_simps(2,3,4) outcome_seq [of "inspect _"] outcome_seq [of "modify _"]
        outcome_seq [of "pure _"] kept intro!: commit_evidence(2) intro: evidence_expire_each split: result.split)
qed

lemma mark_consumed_evidence: "keeps_evidence i t (mark_consumed lib repo j now)"
  unfolding keeps_evidence_def mark_consumed_def
  by (auto simp: outcome_simps(2,3,4) outcome_seq [of "inspect _"] outcome_seq [of "pure _"]
      intro!: commit_evidence(1) intro: evidence_append split: result.split)

lemma mark_retry_evidence: "keeps_evidence i t (mark_retry lib repo j now)"
  unfolding keeps_evidence_def mark_retry_def
  by (auto simp: outcome_simps(2,3,4) outcome_seq [of "inspect _"] outcome_seq [of "modify _"]
      split: result.split intro!: outcome_weaken [OF keepsD [OF keeps_persist]] intro: evidence_tombstones)

fun after_call :: "quarantine_lib \<Rightarrow> repository \<Rightarrow> repo_call \<Rightarrow> quarantine_world \<Rightarrow> quarantine_world" where
  "after_call lib repo (ApplyPolicy i obs envelope now) w = snd (apply_sender_policy lib repo i obs envelope now w)"
| "after_call lib repo (QuarantineItem i obs envelope reason now) w =
    snd (quarantine lib repo i obs envelope reason now w)"
| "after_call lib repo (ExpireDue now) w = snd (expire_due lib repo now w)"
| "after_call lib repo (MarkConsumed i now) w = snd (mark_consumed lib repo i now w)"
| "after_call lib repo (MarkRetry i now) w = snd (mark_retry lib repo i now w)"

lemma keeps_evidence_snd: "keeps_evidence i t m \<Longrightarrow> evidence i t (qw_snapshot w) \<Longrightarrow> evidence i t (qw_snapshot (snd (m w)))"
  unfolding keeps_evidence_def outcome_def by (metis (mono_tags, lifting) case_prod_beta)

lemma evidence_run:
  "evidence i t (qw_snapshot w) \<Longrightarrow> \<forall>now. ExpireDue now \<in> set calls \<longrightarrow> unat now \<le> unat t + unat TOMBSTONE_RETENTION_SECS
    \<Longrightarrow> evidence i t (qw_snapshot (fold (after_call lib repo) calls w))"
proof (induction calls arbitrary: w)
  case (Cons c calls)
  have "evidence i t (qw_snapshot (after_call lib repo c w))"
    using Cons.prems
    by (cases c) (auto intro!: keeps_evidence_snd apply_evidence quarantine_evidence expire_due_evidence
        mark_consumed_evidence mark_retry_evidence)
  with Cons show ?case by simp
qed simp

text \<open>In a valid snapshot no identifier has both a record and a tombstone.\<close>

lemma validated_record_ids:
  "validate_records scope ids counts n rs = Ok (ids', n') \<Longrightarrow> ids' = ids \<union> qr_adapter_event_id ` set rs"
  by (induction rs arbitrary: ids counts n) (auto simp: Let_def split: if_splits)

lemma validated_tombstone_ids:
  "validate_tombstones scope ids ts = Ok () \<Longrightarrow> x \<in> set ts \<Longrightarrow> qt_adapter_event_id x \<notin> ids"
  by (induction ts arbitrary: ids) (auto split: if_splits)

lemma valid_snapshot_disjoint:
  assumes "validate_snapshot lib sn scope = Ok ()" and "r \<in> set (sn_records sn)" and "x \<in> set (sn_tombstones sn)"
  shows "qr_adapter_event_id r \<noteq> qt_adapter_event_id x"
proof -
  from assms(1) obtain ids n where "validate_records scope {} (\<lambda>_. 0) 0 (sn_records sn) = Ok (ids, n)"
    "validate_tombstones scope ids (sn_tombstones sn) = Ok ()"
    by (auto simp: validate_snapshot_def split: if_splits)
  with validated_record_ids [OF this(1)] validated_tombstone_ids [OF this(2) assms(3)] assms(2)
  show ?thesis by (metis Un_iff image_eqI)
qed

lemma mark_consumed_outcome:
  assumes "validate_snapshot lib (qw_snapshot w) (rp_scope repo) = Ok ()"
  shows "outcome (mark_consumed lib repo i now) w (\<lambda>r w'. r = Ok () \<longrightarrow> evidence i now (qw_snapshot w')
    \<and> i \<notin> qr_adapter_event_id ` set (sn_records (qw_snapshot w')))"
proof -
  have made: "evidence i now sn"
    if "find (\<lambda>r. qr_adapter_event_id r = i) (sn_records (qw_snapshot w)) = Some r"
      "append_tombstone lib (qw_snapshot w) r reason now = Ok sn" for r sn reason
  proof -
    from that(1) have r: "r \<in> set (sn_records (qw_snapshot w))" "qr_adapter_event_id r = i"
      by (auto simp: find_Some_iff)
    with that(2) valid_snapshot_disjoint [OF assms] show ?thesis
      by (fastforce simp: append_tombstone_def list_ex_iff Let_def evidence_def tombstone_of_def split: if_splits)
  qed
  show ?thesis
    unfolding mark_consumed_def
    by (auto simp: outcome_simps(2,3,4) outcome_seq [of "inspect _"] outcome_seq [of "pure _"]
        remove_record_def split: result.split intro!: outcome_weaken [OF commit_outcome]
        intro: evidence_tombstones [OF made])
qed

text \<open>C26: An item that was consumed leaves the quarantine and is known as finished for thirty days, whatever
  calls follow and however they fail.\<close>

theorem consumed_item_stays_finished:
  assumes "validate_snapshot lib (qw_snapshot w) (rp_scope repo) = Ok ()"
    and "mark_consumed lib repo i t w = (Ok (), w')"
    and "\<forall>now. ExpireDue now \<in> set calls \<longrightarrow> unat now \<le> unat t + 30 * 24 * 60 * 60"
  shows "i \<notin> qr_adapter_event_id ` set (sn_records (qw_snapshot w'))
    \<and> has_terminal_evidence (qw_snapshot (fold (after_call lib repo) calls w')) i"
proof -
  have "evidence i t (qw_snapshot (fold (after_call lib repo) calls w'))"
    using outcomeD [OF mark_consumed_outcome [OF assms(1)] assms(2)] assms(3)
    by (intro evidence_run) (auto simp: TOMBSTONE_RETENTION_SECS_def)
  then show ?thesis
    using outcomeD [OF mark_consumed_outcome [OF assms(1)] assms(2)]
    by (auto simp: evidence_def has_terminal_evidence_def list_ex_iff)
qed

theorem consumed_item_stays_finished_witness:
  "\<exists>w w'. mark_consumed sample_quarantine sample_repository (ascii ''e1'') 2000 w = (Ok (), w')
    \<and> has_terminal_evidence (qw_snapshot (fold (after_call sample_quarantine sample_repository)
        [ExpireDue 300000, ApplyPolicy (ascii ''e1'') [] sample_delivery 300001, ExpireDue 2594000] w'))
        (ascii ''e1'')"
proof -
  let ?sn = "empty_snapshot sample_scope\<lparr> sn_records := [sample_record []] \<rparr>"
  let ?w = "sample_world\<lparr> qw_snapshot := ?sn \<rparr>"
  let ?finished = "empty_snapshot sample_scope\<lparr> sn_tombstones := [tombstone_of (sample_record []) (ascii ''consumed'') 2000] \<rparr>"
  have valid: "validate_snapshot sample_quarantine (qw_snapshot ?w) (rp_scope sample_repository) = Ok ()"
    using sample_record_valid [of "[]"] by (simp add: sample_repository_def)
  have "validate_snapshot sample_quarantine ?finished sample_scope = Ok ()"
    by (simp add: validate_snapshot_def empty_snapshot_def sample_quarantine_def serialized_def sample_record_def
      new_record_def tombstone_of_def SCHEMA_VERSION_def validate_event_id_def ascii_def event_id_byte_def
      MAX_EVENT_ID_LEN_def validate_encoded MAX_TOMBSTONES_def)
  then obtain w' where w': "commit sample_quarantine sample_repository ?finished ?w = (Ok (), w')"
    by (rule sample_commit [where w = ?w]) (auto simp: sample_world_def)
  have app: "append_tombstone sample_quarantine ?sn (sample_record []) (ascii ''consumed'') 2000
      = Ok (?sn\<lparr> sn_tombstones := [tombstone_of (sample_record []) (ascii ''consumed'') 2000] \<rparr>)"
    by (simp add: append_tombstone_def empty_snapshot_def MAX_TOMBSTONES_def MAX_TOMBSTONE_BYTES_def
        sample_quarantine_def serialized_def)
  have "remove_record (ascii ''e1'') (?sn\<lparr> sn_tombstones := [tombstone_of (sample_record []) (ascii ''consumed'') 2000] \<rparr>)
      = ?finished"
    by (simp add: remove_record_def sample_record_def new_record_def empty_snapshot_def)
  then have run: "mark_consumed sample_quarantine sample_repository (ascii ''e1'') 2000 ?w = (Ok (), w')"
    using w' app
    by (simp add: mark_consumed_def seq_def inspect_def pure_def sample_record_def new_record_def empty_snapshot_def)
  have "\<forall>now. ExpireDue now \<in> set [ExpireDue 300000, ApplyPolicy (ascii ''e1'') [] sample_delivery 300001,
      ExpireDue 2594000] \<longrightarrow> unat now \<le> unat (2000 :: u64) + 30 * 24 * 60 * 60" by simp
  from consumed_item_stays_finished [OF valid run this]
  have "has_terminal_evidence (qw_snapshot (fold (after_call sample_quarantine sample_repository)
        [ExpireDue 300000, ApplyPolicy (ascii ''e1'') [] sample_delivery 300001, ExpireDue 2594000] w'))
        (ascii ''e1'')"
    by (rule conjunct2)
  with run show ?thesis by blast
qed

end
