(* ===== verification/Ingress_Batch.thy ===== *)
theory Ingress_Batch
  imports Ingress_Route Calm Quarantine_Items
begin

text \<open>
  The decisions on a received batch (platform/hivra-ffi/src/invitation\_api.rs with inbound\_quarantine.rs and
  chat\_api.rs): every item gets one decision, in order, and an item that the transport is told to forget as
  quarantined is on disk, whatever fails afterwards.
\<close>

section \<open>Chat storage leaves the quarantine alone\<close>

definition quarantine_view :: "path \<Rightarrow> quarantine_world \<Rightarrow> u8 list option \<times> quarantine_snapshot \<times> path option" where
  "quarantine_view p w = (dk_files (qw_disk w) p, qw_snapshot w, qw_root w)"

abbreviation spares :: "path \<Rightarrow> (quarantine_world, 'e, 'a) action \<Rightarrow> bool" where
  "spares p m \<equiv> \<forall>v. preserves (\<lambda>w. quarantine_view p w = v) m"

lemma fs_spares:
  assumes "\<And>d. outcome m d (\<lambda>r d'. dk_files d' p = dk_files d p)"
  shows "spares p (on_chat_disk message m)"
  using assms
  by (auto simp: preserves_def on_chat_disk_def outcome_with_error outcome_on_disk quarantine_view_def
      elim!: outcome_weaken)

lemma fs_calls_spare:
  "outcome (fs_read q) d (\<lambda>r d'. dk_files d' p = dk_files d p)"
  "outcome (fs_create_dir_all q) d (\<lambda>r d'. dk_files d' p = dk_files d p)"
  "outcome (fs_sync_all q) d (\<lambda>r d'. dk_files d' p = dk_files d p)"
  "q \<noteq> p \<Longrightarrow> outcome (fs_remove_file q) d (\<lambda>r d'. dk_files d' p = dk_files d p)"
  "q \<noteq> p \<Longrightarrow> outcome (fs_create_new q) d (\<lambda>r d'. dk_files d' p = dk_files d p)"
  "q \<noteq> p \<Longrightarrow> outcome (fs_write_all q bs) d (\<lambda>r d'. dk_files d' p = dk_files d p)"
  "q \<noteq> p \<Longrightarrow> q' \<noteq> p \<Longrightarrow> outcome (fs_rename q q') d (\<lambda>r d'. dk_files d' p = dk_files d p)"
  unfolding fs_read_def fs_create_dir_all_def fs_sync_all_def fs_remove_file_def fs_create_new_def fs_write_all_def
    fs_rename_def
  by (auto simp: outcome_fs_call outcome_simps split: prod.split option.split result.split)

lemma chat_spares:
  assumes "last p \<noteq> CHAT_HANDOFF_FILE" and "last p \<noteq> CHAT_HANDOFF_TEMP_FILE"
  shows "preserves (\<lambda>w. quarantine_view p w = v) (persist_chat_handoff cl capsule local seed message)"
proof -
  have names: "xs @ [CHAT_HANDOFF_FILE] \<noteq> p" "xs @ [CHAT_HANDOFF_TEMP_FILE] \<noteq> p" for xs
    using assms by auto
  note disk = fs_spares [OF fs_calls_spare(1), THEN spec] fs_spares [OF fs_calls_spare(2), THEN spec]
    fs_spares [OF fs_calls_spare(3), THEN spec] fs_spares [OF fs_calls_spare(4), THEN spec]
    fs_spares [OF fs_calls_spare(5), THEN spec] fs_spares [OF fs_calls_spare(6), THEN spec]
    fs_spares [OF fs_calls_spare(7), THEN spec]
  have draw: "preserves (\<lambda>w. quarantine_view p w = v) (draw_chat_nonce cl)"
    by (simp add: preserves_def outcome_def draw_chat_nonce_def quarantine_view_def)
  have path: "preserves (\<lambda>w. quarantine_view p w = v) (seq (chat_handoff_path i) f)"
    if "\<And>dir. preserves (\<lambda>w. quarantine_view p w = v) (f (dir @ [CHAT_HANDOFF_FILE]))"
    for i and f :: "path \<Rightarrow> 'a chat_action"
    using that by (auto simp: preserves_def chat_handoff_path_def outcome_simps split: result.split)
  show ?thesis
    unfolding persist_chat_handoff_def load_chat_handoff_def write_chat_handoff_def Let_def
    by (intro preserving path draw disk; simp add: names chat_temp_def)
qed

section \<open>Stored items\<close>

abbreviation record_ids :: "quarantine_snapshot \<Rightarrow> utf8 set" where
  "record_ids sn \<equiv> qr_adapter_event_id ` set (sn_records sn)"

text \<open>In memory and on disk.\<close>

definition kept :: "quarantine_lib \<Rightarrow> repository \<Rightarrow> utf8 \<Rightarrow> quarantine_world \<Rightarrow> bool" where
  "kept ql repo i w \<longleftrightarrow> i \<in> record_ids (qw_snapshot w) \<and> (\<exists>sn. reopened ql repo w = Ok sn \<and> i \<in> record_ids sn)"

definition rooted :: "repository \<Rightarrow> quarantine_world \<Rightarrow> bool" where
  "rooted repo w \<longleftrightarrow> (\<exists>root. qw_root w = Some root
    \<and> rp_snapshot_path repo = scope_dir root (rp_scope repo) @ [SNAPSHOT_FILE])"

lemma kept_memory: "kept ql repo i w \<Longrightarrow> i \<in> record_ids (qw_snapshot w)"
  by (simp add: kept_def)

lemma view_decides:
  assumes "quarantine_view (rp_snapshot_path repo) w' = quarantine_view (rp_snapshot_path repo) w"
    and "rooted repo w"
  shows "rooted repo w' \<and> (kept ql repo i w' \<longleftrightarrow> kept ql repo i w)"
proof -
  obtain root where root: "qw_root w = Some root"
    and path: "rp_snapshot_path repo = scope_dir root (rp_scope repo) @ [SNAPSHOT_FILE]"
    using assms(2) by (auto simp: rooted_def)
  from assms(1) root have same: "qw_root w' = Some root" "qw_snapshot w' = qw_snapshot w"
    "dk_files (qw_disk w') (rp_snapshot_path repo) = dk_files (qw_disk w) (rp_snapshot_path repo)"
    by (simp_all add: quarantine_view_def)
  have "reopened ql repo w' = reopened ql repo w"
    unfolding reopened_eq [OF root path] reopened_eq [OF same(1) path] same(3) ..
  with same root path show ?thesis by (simp add: kept_def rooted_def)
qed

text \<open>What the storage libraries promise: the cipher of the sealed snapshot, the codec.\<close>

definition storage_laws :: "quarantine_lib \<Rightarrow> repository \<Rightarrow> bool" where
  "storage_laws ql repo \<longleftrightarrow> aead_correct (ql_crypto ql)
    \<and> (\<forall>sn bs. ql_put_snapshot ql sn = Some bs \<longrightarrow> ql_get_snapshot ql bs = Some sn)
    \<and> validate_scope (rp_scope repo) = Ok ()"

lemma commit_keeps:
  assumes laws: "storage_laws ql repo" and root: "rooted repo w"
  shows "outcome (commit ql repo sn) w (\<lambda>r w'. rooted repo w' \<and> qw_snapshot w' = sn
    \<and> (\<forall>i \<in> record_ids sn. r = Ok () \<or> kept ql repo i w \<longrightarrow> kept ql repo i w'))"
proof -
  obtain d where root': "qw_root w = Some d"
    and path: "rp_snapshot_path repo = scope_dir d (rp_scope repo) @ [SNAPSHOT_FILE]"
    using root by (auto simp: rooted_def)
  let ?w = "w\<lparr> qw_snapshot := sn \<rparr>"
  obtain r w' where run: "persist ql repo ?w = (r, w')" by (cases "persist ql repo ?w")
  have same: "memory w' = memory ?w" using outcomeD [OF keeps_memoryD [OF keeps_persist] run] .
  then have mem: "qw_root w' = Some d" "qw_snapshot w' = sn" using root' by (simp_all add: memory_def)
  have disk: "reopened ql repo w' = (if r = Ok () then Ok sn else reopened ql repo ?w)"
    using persist_reopened [OF _ _ _ path _ run] laws root' by (simp add: storage_laws_def)
  have before: "reopened ql repo ?w = reopened ql repo w"
    using reopened_eq [OF root' path] reopened_eq [of ?w d, OF _ path] root' by simp
  have "commit ql repo sn w = (r, w')"
    by (simp add: commit_def seq_def modify_def run)
  then show ?thesis
    using mem disk before path by (auto simp: outcome_def rooted_def kept_def split: if_splits)
qed

section \<open>Setting items aside\<close>

text \<open>From \<open>w\<close> to \<open>w'\<close> nothing stored is lost, and \<open>i\<close> is stored if \<open>b\<close>.\<close>

definition settled :: "quarantine_lib \<Rightarrow> repository \<Rightarrow> quarantine_world \<Rightarrow> utf8 \<Rightarrow> bool \<Rightarrow> quarantine_world \<Rightarrow> bool" where
  "settled ql repo w i b w' \<longleftrightarrow> rooted repo w' \<and> (\<forall>j. kept ql repo j w \<longrightarrow> kept ql repo j w') \<and> (b \<longrightarrow> kept ql repo i w')"

abbreviation same_view :: "repository \<Rightarrow> quarantine_world \<Rightarrow> quarantine_world \<Rightarrow> bool" where
  "same_view repo w w' \<equiv> quarantine_view (rp_snapshot_path repo) w' = quarantine_view (rp_snapshot_path repo) w"

lemma settled_same: "rooted repo w \<Longrightarrow> same_view repo w w' \<Longrightarrow> settled ql repo w i False w'"
  using view_decides [of repo w' w ql] by (simp add: settled_def)

lemma commit_settles:
  assumes "storage_laws ql repo" and "rooted repo w" and "same_view repo w w1"
    and "record_ids (qw_snapshot w) \<subseteq> record_ids sn" and "b \<longrightarrow> i \<in> record_ids sn"
  shows "outcome (commit ql repo sn) w1 (\<lambda>r w'. settled ql repo w i (b \<and> r = Ok ()) w')"
proof -
  have w1: "rooted repo w1" "kept ql repo j w1 \<longleftrightarrow> kept ql repo j w" for j
    using view_decides [OF assms(3,2)] by blast+
  have sub: "kept ql repo j w \<Longrightarrow> j \<in> record_ids sn" for j by (rule subsetD [OF assms(4) kept_memory])
  show ?thesis
  proof (rule outcome_weaken [OF commit_keeps [OF assms(1) w1(1)]])
    fix r and w' :: quarantine_world
    assume *: "rooted repo w' \<and> qw_snapshot w' = sn
      \<and> (\<forall>i \<in> record_ids sn. r = Ok () \<or> kept ql repo i w1 \<longrightarrow> kept ql repo i w')"
    have "kept ql repo j w'" if "kept ql repo j w" for j
      using * sub [OF that] that w1(2) [of j] by blast
    moreover have "kept ql repo i w'" if "b \<and> r = Ok ()" using * that assms(5) by blast
    ultimately show "settled ql repo w i (b \<and> r = Ok ()) w'" using * unfolding settled_def by blast
  qed
qed

lemma append_record_ids:
  "outcome (append_quarantine_record lib repo sn i obs envelope reason now) w (\<lambda>r w'. quarantine_view p w' = quarantine_view p w
    \<and> (\<forall>sn'. r = Ok sn' \<longrightarrow> record_ids sn' = insert i (record_ids sn)))"
proof -
  have seal: "outcome (seal_envelope lib repo i envelope) w (\<lambda>r w'. quarantine_view p w' = quarantine_view p w)"
    by (auto simp: seal_envelope_def outcome_seq [of "pure _"] outcome_seq [of "draw_nonce _"] outcome_pure
        outcome_draw quarantine_view_def split: result.split)
  show ?thesis
  proof (cases "position (\<lambda>r. qr_adapter_event_id r = i) (sn_records sn)")
    case None
    then show ?thesis
      unfolding append_quarantine_record_def Let_def outcome_seq [of "pure _"] outcome_pure
      by (auto simp: outcome_pure new_record_def image_iff split: result.split intro!: outcome_seqI [OF seal])
  next
    case (Some n)
    then have n: "n < length (sn_records sn)" "qr_adapter_event_id (sn_records sn ! n) = i"
      by (auto simp: position_Some)
    have "map qr_adapter_event_id ((sn_records sn)[n := (sn_records sn ! n)\<lparr> qr_observed_by := x \<rparr>])
      = map qr_adapter_event_id (sn_records sn)" for x
      by (rule nth_equalityI) (use n in \<open>auto simp: nth_list_update\<close>)
    then have "qr_adapter_event_id ` set ((sn_records sn)[n := (sn_records sn ! n)\<lparr> qr_observed_by := x \<rparr>])
      = qr_adapter_event_id ` set (sn_records sn)" for x
      by (metis list.set_map)
    then show ?thesis
      using n unfolding append_quarantine_record_def Let_def outcome_seq [of "pure _"] outcome_pure
      by (auto simp: Some outcome_pure split: result.split)
  qed
qed

lemma find_policy_ids:
  "find_or_add_policy repo sn sender now = Ok (n, sn') \<Longrightarrow> record_ids sn' = record_ids sn"
  by (auto simp: find_or_add_policy_def make_sender_policy_capacity_def Let_def split: option.splits if_splits)

lemma policy_ids [simp]:
  "sn_records (maintain_sender_policy_state sn now) = sn_records sn"
  "sn_records (touch_policy n now sn) = sn_records sn" "sn_records (charge_policy n i now sn) = sn_records sn"
  by (simp_all add: maintain_sender_policy_state_def touch_policy_def charge_policy_def Let_def)

lemma quarantine_settles:
  assumes "storage_laws ql repo" and "rooted repo w"
  shows "outcome (quarantine ql repo i obs envelope reason now) w (\<lambda>r w'. settled ql repo w i (r = Ok ()) w')"
  unfolding quarantine_def outcome_seq [of "inspect _"] outcome_inspect result.case
proof (rule outcome_seqI [OF append_record_ids [where p = "rp_snapshot_path repo"]])
  fix sn and w1 :: quarantine_world
  assume "same_view repo w w1 \<and> (\<forall>sn'. Ok sn = Ok sn' \<longrightarrow> record_ids sn' = insert i (record_ids (qw_snapshot w)))"
  then show "outcome (commit ql repo sn) w1 (\<lambda>r w'. settled ql repo w i (r = Ok ()) w')"
    using commit_settles [OF assms, of w1 sn True i] by auto
qed (use settled_same [OF assms(2)] in auto)

lemma after_commit:
  assumes "outcome (commit ql repo sn) w1 (\<lambda>r w'. settled ql repo w i (b \<and> r = Ok ()) w')"
    and "b \<longleftrightarrow> d = sender_ingress_decision.Quarantined"
  shows "outcome (seq (commit ql repo sn) (\<lambda>_. pure (Ok d))) w1
    (\<lambda>r w'. settled ql repo w i (r = Ok sender_ingress_decision.Quarantined) w')"
  by (rule outcome_seqI [OF assms(1)]) (use assms(2) in \<open>auto simp: outcome_pure settled_def\<close>)

lemma limited_settles:
  assumes "storage_laws ql repo" and "rooted repo w" and "record_ids sn = record_ids (qw_snapshot w)"
    and "\<And>sn'. record_ids (g sn') = record_ids sn'"
  shows "outcome (seq (append_quarantine_record ql repo sn i obs message reason now) (\<lambda>sn'.
      seq (commit ql repo (g sn')) (\<lambda>_. pure (Ok sender_ingress_decision.Quarantined)))) w
    (\<lambda>r w'. settled ql repo w i (r = Ok sender_ingress_decision.Quarantined) w')"
proof (rule outcome_seqI [OF append_record_ids [where p = "rp_snapshot_path repo"]])
  fix sn' and w1 :: quarantine_world
  assume "same_view repo w w1 \<and> (\<forall>sn''. Ok sn' = Ok sn'' \<longrightarrow> record_ids sn'' = insert i (record_ids sn))"
  then show "outcome (seq (commit ql repo (g sn')) (\<lambda>_. pure (Ok sender_ingress_decision.Quarantined))) w1
    (\<lambda>r w'. settled ql repo w i (r = Ok sender_ingress_decision.Quarantined) w')"
    using assms by (intro after_commit [where b = True] commit_settles [where b = True]) auto
qed (use settled_same [OF assms(2)] in auto)

lemma policy_settles:
  assumes laws: "storage_laws ql repo" and root: "rooted repo w"
  shows "outcome (apply_sender_policy ql repo i obs message now) w
    (\<lambda>r w'. settled ql repo w i (r = Ok sender_ingress_decision.Quarantined) w')"
    (is "outcome _ _ ?Q")
proof -
  have same: "?Q (Err e) w" "?Q Panic w" for e
    using settled_same [OF root refl] by simp_all
  have commits: "outcome (seq (commit ql repo sn) (\<lambda>_. pure (Ok d))) w ?Q"
    if "record_ids sn = record_ids (qw_snapshot w)" "d \<noteq> sender_ingress_decision.Quarantined" for sn d
    using that by (intro after_commit [where b = False] commit_settles [OF laws root refl]) auto
  show ?thesis
    unfolding apply_sender_policy_def Let_def
  proof (intro outcome_checked outcome_inspected outcome_if same)
    show "outcome (seq (append_quarantine_record ql repo (maintain_sender_policy_state (qw_snapshot w) now) i obs message
        (ascii ''sender_rate_limited'') now)
      (\<lambda>sn. seq (commit ql repo sn) (\<lambda>_. pure (Ok sender_ingress_decision.Quarantined)))) w ?Q"
      by (rule limited_settles [OF laws root]) simp_all
  next
    fix p
    assume found: "find_or_add_policy repo (maintain_sender_policy_state (qw_snapshot w) now)
        (encode_hex (bytes (en_from message))) now = Ok p"
    obtain n sn where p: "p = (n, sn)" by (cases p)
    have ids: "record_ids sn = record_ids (qw_snapshot w)" using find_policy_ids found p by simp
    show "outcome (case p of (index, snapshot) \<Rightarrow>
      if list_ex (\<lambda>c. ce_adapter_event_id c = i) (sp_charged_events (sn_sender_policies snapshot ! index))
      then seq (commit ql repo (touch_policy index now snapshot)) (\<lambda>_. pure (Ok AlreadyCharged))
      else if sp_available_permits (sn_sender_policies snapshot ! index) = 0
      then seq (append_quarantine_record ql repo snapshot i obs message (ascii ''sender_rate_limited'') now)
        (\<lambda>snapshot. seq (commit ql repo (touch_policy index now snapshot))
          (\<lambda>_. pure (Ok sender_ingress_decision.Quarantined)))
      else seq (pure (ensure_charge_evidence_capacity ql snapshot index)) (\<lambda>_.
        seq (commit ql repo (charge_policy index i now snapshot)) (\<lambda>_. pure (Ok Permit)))) w ?Q"
      unfolding p prod.case
      by (intro outcome_if outcome_checked same commits limited_settles [OF laws root]) (simp_all add: ids)
  qed
qed

lemma settled_trans:
  "settled ql repo w i b w1 \<Longrightarrow> settled ql repo w1 j c w2 \<Longrightarrow> settled ql repo w i b w2 \<and> (c \<longrightarrow> settled ql repo w j c w2)"
  by (auto simp: settled_def)

section \<open>A batch\<close>

abbreviation ig_store :: "('w, 't) ingress \<Rightarrow> quarantine_world" where
  "ig_store g \<equiv> ho_store (ig_host g)"

lemma store_untouched:
  "preserves (\<lambda>g. P (ig_store g)) (on_runtime m)" "preserves (\<lambda>g. P (ig_store g)) (bump_by c n)"
  "preserves (\<lambda>g. P (ig_store g)) (bump c)" "preserves (\<lambda>g. P (ig_store g)) (leave c d)"
  "preserves (\<lambda>g. P (ig_store g)) (offer_to_queue (attestation_queue message i local))"
  by (auto simp: preserves_def outcome_def on_host_def on_ffi_def bump_def bump_by_def leave_def modify_def seq_def
      offer_to_queue_def attestation_queue_def Let_def split: prod.split inbound_route_result.split)

lemma chat_untouched:
  assumes "last p = SNAPSHOT_FILE"
  shows "preserves (\<lambda>g. quarantine_view p (ig_store g) = v)
    (offer_to_queue (chat_queue cl message i local capsule seed))"
proof -
  have names: "last p \<noteq> CHAT_HANDOFF_FILE" "last p \<noteq> CHAT_HANDOFF_TEMP_FILE"
    unfolding assms by code_simp+
  have "quarantine_view p (snd (queue_incoming_chat_if_match cl message i local capsule seed w)) = quarantine_view p w" for w
  proof -
    have "quarantine_view p (snd (persist_chat_handoff cl capsule local seed m w)) = quarantine_view p w" for m
      by (rule preserves_snd [OF chat_spares [OF names]]) simp
    then show ?thesis
      by (auto simp: queue_incoming_chat_if_match_def split: option.split prod.split result.split) (metis snd_conv)+
  qed
  then show ?thesis
    by (auto simp: preserves_def outcome_def offer_to_queue_def chat_queue_def leave_def bump_def bump_by_def modify_def
        seq_def Let_def split: prod.split inbound_route_result.split) (metis snd_conv)+
qed

lemma route_untouched:
  assumes "last p = SNAPSHOT_FILE"
  shows "preserves (\<lambda>g. quarantine_view p (ig_store g) = v) (route_inbound_envelope H U pf cl i message local seed)"
  unfolding route_inbound_envelope_def route_steps_def route_event_def admit_event_def Let_def
  by (intro chat_untouched [OF assms] store_untouched [where P = "\<lambda>w. quarantine_view p w = v"] preserving)

lemma gives_outcome: "gives E A m \<Longrightarrow> outcome m s (\<lambda>r _. good E A r)"
  by (simp add: gives_def outcome_def split_beta)

lemma route_outcome_store:
  assumes "last p = SNAPSHOT_FILE"
  shows "outcome (route_inbound_envelope H U pf cl i message local seed) g
    (\<lambda>r g'. good (\<lambda>_. False) routed_as r \<and> quarantine_view p (ig_store g') = quarantine_view p (ig_store g))"
proof -
  have "outcome (route_inbound_envelope H U pf cl i message local seed) g (\<lambda>r _. good (\<lambda>_. False) routed_as r)"
    by (rule gives_outcome [OF gives_route])
  moreover have "outcome (route_inbound_envelope H U pf cl i message local seed) g
      (\<lambda>r g'. quarantine_view p (ig_store g') = quarantine_view p (ig_store g))"
    using route_untouched [OF assms, where v = "quarantine_view p (ig_store g)"] unfolding preserves_def by blast
  ultimately show ?thesis by (rule outcome_conj)
qed

lemma outcome_quarantine:
  "outcome m (ig_store g) P \<Longrightarrow> outcome (on_quarantine m) g (\<lambda>r g'. P r (ig_store g'))"
  by (simp add: outcome_def on_host_def on_store_def split: prod.splits)

lemma outcome_bumped:
  "(\<And>g1. ig_store g1 = ig_store g \<Longrightarrow> outcome (f ()) g1 Q) \<Longrightarrow> outcome (seq (bump c) f) g Q"
  by (simp add: outcome_seq bump_def bump_by_def outcome_modify)

lemma decide_message_settles:
  assumes laws: "storage_laws ql repo" and root: "rooted repo (ig_store g)"
  shows "outcome (decide_message H U pf cl ql repo local seed now i obs message) g
    (\<lambda>r g'. settled ql repo (ig_store g) i (r = Ok inbound_delivery_disposition.Quarantined) (ig_store g'))"
    (is "outcome _ _ ?Q")
proof -
  have path: "last (rp_snapshot_path repo) = SNAPSHOT_FILE" using root by (auto simp: rooted_def)
  have weak: "settled ql repo w i b w' \<Longrightarrow> settled ql repo w i False w'" for w b w' by (simp add: settled_def)
  show ?thesis
    unfolding decide_message_def
  proof (rule outcome_attemptI [OF outcome_quarantine [OF policy_settles [OF laws root]]])
    fix decision and g1 :: "('a, 'b) ingress"
    assume pol: "settled ql repo (ig_store g) i
      (Ok decision = (Ok sender_ingress_decision.Quarantined :: (quarantine_error, _) result)) (ig_store g1)"
    show "outcome (if decision = sender_ingress_decision.Quarantined
        then seq (bump QuarantinedItems) (\<lambda>_. seq (bump SenderPolicyThrottled)
          (\<lambda>_. pure (Ok inbound_delivery_disposition.Quarantined)))
        else seq (bump (if decision = Permit then SenderPolicyPermitted else SenderPolicyReplayed)) (\<lambda>_.
          seq (route_inbound_envelope H U pf cl i message local seed) (\<lambda>disposition.
          if disposition = Retry
          then attempt (on_quarantine (quarantine ql repo i obs message (ascii ''canonical_route_retry'') now))
            (\<lambda>_. seq (bump QuarantinedItems) (\<lambda>_. pure (Ok inbound_delivery_disposition.Quarantined)))
            (\<lambda>_. seq (bump QuarantineFailed) (\<lambda>_. pure (Ok Retry)))
          else pure (Ok disposition)))) g1 ?Q"
    proof (intro outcome_if outcome_bumped)
      fix g2 g3 :: "('a, 'b) ingress"
      assume "decision = sender_ingress_decision.Quarantined" "ig_store g2 = ig_store g1" "ig_store g3 = ig_store g2"
      then show "outcome (pure (Ok inbound_delivery_disposition.Quarantined)) g3 ?Q" using pol by (simp add: outcome_pure)
    next
      fix g2 :: "('a, 'b) ingress"
      assume "ig_store g2 = ig_store g1"
      with pol have s2: "settled ql repo (ig_store g) i False (ig_store g2)" using weak by metis
      have root2: "rooted repo (ig_store g2)" using s2 by (simp add: settled_def)
      show "outcome (seq (route_inbound_envelope H U pf cl i message local seed) (\<lambda>disposition.
          if disposition = Retry
          then attempt (on_quarantine (quarantine ql repo i obs message (ascii ''canonical_route_retry'') now))
            (\<lambda>_. seq (bump QuarantinedItems) (\<lambda>_. pure (Ok inbound_delivery_disposition.Quarantined)))
            (\<lambda>_. seq (bump QuarantineFailed) (\<lambda>_. pure (Ok Retry)))
          else pure (Ok disposition))) g2 ?Q"
      proof (rule outcome_seqI [OF route_outcome_store [OF path]])
        fix d and g3 :: "('a, 'b) ingress"
        assume r3: "good (\<lambda>_ :: 'c. False) routed_as (Ok d) \<and> same_view repo (ig_store g2) (ig_store g3)"
        have s3: "settled ql repo (ig_store g) i False (ig_store g3)" "rooted repo (ig_store g3)"
          using settled_trans [OF s2 settled_same [OF root2]] r3 settled_same [OF root2, of _ ql i] by (auto simp: settled_def)
        have carry: "settled ql repo (ig_store g3) i b w' \<Longrightarrow> settled ql repo (ig_store g) i b w'" for b w'
          using s3 by (simp add: settled_def)
        show "outcome (if d = Retry
          then attempt (on_quarantine (quarantine ql repo i obs message (ascii ''canonical_route_retry'') now))
            (\<lambda>_. seq (bump QuarantinedItems) (\<lambda>_. pure (Ok inbound_delivery_disposition.Quarantined)))
            (\<lambda>_. seq (bump QuarantineFailed) (\<lambda>_. pure (Ok Retry)))
          else pure (Ok d)) g3 ?Q"
        proof (intro outcome_if outcome_attemptI [OF outcome_quarantine [OF quarantine_settles [OF laws s3(2)]]]
            outcome_bumped)
          assume "d \<noteq> Retry"
          with r3 s3 show "outcome (pure (Ok d)) g3 ?Q" by (auto simp: outcome_pure)
        qed (simp_all add: outcome_pure carry)
      qed auto
    qed
  qed (use weak in \<open>auto intro!: outcome_bumped outcome_value simp: outcome_pure\<close>)
qed

text \<open>The whole batch: nothing stored is lost, and what is resolved as quarantined is stored.\<close>

definition batch_settled ::
  "quarantine_lib \<Rightarrow> repository \<Rightarrow> quarantine_world \<Rightarrow> inbound_delivery_resolution list \<Rightarrow> quarantine_world \<Rightarrow> bool" where
  "batch_settled ql repo w rs w' \<longleftrightarrow> rooted repo w' \<and> (\<forall>j. kept ql repo j w \<longrightarrow> kept ql repo j w')
    \<and> (\<forall>r \<in> set rs. dr_disposition r = inbound_delivery_disposition.Quarantined \<longrightarrow>
        kept ql repo (ascii (dr_event_id r)) w')"

lemma decide_item_settles:
  assumes laws: "storage_laws ql repo" and root: "rooted repo (ig_store g)"
  shows "outcome (decide_item H U pf cl ql repo local seed now item) g
    (\<lambda>r g'. batch_settled ql repo (ig_store g) (case r of Ok x \<Rightarrow> [x] | _ \<Rightarrow> []) (ig_store g'))"
proof -
  let ?i = "ascii (di_event_id item)"
  have same: "settled ql repo (ig_store g) ?i False (ig_store g)" by (rule settled_same [OF root refl])
  have "outcome (case di_payload item of
      Envelope message \<Rightarrow> seq (inspect (\<lambda>g. Ok (has_terminal_evidence (qw_snapshot (ig_store g)) ?i))) (\<lambda>known.
        if known then seq (bump QuarantineTerminalReplay) (\<lambda>_. pure (Ok Consumed))
        else decide_message H U pf cl ql repo local seed now ?i (map ascii (di_observed_by item)) message)
    | AdapterRejectedPayload reason \<Rightarrow> seq (bump AdapterRejections) (\<lambda>_. pure (Ok AdapterRejected))) g
    (\<lambda>r g'. settled ql repo (ig_store g) ?i (r = Ok inbound_delivery_disposition.Quarantined) (ig_store g'))"
    by (cases "di_payload item")
      (use same in \<open>auto intro!: outcome_inspected outcome_if outcome_bumped outcome_value decide_message_settles laws root\<close>)
  then show ?thesis
    unfolding decide_item_def Let_def
    by (rule outcome_seqI) (auto simp: outcome_pure settled_def batch_settled_def)
qed

lemma decide_items_settle:
  assumes laws: "storage_laws ql repo" and "rooted repo (ig_store g)"
  shows "outcome (decide_items H U pf cl ql repo local seed now items) g
    (\<lambda>r g'. batch_settled ql repo (ig_store g) (case r of Ok rs \<Rightarrow> rs | _ \<Rightarrow> []) (ig_store g'))"
  using assms(2)
proof (induction items arbitrary: g)
  case (Cons item items)
  show ?case
    unfolding decide_items.simps
  proof (rule outcome_seqI [OF decide_item_settles [OF laws Cons.prems]], goal_cases)
    case (1 r g1)
    then have "rooted repo (ig_store g1)" by (simp add: batch_settled_def)
    from Cons.IH [OF this] show ?case
      by (rule outcome_seqI) (use 1 in \<open>auto simp: outcome_pure batch_settled_def\<close>)
  qed (auto simp: batch_settled_def)
qed (simp add: outcome_pure batch_settled_def)

text \<open>C14: What is reported as quarantined is stored: for every item of a batch that is resolved as quarantined,
  the snapshot in memory and the one a restart reads back from the disk hold a record under its identifier when
  the batch has been decided, whatever the rest of the batch does and whichever calls of the file system fail;
  and what both snapshots held before they still hold.\<close>

theorem quarantined_items_are_stored:
  assumes "aead_correct (ql_crypto ql)"
    and "\<And>sn bs. ql_put_snapshot ql sn = Some bs \<Longrightarrow> ql_get_snapshot ql bs = Some sn"
    and "validate_scope (rp_scope repo) = Ok ()" and "qw_root (ho_store (ig_host g)) = Some root"
    and "rp_snapshot_path repo = scope_dir root (rp_scope repo) @ [SNAPSHOT_FILE]"
    and "decide_items H U pf cl ql repo local seed now items g = (Ok resolutions, g')"
  shows "(\<forall>i. kept ql repo i (ho_store (ig_host g)) \<longrightarrow> kept ql repo i (ho_store (ig_host g')))
    \<and> (\<forall>r \<in> set resolutions. dr_disposition r = inbound_delivery_disposition.Quarantined \<longrightarrow>
        kept ql repo (ascii (dr_event_id r)) (ho_store (ig_host g')))"
proof -
  have "storage_laws ql repo" "rooted repo (ig_store g)"
    using assms(1-5) by (auto simp: storage_laws_def rooted_def)
  from outcomeD [OF decide_items_settle [OF this] assms(6)] show ?thesis by (simp add: batch_settled_def)
qed

definition sample_stored :: quarantine_snapshot where
  "sample_stored = empty_snapshot sample_scope\<lparr> sn_records := [sample_record []] \<rparr>"

definition sample_codec :: quarantine_lib where
  "sample_codec = sample_quarantine
    \<lparr> ql_put_snapshot := (\<lambda>sn. if sn = sample_stored then Some [1] else None),
      ql_get_snapshot := (\<lambda>bs. if bs = [1] then Some sample_stored else None) \<rparr>"

definition sample_receiver :: "(unit, unit) ingress" where
  "sample_receiver =
    \<lparr> ig_host = sample_host\<lparr> ho_store := sample_world\<lparr> qw_snapshot := sample_stored \<rparr> \<rparr>, ig_counters = (\<lambda>_. 0) \<rparr>"

lemma sample_codec_facts:
  "ql_crypto sample_codec = sample_crypto" "ql_nonce sample_codec = ql_nonce sample_quarantine"
  "ql_put_snapshot sample_codec sample_stored = Some [1]"
  "ql_put_snapshot sample_codec sn = Some bs \<Longrightarrow> ql_get_snapshot sample_codec bs = Some sn"
  "validate_snapshot sample_codec sample_stored sample_scope = Ok ()"
proof -
  have puts: "ql_put_tombstones sample_codec = ql_put_tombstones sample_quarantine"
    "ql_put_policies sample_codec = ql_put_policies sample_quarantine"
    by (simp_all add: sample_codec_def sample_quarantine_def)
  have "validate_snapshot sample_codec sn scope = validate_snapshot sample_quarantine sn scope" for sn scope
    unfolding validate_snapshot_def puts ..
  then show "validate_snapshot sample_codec sample_stored sample_scope = Ok ()"
    using sample_record_valid [of "[]"] by (simp add: sample_stored_def)
qed (simp_all add: sample_codec_def sample_quarantine_def split: if_splits)

lemma sample_throttled:
  obtains w where "apply_sender_policy sample_codec sample_repository (ascii ''e1'') [] sample_delivery 1001
    (ig_store sample_receiver) = (Ok sender_ingress_decision.Quarantined, w)"
proof -
  have start: "qw_snapshot (ig_store sample_receiver) = sample_stored" "qw_disk (ig_store sample_receiver) = qw_disk sample_world"
    by (simp_all add: sample_receiver_def sample_host_def)
  obtain w where w: "commit sample_codec sample_repository sample_stored (ig_store sample_receiver) = (Ok (), w)"
    by (rule sample_lib_commit [of sample_codec sample_stored "ig_store sample_receiver"])
      (simp_all add: sample_codec_facts start)
  have "apply_sender_policy sample_codec sample_repository (ascii ''e1'') [] sample_delivery 1001
      (ig_store sample_receiver) = (Ok sender_ingress_decision.Quarantined, w)"
    using w
    by (simp add: apply_sender_policy_def append_quarantine_record_def seq_def inspect_def pure_def start sample_stored_def
        maintain_sender_policy_state_def empty_snapshot_def sample_record_def new_record_def merge_observations_def
        validate_event_id_def ascii_def event_id_byte_def MAX_EVENT_ID_LEN_def Let_def sample_delivery_def)
  then show thesis by (rule that)
qed

theorem quarantined_items_are_stored_witness:
  "\<exists>g'. decide_items length_hash 8 sample_platform sample_chat sample_codec sample_repository (bfill 2) (KeySeed (bfill 9))
      1001 [\<lparr> di_event_id = ''e1'', di_observed_by = [], di_payload = Envelope sample_delivery \<rparr>] sample_receiver
      = (Ok [\<lparr> dr_event_id = ''e1'', dr_disposition = inbound_delivery_disposition.Quarantined \<rparr>]
          :: (code, inbound_delivery_resolution list) result, g' :: (unit, unit) ingress)
    \<and> kept sample_codec sample_repository (ascii ''e1'') (ho_store (ig_host g'))"
proof -
  obtain w where w: "apply_sender_policy sample_codec sample_repository (ascii ''e1'') [] sample_delivery 1001
    (ig_store sample_receiver) = (Ok sender_ingress_decision.Quarantined, w)" by (rule sample_throttled)
  have new: "\<not> has_terminal_evidence (qw_snapshot (ig_store sample_receiver)) (ascii ''e1'')"
    by (simp add: sample_receiver_def sample_host_def sample_stored_def has_terminal_evidence_def empty_snapshot_def)
  obtain g' :: "(unit, unit) ingress" where run: "decide_items length_hash 8 sample_platform sample_chat sample_codec
      sample_repository (bfill 2) (KeySeed (bfill 9)) 1001
      [\<lparr> di_event_id = ''e1'', di_observed_by = [], di_payload = Envelope sample_delivery \<rparr>] sample_receiver
    = (Ok [\<lparr> dr_event_id = ''e1'', dr_disposition = inbound_delivery_disposition.Quarantined \<rparr>] :: (code, _) result, g')"
    using w new
    by (simp add: decide_item_def decide_message_def seq_def inspect_def attempt_def on_host_def on_store_def pure_def
        bump_def bump_by_def modify_def Let_def)
  have "kept sample_codec sample_repository (ascii ''e1'') (ho_store (ig_host g'))"
    using quarantined_items_are_stored [OF _ _ _ _ _ run, where root = "[]"]
    by (simp add: sample_codec_facts sample_crypto_ideal sample_repository_def sample_scope_valid sample_receiver_def
        sample_host_def sample_world_def)
  with run show ?thesis by blast
qed

end
