(* ===== verification/Retry_Queue.thy ===== *)
theory Retry_Queue
  imports Delivery_Gate "HOL-Library.Multiset"
begin

text \<open>
  The retry queues of platform/hivra-ffi/src/invitation\_support.rs are hash maps filled by a scan of the
  history: an event puts an entry under a key or clears one. The locale \<open>retry_queue\<close> is that
  discipline; it is interpreted for the queue of offers, for the queue of breaks and for the map of
  establishments the latter consults.
\<close>

section \<open>A map filled by a scan\<close>

locale retry_queue =
  fixes queue :: "'e list \<Rightarrow> ('k \<times> 'v) list"
    and put :: "'e list \<Rightarrow> 'e \<Rightarrow> ('k \<times> 'v) option"
    and clear :: "'e list \<Rightarrow> 'e \<Rightarrow> 'k option"
  assumes queue_Nil: "queue [] = []"
    and queue_snoc: "queue (es @ [e]) =
      (case put es e of
         Some (k, v) \<Rightarrow> AList.update k v (queue es)
       | None \<Rightarrow> (case clear es e of Some k \<Rightarrow> AList.delete k (queue es) | None \<Rightarrow> queue es))"
begin

definition touches :: "'k \<Rightarrow> 'e list \<Rightarrow> 'e \<Rightarrow> bool" where
  "touches k es e \<longleftrightarrow> (\<exists>v. put es e = Some (k, v)) \<or> put es e = None \<and> clear es e = Some k"

lemma distinct_keys: "distinct (map fst (queue es))"
  by (induction es rule: rev_induct)
    (auto simp: queue_Nil queue_snoc distinct_update distinct_delete split: option.split)

lemma lookup_snoc:
  "map_of (queue (es @ [e])) k =
    (case put es e of
       Some (k', v) \<Rightarrow> if k' = k then Some v else map_of (queue es) k
     | None \<Rightarrow> if clear es e = Some k then None else map_of (queue es) k)"
  by (auto simp: queue_snoc update_conv' delete_conv' split: option.split)

text \<open>An entry stands when an event put it and no later event touched its key.\<close>

lemma lookup_iff:
  "map_of (queue es) k = Some v \<longleftrightarrow>
    (\<exists>xs e ys. es = xs @ e # ys \<and> put xs e = Some (k, v)
      \<and> (\<forall>us f vs. ys = us @ f # vs \<longrightarrow> \<not> touches k (xs @ e # us) f))"
    (is "_ = ?stands es")
proof (induction es rule: rev_induct)
  case (snoc f es)
  have "?stands (es @ [f]) \<longleftrightarrow> put es f = Some (k, v) \<or> ?stands es \<and> \<not> touches k es f"
  proof
    assume "?stands (es @ [f])"
    then obtain xs e ys where eq: "es @ [f] = xs @ e # ys" and e: "put xs e = Some (k, v)"
      and later: "\<forall>us g vs. ys = us @ g # vs \<longrightarrow> \<not> touches k (xs @ e # us) g"
      by blast
    show "put es f = Some (k, v) \<or> ?stands es \<and> \<not> touches k es f"
    proof (cases ys rule: rev_cases)
      case (snoc zs g)
      then have es: "es = xs @ e # zs" "g = f" using eq by simp_all
      have "\<not> touches k (xs @ e # us) h" if "zs = us @ h # vs" for us h vs
        using later [rule_format, of us h "vs @ [g]"] that snoc by simp
      moreover have "\<not> touches k es f"
        using later [rule_format, of zs g "[]"] snoc es by simp
      ultimately show ?thesis using es e by blast
    qed (use eq e in simp)
  next
    assume "put es f = Some (k, v) \<or> ?stands es \<and> \<not> touches k es f"
    then show "?stands (es @ [f])"
    proof
      assume "?stands es \<and> \<not> touches k es f"
      then obtain xs e ys where es: "es = xs @ e # ys" and e: "put xs e = Some (k, v)"
        and later: "\<forall>us g vs. ys = us @ g # vs \<longrightarrow> \<not> touches k (xs @ e # us) g"
        and f: "\<not> touches k es f" by blast
      have "\<not> touches k (xs @ e # us) g" if "ys @ [f] = us @ g # vs" for us g vs
        using that later f es by (cases vs rule: rev_cases) auto
      then show ?thesis using es e
        by (intro exI [of _ xs] exI [of _ e] exI [of _ "ys @ [f]"]) simp
    qed blast
  qed
  moreover have "map_of (queue (es @ [f])) k = Some v \<longleftrightarrow>
      put es f = Some (k, v) \<or> map_of (queue es) k = Some v \<and> \<not> touches k es f"
    by (auto simp: lookup_snoc touches_def split: option.split)
  ultimately show ?case using snoc.IH by simp
qed (simp add: queue_Nil)

lemma values_iff: "v \<in> set (map snd (queue es)) \<longleftrightarrow> (\<exists>k. map_of (queue es) k = Some v)"
  using distinct_keys [of es] by (auto simp: image_iff) (metis map_of_SomeD snd_conv)

end

text \<open>Sorting hides the order in which a hash map yields its values, when the sort keys differ.\<close>

lemma sort_key_any_order:
  assumes "inj_on f (set xs)" and "mset ys = mset xs"
  shows "sort_key f ys = sort_key f xs"
proof (rule sort_key_inj_key_eq)
  show "inj_on f (set ys)" using assms by (metis set_mset_mset)
qed (use assms in simp_all)

end
