(* ===== verification/Delivery_Queues.thy ===== *)
theory Delivery_Queues
  imports Retry_Queue
begin

text \<open>
  What the retry queues hold (platform/hivra-ffi/src/invitation\_support.rs): the offers of the owner
  that nobody answered, and the breaks of the owner that neither the peer acknowledged nor a new
  establishment superseded, in an order that does not depend on the hash tables.
\<close>

section \<open>Offers\<close>

definition offer_delivery :: "event \<Rightarrow> invitation_sent_payload \<Rightarrow> invitation_delivery" where
  "offer_delivery e p =
    \<lparr> sd_to_pubkey = pub_key_as_bytes (sent_to_pubkey p), sd_payload = ev_payload e,
      sd_timestamp = event_ts e, sd_invitation_id = sent_invitation_id p \<rparr>"

definition sent_offer :: "pub_key \<Rightarrow> event \<Rightarrow> invitation_sent_payload option" where
  "sent_offer own e =
    (if ev_kind e = InvitationSent \<and> ev_signer e = own
     then ok (invitation_sent_from_bytes (ev_payload e)) else None)"

definition offer_put :: "pub_key \<Rightarrow> event list \<Rightarrow> event \<Rightarrow> (b32 \<times> invitation_delivery) option" where
  "offer_put own xs e = map_option (\<lambda>p. (sent_invitation_id p, offer_delivery e p)) (sent_offer own e)"

definition offer_clear :: "event list \<Rightarrow> event \<Rightarrow> b32 option" where
  "offer_clear xs e = invitation_id_from_terminal_payload (ev_kind e) (ev_payload e)"

interpretation offers: retry_queue "foldl (offer_queue_step own) []" "offer_put own" offer_clear for own
  by unfold_locales
    (auto simp: offer_queue_step_def offer_put_def sent_offer_def offer_clear_def offer_delivery_def
      invitation_id_from_terminal_payload_def split: option.split event_kind.split)

text \<open>An event that supersedes or answers the offer \<open>i\<close>.\<close>

definition settles_offer :: "pub_key \<Rightarrow> b32 \<Rightarrow> event \<Rightarrow> bool" where
  "settles_offer own i e \<longleftrightarrow> answers_invitation i (ev_kind e) (ev_payload e)
    \<or> (\<exists>p. sent_offer own e = Some p \<and> sent_invitation_id p = i)"

lemma offers_touches: "offers.touches own i xs e \<longleftrightarrow> settles_offer own i e"
proof -
  have "sent_offer own e = Some p \<Longrightarrow> \<not> answers_invitation i (ev_kind e) (ev_payload e)" for p
    by (simp add: sent_offer_def answers_invitation_def split: if_splits)
  then show ?thesis
    by (auto simp: offers.touches_def offer_put_def offer_clear_def terminal_id_iff settles_offer_def)
qed

lemma later_events_iff: "(\<forall>us f vs. ys = us @ f # vs \<longrightarrow> P f) \<longleftrightarrow> list_all P ys"
  by (auto simp: list_all_iff) (metis split_list)

definition open_offer :: "pub_key \<Rightarrow> event list \<Rightarrow> invitation_delivery \<Rightarrow> bool" where
  "open_offer own es d \<longleftrightarrow>
    (\<exists>xs e ys p. es = xs @ e # ys \<and> sent_offer own e = Some p \<and> d = offer_delivery e p
      \<and> list_all (\<lambda>f. \<not> settles_offer own (sent_invitation_id p) f) ys)"

lemma offer_delivery_id [simp]: "sd_invitation_id (offer_delivery e p) = sent_invitation_id p"
  by (simp add: offer_delivery_def)

lemma offer_put_iff:
  "offer_put own xs e = Some (i, d) \<longleftrightarrow>
    (\<exists>p. sent_offer own e = Some p \<and> d = offer_delivery e p \<and> i = sent_invitation_id p)"
  by (auto simp: offer_put_def)

lemma offers_lookup:
  "map_of (foldl (offer_queue_step own) [] es) i = Some d \<longleftrightarrow> open_offer own es d \<and> sd_invitation_id d = i"
proof -
  have "map_of (foldl (offer_queue_step own) [] es) i = Some d \<longleftrightarrow>
    (\<exists>xs e ys. es = xs @ e # ys
      \<and> (\<exists>p. sent_offer own e = Some p \<and> d = offer_delivery e p \<and> i = sent_invitation_id p)
      \<and> list_all (\<lambda>f. \<not> settles_offer own i f) ys)"
    unfolding offers.lookup_iff offers_touches later_events_iff offer_put_iff ..
  moreover have "\<dots> \<longleftrightarrow> open_offer own es d \<and> sd_invitation_id d = i"
    unfolding open_offer_def by (metis offer_delivery_id)
  ultimately show ?thesis by simp
qed

lemma offers_values:
  "d \<in> set (map snd (foldl (offer_queue_step own) [] es)) \<longleftrightarrow>
    map_of (foldl (offer_queue_step own) [] es) (sd_invitation_id d) = Some d"
  unfolding offers.values_iff offers_lookup by simp

lemma offers_inj:
  "inj_on offer_delivery_order (set (map snd (foldl (offer_queue_step own) [] es)))"
proof (rule inj_onI)
  fix d d' assume d: "d \<in> set (map snd (foldl (offer_queue_step own) [] es))"
    "d' \<in> set (map snd (foldl (offer_queue_step own) [] es))"
    and "offer_delivery_order d = offer_delivery_order d'"
  then have "sd_invitation_id d = sd_invitation_id d'" by (simp add: offer_delivery_order_def)
  with d show "d = d'" unfolding offers_values by (metis option.inject)
qed

text \<open>C21: The offer retry queue holds exactly the offers of the owner that no later event answers or
  sends again, ordered by time, recipient and identifier; the order of the hash table does not show.\<close>

theorem offer_queue_correct:
  "case fs_capsule s of
     None \<Rightarrow> pending_outgoing_invitation_deliveries_in_runtime s = []
   | Some c \<Rightarrow>
       set (pending_outgoing_invitation_deliveries_in_runtime s)
         = {d. open_offer (ca_pubkey c) (l_events (ca_ledger c)) d}
       \<and> sorted (map offer_delivery_order (pending_outgoing_invitation_deliveries_in_runtime s))
       \<and> inj_on offer_delivery_order (set (pending_outgoing_invitation_deliveries_in_runtime s))"
proof (cases "fs_capsule s")
  case (Some c)
  let ?q = "foldl (offer_queue_step (ca_pubkey c)) [] (l_events (ca_ledger c))"
  have p: "pending_outgoing_invitation_deliveries_in_runtime s = sort_key offer_delivery_order (map snd ?q)"
    by (simp add: pending_outgoing_invitation_deliveries_in_runtime_def Some)
  have "set (map snd ?q) = {d. open_offer (ca_pubkey c) (l_events (ca_ledger c)) d}"
    by (intro set_eqI) (simp only: offers_values offers_lookup mem_Collect_eq simp_thms)
  moreover have "inj_on offer_delivery_order (set (map snd ?q))"
    by (rule offers_inj)
  ultimately show ?thesis unfolding Some p by (simp del: set_map)
qed (simp add: pending_outgoing_invitation_deliveries_in_runtime_def)

section \<open>Breaks\<close>

definition established_of :: "event \<Rightarrow> relationship_established_payload option" where
  "established_of e =
    (if ev_kind e = RelationshipEstablished then ok (relationship_established_from_bytes (ev_payload e))
     else None)"

definition broken_of :: "event \<Rightarrow> relationship_broken_payload option" where
  "broken_of e =
    (if ev_kind e = RelationshipBroken then ok (relationship_broken_from_bytes (ev_payload e)) else None)"

lemma establishes_iff: "establishes key e \<longleftrightarrow> (\<exists>p. established_of e = Some p \<and> established_key p = key)"
  by (auto simp: establishes_def established_of_def relationship_key_from_established_payload_def
      established_key_def)

lemma breaks_iff: "breaks key e \<longleftrightarrow> (\<exists>p. broken_of e = Some p \<and> break_key p = key)"
  by (auto simp: breaks_def broken_of_def relationship_key_from_broken_payload_def break_key_def)

lemma established_not_broken: "established_of e = Some p \<Longrightarrow> broken_of e = None"
  by (simp add: established_of_def broken_of_def split: if_splits)

text \<open>The starter of the peer in the latest establishment of a key.\<close>

definition peer_starter :: "relationship_key \<Rightarrow> event list \<Rightarrow> starter_id option" where
  "peer_starter key xs = find_map (\<lambda>e. case established_of e of
      Some p \<Rightarrow> if established_key p = key then Some (est_peer_starter_id p) else None | None \<Rightarrow> None)
    (rev xs)"

lemma peer_starter_snoc [simp]:
  "peer_starter key (xs @ [e]) = (case established_of e of
      Some p \<Rightarrow> if established_key p = key then Some (est_peer_starter_id p) else peer_starter key xs
    | None \<Rightarrow> peer_starter key xs)"
  by (simp add: peer_starter_def split: option.split)

lemma peer_starter_kept: "peer_starter key xs \<noteq> None \<Longrightarrow> peer_starter key (xs @ ys) \<noteq> None"
  by (induction ys rule: rev_induct) (auto simp flip: append_assoc split: option.split)

definition break_delivery ::
  "(u8 list \<Rightarrow> b32) \<Rightarrow> pub_key \<Rightarrow> event \<Rightarrow> relationship_broken_payload \<Rightarrow> starter_id \<Rightarrow> relationship_break_delivery"
  where
  "break_delivery H own e p anchor =
    \<lparr> bd_event_id = event_id H e, bd_to_pubkey = pub_key_as_bytes (brk_peer_pubkey p),
      bd_peer_starter_id = anchor, bd_local_root_pubkey = own, bd_timestamp = event_ts e \<rparr>"

definition break_queue :: "(u8 list \<Rightarrow> b32) \<Rightarrow> pub_key \<Rightarrow> event list \<Rightarrow> break_queue" where
  "break_queue H own = foldl (break_queue_step H own) ([], [])"

lemma break_queue_step_eq:
  "break_queue_step H own (latest, pending) e =
    (case established_of e of
       Some p \<Rightarrow> (AList.update (established_key p) (est_peer_starter_id p) latest,
                  AList.delete (established_key p) pending)
     | None \<Rightarrow>
         (case broken_of e of
            Some p \<Rightarrow>
              if ev_signer e = own
              then (case map_of latest (break_key p) of
                      Some a \<Rightarrow> (latest, AList.update (break_key p) (break_delivery H own e p a) pending)
                    | None \<Rightarrow> (latest, pending))
              else (latest, AList.delete (break_key p) pending)
          | None \<Rightarrow> (latest, pending)))"
  by (auto simp: break_queue_step_def established_of_def broken_of_def Let_def break_key_def
      established_key_def break_delivery_def split: event_kind.split option.split)

definition anchor_put :: "event list \<Rightarrow> event \<Rightarrow> (relationship_key \<times> starter_id) option" where
  "anchor_put xs e = map_option (\<lambda>p. (established_key p, est_peer_starter_id p)) (established_of e)"

definition anchor_clear :: "event list \<Rightarrow> event \<Rightarrow> relationship_key option" where
  "anchor_clear xs e = None"

interpretation anchors: retry_queue "\<lambda>es. fst (break_queue H own es)" anchor_put anchor_clear for H own
proof
  fix es e
  obtain l q where "break_queue H own es = (l, q)" by (cases "break_queue H own es")
  then show "fst (break_queue H own (es @ [e])) =
      (case anchor_put es e of
         Some (k, v) \<Rightarrow> AList.update k v (fst (break_queue H own es))
       | None \<Rightarrow> (case anchor_clear es e of
           Some k \<Rightarrow> AList.delete k (fst (break_queue H own es)) | None \<Rightarrow> fst (break_queue H own es)))"
    by (simp add: break_queue_def break_queue_step_eq anchor_put_def anchor_clear_def split: option.split)
qed (simp add: break_queue_def)

lemma anchors_lookup: "map_of (fst (break_queue H own es)) key = peer_starter key es"
  by (induction es rule: rev_induct)
    (auto simp: anchors.queue_Nil anchors.lookup_snoc anchor_put_def anchor_clear_def peer_starter_def
      split: option.split)

definition break_put ::
  "(u8 list \<Rightarrow> b32) \<Rightarrow> pub_key \<Rightarrow> event list \<Rightarrow> event \<Rightarrow> (relationship_key \<times> relationship_break_delivery) option"
  where
  "break_put H own xs e =
    Option.bind (if ev_signer e = own then broken_of e else None) (\<lambda>p.
      map_option (\<lambda>a. (break_key p, break_delivery H own e p a)) (peer_starter (break_key p) xs))"

definition break_clear :: "pub_key \<Rightarrow> event list \<Rightarrow> event \<Rightarrow> relationship_key option" where
  "break_clear own xs e =
    (case established_of e of
       Some p \<Rightarrow> Some (established_key p)
     | None \<Rightarrow> map_option break_key (if ev_signer e \<noteq> own then broken_of e else None))"

interpretation pending_breaks: retry_queue "\<lambda>es. snd (break_queue H own es)" "break_put H own" "break_clear own"
  for H own
proof
  fix es e
  obtain l q where lq: "break_queue H own es = (l, q)" by (cases "break_queue H own es")
  then have "map_of l key = peer_starter key es" for key
    using anchors_lookup [of H own es key] by simp
  with lq show "snd (break_queue H own (es @ [e])) =
      (case break_put H own es e of
         Some (k, v) \<Rightarrow> AList.update k v (snd (break_queue H own es))
       | None \<Rightarrow> (case break_clear own es e of
           Some k \<Rightarrow> AList.delete k (snd (break_queue H own es)) | None \<Rightarrow> snd (break_queue H own es)))"
    using established_not_broken
    by (auto simp: break_queue_def break_queue_step_eq break_put_def break_clear_def split: option.split)
qed (simp add: break_queue_def)

lemma pending_breaks_touches:
  assumes "peer_starter key xs \<noteq> None"
  shows "pending_breaks.touches H own key xs e \<longleftrightarrow> establishes key e \<or> breaks key e"
  using assms established_not_broken [of e]
  by (cases "established_of e"; cases "broken_of e")
    (auto simp: pending_breaks.touches_def break_put_def break_clear_def establishes_iff breaks_iff)

text \<open>A break by the owner that stands: its key was established before, and after it the key was
  neither established again nor broken by anybody.\<close>

definition standing_break ::
  "(u8 list \<Rightarrow> b32) \<Rightarrow> pub_key \<Rightarrow> event list \<Rightarrow> relationship_break_delivery \<Rightarrow> bool" where
  "standing_break H own es d \<longleftrightarrow>
    (\<exists>xs e ys p a. es = xs @ e # ys \<and> ev_signer e = own \<and> broken_of e = Some p
      \<and> peer_starter (break_key p) xs = Some a \<and> d = break_delivery H own e p a
      \<and> list_all (\<lambda>f. \<not> establishes (break_key p) f \<and> \<not> breaks (break_key p) f) ys)"

lemma pending_breaks_values:
  "d \<in> set (map snd (snd (break_queue H own es))) \<longleftrightarrow> standing_break H own es d"
proof -
  have later: "(\<forall>us f vs. ys = us @ f # vs \<longrightarrow> \<not> pending_breaks.touches H own key (xs @ e # us) f) \<longleftrightarrow>
      list_all (\<lambda>f. \<not> establishes key f \<and> \<not> breaks key f) ys"
    if "peer_starter key xs = Some a" for key xs a ys e
  proof -
    have "pending_breaks.touches H own key (xs @ e # us) f \<longleftrightarrow> establishes key f \<or> breaks key f" for us f
      by (rule pending_breaks_touches) (rule peer_starter_kept, simp add: that)
    then show ?thesis by (simp add: later_events_iff [symmetric])
  qed
  have put: "break_put H own xs e = Some (k, d) \<longleftrightarrow>
      (\<exists>p a. ev_signer e = own \<and> broken_of e = Some p \<and> peer_starter (break_key p) xs = Some a
        \<and> k = break_key p \<and> d = break_delivery H own e p a)" for xs e k
    by (auto simp: break_put_def bind_eq_Some_conv)
  show ?thesis
    unfolding pending_breaks.values_iff pending_breaks.lookup_iff put standing_break_def
  proof (rule iffI; elim exE conjE)
    fix k xs e ys p a
    assume "es = xs @ e # ys" "\<forall>us f vs. ys = us @ f # vs \<longrightarrow> \<not> pending_breaks.touches H own k (xs @ e # us) f"
      and e: "ev_signer e = own" "broken_of e = Some p" "peer_starter (break_key p) xs = Some a"
        "k = break_key p" "d = break_delivery H own e p a"
    moreover from this have "list_all (\<lambda>f. \<not> establishes (break_key p) f \<and> \<not> breaks (break_key p) f) ys"
      using later [OF e(3)] by simp
    ultimately show "\<exists>xs e ys p a. es = xs @ e # ys \<and> ev_signer e = own \<and> broken_of e = Some p
        \<and> peer_starter (break_key p) xs = Some a \<and> d = break_delivery H own e p a
        \<and> list_all (\<lambda>f. \<not> establishes (break_key p) f \<and> \<not> breaks (break_key p) f) ys"
      by (intro exI conjI)
  next
    fix xs e ys p a
    assume "es = xs @ e # ys" and e: "ev_signer e = own" "broken_of e = Some p"
        "peer_starter (break_key p) xs = Some a" "d = break_delivery H own e p a"
      and "list_all (\<lambda>f. \<not> establishes (break_key p) f \<and> \<not> breaks (break_key p) f) ys"
    moreover from this have
      "\<forall>us f vs. ys = us @ f # vs \<longrightarrow> \<not> pending_breaks.touches H own (break_key p) (xs @ e # us) f"
      using later [OF e(3)] by simp
    ultimately show "\<exists>k xs e ys. es = xs @ e # ys
        \<and> (\<exists>p a. ev_signer e = own \<and> broken_of e = Some p \<and> peer_starter (break_key p) xs = Some a
            \<and> k = break_key p \<and> d = break_delivery H own e p a)
        \<and> (\<forall>us f vs. ys = us @ f # vs \<longrightarrow> \<not> pending_breaks.touches H own k (xs @ e # us) f)"
      by (intro exI [of _ "break_key p"] exI [of _ xs] exI [of _ e] exI [of _ ys] conjI
          exI [of _ p] exI [of _ a]) simp_all
  qed
qed

text \<open>C20: The break retry queue holds exactly the standing breaks of the owner towards other keys than
  its own transport key, in order of time.\<close>

theorem break_queue_correct:
  "case fs_capsule s of
     None \<Rightarrow> pending_outgoing_relationship_break_deliveries_in_runtime H s transport = []
   | Some c \<Rightarrow>
       set (pending_outgoing_relationship_break_deliveries_in_runtime H s transport)
         = {d. standing_break H (ca_pubkey c) (l_events (ca_ledger c)) d \<and> PubKey (bd_to_pubkey d) \<noteq> transport}
       \<and> sorted (map break_delivery_order (pending_outgoing_relationship_break_deliveries_in_runtime H s transport))"
proof (cases "fs_capsule s")
  case (Some c)
  have "x = pub_key_as_bytes transport \<longleftrightarrow> PubKey x = transport" for x by (cases transport) simp
  moreover have "d \<in> set (map snd (snd (foldl (break_queue_step H (ca_pubkey c)) ([], []) es)))
      \<longleftrightarrow> standing_break H (ca_pubkey c) es d" for d es
    using pending_breaks_values by (simp add: break_queue_def)
  ultimately show ?thesis
    by (auto simp: pending_outgoing_relationship_break_deliveries_in_runtime_def Some Let_def
        simp del: set_map)
qed (simp add: pending_outgoing_relationship_break_deliveries_in_runtime_def)

end
