(* ===== verification/Nostr.thy ===== *)
theory Nostr
  imports Transport Actions "HOL-Library.Char_ord" "HOL-Library.AList"
begin

text \<open>
  \<open>adapters/hivra-transport/src/nostr/mod.rs\<close>: the Nostr adapter. Signing, publishing and fetching go to the
  SDK, whose functions are the fields of \<open>nostr_sdk\<close>; what is modelled is the adapter's own work: which event is
  sent, how relay answers become a receipt, which events a batch holds, what it takes to accept the resolutions
  of a batch, and how the cursors of the relays move.
\<close>

section \<open>Bounds\<close>

definition APP_EVENT_KIND :: u16 where "APP_EVENT_KIND = 9444"
definition RECEIVE_LIMIT :: nat where "RECEIVE_LIMIT = 2048"
definition RECEIVE_LOOKBACK_SECS :: u64 where "RECEIVE_LOOKBACK_SECS = 7 * 24 * 60 * 60"
definition RECEIVE_FUTURE_SKEW_SECS :: u64 where "RECEIVE_FUTURE_SKEW_SECS = 5 * 60"
definition RECEIVE_SEEN_CAPACITY :: nat where "RECEIVE_SEEN_CAPACITY = 2048"
definition MAX_NIP44_PLAINTEXT_BYTES :: nat where "MAX_NIP44_PLAINTEXT_BYTES = 65535"
definition MAX_NOSTR_EVENT_CONTENT_BYTES :: nat where
  "MAX_NOSTR_EVENT_CONTENT_BYTES = MAX_DELIVERY_ENVELOPE_PAYLOAD_BYTES * 8"
definition MIN_PUBLISH_TIMEOUT_SECS :: u64 where "MIN_PUBLISH_TIMEOUT_SECS = 2"
definition PREFERRED_READ_RELAYS :: "string list" where
  "PREFERRED_READ_RELAYS = [''wss://relay.damus.io'', ''wss://relay.primal.net'']"

section \<open>Events and the SDK\<close>

record nostr_tag =
  ng_kind :: string
  ng_public_key :: "b32 option"

record nostr_event =
  nv_id :: string
  nv_pubkey :: b32
  nv_created_at :: u64
  nv_kind :: u16
  nv_tags :: "nostr_tag list"
  nv_content :: "u8 list"

record nostr_config =
  nc_relays :: "string list"
  nc_ephemeral :: bool
  nc_timeout :: u64
  nc_publish_timeout :: u64

definition default_relays :: "string list" where
  "default_relays = [''wss://nos.lol'', ''wss://relay.damus.io'', ''wss://relay.primal.net'',
    ''wss://relay.snort.social'', ''wss://relay.nostr.band'', ''wss://relay.current.fyi'']"

definition default_config :: nostr_config where
  "default_config = \<lparr> nc_relays = default_relays, nc_ephemeral = True, nc_timeout = 12, nc_publish_timeout = 6 \<rparr>"

definition quick_launch_config :: nostr_config where
  "quick_launch_config = \<lparr> nc_relays = default_relays, nc_ephemeral = True, nc_timeout = 8, nc_publish_timeout = 3 \<rparr>"

record fetch_filter =
  ff_kind :: u16
  ff_pubkey :: b32
  ff_since :: u64
  ff_until :: u64
  ff_limit :: nat

datatype relay_answer = RelayAccepted string | RelayTimedOut | RelayRefused string

text \<open>
  \<open>ns_publish\<close> hands the event to the relays and returns their answers in the order of completion;
  \<open>ns_wait_connected\<close> and \<open>ns_ensure_connected\<close> are the two polling loops on the status of the relays, which
  end with a connection or with their deadline; \<open>ns_budget_left\<close> is the time left until the deadline of a
  publication, in seconds, if any; \<open>ns_order\<close> is the iteration order of a hash set.
\<close>

record 'w nostr_sdk =
  ns_public_key_of :: "b32 \<Rightarrow> b32 option"
  ns_valid_public_key :: "b32 \<Rightarrow> bool"
  ns_encrypt :: "b32 \<Rightarrow> b32 \<Rightarrow> u8 list \<Rightarrow> 'w \<Rightarrow> u8 list option \<times> 'w"
  ns_decrypt :: "b32 \<Rightarrow> b32 \<Rightarrow> u8 list \<Rightarrow> u8 list option"
  ns_finalize :: "b32 \<Rightarrow> u16 \<Rightarrow> u8 list \<Rightarrow> nostr_tag list \<Rightarrow> 'w \<Rightarrow> nostr_event option \<times> 'w"
  ns_verify :: "nostr_event \<Rightarrow> bool"
  ns_put_envelope :: "delivery_envelope \<Rightarrow> u8 list option"
  ns_get_envelope :: "u8 list \<Rightarrow> delivery_envelope option"
  ns_now :: "'w \<Rightarrow> u64 \<times> 'w"
  ns_build_client :: "string list \<Rightarrow> 'w \<Rightarrow> bool \<times> 'w"
  ns_relay_urls :: "'w \<Rightarrow> string list"
  ns_connected_urls :: "'w \<Rightarrow> string list"
  ns_wait_connected :: "u64 \<Rightarrow> 'w \<Rightarrow> bool \<times> 'w"
  ns_ensure_connected :: "u64 \<Rightarrow> 'w \<Rightarrow> bool \<times> 'w"
  ns_budget_left :: "'w \<Rightarrow> u64 option"
  ns_publish :: "string list \<Rightarrow> nostr_event \<Rightarrow> 'w \<Rightarrow> (string \<times> relay_answer) list \<times> 'w"
  ns_fetch :: "string \<Rightarrow> fetch_filter \<Rightarrow> u64 \<Rightarrow> 'w \<Rightarrow> nostr_event list option \<times> 'w"
  ns_order :: "string set \<Rightarrow> string list"

section \<open>State\<close>

record pending_relay_cursor =
  pc_candidate :: u64
  pc_event_ids :: "string set"

text \<open>The hash map of cursors is an association list: its order is not observable.\<close>

record pending_receive_batch =
  pb_batch :: inbound_delivery_batch
  pb_relay_cursors :: "(string \<times> pending_relay_cursor) list"

record relay_fetch =
  rf_relay_url :: string
  rf_events :: "nostr_event list"

text \<open>A session, and the seen events of the process by receiver. The diagnostic text is not kept.\<close>

record 'w nostr =
  no_env :: 'w
  no_secret :: b32
  no_public_key :: b32
  no_publish_timeout_secs :: u64
  no_receive_since_by_relay :: "string \<Rightarrow> u64 option"
  no_next_receive_batch_id :: u64
  no_pending_receive_batch :: "pending_receive_batch option"
  no_seen_event_ids :: "b32 \<Rightarrow> string set"

type_synonym ('w, 'a) nostr_action = "('w nostr, transport_error, 'a) action"

definition in_session :: "('w \<Rightarrow> 'a \<times> 'w) \<Rightarrow> ('w, 'a) nostr_action" where
  "in_session f s = (case f (no_env s) of (x, w) \<Rightarrow> (Ok x, s\<lparr> no_env := w \<rparr>))"

definition nostr_new ::
  "'w nostr_sdk \<Rightarrow> nostr_config \<Rightarrow> b32 \<Rightarrow> (b32 \<Rightarrow> string set) \<Rightarrow> 'w \<Rightarrow> (transport_error, 'w nostr) result \<times> 'w" where
  "nostr_new sdk config secret_key seen w =
    (case ns_public_key_of sdk secret_key of
       None \<Rightarrow> (Err InvalidKey, w)
     | Some public_key \<Rightarrow>
         (case ns_build_client sdk (nc_relays config) w of
            (built, w) \<Rightarrow>
              if \<not> built then (Err ConnectionFailed, w)
              else (Ok \<lparr> no_env = w, no_secret = secret_key, no_public_key = public_key,
                no_publish_timeout_secs = nc_publish_timeout config, no_receive_since_by_relay = (\<lambda>_. None),
                no_next_receive_batch_id = 1, no_pending_receive_batch = None, no_seen_event_ids = seen \<rparr>, w)))"

section \<open>Pure helpers\<close>

definition next_receive_cursor :: "u64 \<Rightarrow> u64 \<Rightarrow> u64 \<Rightarrow> u64" where
  "next_receive_cursor current query_now max_event_timestamp =
    max current (sat_sub (min max_event_timestamp query_now) 1)"

definition prioritize_read_relay_urls :: "string list \<Rightarrow> string list" where
  "prioritize_read_relay_urls relay_urls =
    sort_key (\<lambda>url. unwrap_or (position (\<lambda>preferred. url = preferred) PREFERRED_READ_RELAYS)
      (length PREFERRED_READ_RELAYS)) relay_urls"

text \<open>Exactly one tag of kind \<open>p\<close>, and it names the recipient.\<close>

definition has_exact_recipient_tag :: "nostr_event \<Rightarrow> b32 \<Rightarrow> bool" where
  "has_exact_recipient_tag e recipient \<longleftrightarrow>
    length (filter (\<lambda>t. ng_kind t = ''p'') (nv_tags e)) = 1
    \<and> List.map_filter ng_public_key (nv_tags e) = [recipient]"

section \<open>Sending\<close>

definition serialize_message :: "'w nostr_sdk \<Rightarrow> delivery_envelope \<Rightarrow> ('w, u8 list) nostr_action" where
  "serialize_message sdk envelope =
    seq (pure (ok_or (ns_put_envelope sdk envelope) EncodingFailed)) (\<lambda>plaintext.
    if length plaintext > MAX_NIP44_PLAINTEXT_BYTES then pure (Err EncodingFailed)
    else if \<not> ns_valid_public_key sdk (en_to envelope) then pure (Err InvalidKey)
    else
      seq (\<lambda>s. in_session (ns_encrypt sdk (no_secret s) (en_to envelope) plaintext) s) (\<lambda>content.
        pure (ok_or content EncodingFailed)))"

definition message_tags :: "'w nostr_sdk \<Rightarrow> delivery_envelope \<Rightarrow> (transport_error, nostr_tag list) result" where
  "message_tags sdk envelope =
    (if \<not> ns_valid_public_key sdk (en_to envelope) then Err InvalidKey
     else Ok [\<lparr> ng_kind = ''p'', ng_public_key = Some (en_to envelope) \<rparr>])"

definition build_signed_event :: "'w nostr_sdk \<Rightarrow> u8 list \<Rightarrow> nostr_tag list \<Rightarrow> ('w, nostr_event) nostr_action" where
  "build_signed_event sdk content tags =
    seq (\<lambda>s. in_session (ns_finalize sdk (no_secret s) APP_EVENT_KIND content tags) s) (\<lambda>e.
      pure (ok_or e EncodingFailed))"

definition encode_message :: "'w nostr_sdk \<Rightarrow> delivery_envelope \<Rightarrow> ('w, nostr_event) nostr_action" where
  "encode_message sdk envelope =
    seq (serialize_message sdk envelope) (\<lambda>content.
    seq (pure (message_tags sdk envelope)) (\<lambda>tags.
      build_signed_event sdk content tags))"

text \<open>The loop over the answers: the first acceptance, the number of acceptances, the failures.\<close>

definition decimal_text :: "u64 \<Rightarrow> string" where
  "decimal_text n = map (\<lambda>b. char_of (unat b)) (decimal (unat n))"

fun gather_answers ::
  "u64 \<Rightarrow> (string \<times> relay_answer) list \<Rightarrow> (string \<times> string) option \<times> u32 \<times> string list
    \<Rightarrow> (string \<times> string) option \<times> u32 \<times> string list" where
  "gather_answers secs [] progress = progress"
| "gather_answers secs ((url, answer) # rest) (first_accept, accepted_relays, failure_details) =
    gather_answers secs rest
      (case answer of
         RelayAccepted i \<Rightarrow>
           (if first_accept = None then Some (url, i) else first_accept, accepted_relays + 1, failure_details)
       | RelayTimedOut \<Rightarrow> (first_accept, accepted_relays, failure_details @ [url @ '': timeout after '' @ decimal_text secs @ ''s''])
       | RelayRefused reason \<Rightarrow> (first_accept, accepted_relays, failure_details @ [url @ '': '' @ reason]))"

fun join_with :: "string \<Rightarrow> string list \<Rightarrow> string" where
  "join_with separator [] = []"
| "join_with separator [x] = x"
| "join_with separator (x # y # xs) = x @ separator @ join_with separator (y # xs)"

text \<open>The relay that accepted first, the identifier it stored and the number of relays that failed.\<close>

definition publish_event_with_timeout ::
  "'w nostr_sdk \<Rightarrow> nostr_event \<Rightarrow> u64 \<Rightarrow> ('w, string \<times> string \<times> u32) nostr_action" where
  "publish_event_with_timeout sdk event publish_timeout_secs =
    seq (in_session (ns_wait_connected sdk (max publish_timeout_secs MIN_PUBLISH_TIMEOUT_SECS))) (\<lambda>connected.
    if \<not> connected then pure (Err ConnectionFailed)
    else
      seq (inspect (\<lambda>s. Ok (ns_connected_urls sdk (no_env s)))) (\<lambda>connected_relays.
      if connected_relays = [] then pure (Err (OtherError ''no connected relays available for publish''))
      else
        seq (inspect (\<lambda>s. Ok (ns_budget_left sdk (no_env s)))) (\<lambda>budget_left.
        case budget_left of None \<Rightarrow> pure (Err Timeout)
        | Some secs \<Rightarrow>
          seq (in_session (ns_publish sdk connected_relays event)) (\<lambda>answers.
          case gather_answers secs answers (None, 0, []) of
            (Some (relay_url, i), accepted_relays, failure_details) \<Rightarrow>
              pure (Ok (relay_url, i, of_nat (length failure_details)))
          | (None, accepted_relays, failure_details) \<Rightarrow>
              pure (Err (OtherError (''no relay accepted event; '' @ join_with '' | '' failure_details)))))))"

definition send_event :: "'w nostr_sdk \<Rightarrow> nostr_event \<Rightarrow> ('w, unit) nostr_action" where
  "send_event sdk event =
    seq (\<lambda>s. publish_event_with_timeout sdk event (no_publish_timeout_secs s) s) (\<lambda>_. pure (Ok ()))"

definition nostr_send_with_receipt_with_timeout ::
  "'w nostr_sdk \<Rightarrow> delivery_envelope \<Rightarrow> u64 \<Rightarrow> ('w, delivery_receipt) nostr_action" where
  "nostr_send_with_receipt_with_timeout sdk envelope publish_timeout_secs =
    seq (encode_message sdk envelope) (\<lambda>event.
    seq (publish_event_with_timeout sdk event publish_timeout_secs)
      (\<lambda>(accepted_by, envelope_id, failed_before_accept).
      pure (Ok \<lparr> rt_transport = ''nostr'', rt_accepted_by = accepted_by, rt_envelope_id = envelope_id,
        rt_message_kind = en_kind envelope, rt_recipient = bytes (en_to envelope),
        rt_failed_before_accept = failed_before_accept \<rparr>)))"

definition nostr_send_with_receipt :: "'w nostr_sdk \<Rightarrow> delivery_envelope \<Rightarrow> ('w, delivery_receipt) nostr_action" where
  "nostr_send_with_receipt sdk envelope s =
    nostr_send_with_receipt_with_timeout sdk envelope (no_publish_timeout_secs s) s"

definition nostr_send :: "'w nostr_sdk \<Rightarrow> delivery_envelope \<Rightarrow> ('w, unit) nostr_action" where
  "nostr_send sdk envelope = seq (nostr_send_with_receipt sdk envelope) (\<lambda>_. pure (Ok ()))"

text \<open>The content and the tags of the event builder that upper layers sign; \<open>signer\<close> is their function.\<close>

definition event_builder_for_message ::
  "'w nostr_sdk \<Rightarrow> delivery_envelope \<Rightarrow> ('w, u8 list \<times> nostr_tag list) nostr_action" where
  "event_builder_for_message sdk envelope =
    seq (serialize_message sdk envelope) (\<lambda>content.
    seq (pure (message_tags sdk envelope)) (\<lambda>tags. pure (Ok (content, tags))))"

definition nostr_prepare_event ::
  "'w nostr_sdk \<Rightarrow> delivery_envelope \<Rightarrow> (u8 list \<times> nostr_tag list \<Rightarrow> ('w, nostr_event) nostr_action)
    \<Rightarrow> ('w, nostr_event) nostr_action" where
  "nostr_prepare_event sdk envelope signer = seq (event_builder_for_message sdk envelope) signer"

definition nostr_send_prepared ::
  "'w nostr_sdk \<Rightarrow> delivery_envelope \<Rightarrow> (u8 list \<times> nostr_tag list \<Rightarrow> ('w, nostr_event) nostr_action)
    \<Rightarrow> ('w, unit) nostr_action" where
  "nostr_send_prepared sdk envelope signer = seq (nostr_prepare_event sdk envelope signer) (send_event sdk)"

definition nostr_transport :: "'w nostr_sdk \<Rightarrow> 'w nostr transport" where
  "nostr_transport sdk = \<lparr> tr_send_with_receipt = nostr_send_with_receipt sdk,
    tr_receive = pure (Err NotImplemented), tr_is_connected = (\<lambda>s. ns_relay_urls sdk (no_env s) \<noteq> []),
    tr_name = ''nostr'' \<rparr>"

section \<open>Receiving\<close>

definition decode_event :: "'w nostr_sdk \<Rightarrow> b32 \<Rightarrow> b32 \<Rightarrow> nostr_event \<Rightarrow> (transport_error, delivery_envelope) result" where
  "decode_event sdk secret public_key e =
    (if nv_kind e \<noteq> APP_EVENT_KIND then Err InvalidMessage
     else if length (nv_content e) > MAX_NOSTR_EVENT_CONTENT_BYTES then Err InvalidMessage
     else if \<not> ns_verify sdk e then Err InvalidMessage
     else if \<not> has_exact_recipient_tag e public_key then Err InvalidMessage
     else
       and_then (ok_or (ns_decrypt sdk secret (nv_pubkey e) (nv_content e)) DecodingFailed) (\<lambda>content.
       and_then (ok_or (ns_get_envelope sdk content) InvalidMessage) (\<lambda>envelope.
       if en_from envelope \<noteq> nv_pubkey e then Err SenderMismatch
       else and_then (map_err (\<lambda>_. InvalidMessage) (guard_validate (guard_for_recipient public_key) envelope))
         (\<lambda>_. Ok envelope))))"

definition initial_cursor :: "'w nostr_sdk \<Rightarrow> ('w, u64) nostr_action" where
  "initial_cursor sdk = seq (in_session (ns_now sdk)) (\<lambda>now. pure (Ok (sat_sub now RECEIVE_LOOKBACK_SECS)))"

definition receive_since_for_relay :: "'w nostr_sdk \<Rightarrow> string \<Rightarrow> ('w, u64) nostr_action" where
  "receive_since_for_relay sdk relay_url =
    seq (initial_cursor sdk) (\<lambda>initial.
    seq (inspect (\<lambda>s. Ok (unwrap_or (no_receive_since_by_relay s relay_url) initial))) (\<lambda>since.
    seq (modify (\<lambda>s. s\<lparr> no_receive_since_by_relay := (no_receive_since_by_relay s)(relay_url \<mapsto> since) \<rparr>)) (\<lambda>_.
      pure (Ok since))))"

definition commit_receive_cursor_for_relay :: "'w nostr_sdk \<Rightarrow> string \<Rightarrow> u64 \<Rightarrow> ('w, unit) nostr_action" where
  "commit_receive_cursor_for_relay sdk relay_url candidate =
    seq (inspect (\<lambda>s. Ok (no_receive_since_by_relay s relay_url))) (\<lambda>known.
    seq (case known of Some current \<Rightarrow> pure (Ok current) | None \<Rightarrow> initial_cursor sdk) (\<lambda>current.
      modify (\<lambda>s. s\<lparr> no_receive_since_by_relay :=
        (no_receive_since_by_relay s)(relay_url \<mapsto> max current candidate) \<rparr>)))"

definition take_next_receive_batch_id :: "('w, u64) nostr_action" where
  "take_next_receive_batch_id =
    seq (inspect (\<lambda>s. Ok (no_next_receive_batch_id s))) (\<lambda>current.
    seq (modify (\<lambda>s. s\<lparr> no_next_receive_batch_id := sat_add current 1 \<rparr>)) (\<lambda>_. pure (Ok current)))"

text \<open>The requests are prepared for all relays before the first is sent.\<close>

fun prepare_requests ::
  "'w nostr_sdk \<Rightarrow> u64 \<Rightarrow> string list \<Rightarrow> ('w, (string \<times> fetch_filter) list) nostr_action" where
  "prepare_requests sdk query_now [] = pure (Ok [])"
| "prepare_requests sdk query_now (url # urls) =
    seq (receive_since_for_relay sdk url) (\<lambda>since.
    seq (inspect (\<lambda>s. Ok \<lparr> ff_kind = APP_EVENT_KIND, ff_pubkey = no_public_key s, ff_since = since,
          ff_until = sat_add query_now RECEIVE_FUTURE_SKEW_SECS, ff_limit = RECEIVE_LIMIT \<rparr>)) (\<lambda>request.
    seq (prepare_requests sdk query_now urls) (\<lambda>requests. pure (Ok ((url, request) # requests)))))"

fun run_requests ::
  "'w nostr_sdk \<Rightarrow> u64 \<Rightarrow> (string \<times> fetch_filter) list \<Rightarrow> ('w, relay_fetch list) nostr_action" where
  "run_requests sdk timeout [] = pure (Ok [])"
| "run_requests sdk timeout ((url, request) # requests) =
    seq (in_session (ns_fetch sdk url request timeout)) (\<lambda>answer.
    seq (run_requests sdk timeout requests) (\<lambda>fetches.
      pure (Ok (case answer of
        Some events \<Rightarrow> \<lparr> rf_relay_url = url, rf_events = events \<rparr> # fetches | None \<Rightarrow> fetches))))"

text \<open>The number of successful reads is the number of fetches.\<close>

definition fetch_events_from_relays ::
  "'w nostr_sdk \<Rightarrow> string list \<Rightarrow> u64 \<Rightarrow> u64 \<Rightarrow> ('w, relay_fetch list) nostr_action" where
  "fetch_events_from_relays sdk relay_urls query_now timeout =
    seq (prepare_requests sdk query_now relay_urls) (run_requests sdk timeout)"

text \<open>The events of the fetches that are not seen yet, with the relays that have them, and the cursors.\<close>

record collected =
  co_events_by_id :: "string \<Rightarrow> (nostr_event \<times> string set) option"
  co_relay_cursors :: "(string \<times> pending_relay_cursor) list"

definition collect_event ::
  "string \<Rightarrow> nostr_event \<Rightarrow> (string \<Rightarrow> (nostr_event \<times> string set) option)
    \<Rightarrow> string \<Rightarrow> (nostr_event \<times> string set) option" where
  "collect_event relay_url e events_by_id =
    (case events_by_id (nv_id e) of
       Some (first, relays) \<Rightarrow> events_by_id(nv_id e \<mapsto> (first, insert relay_url relays))
     | None \<Rightarrow> events_by_id(nv_id e \<mapsto> (e, {relay_url})))"

definition newest_timestamp :: "nostr_event list \<Rightarrow> u64 option" where
  "newest_timestamp es = (if es = [] then None else Some (Max (nv_created_at ` set es)))"

definition collect_fetch ::
  "'w nostr_sdk \<Rightarrow> u64 \<Rightarrow> relay_fetch \<Rightarrow> collected \<Rightarrow> ('w, collected) nostr_action" where
  "collect_fetch sdk query_now fetch c =
    seq (case newest_timestamp (rf_events fetch) of
           None \<Rightarrow> pure (Ok None)
         | Some max_timestamp \<Rightarrow>
             seq (receive_since_for_relay sdk (rf_relay_url fetch)) (\<lambda>since.
               pure (Ok (Some (next_receive_cursor since query_now max_timestamp))))) (\<lambda>candidate.
    seq (inspect (\<lambda>s. Ok (filter (\<lambda>e. nv_id e \<notin> no_seen_event_ids s (no_public_key s)) (rf_events fetch))))
      (\<lambda>fresh.
    let c = c\<lparr> co_events_by_id := fold (collect_event (rf_relay_url fetch)) fresh (co_events_by_id c) \<rparr>
    in pure (Ok (case candidate of
         None \<Rightarrow> c
       | Some candidate \<Rightarrow> c\<lparr> co_relay_cursors := AList.update (rf_relay_url fetch)
           \<lparr> pc_candidate = candidate, pc_event_ids = nv_id ` set fresh \<rparr> (co_relay_cursors c) \<rparr>))))"

fun collect_fetches ::
  "'w nostr_sdk \<Rightarrow> u64 \<Rightarrow> relay_fetch list \<Rightarrow> collected \<Rightarrow> ('w, collected) nostr_action" where
  "collect_fetches sdk query_now [] c = pure (Ok c)"
| "collect_fetches sdk query_now (fetch # fetches) c =
    seq (collect_fetch sdk query_now fetch c) (collect_fetches sdk query_now fetches)"

text \<open>\<open>format!("{err:?}")\<close>, with the derived \<open>Debug\<close>; no reason of \<open>decode_event\<close> carries a text.\<close>

definition error_name :: "transport_error \<Rightarrow> string" where
  "error_name e =
    (case e of
       InvalidMessage \<Rightarrow> ''InvalidMessage'' | DecodingFailed \<Rightarrow> ''DecodingFailed'' | SenderMismatch \<Rightarrow> ''SenderMismatch''
     | NotImplemented \<Rightarrow> ''NotImplemented'' | ConnectionFailed \<Rightarrow> ''ConnectionFailed'' | SendFailed \<Rightarrow> ''SendFailed''
     | ReceiveFailed \<Rightarrow> ''ReceiveFailed'' | EncodingFailed \<Rightarrow> ''EncodingFailed'' | InvalidKey \<Rightarrow> ''InvalidKey''
     | Timeout \<Rightarrow> ''Timeout'' | OtherError text \<Rightarrow> ''Other'')"

definition item_of_event ::
  "'w nostr_sdk \<Rightarrow> b32 \<Rightarrow> b32 \<Rightarrow> (string \<Rightarrow> (nostr_event \<times> string set) option) \<Rightarrow> string \<Rightarrow> inbound_delivery_item"
  where
  "item_of_event sdk secret public_key events_by_id i =
    (case the (events_by_id i) of (e, observed_by) \<Rightarrow>
      \<lparr> di_event_id = i, di_observed_by = sorted_list_of_set observed_by,
        di_payload = (case decode_event sdk secret public_key e of
            Ok message \<Rightarrow> Envelope message
          | Err err \<Rightarrow> AdapterRejectedPayload (error_name err)
          | Panic \<Rightarrow> AdapterRejectedPayload []) \<rparr>)"

definition put_pending :: "inbound_delivery_item list \<Rightarrow> (string \<times> pending_relay_cursor) list
    \<Rightarrow> ('w, inbound_delivery_batch) nostr_action" where
  "put_pending items relay_cursors =
    seq take_next_receive_batch_id (\<lambda>i.
    let batch = \<lparr> db_batch_id = i, db_items = items \<rparr>
    in seq (modify (\<lambda>s. s\<lparr> no_pending_receive_batch :=
         Some \<lparr> pb_batch = batch, pb_relay_cursors = relay_cursors \<rparr> \<rparr>)) (\<lambda>_. pure (Ok batch)))"

definition configured_relay_urls :: "'w nostr_sdk \<Rightarrow> ('w, string list) nostr_action" where
  "configured_relay_urls sdk = inspect (\<lambda>s. Ok (prioritize_read_relay_urls (ns_relay_urls sdk (no_env s))))"

definition receive_new_batch :: "'w nostr_sdk \<Rightarrow> u64 \<Rightarrow> ('w, inbound_delivery_batch) nostr_action" where
  "receive_new_batch sdk receive_timeout_secs =
    seq (in_session (ns_now sdk)) (\<lambda>query_now.
    seq (configured_relay_urls sdk) (\<lambda>relay_urls.
    if relay_urls = [] then pure (Err ReceiveFailed)
    else
      seq (fetch_events_from_relays sdk relay_urls query_now receive_timeout_secs) (\<lambda>relay_fetches.
      if relay_fetches = [] then pure (Err ReceiveFailed)
      else
        seq (collect_fetches sdk query_now relay_fetches \<lparr> co_events_by_id = Map.empty, co_relay_cursors = [] \<rparr>) (\<lambda>c.
        seq (inspect (\<lambda>s. Ok (map (item_of_event sdk (no_secret s) (no_public_key s) (co_events_by_id c))
              (sorted_list_of_set (dom (co_events_by_id c)))))) (\<lambda>items.
          put_pending items (co_relay_cursors c))))))"

definition receive_batch_with_timeout :: "'w nostr_sdk \<Rightarrow> u64 \<Rightarrow> ('w, inbound_delivery_batch) nostr_action" where
  "receive_batch_with_timeout sdk receive_timeout_secs =
    seq (inspect (\<lambda>s. Ok (no_pending_receive_batch s))) (\<lambda>pending.
    case pending of
      Some p \<Rightarrow> pure (Ok (pb_batch p))
    | None \<Rightarrow>
        seq (in_session (ns_ensure_connected sdk receive_timeout_secs)) (\<lambda>connected.
        if connected then receive_new_batch sdk receive_timeout_secs else put_pending [] []))"

section \<open>Resolving\<close>

text \<open>The combinations of payload and disposition that are refused.\<close>

definition resolution_fits :: "inbound_delivery_payload \<Rightarrow> inbound_delivery_disposition \<Rightarrow> bool" where
  "resolution_fits payload disposition =
    (case payload of
       AdapterRejectedPayload _ \<Rightarrow> \<not> (disposition = Consumed \<or> disposition = Quarantined)
     | Envelope _ \<Rightarrow> disposition \<noteq> AdapterRejected)"

definition remember_seen :: "string \<Rightarrow> string set \<Rightarrow> string set" where
  "remember_seen i seen = insert i (if card seen \<ge> RECEIVE_SEEN_CAPACITY then {} else seen)"

definition with_disposition :: "(inbound_delivery_disposition \<Rightarrow> bool) \<Rightarrow> inbound_delivery_resolution list \<Rightarrow> string set"
  where
  "with_disposition P resolutions = {dr_event_id r | r. r \<in> set resolutions \<and> P (dr_disposition r)}"

text \<open>The loop over the cursors: committed, or kept with the items that come back.\<close>

fun settle_cursors ::
  "'w nostr_sdk \<Rightarrow> string set \<Rightarrow> string set \<Rightarrow> (string \<times> pending_relay_cursor) list
    \<Rightarrow> ('w, (string \<times> pending_relay_cursor) list) nostr_action" where
  "settle_cursors sdk terminal_ids retry_ids [] = pure (Ok [])"
| "settle_cursors sdk terminal_ids retry_ids ((relay_url, relay_cursor) # rest) =
    (if pc_event_ids relay_cursor \<subseteq> terminal_ids
     then seq (commit_receive_cursor_for_relay sdk relay_url (pc_candidate relay_cursor)) (\<lambda>_.
            settle_cursors sdk terminal_ids retry_ids rest)
     else seq (settle_cursors sdk terminal_ids retry_ids rest) (\<lambda>remaining.
            pure (Ok ((relay_url, relay_cursor\<lparr> pc_event_ids := pc_event_ids relay_cursor \<inter> retry_ids \<rparr>) # remaining))))"

definition resolve_receive_batch ::
  "'w nostr_sdk \<Rightarrow> u64 \<Rightarrow> inbound_delivery_resolution list \<Rightarrow> ('w, unit) nostr_action" where
  "resolve_receive_batch sdk batch_id resolutions =
    seq (inspect (\<lambda>s. ok_or (no_pending_receive_batch s) InvalidMessage)) (\<lambda>pending.
    let items = db_items (pb_batch pending);
        dispositions = map_of (map (\<lambda>r. (dr_event_id r, dr_disposition r)) resolutions);
        terminal_ids = with_disposition is_terminal resolutions;
        retry_ids = with_disposition (\<lambda>d. d = Retry) resolutions
    in
    if db_batch_id (pb_batch pending) \<noteq> batch_id then pure (Err InvalidMessage)
    else if \<not> distinct (map dr_event_id resolutions) then pure (Err InvalidMessage)
    else if length resolutions \<noteq> length items
      \<or> list_ex (\<lambda>item. dispositions (di_event_id item) = None) items then pure (Err InvalidMessage)
    else if list_ex (\<lambda>item. \<not> resolution_fits (di_payload item) (the (dispositions (di_event_id item)))) items
      then pure (Err InvalidMessage)
    else
      seq (modify (\<lambda>s. s\<lparr> no_seen_event_ids := (no_seen_event_ids s)(no_public_key s :=
            fold remember_seen (ns_order sdk terminal_ids) (no_seen_event_ids s (no_public_key s))) \<rparr>)) (\<lambda>_.
      seq (settle_cursors sdk terminal_ids retry_ids (pb_relay_cursors pending)) (\<lambda>remaining.
      if retry_ids = {} then modify (\<lambda>s. s\<lparr> no_pending_receive_batch := None \<rparr>)
      else seq (put_pending (filter (\<lambda>item. di_event_id item \<in> retry_ids) items) remaining) (\<lambda>_. pure (Ok ())))))"

end
