(* ===== verification/Nostr_Delivery.thy ===== *)
theory Nostr_Delivery
  imports Nostr Calm
begin

text \<open>
  Delivery through the Nostr adapter (adapters/hivra-transport/src/nostr/mod.rs). A session is observed from
  outside: which events each relay has ever returned to it, and which identifiers were ever resolved as
  terminal. Whatever the relays answer and however the receiver resolves, an event a relay returned is either
  resolved or waits in the pending batch, and the cursor of a relay moves only when everything the relay
  returned is resolved.
\<close>

section \<open>Frames\<close>

definition frame :: "'w nostr \<Rightarrow> (b32 \<Rightarrow> string set) \<times> b32 \<times> b32 \<times> pending_receive_batch option" where
  "frame s = (no_seen_event_ids s, no_public_key s, no_secret s, no_pending_receive_batch s)"

abbreviation framed :: "('w, 'a) nostr_action \<Rightarrow> bool" where
  "framed m \<equiv> \<forall>v. preserves (\<lambda>s. frame s = v) m"

lemma framed_basic:
  "preserves (\<lambda>s. frame s = v) (in_session f)" "preserves (\<lambda>s. frame s = v) take_next_receive_batch_id"
  "preserves (\<lambda>s. frame s = v) (receive_since_for_relay sdk url)"
  "preserves (\<lambda>s. frame s = v) (commit_receive_cursor_for_relay sdk url candidate)"
proof -
  show session: "preserves (\<lambda>s. frame s = v) (in_session f)" for f :: "'x \<Rightarrow> 'y \<times> 'x"
    by (auto simp: preserves_def outcome_def in_session_def frame_def split: prod.split)
  have modify: "preserves (\<lambda>s. frame s = v) (modify f)" if "\<And>s. frame (f s) = frame s" for f :: "'x nostr \<Rightarrow> 'x nostr"
    using that by (simp add: preserves_def outcome_modify)
  show "preserves (\<lambda>s. frame s = v) take_next_receive_batch_id"
    unfolding take_next_receive_batch_id_def by (intro preserving modify) (simp add: frame_def)
  show "preserves (\<lambda>s. frame s = v) (receive_since_for_relay sdk url)"
    unfolding receive_since_for_relay_def initial_cursor_def by (intro preserving session modify) (simp add: frame_def)
  show "preserves (\<lambda>s. frame s = v) (commit_receive_cursor_for_relay sdk url candidate)"
    unfolding commit_receive_cursor_for_relay_def initial_cursor_def
    by (intro preserving session modify) (simp add: frame_def)
qed

lemma framed_outcome:
  "(\<And>v. preserves (\<lambda>s. frame s = v) m) \<Longrightarrow> outcome m s (\<lambda>r s'. frame s' = frame s)"
  by (simp add: preserves_def)

lemma framed_requests: "preserves (\<lambda>s. frame s = v) (prepare_requests sdk query_now urls)"
proof (induction urls)
  case (Cons url urls)
  show ?case unfolding prepare_requests.simps by (intro preserving framed_basic Cons.IH)
qed (simp only: prepare_requests.simps preserves_base)

lemma framed_fetches: "preserves (\<lambda>s. frame s = v) (run_requests sdk timeout requests)"
proof (induction requests)
  case (Cons p requests)
  show ?case by (cases p; simp only: run_requests.simps) (intro preserving framed_basic Cons.IH)
qed (simp only: run_requests.simps preserves_base)

lemma framed_fetch: "preserves (\<lambda>s. frame s = v) (fetch_events_from_relays sdk urls query_now timeout)"
  unfolding fetch_events_from_relays_def by (intro preserving framed_requests framed_fetches)

lemma framed_settle: "preserves (\<lambda>s. frame s = v) (settle_cursors sdk done_ids retry_ids cursors)"
proof (induction cursors)
  case (Cons p cursors)
  show ?case by (cases p; simp only: settle_cursors.simps) (intro preserving framed_basic Cons.IH)
qed (simp only: settle_cursors.simps preserves_base)

section \<open>What the relays returned\<close>

abbreviation event_ids :: "nostr_event list \<Rightarrow> string set" where
  "event_ids es \<equiv> nv_id ` set es"

abbreviation cursor_ids :: "(string \<times> pending_relay_cursor) list \<Rightarrow> string \<Rightarrow> string set" where
  "cursor_ids cursors url \<equiv> (case map_of cursors url of Some c \<Rightarrow> pc_event_ids c | None \<Rightarrow> {})"

text \<open>The identifiers a relay returned in some fetches.\<close>

definition returned_by :: "relay_fetch list \<Rightarrow> string \<Rightarrow> string set" where
  "returned_by fetches url = (\<Union>f \<in> set fetches. if rf_relay_url f = url then event_ids (rf_events f) else {})"

lemma in_session_outcome: "outcome (in_session f) s (\<lambda>r s'. \<exists>x. r = Ok x)"
  by (simp add: outcome_def in_session_def split: prod.split)

lemma run_requests_urls:
  "outcome (run_requests sdk timeout requests) s (\<lambda>r s'. \<exists>fs. r = Ok fs
    \<and> rf_relay_url ` set fs \<subseteq> fst ` set requests
    \<and> (distinct (map fst requests) \<longrightarrow> distinct (map rf_relay_url fs)))"
proof (induction requests arbitrary: s)
  case (Cons p requests)
  obtain url request where p: "p = (url, request)" by (cases p)
  show ?case
    unfolding p run_requests.simps
  proof (rule outcome_seqI [OF in_session_outcome])
    fix answer and s1 :: "'a nostr"
    show "outcome (seq (run_requests sdk timeout requests) (\<lambda>fetches. pure (Ok (case answer of
        Some events \<Rightarrow> \<lparr> rf_relay_url = url, rf_events = events \<rparr> # fetches | None \<Rightarrow> fetches)))) s1
      (\<lambda>r s'. \<exists>fs. r = Ok fs \<and> rf_relay_url ` set fs \<subseteq> fst ` set ((url, request) # requests)
        \<and> (distinct (map fst ((url, request) # requests)) \<longrightarrow> distinct (map rf_relay_url fs)))"
      by (rule outcome_seqI [OF Cons.IH]) (auto simp: outcome_pure split: option.split)
  qed auto
qed (simp add: outcome_pure)

lemma receive_since_outcome: "outcome (receive_since_for_relay sdk url) s (\<lambda>r s'. \<exists>x. r = Ok x)"
  by (auto simp: outcome_def receive_since_for_relay_def initial_cursor_def seq_def in_session_def inspect_def modify_def
      split: prod.split)

lemma prepare_requests_urls:
  "outcome (prepare_requests sdk query_now urls) s (\<lambda>r s'. \<exists>rs. r = Ok rs \<and> map fst rs = urls)"
proof (induction urls arbitrary: s)
  case (Cons url urls)
  show ?case
    unfolding prepare_requests.simps
  proof (rule outcome_seqI [OF receive_since_outcome], rule outcome_inspected, goal_cases)
    case (1 since s1)
    show ?case by (rule outcome_seqI [OF Cons.IH]) (auto simp: outcome_pure)
  qed simp_all
qed (simp add: outcome_pure)

lemma fetched_urls:
  "outcome (fetch_events_from_relays sdk urls query_now timeout) s (\<lambda>r s'. \<exists>fs. r = Ok fs
    \<and> rf_relay_url ` set fs \<subseteq> set urls \<and> (distinct urls \<longrightarrow> distinct (map rf_relay_url fs)))"
  unfolding fetch_events_from_relays_def
proof (rule outcome_seqI [OF prepare_requests_urls], goal_cases)
  case (1 requests s1)
  then have "map fst requests = urls" by simp
  then show ?case by (intro outcome_weaken [OF run_requests_urls]) (auto simp flip: set_map)
qed auto

section \<open>Collecting\<close>

definition fresh_events :: "string set \<Rightarrow> relay_fetch \<Rightarrow> nostr_event list" where
  "fresh_events seen f = filter (\<lambda>e. nv_id e \<notin> seen) (rf_events f)"

text \<open>A collected event is kept under its identifier, with the relays that have it.\<close>

definition kept_as :: "string \<Rightarrow> nostr_event \<Rightarrow> string set \<Rightarrow> bool" where
  "kept_as i e rs \<longleftrightarrow> nv_id e = i \<and> rs \<noteq> {} \<and> finite rs"

lemma fold_collect:
  "dom (fold (collect_event url) es m) = dom m \<union> event_ids es"
  "(\<And>i e rs. m i = Some (e, rs) \<Longrightarrow> kept_as i e rs) \<Longrightarrow> fold (collect_event url) es m i = Some (e, rs) \<Longrightarrow> kept_as i e rs"
proof (induction es arbitrary: m)
  case (Cons x es)
  {
    case 1
    show ?case by (simp add: Cons.IH(1)) (auto simp: collect_event_def split: option.splits)
  next
    case 2
    show ?case
      by (rule Cons.IH(2) [of "collect_event url x m"])
        (use 2 in \<open>auto simp: collect_event_def kept_as_def split: option.splits if_splits prod.splits\<close>)
  }
qed auto

text \<open>What has been collected: the events that are not seen, under their identifiers, and for every relay that
  returned something a cursor with its identifiers.\<close>

definition collects :: "string set \<Rightarrow> relay_fetch list \<Rightarrow> collected \<Rightarrow> bool" where
  "collects seen fs c \<longleftrightarrow>
    dom (co_events_by_id c) = (\<Union>f \<in> set fs. event_ids (fresh_events seen f))
    \<and> (\<forall>i e rs. co_events_by_id c i = Some (e, rs) \<longrightarrow> kept_as i e rs)
    \<and> distinct (map fst (co_relay_cursors c))
    \<and> (\<forall>url. cursor_ids (co_relay_cursors c) url =
        (\<Union>f \<in> set fs. if rf_relay_url f = url then event_ids (fresh_events seen f) else {}))"

lemma collectsI:
  assumes "dom (co_events_by_id c) = (\<Union>f \<in> set fs. event_ids (fresh_events seen f))"
    and "\<And>i e rs. co_events_by_id c i = Some (e, rs) \<Longrightarrow> kept_as i e rs"
    and "distinct (map fst (co_relay_cursors c))"
    and "\<And>url. cursor_ids (co_relay_cursors c) url =
        (\<Union>f \<in> set fs. if rf_relay_url f = url then event_ids (fresh_events seen f) else {})"
  shows "collects seen fs c"
  using assms unfolding collects_def by blast

lemma collect_fetch_outcome:
  assumes "collects seen fs c" and "rf_relay_url f \<notin> rf_relay_url ` set fs"
    and "no_seen_event_ids s (no_public_key s) = seen"
  shows "outcome (collect_fetch sdk query_now f c) s (\<lambda>r s'. frame s' = frame s
    \<and> (\<exists>c'. r = Ok c' \<and> collects seen (fs @ [f]) c'))"
proof -
  let ?cand = "case newest_timestamp (rf_events f) of
           None \<Rightarrow> pure (Ok None)
         | Some max_timestamp \<Rightarrow>
             seq (receive_since_for_relay sdk (rf_relay_url f)) (\<lambda>since.
               pure (Ok (Some (next_receive_cursor since query_now max_timestamp))))"
  have cand: "outcome ?cand s (\<lambda>r s'. frame s' = frame s \<and> (\<exists>x. r = Ok x \<and> (x = None \<longleftrightarrow> rf_events f = [])))"
  proof (rule outcome_conj)
    show "outcome ?cand s (\<lambda>r s'. frame s' = frame s)"
      by (rule framed_outcome, intro preserving framed_basic)
    show "outcome ?cand s (\<lambda>r s'. \<exists>x. r = Ok x \<and> (x = None \<longleftrightarrow> rf_events f = []))"
      by (auto simp: newest_timestamp_def outcome_pure intro!: outcome_seqI [OF receive_since_outcome])
  qed
  show ?thesis
    unfolding collect_fetch_def Let_def
  proof (rule outcome_seqI [OF cand], rule outcome_inspected, goal_cases)
    case (1 x s1)
    then have seen: "no_seen_event_ids s1 (no_public_key s1) = seen" using assms(3) by (simp add: frame_def)
    let ?fresh = "filter (\<lambda>e. nv_id e \<notin> seen) (rf_events f)"
    let ?c = "c\<lparr> co_events_by_id := fold (collect_event (rf_relay_url f)) ?fresh (co_events_by_id c) \<rparr>"
    have old: "dom (co_events_by_id c) = (\<Union>f' \<in> set fs. event_ids (fresh_events seen f'))"
      "\<And>i e rs. co_events_by_id c i = Some (e, rs) \<Longrightarrow> kept_as i e rs"
      using assms(1) by (simp_all add: collects_def)
    have "dom (co_events_by_id ?c) = dom (co_events_by_id c) \<union> event_ids (fresh_events seen f)"
      by (simp add: fold_collect(1) fresh_events_def)
    then have events: "dom (co_events_by_id ?c) = (\<Union>f' \<in> set (fs @ [f]). event_ids (fresh_events seen f'))"
      unfolding old(1) by (simp add: Un_commute)
    have keys: "kept_as i e rs" if "co_events_by_id ?c i = Some (e, rs)" for i e rs
      by (rule fold_collect(2) [OF old(2)]) (use that in simp_all)
    have new: "set fs \<inter> {f'. rf_relay_url f' = rf_relay_url f} = {}"
    proof -
      have "rf_relay_url f' \<noteq> rf_relay_url f" if "f' \<in> set fs" for f'
        using assms(2) imageI [OF that, of rf_relay_url] by metis
      then show ?thesis by blast
    qed
    have ids: "nv_id ` set ?fresh = event_ids (fresh_events seen f)" by (simp add: fresh_events_def)
    show ?case
    proof (cases x)
      case None
      then have "fresh_events seen f = []" using 1 by (simp add: fresh_events_def)
      have "collects seen (fs @ [f]) ?c"
        by (rule collectsI [OF events keys])
          (use assms(1) \<open>fresh_events seen f = []\<close> in \<open>simp_all add: collects_def Int_insert_left\<close>)
      then show ?thesis using 1 None by (simp add: outcome_pure seen)
    next
      case (Some candidate)
      let ?c' = "?c\<lparr> co_relay_cursors := AList.update (rf_relay_url f)
           \<lparr> pc_candidate = candidate, pc_event_ids = nv_id ` set ?fresh \<rparr> (co_relay_cursors c) \<rparr>"
      have "collects seen (fs @ [f]) ?c'"
      proof (rule collectsI)
        show "cursor_ids (co_relay_cursors ?c') url =
          (\<Union>f' \<in> set (fs @ [f]). if rf_relay_url f' = url then event_ids (fresh_events seen f') else {})" for url
          using assms(1) unfolding ids
          by (cases "url = rf_relay_url f") (simp_all add: collects_def update_conv' new Int_insert_left)
        show "dom (co_events_by_id ?c') = (\<Union>f \<in> set (fs @ [f]). event_ids (fresh_events seen f))"
          using events by simp
        show "kept_as i e rs" if "co_events_by_id ?c' i = Some (e, rs)" for i e rs
          by (rule keys) (use that in simp)
        show "distinct (map fst (co_relay_cursors ?c'))"
          using assms(1) by (simp add: collects_def distinct_update)
      qed
      then show ?thesis using 1 Some by (simp add: outcome_pure seen)
    qed
  qed auto
qed

lemma collect_fetches_outcome:
  assumes "collects seen fs c" and "distinct (map rf_relay_url (fs @ gs))"
    and "no_seen_event_ids s (no_public_key s) = seen"
  shows "outcome (collect_fetches sdk query_now gs c) s (\<lambda>r s'. frame s' = frame s
    \<and> (\<exists>c'. r = Ok c' \<and> collects seen (fs @ gs) c'))"
  using assms
proof (induction gs arbitrary: fs c s)
  case (Cons g gs)
  have "rf_relay_url g \<notin> rf_relay_url ` set fs" using Cons.prems(2) by auto
  from collect_fetch_outcome [OF Cons.prems(1) this Cons.prems(3)] show ?case
    unfolding collect_fetches.simps
  proof (rule outcome_seqI, goal_cases)
    case (1 c1 s1)
    then have "no_seen_event_ids s1 (no_public_key s1) = seen" using Cons.prems(3) by (simp add: frame_def)
    with 1 show ?case
      using Cons.IH [of "fs @ [g]" c1 s1] Cons.prems(2) by simp
  qed auto
qed (simp add: outcome_pure)

section \<open>Receiving\<close>

text \<open>What the relays return to a call that receives.\<close>

definition receive_fetches :: "'w nostr_sdk \<Rightarrow> u64 \<Rightarrow> ('w, relay_fetch list) nostr_action" where
  "receive_fetches sdk timeout =
    seq (inspect (\<lambda>s. Ok (no_pending_receive_batch s \<noteq> None))) (\<lambda>waiting.
    if waiting then pure (Ok [])
    else seq (in_session (ns_ensure_connected sdk timeout)) (\<lambda>connected.
      if \<not> connected then pure (Ok [])
      else seq (in_session (ns_now sdk)) (\<lambda>query_now.
        seq (configured_relay_urls sdk) (\<lambda>urls. fetch_events_from_relays sdk urls query_now timeout))))"

definition fetched :: "'w nostr_sdk \<Rightarrow> u64 \<Rightarrow> 'w nostr \<Rightarrow> relay_fetch list" where
  "fetched sdk timeout s = (case receive_fetches sdk timeout s of (Ok fs, _) \<Rightarrow> fs | _ \<Rightarrow> [])"

abbreviation item_ids :: "inbound_delivery_item list \<Rightarrow> string set" where
  "item_ids items \<equiv> di_event_id ` set items"

text \<open>A batch that holds exactly the fresh events of the fetches, each once, and their cursors.\<close>

definition batch_of :: "'w nostr_sdk \<Rightarrow> 'w nostr \<Rightarrow> relay_fetch list \<Rightarrow> pending_receive_batch \<Rightarrow> bool" where
  "batch_of sdk s fs p \<longleftrightarrow> (\<exists>c. collects (no_seen_event_ids s (no_public_key s)) fs c
    \<and> pb_relay_cursors p = co_relay_cursors c
    \<and> db_items (pb_batch p) = map (item_of_event sdk (no_secret s) (no_public_key s) (co_events_by_id c))
        (sorted_list_of_set (dom (co_events_by_id c))))"

definition received :: "'w nostr_sdk \<Rightarrow> relay_fetch list \<Rightarrow> 'w nostr
    \<Rightarrow> (transport_error, inbound_delivery_batch) result \<Rightarrow> 'w nostr \<Rightarrow> bool" where
  "received sdk fs s r s' \<longleftrightarrow>
    no_seen_event_ids s' = no_seen_event_ids s \<and> no_public_key s' = no_public_key s \<and> no_secret s' = no_secret s
    \<and> (case r of
         Ok batch \<Rightarrow> (\<exists>p. no_pending_receive_batch s' = Some p \<and> pb_batch p = batch
           \<and> (if no_pending_receive_batch s = None then batch_of sdk s fs p else no_pending_receive_batch s = Some p))
       | Err e \<Rightarrow> fs = [] \<and> no_pending_receive_batch s = None \<and> no_pending_receive_batch s' = None
       | Panic \<Rightarrow> False)"

lemma put_pending_outcome:
  "outcome (put_pending items cursors) s (\<lambda>r s'. no_seen_event_ids s' = no_seen_event_ids s
    \<and> no_public_key s' = no_public_key s \<and> no_secret s' = no_secret s
    \<and> (\<exists>p. r = Ok (pb_batch p) \<and> no_pending_receive_batch s' = Some p
        \<and> db_items (pb_batch p) = items \<and> pb_relay_cursors p = cursors))"
  by (simp add: put_pending_def take_next_receive_batch_id_def outcome_def seq_def inspect_def modify_def Let_def)

lemma collects_Nil: "collects seen [] \<lparr> co_events_by_id = Map.empty, co_relay_cursors = [] \<rparr>"
  by (simp add: collects_def)

lemma batch_of_empty: "db_items (pb_batch p) = [] \<Longrightarrow> pb_relay_cursors p = [] \<Longrightarrow> batch_of sdk s [] p"
  unfolding batch_of_def by (rule exI [of _ "\<lparr> co_events_by_id = Map.empty, co_relay_cursors = [] \<rparr>"]) (simp add: collects_Nil)

lemma receive_outcome:
  assumes urls: "\<And>w. distinct (ns_relay_urls sdk w)"
  shows "outcome (receive_batch_with_timeout sdk timeout) s (received sdk (fetched sdk timeout s) s)"
proof (cases "no_pending_receive_batch s")
  case (Some p)
  then show ?thesis
    by (simp add: receive_batch_with_timeout_def outcome_seq outcome_inspect outcome_pure received_def)
next
  case none: None
  obtain connected w1 where c: "ns_ensure_connected sdk timeout (no_env s) = (connected, w1)" by (rule prod.exhaust)
  show ?thesis
  proof (cases connected)
    case False
    then have "fetched sdk timeout s = []"
      by (simp add: fetched_def receive_fetches_def seq_def inspect_def none in_session_def c)
    moreover have "outcome (put_pending [] []) (s\<lparr> no_env := w1 \<rparr>) (received sdk [] s)"
      by (rule outcome_weaken [OF put_pending_outcome])
        (auto simp: received_def none batch_of_empty)
    ultimately show ?thesis
      using False by (simp add: receive_batch_with_timeout_def outcome_def seq_def inspect_def none in_session_def c)
  next
    case True
    obtain now w2 where n: "ns_now sdk w1 = (now, w2)" by (rule prod.exhaust)
    let ?s = "s\<lparr> no_env := w2 \<rparr>"
    let ?urls = "prioritize_read_relay_urls (ns_relay_urls sdk w2)"
    have "distinct ?urls" using urls by (simp add: prioritize_read_relay_urls_def)
    then have "outcome (fetch_events_from_relays sdk ?urls now timeout) ?s (\<lambda>r s'. frame s' = frame ?s
      \<and> (\<exists>fs. r = Ok fs \<and> (?urls = [] \<longrightarrow> fs = []) \<and> distinct (map rf_relay_url fs)))"
      by (intro outcome_conj framed_outcome framed_fetch outcome_weaken [OF fetched_urls]) auto
    then obtain fs s3 where f: "fetch_events_from_relays sdk ?urls now timeout ?s = (Ok fs, s3)"
      and s3: "frame s3 = frame s" and empty: "?urls = [] \<longrightarrow> fs = []" and urls: "distinct (map rf_relay_url fs)"
      by (auto simp: outcome_def frame_def split: prod.splits)
    have fs: "fetched sdk timeout s = fs"
      using True by (simp add: fetched_def receive_fetches_def configured_relay_urls_def seq_def inspect_def none
          in_session_def c n f)
    have run: "receive_batch_with_timeout sdk timeout s =
      (if fs = [] then (Err ReceiveFailed, if ?urls = [] then ?s else s3)
       else seq (collect_fetches sdk now fs \<lparr> co_events_by_id = Map.empty, co_relay_cursors = [] \<rparr>) (\<lambda>c.
         seq (inspect (\<lambda>s. Ok (map (item_of_event sdk (no_secret s) (no_public_key s) (co_events_by_id c))
              (sorted_list_of_set (dom (co_events_by_id c)))))) (\<lambda>items.
          put_pending items (co_relay_cursors c))) s3)"
      using True empty
      by (auto simp: receive_batch_with_timeout_def receive_new_batch_def configured_relay_urls_def seq_def inspect_def none
          in_session_def c n f pure_def)
    show ?thesis
    proof (cases "fs = []")
      case True
      then show ?thesis using s3 none by (simp add: outcome_def run fs received_def frame_def)
    next
      case False
      have "outcome (seq (collect_fetches sdk now fs \<lparr> co_events_by_id = Map.empty, co_relay_cursors = [] \<rparr>) (\<lambda>c.
         seq (inspect (\<lambda>s. Ok (map (item_of_event sdk (no_secret s) (no_public_key s) (co_events_by_id c))
              (sorted_list_of_set (dom (co_events_by_id c)))))) (\<lambda>items.
          put_pending items (co_relay_cursors c)))) s3 (received sdk fs s)"
      proof (rule outcome_seqI [OF collect_fetches_outcome [where fs = "[]", OF collects_Nil _ refl]], goal_cases)
        case (2 c s4)
        have s4: "no_seen_event_ids s4 = no_seen_event_ids s" "no_public_key s4 = no_public_key s" "no_secret s4 = no_secret s"
          using 2 s3 by (simp_all add: frame_def)
        show ?case
          by (rule outcome_inspected, rule outcome_weaken [OF put_pending_outcome])
            (use 2 s4 s3 none in \<open>auto simp: received_def batch_of_def frame_def\<close>)
      qed (use urls in auto)
      then show ?thesis using False by (simp add: outcome_def run fs)
    qed
  qed
qed

section \<open>Resolving\<close>

abbreviation disposition_of :: "inbound_delivery_resolution list \<Rightarrow> string \<Rightarrow> inbound_delivery_disposition option" where
  "disposition_of rs \<equiv> map_of (map (\<lambda>r. (dr_event_id r, dr_disposition r)) rs)"

text \<open>The resolutions a pending batch accepts: one for each item, of the right kind.\<close>

definition acceptable :: "pending_receive_batch \<Rightarrow> u64 \<Rightarrow> inbound_delivery_resolution list \<Rightarrow> bool" where
  "acceptable p batch_id rs \<longleftrightarrow> db_batch_id (pb_batch p) = batch_id \<and> distinct (map dr_event_id rs)
    \<and> length rs = length (db_items (pb_batch p))
    \<and> (\<forall>item \<in> set (db_items (pb_batch p)). \<exists>d. disposition_of rs (di_event_id item) = Some d
        \<and> resolution_fits (di_payload item) d)"

definition moved :: "(string \<times> pending_relay_cursor) list \<Rightarrow> string set \<Rightarrow> 'w nostr \<Rightarrow> 'w nostr \<Rightarrow> bool" where
  "moved cursors terminal s s' \<longleftrightarrow> (\<forall>url. no_receive_since_by_relay s' url \<noteq> no_receive_since_by_relay s url \<longrightarrow>
    (\<exists>c. map_of cursors url = Some c \<and> pc_event_ids c \<subseteq> terminal))"

lemma commit_outcome_cursor:
  "outcome (commit_receive_cursor_for_relay sdk url candidate) s (\<lambda>r s'. r = Ok ()
    \<and> (\<forall>other. other \<noteq> url \<longrightarrow> no_receive_since_by_relay s' other = no_receive_since_by_relay s other))"
  by (auto simp: commit_receive_cursor_for_relay_def initial_cursor_def outcome_def seq_def in_session_def inspect_def
      modify_def pure_def split: prod.split option.split)

lemma settle_outcome:
  "distinct (map fst cursors) \<Longrightarrow> outcome (settle_cursors sdk terminal retry cursors) s (\<lambda>r s'. moved cursors terminal s s'
    \<and> (\<exists>rem. r = Ok rem \<and> distinct (map fst rem) \<and> fst ` set rem \<subseteq> fst ` set cursors
      \<and> (\<forall>url. cursor_ids rem url = (if cursor_ids cursors url \<subseteq> terminal then {} else cursor_ids cursors url \<inter> retry))))"
proof (induction cursors arbitrary: s)
  case (Cons p cursors)
  obtain url c where p: "p = (url, c)" by (cases p)
  have new: "url \<notin> fst ` set cursors" "map_of cursors url = None" and dist: "distinct (map fst cursors)"
    using Cons.prems p by (auto simp: map_of_eq_None_iff)
  show ?case
  proof (cases "pc_event_ids c \<subseteq> terminal")
    case True
    show ?thesis
      unfolding p settle_cursors.simps if_P [OF True]
    proof (rule outcome_seqI [OF commit_outcome_cursor], goal_cases)
      case (1 u s1)
      show ?case
        by (rule outcome_weaken [OF Cons.IH [OF dist]])
          (use 1 True new in \<open>auto simp: moved_def split: if_splits\<close>)
    qed auto
  next
    case False
    show ?thesis
      unfolding p settle_cursors.simps if_not_P [OF False]
      by (rule outcome_seqI [OF Cons.IH [OF dist]])
        (use False new in \<open>auto simp: moved_def outcome_pure\<close>)
  qed
qed (simp add: outcome_pure moved_def)

abbreviation pending_cursor_ids :: "'w nostr \<Rightarrow> string \<Rightarrow> string set" where
  "pending_cursor_ids s url \<equiv>
    (case no_pending_receive_batch s of Some p \<Rightarrow> cursor_ids (pb_relay_cursors p) url | None \<Rightarrow> {})"

abbreviation terminal_ids :: "inbound_delivery_resolution list \<Rightarrow> string set" where
  "terminal_ids rs \<equiv> with_disposition is_terminal rs"

abbreviation retry_ids :: "inbound_delivery_resolution list \<Rightarrow> string set" where
  "retry_ids rs \<equiv> with_disposition (\<lambda>d. d = Retry) rs"

definition resolved :: "'w nostr_sdk \<Rightarrow> u64 \<Rightarrow> inbound_delivery_resolution list \<Rightarrow> 'w nostr
    \<Rightarrow> (transport_error, unit) result \<Rightarrow> 'w nostr \<Rightarrow> bool" where
  "resolved sdk batch_id rs s r s' \<longleftrightarrow>
    (case r of
       Ok _ \<Rightarrow> (\<exists>p. no_pending_receive_batch s = Some p \<and> acceptable p batch_id rs
         \<and> no_public_key s' = no_public_key s \<and> no_secret s' = no_secret s
         \<and> no_seen_event_ids s' = (no_seen_event_ids s)(no_public_key s :=
             fold remember_seen (ns_order sdk (terminal_ids rs)) (no_seen_event_ids s (no_public_key s)))
         \<and> moved (pb_relay_cursors p) (terminal_ids rs) s s'
         \<and> (if retry_ids rs = {} then no_pending_receive_batch s' = None
             else \<exists>p'. no_pending_receive_batch s' = Some p'
               \<and> db_items (pb_batch p') = filter (\<lambda>item. di_event_id item \<in> retry_ids rs) (db_items (pb_batch p))
               \<and> distinct (map fst (pb_relay_cursors p'))
               \<and> (\<forall>url. cursor_ids (pb_relay_cursors p') url =
                   (if cursor_ids (pb_relay_cursors p) url \<subseteq> terminal_ids rs then {}
                    else cursor_ids (pb_relay_cursors p) url \<inter> retry_ids rs))))
     | Err e \<Rightarrow> s' = s \<and> (\<forall>p. no_pending_receive_batch s = Some p \<longrightarrow> \<not> acceptable p batch_id rs)
     | Panic \<Rightarrow> False)"

lemma put_pending_since:
  "outcome (put_pending items cursors) s (\<lambda>r s'. no_receive_since_by_relay s' = no_receive_since_by_relay s)"
  by (simp add: put_pending_def take_next_receive_batch_id_def outcome_def seq_def inspect_def modify_def Let_def)

lemma resolve_outcome:
  assumes "\<And>p. no_pending_receive_batch s = Some p \<Longrightarrow> distinct (map fst (pb_relay_cursors p))"
  shows "outcome (resolve_receive_batch sdk batch_id rs) s (resolved sdk batch_id rs s)"
proof (cases "no_pending_receive_batch s")
  case None
  then show ?thesis by (simp add: resolve_receive_batch_def outcome_seq outcome_inspect resolved_def)
next
  case (Some p)
  let ?items = "db_items (pb_batch p)"
  let ?refused = "db_batch_id (pb_batch p) \<noteq> batch_id \<or> \<not> distinct (map dr_event_id rs)
    \<or> (length rs \<noteq> length ?items \<or> list_ex (\<lambda>item. disposition_of rs (di_event_id item) = None) ?items)
    \<or> list_ex (\<lambda>item. \<not> resolution_fits (di_payload item) (the (disposition_of rs (di_event_id item)))) ?items"
  let ?s = "s\<lparr> no_seen_event_ids := (no_seen_event_ids s)(no_public_key s :=
            fold remember_seen (ns_order sdk (terminal_ids rs)) (no_seen_event_ids s (no_public_key s))) \<rparr>"
  let ?rest = "seq (settle_cursors sdk (terminal_ids rs) (retry_ids rs) (pb_relay_cursors p)) (\<lambda>remaining.
      if retry_ids rs = {} then modify (\<lambda>s. s\<lparr> no_pending_receive_batch := None \<rparr>)
      else seq (put_pending (filter (\<lambda>item. di_event_id item \<in> retry_ids rs) ?items) remaining) (\<lambda>_. pure (Ok ())))"
  have run: "resolve_receive_batch sdk batch_id rs s = (if ?refused then (Err InvalidMessage, s) else ?rest ?s)"
    by (simp add: resolve_receive_batch_def Let_def seq_def inspect_def Some modify_def)
  have accept: "\<not> ?refused \<longleftrightarrow> acceptable p batch_id rs"
    by (auto simp: acceptable_def list_ex_iff) (metis option.sel)
  show ?thesis
  proof (cases ?refused)
    case True
    then show ?thesis using accept by (simp add: outcome_def run resolved_def Some)
  next
    case False
    have settle: "outcome (settle_cursors sdk (terminal_ids rs) (retry_ids rs) (pb_relay_cursors p)) ?s (\<lambda>r s1.
        frame s1 = frame ?s \<and> moved (pb_relay_cursors p) (terminal_ids rs) ?s s1
        \<and> (\<exists>rem. r = Ok rem \<and> distinct (map fst rem) \<and> fst ` set rem \<subseteq> fst ` set (pb_relay_cursors p)
          \<and> (\<forall>url. cursor_ids rem url = (if cursor_ids (pb_relay_cursors p) url \<subseteq> terminal_ids rs then {}
             else cursor_ids (pb_relay_cursors p) url \<inter> retry_ids rs))))"
      by (intro outcome_conj framed_outcome framed_settle settle_outcome assms [OF Some])
    have "outcome ?rest ?s (resolved sdk batch_id rs s)"
    proof (rule outcome_seqI [OF settle], goal_cases)
      case (1 rem s1)
      have ok: "acceptable p batch_id rs" using False accept by blast
      show ?case
      proof (rule outcome_if, goal_cases)
        case 1
        then show ?case using \<open>frame s1 = frame ?s \<and> _\<close> ok
          by (auto simp: outcome_modify resolved_def Some frame_def moved_def)
      next
        case 2
        show ?case
          by (rule outcome_seqI [OF outcome_conj [OF put_pending_outcome put_pending_since]])
            (use 2 \<open>frame s1 = frame ?s \<and> _\<close> ok in \<open>auto simp: outcome_pure resolved_def Some frame_def moved_def\<close>)
      qed
    qed auto
    then show ?thesis unfolding outcome_def run if_not_P [OF False] .
  qed
qed

section \<open>Sessions\<close>

text \<open>\<open>session_run sdk s offered finished\<close>: a session can be in state \<open>s\<close> when the relays have returned the events
  \<open>offered\<close> and the identifiers \<open>finished\<close> have been resolved as terminal. Events seen by an earlier session
  of the process are finished when it starts.\<close>

inductive session_run :: "'w nostr_sdk \<Rightarrow> 'w nostr \<Rightarrow> (string \<Rightarrow> string set) \<Rightarrow> string set \<Rightarrow> bool" for sdk where
  start: "nostr_new sdk config secret seen w = (Ok s, w') \<Longrightarrow> session_run sdk s (\<lambda>_. {}) (seen (no_public_key s))"
| receive: "session_run sdk s offered finished \<Longrightarrow> receive_batch_with_timeout sdk timeout s = (r, s') \<Longrightarrow>
    session_run sdk s' (\<lambda>url. offered url \<union> returned_by (fetched sdk timeout s) url) finished"
| accept: "session_run sdk s offered finished \<Longrightarrow> resolve_receive_batch sdk batch_id rs s = (Ok u, s') \<Longrightarrow>
    session_run sdk s' offered (finished \<union> terminal_ids rs)"
| refuse: "session_run sdk s offered finished \<Longrightarrow> resolve_receive_batch sdk batch_id rs s = (Err e, s') \<Longrightarrow>
    session_run sdk s' offered finished"
| send: "session_run sdk s offered finished \<Longrightarrow>
    nostr_send_with_receipt_with_timeout sdk envelope timeout s = (sent, s') \<Longrightarrow> session_run sdk s' offered finished"

definition item_ok :: "inbound_delivery_item \<Rightarrow> bool" where
  "item_ok item \<longleftrightarrow> di_observed_by item \<noteq> [] \<and> sorted (di_observed_by item) \<and> distinct (di_observed_by item)
    \<and> (\<forall>reason. di_payload item = AdapterRejectedPayload reason \<longrightarrow>
        reason \<in> {''InvalidMessage'', ''DecodingFailed'', ''SenderMismatch''})"

lemma and_then_eq_Err: "and_then r f = Err e \<longleftrightarrow> r = Err e \<or> (\<exists>x. r = Ok x \<and> f x = Err e)"
  by (cases r) auto

lemma ok_or_eq_Err [simp]: "ok_or x e = Err e' \<longleftrightarrow> x = None \<and> e' = e"
  by (cases x) auto

lemma decode_event_errors:
  "decode_event sdk secret public_key e \<noteq> Panic"
  "decode_event sdk secret public_key e = Err err \<Longrightarrow> err \<in> {InvalidMessage, DecodingFailed, SenderMismatch}"
  by (auto simp: decode_event_def guard_validate_def and_then_eq_Panic and_then_eq_Err split: if_splits)

lemma item_of_event_ok:
  assumes "m i = Some (e, observed)" and "kept_as i e observed"
  shows "item_ok (item_of_event sdk secret public_key m i)"
proof (cases "decode_event sdk secret public_key e")
  case (Err err)
  then show ?thesis
    using assms decode_event_errors(2) [OF Err]
    by (auto simp: item_ok_def item_of_event_def kept_as_def error_name_def)
qed (use assms decode_event_errors in \<open>auto simp: item_ok_def item_of_event_def kept_as_def\<close>)

definition batch_ok :: "'w nostr_sdk \<Rightarrow> 'w nostr \<Rightarrow> pending_receive_batch \<Rightarrow> bool" where
  "batch_ok sdk s p \<longleftrightarrow> sorted (map di_event_id (db_items (pb_batch p)))
    \<and> distinct (map di_event_id (db_items (pb_batch p)))
    \<and> (\<forall>item \<in> set (db_items (pb_batch p)). item_ok item)
    \<and> distinct (map fst (pb_relay_cursors p))
    \<and> (\<forall>url. cursor_ids (pb_relay_cursors p) url \<subseteq> item_ids (db_items (pb_batch p)))
    \<and> (\<forall>item \<in> set (db_items (pb_batch p)). \<forall>m. di_payload item = Envelope m \<longrightarrow>
        (\<exists>e. nv_id e = di_event_id item \<and> decode_event sdk (no_secret s) (no_public_key s) e = Ok m))"

definition session_inv :: "'w nostr_sdk \<Rightarrow> 'w nostr \<Rightarrow> (string \<Rightarrow> string set) \<Rightarrow> string set \<Rightarrow> bool" where
  "session_inv sdk s offered finished \<longleftrightarrow> no_seen_event_ids s (no_public_key s) \<subseteq> finished
    \<and> (\<forall>url. offered url \<subseteq> finished \<union> pending_cursor_ids s url)
    \<and> (\<forall>p. no_pending_receive_batch s = Some p \<longrightarrow> batch_ok sdk s p)"

lemma finite_collected: "collects seen fs c \<Longrightarrow> finite (dom (co_events_by_id c))"
  by (simp add: collects_def)

lemma batch_of_facts:
  assumes "batch_of sdk s fs p" and "no_secret s' = no_secret s" and "no_public_key s' = no_public_key s"
  shows "batch_ok sdk s' p"
    and "cursor_ids (pb_relay_cursors p) url =
      returned_by fs url - no_seen_event_ids s (no_public_key s)"
proof -
  obtain c where c: "collects (no_seen_event_ids s (no_public_key s)) fs c" "pb_relay_cursors p = co_relay_cursors c"
    and items: "db_items (pb_batch p) = map (item_of_event sdk (no_secret s) (no_public_key s) (co_events_by_id c))
        (sorted_list_of_set (dom (co_events_by_id c)))"
    using assms(1) by (auto simp: batch_of_def)
  have ids: "di_event_id (item_of_event sdk a b m i) = i" for a b m i
    by (simp add: item_of_event_def split: prod.split)
  have dom: "set (map di_event_id (db_items (pb_batch p))) = dom (co_events_by_id c)"
    using finite_collected [OF c(1)] by (simp add: items ids comp_def)
  have authentic: "\<exists>e. nv_id e = di_event_id item \<and> decode_event sdk (no_secret s) (no_public_key s) e = Ok m"
    if item: "item \<in> set (db_items (pb_batch p))" and "di_payload item = Envelope m" for item m
  proof -
    obtain i where i: "i \<in> dom (co_events_by_id c)"
      "item = item_of_event sdk (no_secret s) (no_public_key s) (co_events_by_id c) i"
      using item finite_collected [OF c(1)] by (auto simp: items)
    then obtain e observed where e: "co_events_by_id c i = Some (e, observed)" by auto
    then have "nv_id e = i" using c(1) by (auto simp: collects_def kept_as_def)
    then show ?thesis
      using i(2) that(2) by (intro exI [of _ e]) (simp add: item_of_event_def e split: result.splits)
  qed
  have cursors: "cursor_ids (co_relay_cursors c) url =
      (\<Union>f \<in> set fs. if rf_relay_url f = url then event_ids (fresh_events (no_seen_event_ids s (no_public_key s)) f) else {})"
    for url using c(1) by (simp add: collects_def)
  show "cursor_ids (pb_relay_cursors p) url = returned_by fs url - no_seen_event_ids s (no_public_key s)" for url
    unfolding c(2) cursors returned_by_def fresh_events_def by auto
  have within: "cursor_ids (pb_relay_cursors p) url \<subseteq> dom (co_events_by_id c)" for url
    using c(1) unfolding c(2) cursors collects_def by auto
  have "map di_event_id (db_items (pb_batch p)) = sorted_list_of_set (dom (co_events_by_id c))"
    by (simp add: items ids comp_def)
  then have "distinct (map di_event_id (db_items (pb_batch p)))" "sorted (map di_event_id (db_items (pb_batch p)))"
    by simp_all
  moreover have "\<forall>item \<in> set (db_items (pb_batch p)). item_ok item"
  proof
    fix item assume "item \<in> set (db_items (pb_batch p))"
    then obtain i where i: "i \<in> dom (co_events_by_id c)"
      "item = item_of_event sdk (no_secret s) (no_public_key s) (co_events_by_id c) i"
      using finite_collected [OF c(1)] by (auto simp: items)
    then obtain e observed where e: "co_events_by_id c i = Some (e, observed)" by auto
    moreover from this have "kept_as i e observed" using c(1) by (auto simp: collects_def)
    ultimately show "item_ok item" unfolding i(2) by (rule item_of_event_ok)
  qed
  moreover have "distinct (map fst (pb_relay_cursors p))" using c by (simp add: collects_def)
  moreover have "cursor_ids (pb_relay_cursors p) url \<subseteq> item_ids (db_items (pb_batch p))" for url
    using within [of url] unfolding dom [symmetric] by simp
  ultimately show "batch_ok sdk s' p"
    unfolding batch_ok_def assms(2,3) using authentic by blast
qed

lemma batch_ok_cong:
  "no_secret s' = no_secret s \<Longrightarrow> no_public_key s' = no_public_key s \<Longrightarrow> batch_ok sdk s' p = batch_ok sdk s p"
  by (simp add: batch_ok_def)

lemma batch_ok_empty: "batch_ok sdk s \<lparr> pb_batch = \<lparr> db_batch_id = i, db_items = [] \<rparr>, pb_relay_cursors = [] \<rparr>"
  by (simp add: batch_ok_def)


text \<open>What the adapter relies on: the relays of a client are keyed by their address, and a hash set is iterated over
  its elements.\<close>

definition sdk_ok :: "'w nostr_sdk \<Rightarrow> bool" where
  "sdk_ok sdk \<longleftrightarrow> (\<forall>w. distinct (ns_relay_urls sdk w)) \<and> (\<forall>ids. finite ids \<longrightarrow> set (ns_order sdk ids) = ids)"

lemma finite_with_disposition: "finite (with_disposition P rs)"
  unfolding with_disposition_def by simp

lemma remembered: "fold remember_seen ids seen \<subseteq> seen \<union> set ids"
proof (induction ids arbitrary: seen)
  case (Cons i ids)
  have "remember_seen i seen \<subseteq> insert i seen" by (auto simp: remember_seen_def)
  with Cons.IH [of "remember_seen i seen"] show ?case by auto
qed simp

lemma waiting_fetches_nothing: "no_pending_receive_batch s \<noteq> None \<Longrightarrow> fetched sdk timeout s = []"
  by (simp add: fetched_def receive_fetches_def seq_def inspect_def pure_def)

lemma receive_keeps_inv:
  assumes ok: "sdk_ok sdk" and inv: "session_inv sdk s offered finished"
    and run: "receive_batch_with_timeout sdk timeout s = (r, s')"
  shows "session_inv sdk s' (\<lambda>url. offered url \<union> returned_by (fetched sdk timeout s) url) finished"
proof -
  have rcv: "received sdk (fetched sdk timeout s) s r s'"
    by (rule outcomeD [OF receive_outcome run]) (use ok in \<open>simp add: sdk_ok_def\<close>)
  then have same: "no_seen_event_ids s' = no_seen_event_ids s"
    "no_secret s' = no_secret s" "no_public_key s' = no_public_key s" by (simp_all add: received_def)
  show ?thesis
  proof (cases r)
    case (Ok batch)
    then obtain p where p: "no_pending_receive_batch s' = Some p"
      and origin: "if no_pending_receive_batch s = None then batch_of sdk s (fetched sdk timeout s) p
        else no_pending_receive_batch s = Some p"
      using rcv by (auto simp: received_def)
    show ?thesis
    proof (cases "no_pending_receive_batch s")
      case None
      then have "batch_of sdk s (fetched sdk timeout s) p" using origin by simp
      note facts = batch_of_facts [OF this same(2,3)]
      have "offered url \<subseteq> finished" for url using inv None by (simp add: session_inv_def)
      then show ?thesis
        using facts inv by (auto simp: session_inv_def same p)
    next
      case (Some q)
      then show ?thesis
        using inv origin p
        by (simp add: session_inv_def same waiting_fetches_nothing returned_by_def batch_ok_cong [OF same(2,3)])
    qed
  next
    case (Err e)
    then show ?thesis using rcv inv by (simp add: session_inv_def received_def returned_by_def)
  next
    case Panic
    then show ?thesis using rcv by (simp add: received_def)
  qed
qed

text \<open>What a successful resolution does to a session that satisfies the invariant.\<close>

lemma accept_facts:
  assumes "session_inv sdk s offered finished"
    and "resolve_receive_batch sdk batch_id rs s = (Ok u, s')"
  obtains p where "no_pending_receive_batch s = Some p" "batch_ok sdk s p" "resolved sdk batch_id rs s (Ok u) s'"
proof -
  have "resolved sdk batch_id rs s (Ok u) s'"
    by (rule outcomeD [OF resolve_outcome assms(2)]) (use assms(1) in \<open>simp add: session_inv_def batch_ok_def\<close>)
  moreover from this obtain p where "no_pending_receive_batch s = Some p" by (auto simp: resolved_def)
  ultimately show ?thesis using that assms(1) by (auto simp: session_inv_def)
qed

lemma disposition_of_kinds:
  "disposition_of rs i = Some d \<Longrightarrow> i \<in> terminal_ids rs \<union> retry_ids rs"
  by (drule map_of_SomeD) (cases d; force simp: with_disposition_def is_terminal_def)

lemma acceptable_covers:
  "acceptable p batch_id rs \<Longrightarrow> item_ids (db_items (pb_batch p)) \<subseteq> terminal_ids rs \<union> retry_ids rs"
  by (auto simp: acceptable_def dest!: disposition_of_kinds)

lemma batch_ok_retry:
  assumes "batch_ok sdk s p" and "db_items (pb_batch p') = filter (\<lambda>item. di_event_id item \<in> R) (db_items (pb_batch p))"
    and "distinct (map fst (pb_relay_cursors p'))"
    and "\<And>url. cursor_ids (pb_relay_cursors p') url \<subseteq> cursor_ids (pb_relay_cursors p) url \<inter> R"
  shows "batch_ok sdk s p'"
proof -
  have "cursor_ids (pb_relay_cursors p') url \<subseteq> item_ids (db_items (pb_batch p'))" for url
  proof -
    have "cursor_ids (pb_relay_cursors p) url \<subseteq> item_ids (db_items (pb_batch p))"
      using assms(1) unfolding batch_ok_def by blast
    then have "cursor_ids (pb_relay_cursors p) url \<inter> R \<subseteq> item_ids (db_items (pb_batch p'))"
      unfolding assms(2) by auto
    with assms(4) [of url] show ?thesis by (rule subset_trans)
  qed
  then show ?thesis
    using assms(1,3) by (simp add: batch_ok_def assms(2) distinct_map_filter sorted_filter)
qed

lemma accept_keeps_inv:
  assumes ok: "sdk_ok sdk" and inv: "session_inv sdk s offered finished"
    and run: "resolve_receive_batch sdk batch_id rs s = (Ok u, s')"
  shows "session_inv sdk s' offered (finished \<union> terminal_ids rs)"
proof -
  from accept_facts [OF inv run] obtain p where p: "no_pending_receive_batch s = Some p" "batch_ok sdk s p"
    "resolved sdk batch_id rs s (Ok u) s'" .
  then have facts: "acceptable p batch_id rs" "no_public_key s' = no_public_key s" "no_secret s' = no_secret s"
    "no_seen_event_ids s' (no_public_key s') =
      fold remember_seen (ns_order sdk (terminal_ids rs)) (no_seen_event_ids s (no_public_key s))"
    by (simp_all add: resolved_def)
  have seen: "no_seen_event_ids s' (no_public_key s') \<subseteq> finished \<union> terminal_ids rs"
    using remembered [of "ns_order sdk (terminal_ids rs)" "no_seen_event_ids s (no_public_key s)"] ok inv
      finite_with_disposition [of is_terminal rs]
    unfolding facts(4) by (auto simp: sdk_ok_def session_inv_def)
  have offered: "offered url \<subseteq> finished \<union> cursor_ids (pb_relay_cursors p) url" for url
    using inv p(1) by (simp add: session_inv_def)
  have covered: "cursor_ids (pb_relay_cursors p) url \<subseteq> terminal_ids rs \<union> retry_ids rs" for url
    using acceptable_covers [OF facts(1)] p(2) unfolding batch_ok_def by blast
  show ?thesis
  proof (cases "retry_ids rs = {}")
    case True
    then have "no_pending_receive_batch s' = None" using p(1,3) by (simp add: resolved_def)
    moreover have "offered url \<subseteq> finished \<union> terminal_ids rs" for url
      using offered [of url] covered [of url] True by blast
    ultimately show ?thesis using seen by (simp add: session_inv_def)
  next
    case False
    then obtain p' where p': "no_pending_receive_batch s' = Some p'"
      "db_items (pb_batch p') = filter (\<lambda>item. di_event_id item \<in> retry_ids rs) (db_items (pb_batch p))"
      "distinct (map fst (pb_relay_cursors p'))"
      "\<And>url. cursor_ids (pb_relay_cursors p') url = (if cursor_ids (pb_relay_cursors p) url \<subseteq> terminal_ids rs then {}
         else cursor_ids (pb_relay_cursors p) url \<inter> retry_ids rs)"
      using p(1,3) by (auto simp: resolved_def)
    have "batch_ok sdk s p'"
      by (rule batch_ok_retry [OF p(2) p'(2,3)]) (simp add: p'(4))
    moreover have "offered url \<subseteq> finished \<union> terminal_ids rs \<union> cursor_ids (pb_relay_cursors p') url" for url
      unfolding p'(4) using offered [of url] covered [of url] by auto
    ultimately show ?thesis using seen p'(1) by (simp add: session_inv_def batch_ok_cong [OF facts(3,2)])
  qed
qed

lemma framed_send: "preserves (\<lambda>s. frame s = v) (nostr_send_with_receipt_with_timeout sdk envelope timeout)"
proof -
  have session: "preserves (\<lambda>s. frame s = v) (\<lambda>s. in_session (f s) s)" for f :: "'a nostr \<Rightarrow> 'a \<Rightarrow> 'x \<times> 'a"
    by (auto simp: preserves_def outcome_def in_session_def frame_def split: prod.split)
  show ?thesis
    unfolding nostr_send_with_receipt_with_timeout_def encode_message_def serialize_message_def build_signed_event_def
      publish_event_with_timeout_def
    by (intro preserving session framed_basic)
qed


lemma send_keeps_inv:
  assumes "session_inv sdk s offered finished"
    and "nostr_send_with_receipt_with_timeout sdk envelope timeout s = (r, s')"
  shows "session_inv sdk s' offered finished"
proof -
  have "frame s' = frame s" by (rule preservesD [OF framed_send refl assms(2)])
  then have "no_seen_event_ids s' = no_seen_event_ids s" "no_public_key s' = no_public_key s"
    "no_secret s' = no_secret s" "no_pending_receive_batch s' = no_pending_receive_batch s"
    by (simp_all add: frame_def)
  then show ?thesis using assms(1) by (simp add: session_inv_def batch_ok_def)
qed

lemma refused_unchanged:
  "session_inv sdk s offered finished \<Longrightarrow> resolve_receive_batch sdk batch_id rs s = (Err e, s') \<Longrightarrow> s' = s"
  using outcomeD [OF resolve_outcome, of s sdk batch_id rs "Err e" s']
  by (simp add: session_inv_def batch_ok_def resolved_def)

lemma session_run_inv: "session_run sdk s offered finished \<Longrightarrow> sdk_ok sdk \<Longrightarrow> session_inv sdk s offered finished"
proof (induction rule: session_run.induct)
  case (start config secret seen w s w')
  then show ?case
    by (auto simp: nostr_new_def session_inv_def split: option.splits prod.splits if_splits)
next
  case receive
  show ?case by (rule receive_keeps_inv [OF receive.prems receive.IH [OF receive.prems] receive.hyps(2)])
next
  case accept
  show ?case by (rule accept_keeps_inv [OF accept.prems accept.IH [OF accept.prems] accept.hyps(2)])
next
  case refuse
  show ?case
    using refused_unchanged [OF refuse.IH [OF refuse.prems] refuse.hyps(2)] refuse.IH [OF refuse.prems] by simp
next
  case send
  show ?case by (rule send_keeps_inv [OF send.IH [OF send.prems] send.hyps(2)])
qed

section \<open>Properties\<close>

abbreviation waiting_ids :: "'w nostr \<Rightarrow> string set" where
  "waiting_ids s \<equiv>
    (case no_pending_receive_batch s of Some p \<Rightarrow> item_ids (db_items (pb_batch p)) | None \<Rightarrow> {})"

lemma offered_is_tracked:
  assumes "session_inv sdk s offered finished"
  shows "offered url \<subseteq> finished \<union> waiting_ids s"
proof -
  have "pending_cursor_ids s url \<subseteq> waiting_ids s"
  proof (cases "no_pending_receive_batch s")
    case (Some p)
    then have "batch_ok sdk s p" using assms unfolding session_inv_def by blast
    then show ?thesis using Some unfolding batch_ok_def by simp
  qed simp
  moreover have "offered url \<subseteq> finished \<union> pending_cursor_ids s url"
    using assms unfolding session_inv_def by blast
  ultimately show ?thesis by blast
qed

lemma moved_cursor_is_finished:
  assumes "session_inv sdk s offered finished" and "resolve_receive_batch sdk batch_id rs s = (r, s')"
    and "no_receive_since_by_relay s' url \<noteq> no_receive_since_by_relay s url"
  shows "offered url \<subseteq> finished \<union> terminal_ids rs"
proof (cases r)
  case (Ok u)
  from accept_facts [OF assms(1) assms(2) [unfolded Ok]] obtain p where p: "no_pending_receive_batch s = Some p"
    "resolved sdk batch_id rs s (result.Ok u) s'" by metis
  then have "moved (pb_relay_cursors p) (terminal_ids rs) s s'" by (simp add: resolved_def)
  then obtain c where "map_of (pb_relay_cursors p) url = Some c" "pc_event_ids c \<subseteq> terminal_ids rs"
    using assms(3) unfolding moved_def by blast
  then have "cursor_ids (pb_relay_cursors p) url \<subseteq> terminal_ids rs" by simp
  moreover have "offered url \<subseteq> finished \<union> cursor_ids (pb_relay_cursors p) url"
    using assms(1) p(1) by (simp add: session_inv_def)
  ultimately show ?thesis by blast
next
  case (Err e)
  then show ?thesis using refused_unchanged [OF assms(1)] assms(2,3) by blast
next
  case Panic
  then show ?thesis
    using outcomeD [OF resolve_outcome, of s sdk batch_id rs Panic s'] assms(1,2)
    by (simp add: session_inv_def batch_ok_def resolved_def)
qed

definition one_relay :: string where "one_relay = ''wss://relay.damus.io''"

definition relayed_event :: nostr_event where
  "relayed_event = \<lparr> nv_id = ''e1'', nv_pubkey = bfill 1, nv_created_at = 100, nv_kind = APP_EVENT_KIND,
    nv_tags = [\<lparr> ng_kind = ''p'', ng_public_key = Some (bfill 2) \<rparr>], nv_content = [] \<rparr>"

definition sample_envelope :: delivery_envelope where
  "sample_envelope = \<lparr> en_schema_version = 1, en_from = bfill 1, en_to = bfill 2, en_kind = 1, en_payload = [],
    en_timestamp = 100, en_correlation_id = None, en_domain_event = None \<rparr>"

text \<open>One relay that always returns one event, and a cipher that does nothing.\<close>

definition sample_sdk :: "unit nostr_sdk" where
  "sample_sdk = \<lparr> ns_public_key_of = Some, ns_valid_public_key = (\<lambda>_. True), ns_encrypt = (\<lambda>_ _ bs w. (Some bs, w)),
    ns_decrypt = (\<lambda>_ _ bs. Some bs),
    ns_finalize = (\<lambda>k kind content tags w. (Some \<lparr> nv_id = ''e1'', nv_pubkey = k, nv_created_at = 100, nv_kind = kind,
      nv_tags = tags, nv_content = content \<rparr>, w)),
    ns_verify = (\<lambda>_. True), ns_put_envelope = (\<lambda>m. if m = sample_envelope then Some [] else None),
    ns_get_envelope = (\<lambda>_. Some sample_envelope),
    ns_now = Pair 1000, ns_build_client = (\<lambda>_. Pair True), ns_relay_urls = (\<lambda>_. [one_relay]),
    ns_connected_urls = (\<lambda>_. [one_relay]), ns_wait_connected = (\<lambda>_. Pair True),
    ns_ensure_connected = (\<lambda>_. Pair True), ns_budget_left = (\<lambda>_. Some 1),
    ns_publish = (\<lambda>_ e. Pair [(one_relay, RelayAccepted (nv_id e))]),
    ns_fetch = (\<lambda>_ _ _. Pair (Some [relayed_event])), ns_order = sorted_list_of_set \<rparr>"

definition sample_session :: "unit nostr" where
  "sample_session = \<lparr> no_env = (), no_secret = bfill 2, no_public_key = bfill 2, no_publish_timeout_secs = 6,
    no_receive_since_by_relay = (\<lambda>_. None), no_next_receive_batch_id = 1, no_pending_receive_batch = None,
    no_seen_event_ids = (\<lambda>_. {}) \<rparr>"

definition sample_pending :: pending_receive_batch where
  "sample_pending = \<lparr> pb_batch = \<lparr> db_batch_id = 1, db_items = [\<lparr> di_event_id = ''e1'', di_observed_by = [one_relay],
      di_payload = Envelope sample_envelope \<rparr>] \<rparr>,
    pb_relay_cursors = [(one_relay, \<lparr> pc_candidate = 99, pc_event_ids = {''e1''} \<rparr>)] \<rparr>"

lemma sample_sdk_ok: "sdk_ok sample_sdk"
  by (simp add: sdk_ok_def sample_sdk_def)

lemma sample_start: "session_run sample_sdk sample_session (\<lambda>_. {}) {}"
  using session_run.start [of sample_sdk default_config "bfill 2" "\<lambda>_. {}" "()" sample_session "()"]
  by (simp add: nostr_new_def sample_sdk_def sample_session_def default_config_def)

lemma sample_decodes: "decode_event sample_sdk (bfill 2) (bfill 2) relayed_event = Ok sample_envelope"
  by (simp add: decode_event_def sample_sdk_def relayed_event_def sample_envelope_def has_exact_recipient_tag_def
      guard_validate_def guard_for_recipient_def DELIVERY_ENVELOPE_SCHEMA_VERSION_def map_filter_def)

lemma sample_cursor: "sat_sub (1000 :: u64) RECEIVE_LOOKBACK_SECS = 0" "sat_sub (100 :: u64) 1 = 99" "sat_add (1 :: u64) 1 = 2"
  by (simp_all add: sat_sub_def sat_add_def RECEIVE_LOOKBACK_SECS_def)

lemma sample_receive:
  "receive_batch_with_timeout sample_sdk 12 sample_session = (Ok (pb_batch sample_pending),
    sample_session\<lparr> no_receive_since_by_relay := [one_relay \<mapsto> 0], no_next_receive_batch_id := 2,
      no_pending_receive_batch := Some sample_pending \<rparr>)"
  using sample_decodes
  by (simp add: receive_batch_with_timeout_def receive_new_batch_def configured_relay_urls_def fetch_events_from_relays_def
      receive_since_for_relay_def initial_cursor_def put_pending_def take_next_receive_batch_id_def
      collect_fetch_def collect_event_def newest_timestamp_def next_receive_cursor_def item_of_event_def
      seq_def inspect_def modify_def pure_def in_session_def sample_sdk_def sample_session_def sample_pending_def relayed_event_def
      prioritize_read_relay_urls_def Let_def sample_cursor unwrap_or_def)


definition sample_received :: "unit nostr" where
  "sample_received = sample_session\<lparr> no_receive_since_by_relay := [one_relay \<mapsto> 0], no_next_receive_batch_id := 2,
      no_pending_receive_batch := Some sample_pending \<rparr>"

lemma sample_fetched: "fetched sample_sdk 12 sample_session = [\<lparr> rf_relay_url = one_relay, rf_events = [relayed_event] \<rparr>]"
  by (simp add: fetched_def receive_fetches_def configured_relay_urls_def fetch_events_from_relays_def
      receive_since_for_relay_def initial_cursor_def seq_def inspect_def modify_def pure_def in_session_def
      sample_sdk_def sample_session_def prioritize_read_relay_urls_def)

definition sample_offered :: "string \<Rightarrow> string set" where
  "sample_offered url = (if url = one_relay then {''e1''} else {})"

lemma sample_run: "session_run sample_sdk sample_received sample_offered {}"
proof -
  have "(\<lambda>url. {} \<union> returned_by (fetched sample_sdk 12 sample_session) url) = sample_offered"
    by (auto simp: fun_eq_iff sample_fetched returned_by_def sample_offered_def relayed_event_def)
  then show ?thesis
    using session_run.receive [OF sample_start sample_receive] by (simp add: sample_received_def)
qed

definition sample_answer :: "inbound_delivery_disposition \<Rightarrow> inbound_delivery_resolution list" where
  "sample_answer d = [\<lparr> dr_event_id = ''e1'', dr_disposition = d \<rparr>]"

lemma sample_kinds: "terminal_ids (sample_answer d) = (if is_terminal d then {''e1''} else {})"
  "retry_ids (sample_answer d) = (if d = Retry then {''e1''} else {})"
  by (auto simp: with_disposition_def sample_answer_def)

lemma sample_resolve:
  "\<exists>s'. resolve_receive_batch sample_sdk 1 (sample_answer Consumed) sample_received = (Ok (), s')
    \<and> no_receive_since_by_relay s' one_relay = Some 99"
  by (simp add: resolve_receive_batch_def sample_kinds is_terminal_def sample_received_def sample_pending_def
      commit_receive_cursor_for_relay_def seq_def inspect_def modify_def pure_def Let_def resolution_fits_def sample_session_def)
    (simp add: sample_answer_def)

text \<open>C8: No relay event is lost. Whatever the relays answer, in whatever order a session receives, resolves and
  sends, every event a relay ever returned has been resolved for good or is an item of the batch that is handed
  out next; and the cursor of a relay, behind which it is not asked again, moves in a resolution only when
  everything that relay ever returned has been resolved for good.\<close>

theorem relay_events_never_lost:
  assumes "sdk_ok sdk" and "session_run sdk s offered finished"
    and "resolve_receive_batch sdk batch_id rs s = (r, s')"
  shows "offered url \<subseteq> finished \<union> waiting_ids s
    \<and> (no_receive_since_by_relay s' url = no_receive_since_by_relay s url \<or> offered url \<subseteq> finished \<union> terminal_ids rs)"
proof -
  note inv = session_run_inv [OF assms(2,1)]
  show ?thesis
    using offered_is_tracked [OF inv, of url] moved_cursor_is_finished [OF inv assms(3), of url] by blast
qed

lemma relay_events_never_lost_witness:
  "\<exists>s'. session_run sample_sdk sample_received sample_offered {}
    \<and> resolve_receive_batch sample_sdk 1 (sample_answer Consumed) sample_received = (Ok (), s')
    \<and> no_receive_since_by_relay s' one_relay = Some 99
    \<and> sample_offered one_relay \<subseteq> waiting_ids sample_received
    \<and> sample_offered one_relay \<subseteq> terminal_ids (sample_answer Consumed)"
proof -
  obtain s' where run: "resolve_receive_batch sample_sdk 1 (sample_answer Consumed) sample_received = (Ok (), s')"
    and moved: "no_receive_since_by_relay s' one_relay = Some 99" using sample_resolve by blast
  moreover have "no_receive_since_by_relay s' one_relay \<noteq> no_receive_since_by_relay sample_received one_relay"
    by (simp add: moved sample_received_def)
  ultimately show ?thesis
    using relay_events_never_lost [OF sample_sdk_ok sample_run run, of one_relay] sample_run by auto
qed

end
