(* ===== verification/Nostr_Session.thy ===== *)
theory Nostr_Session
  imports Nostr_Delivery Ingress_Batch
begin

text \<open>
  What a Nostr session promises to its callers (adapters/hivra-transport/src/nostr/mod.rs with
  platform/hivra-ffi/src/invitation\_api.rs): the decisions of the receiver are always accepted, what is to be
  retried comes back, the envelopes of a batch are authenticated, what one session encodes another decodes, and
  a receipt names the relay that accepted first.
\<close>

section \<open>Decisions are accepted\<close>

lemma decided_is_acceptable:
  assumes "list_all2 answers (db_items (pb_batch p)) rs" and "distinct (map di_event_id (db_items (pb_batch p)))"
  shows "acceptable p (db_batch_id (pb_batch p)) rs"
proof -
  let ?items = "db_items (pb_batch p)"
  have ids: "map dr_event_id rs = map di_event_id ?items"
    using assms(1) by (induction rule: list_all2_induct) (simp_all add: answers_def)
  have fits: "\<exists>d. disposition_of rs (di_event_id item) = Some d \<and> resolution_fits (di_payload item) d"
    if item: "item \<in> set ?items" for item
  proof -
    obtain k where k: "k < length ?items" "item = ?items ! k" using item by (auto simp: in_set_conv_nth)
    have answer: "answers item (rs ! k)" using list_all2_nthD [OF assms(1) k(1)] k(2) by simp
    have member: "(di_event_id item, dr_disposition (rs ! k)) \<in> set (map (\<lambda>r. (dr_event_id r, dr_disposition r)) rs)"
      using answer k(1) list_all2_lengthD [OF assms(1)]
      by (auto simp: answers_def intro: image_eqI [of _ _ "rs ! k"])
    have "distinct (map fst (map (\<lambda>r. (dr_event_id r, dr_disposition r)) rs))"
      using assms(2) ids by (simp add: comp_def)
    then have "disposition_of rs (di_event_id item) = Some (dr_disposition (rs ! k))"
      using member by (rule map_of_is_SomeI)
    moreover have "resolution_fits (di_payload item) (dr_disposition (rs ! k))"
      using answer by (auto simp: answers_def resolution_fits_def split: inbound_delivery_payload.splits)
    ultimately show ?thesis by blast
  qed
  show ?thesis
    using assms(2) ids list_all2_lengthD [OF assms(1)] fits by (simp add: acceptable_def)
qed

lemma accepted_iff:
  assumes "session_inv sdk s offered finished" and "no_pending_receive_batch s = Some p"
    and "acceptable p batch_id rs"
  obtains s' where "resolve_receive_batch sdk batch_id rs s = (Ok (), s')"
proof -
  obtain r s' where run: "resolve_receive_batch sdk batch_id rs s = (r, s')" by (rule prod.exhaust)
  have "resolved sdk batch_id rs s r s'"
    by (rule outcomeD [OF resolve_outcome run]) (use assms(1) in \<open>simp add: session_inv_def batch_ok_def\<close>)
  then have "r = Ok ()" using assms(2,3) by (cases r) (auto simp: resolved_def)
  with run that show ?thesis by blast
qed

lemma nothing_retried_finishes:
  assumes "session_inv sdk s offered finished" and "resolve_receive_batch sdk batch_id rs s = (Ok u, s')"
    and "retry_ids rs = {}"
  shows "no_pending_receive_batch s' = None"
  using accept_facts [OF assms(1,2)] assms(3) by (auto simp: resolved_def)

text \<open>C9: The receiver and the adapter fit together. Whatever batch a session has handed out, the decisions the
  receiver takes on its items, one for every item and none of them a panic, are a resolution that the adapter
  accepts; and when none of them is a retry, the session waits for nothing more and every event any relay ever
  returned is resolved for good.\<close>

theorem decisions_settle_the_session:
  assumes "sdk_ok sdk" and "session_run sdk s offered finished" and "no_pending_receive_batch s = Some p"
  shows "\<exists>resolutions g' s'. decide_items H U pf cl ql repo local seed now (db_items (pb_batch p)) g
      = (Ok resolutions :: (code, inbound_delivery_resolution list) result, g')
    \<and> resolve_receive_batch sdk (db_batch_id (pb_batch p)) resolutions s = (Ok (), s')
    \<and> (retry_ids resolutions \<noteq> {} \<or>
       (no_pending_receive_batch s' = None \<and> (\<forall>url. offered url \<subseteq> finished \<union> terminal_ids resolutions)))"
proof -
  note inv = session_run_inv [OF assms(2,1)]
  obtain resolutions and g' where decided: "decide_items H U pf cl ql repo local seed now (db_items (pb_batch p)) g
      = (Ok resolutions :: (code, inbound_delivery_resolution list) result, g')"
    and answers: "list_all2 answers (db_items (pb_batch p)) resolutions" using batch_is_answered by blast
  have "distinct (map di_event_id (db_items (pb_batch p)))"
    using inv assms(3) by (simp add: session_inv_def batch_ok_def)
  from decided_is_acceptable [OF answers this] obtain s' where
    run: "resolve_receive_batch sdk (db_batch_id (pb_batch p)) resolutions s = (Ok (), s')"
    by (rule accepted_iff [OF inv assms(3)])
  have "offered url \<subseteq> finished \<union> terminal_ids resolutions" if "retry_ids resolutions = {}" for url
    using session_run_inv [OF session_run.accept [OF assms(2) run] assms(1)]
      nothing_retried_finishes [OF inv run that] by (simp add: session_inv_def)
  with decided run nothing_retried_finishes [OF inv run] show ?thesis by blast
qed

lemma decisions_settle_the_session_witness:
  "\<forall>g. \<exists>resolutions g' s'. decide_items length_hash 8 sample_platform sample_chat sample_codec sample_repository (bfill 2)
      (KeySeed (bfill 9)) 5 (db_items (pb_batch sample_pending)) g
      = (Ok resolutions :: (code, inbound_delivery_resolution list) result, g')
    \<and> resolve_receive_batch sample_sdk 1 resolutions sample_received = (Ok (), s')"
proof -
  have pending: "no_pending_receive_batch sample_received = Some sample_pending" by (simp add: sample_received_def)
  have "db_batch_id (pb_batch sample_pending) = 1" by (simp add: sample_pending_def)
  with decisions_settle_the_session [OF sample_sdk_ok sample_run pending, of length_hash 8 sample_platform sample_chat
      sample_codec sample_repository "bfill 2" "KeySeed (bfill 9)" 5]
  show ?thesis by metis
qed

section \<open>Retries\<close>

text \<open>C10: What is to be retried comes back: after a resolution that asks for retries, receiving returns exactly
  those items, in their order, and does not contact a relay: nothing new is received before they are settled.\<close>

theorem retries_come_back_first:
  assumes "sdk_ok sdk" and "session_run sdk s offered finished" and "no_pending_receive_batch s = Some p"
    and "resolve_receive_batch sdk batch_id rs s = (Ok (), s')" and "retry_ids rs \<noteq> {}"
  shows "\<exists>batch. receive_batch_with_timeout sdk timeout s' = (Ok batch, s')
    \<and> db_items batch = filter (\<lambda>item. disposition_of rs (di_event_id item) = Some Retry) (db_items (pb_batch p))"
proof -
  from accept_facts [OF session_run_inv [OF assms(2,1)] assms(4)] have
    res: "resolved sdk batch_id rs s (Ok ()) s'" by metis
  then obtain p' where p': "no_pending_receive_batch s' = Some p'"
    "db_items (pb_batch p') = filter (\<lambda>item. di_event_id item \<in> retry_ids rs) (db_items (pb_batch p))"
    and ok: "acceptable p batch_id rs" using assms(3,5) by (auto simp: resolved_def)
  have "distinct (map fst (map (\<lambda>r. (dr_event_id r, dr_disposition r)) rs))"
    using ok by (simp add: acceptable_def comp_def)
  then have retry: "di_event_id item \<in> retry_ids rs \<longleftrightarrow> disposition_of rs (di_event_id item) = Some Retry" for item
    by (force simp: with_disposition_def map_of_eq_Some_iff)
  have "db_items (pb_batch p') = filter (\<lambda>item. disposition_of rs (di_event_id item) = Some Retry) (db_items (pb_batch p))"
    unfolding p'(2) by (rule filter_cong [OF refl retry])
  then show ?thesis
    using p'(1) by (simp add: receive_batch_with_timeout_def seq_def inspect_def pure_def)
qed

section \<open>Authenticated envelopes\<close>

text \<open>An event that decodes: of the application's kind, signed, addressed to the receiver alone, encrypted for it,
  and carrying an envelope whose sender is the key that signed the event.\<close>

definition authentic :: "'w nostr_sdk \<Rightarrow> b32 \<Rightarrow> b32 \<Rightarrow> nostr_event \<Rightarrow> delivery_envelope \<Rightarrow> bool" where
  "authentic sdk secret public_key e m \<longleftrightarrow>
    nv_kind e = APP_EVENT_KIND \<and> length (nv_content e) \<le> MAX_NOSTR_EVENT_CONTENT_BYTES \<and> ns_verify sdk e
    \<and> has_exact_recipient_tag e public_key
    \<and> (\<exists>content. ns_decrypt sdk secret (en_from m) (nv_content e) = Some content \<and> ns_get_envelope sdk content = Some m)
    \<and> en_from m = nv_pubkey e \<and> en_to m = public_key \<and> en_schema_version m = DELIVERY_ENVELOPE_SCHEMA_VERSION
    \<and> length (en_payload m) \<le> MAX_DELIVERY_ENVELOPE_PAYLOAD_BYTES"

lemma guard_accepts_iff:
  "guard_validate (guard_for_recipient public_key) m = Ok () \<longleftrightarrow> en_schema_version m = DELIVERY_ENVELOPE_SCHEMA_VERSION
    \<and> en_to m = public_key \<and> length (en_payload m) \<le> MAX_DELIVERY_ENVELOPE_PAYLOAD_BYTES"
  by (simp add: guard_validate_def guard_for_recipient_def)

lemma decode_event_Ok: "decode_event sdk secret public_key e = Ok m \<longleftrightarrow> authentic sdk secret public_key e m"
  by (auto simp: decode_event_def authentic_def guard_validate_def guard_for_recipient_def
      split: option.splits if_splits intro!: exI [of _ m])

text \<open>C11: Only authenticated envelopes are handed out: an envelope in the batch of a session comes from an event
  under the item's identifier that is signed by the sender the envelope names, is addressed to this session's key
  and to no other, decrypts with its secret, and passes the guard of the transport.\<close>

theorem handed_out_envelopes_authentic:
  assumes "sdk_ok sdk" and "session_run sdk s offered finished" and "no_pending_receive_batch s = Some p"
    and "item \<in> set (db_items (pb_batch p))" and "di_payload item = Envelope m"
  shows "\<exists>e. nv_id e = di_event_id item \<and> authentic sdk (no_secret s) (no_public_key s) e m"
proof -
  have "batch_ok sdk s p" using session_run_inv [OF assms(2,1)] assms(3) by (simp add: session_inv_def)
  then show ?thesis using assms(4,5) unfolding batch_ok_def decode_event_Ok by blast
qed

lemma handed_out_envelopes_authentic_witness:
  "\<exists>e. nv_id e = ''e1'' \<and> authentic sample_sdk (bfill 2) (bfill 2) e sample_envelope"
  using handed_out_envelopes_authentic [OF sample_sdk_ok sample_run, of sample_pending
      "hd (db_items (pb_batch sample_pending))" sample_envelope]
  by (simp add: sample_received_def sample_pending_def sample_session_def)

section \<open>Encoding and decoding\<close>

text \<open>What is known of the SDK: a message decrypts for its recipient, and its ciphertext has at most 87472
  characters (NIP-44, for 65535 bytes of plaintext); a finalized event carries what it was built from, its author's
  key and a valid signature; JSON reads back what it wrote.\<close>

definition sdk_codecs :: "'w nostr_sdk \<Rightarrow> bool" where
  "sdk_codecs sdk \<longleftrightarrow>
    (\<forall>a b pa pb plain w c w'. ns_public_key_of sdk a = Some pa \<longrightarrow> ns_public_key_of sdk b = Some pb \<longrightarrow>
      length plain \<le> MAX_NIP44_PLAINTEXT_BYTES \<longrightarrow> ns_encrypt sdk a pb plain w = (Some c, w') \<longrightarrow>
      ns_decrypt sdk b pa c = Some plain \<and> length c \<le> 87472)
    \<and> (\<forall>a kind content tags w e w'. ns_finalize sdk a kind content tags w = (Some e, w') \<longrightarrow>
      ns_public_key_of sdk a = Some (nv_pubkey e) \<and> nv_kind e = kind \<and> nv_content e = content \<and> nv_tags e = tags
      \<and> ns_verify sdk e)
    \<and> (\<forall>m bs. ns_put_envelope sdk m = Some bs \<longrightarrow> ns_get_envelope sdk bs = Some m)"

lemma encode_message_Ok:
  assumes "encode_message sdk m s = (Ok e, s')"
  obtains plain content w w1 w2 where "ns_put_envelope sdk m = Some plain" "length plain \<le> MAX_NIP44_PLAINTEXT_BYTES"
    "ns_encrypt sdk (no_secret s) (en_to m) plain w = (Some content, w1)"
    "ns_finalize sdk (no_secret s) APP_EVENT_KIND content [\<lparr> ng_kind = ''p'', ng_public_key = Some (en_to m) \<rparr>] w1
      = (Some e, w2)"
  using assms
  by (auto simp: encode_message_def serialize_message_def message_tags_def build_signed_event_def seq_def pure_def
      in_session_def not_less split: option.splits if_splits prod.splits result.splits)

text \<open>C12: What one session encodes, the session of the recipient decodes: an envelope of the current schema and
  within the transport's bound, sent under its author's own key, is received as it was sent.\<close>

theorem sent_envelope_decodes:
  assumes "sdk_codecs sdk" and "encode_message sdk m s = (Ok e, s')"
    and "ns_public_key_of sdk (no_secret s) = Some (en_from m)" and "ns_public_key_of sdk secret = Some (en_to m)"
    and "en_schema_version m = DELIVERY_ENVELOPE_SCHEMA_VERSION"
    and "length (en_payload m) \<le> MAX_DELIVERY_ENVELOPE_PAYLOAD_BYTES"
  shows "decode_event sdk secret (en_to m) e = Ok m"
proof -
  let ?tags = "[\<lparr> ng_kind = ''p'', ng_public_key = Some (en_to m) \<rparr>]"
  from encode_message_Ok [OF assms(2)] obtain plain content w w1 w2 where
    put: "ns_put_envelope sdk m = Some plain" and size: "length plain \<le> MAX_NIP44_PLAINTEXT_BYTES"
    and enc: "ns_encrypt sdk (no_secret s) (en_to m) plain w = (Some content, w1)"
    and fin: "ns_finalize sdk (no_secret s) APP_EVENT_KIND content ?tags w1 = (Some e, w2)" .
  have cipher: "ns_decrypt sdk secret (en_from m) content = Some plain" "length content \<le> 87472"
    using assms(1) unfolding sdk_codecs_def using assms(3,4) size enc by blast+
  have event: "nv_pubkey e = en_from m" "nv_kind e = APP_EVENT_KIND" "nv_content e = content" "nv_tags e = ?tags"
    "ns_verify sdk e"
    using assms(1) unfolding sdk_codecs_def using fin assms(3) by fastforce+
  have "ns_get_envelope sdk plain = Some m" using assms(1) put unfolding sdk_codecs_def by blast
  then show ?thesis
    unfolding decode_event_Ok authentic_def using cipher event assms(5,6)
    by (simp add: has_exact_recipient_tag_def map_filter_def MAX_NOSTR_EVENT_CONTENT_BYTES_def
        MAX_DELIVERY_ENVELOPE_PAYLOAD_BYTES_def)
qed


lemma sample_codecs: "sdk_codecs sample_sdk"
  by (simp add: sdk_codecs_def sample_sdk_def MAX_NIP44_PLAINTEXT_BYTES_def)

definition sample_sender :: "unit nostr" where
  "sample_sender = sample_session\<lparr> no_secret := bfill 1, no_public_key := bfill 1 \<rparr>"

lemma sample_encodes:
  "encode_message sample_sdk sample_envelope sample_sender = (Ok relayed_event, sample_sender)"
  by (simp add: encode_message_def serialize_message_def message_tags_def build_signed_event_def seq_def pure_def
      in_session_def sample_sdk_def sample_sender_def sample_session_def sample_envelope_def relayed_event_def)

lemma sent_envelope_decodes_witness:
  "decode_event sample_sdk (bfill 2) (bfill 2) relayed_event = Ok sample_envelope"
proof -
  have "ns_public_key_of sample_sdk (no_secret sample_sender) = Some (en_from sample_envelope)"
    "ns_public_key_of sample_sdk (bfill 2) = Some (en_to sample_envelope)"
    "en_schema_version sample_envelope = DELIVERY_ENVELOPE_SCHEMA_VERSION"
    "length (en_payload sample_envelope) \<le> MAX_DELIVERY_ENVELOPE_PAYLOAD_BYTES"
    by (simp_all add: sample_sdk_def sample_sender_def sample_envelope_def DELIVERY_ENVELOPE_SCHEMA_VERSION_def)
  from sent_envelope_decodes [OF sample_codecs sample_encodes this] show ?thesis by (simp add: sample_envelope_def)
qed

lemma sample_retry:
  "\<exists>s'. resolve_receive_batch sample_sdk 1 (sample_answer Retry) sample_received = (Ok (), s')"
  by (simp add: resolve_receive_batch_def sample_kinds is_terminal_def sample_received_def sample_pending_def
      put_pending_def take_next_receive_batch_id_def seq_def inspect_def modify_def pure_def Let_def resolution_fits_def
      sample_session_def) (simp add: sample_answer_def)

lemma retries_come_back_first_witness:
  "\<exists>batch s'. receive_batch_with_timeout sample_sdk 8 s' = (Ok batch, s') \<and> item_ids (db_items batch) = {''e1''}"
proof -
  have pending: "no_pending_receive_batch sample_received = Some sample_pending" by (simp add: sample_received_def)
  obtain s' where "resolve_receive_batch sample_sdk 1 (sample_answer Retry) sample_received = (Ok (), s')"
    using sample_retry by blast
  moreover have "retry_ids (sample_answer Retry) \<noteq> {}" by (simp add: sample_kinds)
  ultimately obtain batch where "receive_batch_with_timeout sample_sdk 8 s' = (Ok batch, s')"
    "db_items batch = filter (\<lambda>item. disposition_of (sample_answer Retry) (di_event_id item) = Some Retry)
      (db_items (pb_batch sample_pending))"
    using retries_come_back_first [OF sample_sdk_ok sample_run pending, of 1 "sample_answer Retry" s' 8] by blast
  then have "receive_batch_with_timeout sample_sdk 8 s' = (Ok batch, s')" "item_ids (db_items batch) = {''e1''}"
    by (simp_all add: sample_pending_def sample_answer_def)
  then show ?thesis by blast
qed

section \<open>Batches\<close>

text \<open>C13: The batches of a session are well formed: their items are sorted by identifier, each identifier once;
  every item names at least one relay that has it, each once and in order; an item the adapter rejects carries one
  of three reasons; and the cursors, one for each relay, mention only items of the batch.\<close>

theorem batches_well_formed:
  assumes "sdk_ok sdk" and "session_run sdk s offered finished" and "no_pending_receive_batch s = Some p"
  shows "sorted (map di_event_id (db_items (pb_batch p))) \<and> distinct (map di_event_id (db_items (pb_batch p)))
    \<and> (\<forall>item \<in> set (db_items (pb_batch p)). item_ok item)
    \<and> distinct (map fst (pb_relay_cursors p))
    \<and> (\<forall>(url, cursor) \<in> set (pb_relay_cursors p). pc_event_ids cursor \<subseteq> item_ids (db_items (pb_batch p)))"
proof -
  have ok: "batch_ok sdk s p" using session_run_inv [OF assms(2,1)] assms(3) by (simp add: session_inv_def)
  then have dist: "distinct (map fst (pb_relay_cursors p))"
    and within: "\<And>url. cursor_ids (pb_relay_cursors p) url \<subseteq> item_ids (db_items (pb_batch p))"
    unfolding batch_ok_def by blast+
  have "pc_event_ids cursor \<subseteq> item_ids (db_items (pb_batch p))" if "(url, cursor) \<in> set (pb_relay_cursors p)" for url cursor
    using within [of url] map_of_is_SomeI [OF dist that] by simp
  with ok show ?thesis unfolding batch_ok_def by blast
qed

lemma batches_well_formed_witness: "item_ok (hd (db_items (pb_batch sample_pending)))"
  using batches_well_formed [OF sample_sdk_ok sample_run, of sample_pending]
  by (simp add: sample_received_def sample_pending_def)

section \<open>Receipts\<close>

definition acceptances :: "(string \<times> relay_answer) list \<Rightarrow> (string \<times> string) list" where
  "acceptances replies = List.map_filter (\<lambda>(url, answer). case answer of RelayAccepted i \<Rightarrow> Some (url, i) | _ \<Rightarrow> None) replies"

lemma acceptances_simps: "acceptances [] = []"
  "acceptances ((url, answer) # replies) =
    (case answer of RelayAccepted i \<Rightarrow> (url, i) # acceptances replies | _ \<Rightarrow> acceptances replies)"
  by (simp_all add: acceptances_def map_filter_simps split: relay_answer.split)

lemma acceptances_le: "length (acceptances replies) \<le> length replies"
  by (simp add: acceptances_def List.map_filter_def)

lemma gather_answers_eq:
  "\<exists>failures. length failures = length details + (length replies - length (acceptances replies))
    \<and> gather_answers secs replies (first, n, details) =
      ((case first of None \<Rightarrow> (case acceptances replies of [] \<Rightarrow> None | a # _ \<Rightarrow> Some a) | Some a \<Rightarrow> Some a),
       n + of_nat (length (acceptances replies)), failures)"
proof (induction replies arbitrary: first n details)
  case (Cons p replies)
  have le: "length (acceptances replies) \<le> length replies" by (rule acceptances_le)
  obtain url answer where p: "p = (url, answer)" by (cases p)
  show ?case
  proof (cases answer)
    case (RelayAccepted i)
    then show ?thesis
      using Cons.IH [of details "if first = None then Some (url, i) else first" "n + 1"]
      by (cases first) (auto simp: p acceptances_simps algebra_simps)
  next
    case RelayTimedOut
    then show ?thesis
      using Cons.IH [of "details @ [url @ '': timeout after '' @ decimal_text secs @ ''s'']" first n] le
      by (cases first) (auto simp: p acceptances_simps Suc_diff_le)
  next
    case (RelayRefused reason)
    then show ?thesis
      using Cons.IH [of "details @ [url @ '': '' @ reason]" first n] le
      by (cases first) (auto simp: p acceptances_simps Suc_diff_le)
  qed
qed (simp add: acceptances_simps split: option.split)

text \<open>A receipt is given exactly when a relay accepted: it names the first relay that did, the identifier that
  relay stored, the kind and recipient of the envelope and the number of relays that did not accept; when none
  accepted the send is an error, and so it is when no relay is connected or the time is used up.\<close>

theorem receipt_exact:
  assumes "encode_message sdk m s = (Ok e, s1)"
    and "ns_wait_connected sdk (max timeout MIN_PUBLISH_TIMEOUT_SECS) (no_env s1) = (connected, w)"
  shows "fst (nostr_send_with_receipt_with_timeout sdk m timeout s) = Ok receipt \<longleftrightarrow>
    connected \<and> ns_connected_urls sdk w \<noteq> [] \<and> ns_budget_left sdk w \<noteq> None
    \<and> (\<exists>url i rest. acceptances (fst (ns_publish sdk (ns_connected_urls sdk w) e w)) = (url, i) # rest
        \<and> receipt = \<lparr> rt_transport = ''nostr'', rt_accepted_by = url, rt_envelope_id = i, rt_message_kind = en_kind m,
            rt_recipient = bytes (en_to m),
            rt_failed_before_accept = of_nat (length (fst (ns_publish sdk (ns_connected_urls sdk w) e w)) - Suc (length rest)) \<rparr>)"
proof -
  obtain replies w' where pub: "ns_publish sdk (ns_connected_urls sdk w) e w = (replies, w')" by (rule prod.exhaust)
  have run: "nostr_send_with_receipt_with_timeout sdk m timeout s =
    seq (publish_event_with_timeout sdk e timeout) (\<lambda>(accepted_by, envelope_id, failed_before_accept).
      pure (Ok \<lparr> rt_transport = ''nostr'', rt_accepted_by = accepted_by, rt_envelope_id = envelope_id,
        rt_message_kind = en_kind m, rt_recipient = bytes (en_to m),
        rt_failed_before_accept = failed_before_accept \<rparr>)) s1"
    unfolding nostr_send_with_receipt_with_timeout_def by (rule seq_run [of "encode_message sdk m" s e s1, OF assms(1)])
  show ?thesis
  proof (cases "ns_budget_left sdk w")
    case None
    then show ?thesis
      by (simp add: run publish_event_with_timeout_def seq_def in_session_def assms(2) inspect_def pure_def)
  next
    case (Some secs)
    from gather_answers_eq [where details = "[]" and replies = replies and secs = secs and first = None and n = 0] obtain failures where
      g: "length failures = length replies - length (acceptances replies)"
      "gather_answers secs replies (None, 0, []) =
        ((case acceptances replies of [] \<Rightarrow> None | a # _ \<Rightarrow> Some a), of_nat (length (acceptances replies)), failures)"
      by auto
    show ?thesis
      by (cases "acceptances replies")
        (auto simp: run publish_event_with_timeout_def seq_def in_session_def assms(2) inspect_def pure_def Some pub g)
  qed
qed

lemma receipt_exact_witness:
  "\<exists>receipt. fst (nostr_send_with_receipt_with_timeout sample_sdk sample_envelope 3 sample_sender) = Ok receipt
    \<and> rt_accepted_by receipt = one_relay \<and> rt_failed_before_accept receipt = 0"
proof -
  have wait: "ns_wait_connected sample_sdk (max 3 MIN_PUBLISH_TIMEOUT_SECS) (no_env sample_sender) = (True, ())"
    by (simp add: sample_sdk_def)
  show ?thesis
    by (subst receipt_exact [OF sample_encodes wait])
      (simp add: sample_sdk_def acceptances_def map_filter_simps)
qed

end
