(* ===== verification/Seed_Storage.thy ===== *)
theory Seed_Storage
  imports Keystore Utf8
begin

text \<open>
  Where the seed of the active capsule is kept: platform/hivra-keystore/src/macos/mod.rs, a memory cell in front of
  the keychain, and platform/hivra-keystore/src/android/mod.rs, which names the active account in a file and keeps
  the seed behind a Java helper. The keychain and the helper are parameters. Strings are their UTF-8 bytes; the
  texts of errors that come from outside are kept as they are.
\<close>

definition KEYCHAIN_SERVICE :: utf8 where "KEYCHAIN_SERVICE = ascii ''com.hivra.keystore''"
definition LEGACY_KEYCHAIN_ACCOUNT :: utf8 where "LEGACY_KEYCHAIN_ACCOUNT = ascii ''capsule_seed''"
definition ACTIVE_SEED_ACCOUNT :: utf8 where "ACTIVE_SEED_ACCOUNT = ascii ''active_capsule_seed_account''"
definition LEGACY_SEED_FILE :: utf8 where "LEGACY_SEED_FILE = ascii ''capsule_seed''"

section \<open>The keychain of macOS\<close>

datatype keyring_error = NoEntry | KeyringFailure string

record 'k keychain =
  kc_open :: "utf8 \<Rightarrow> utf8 \<Rightarrow> string option"
  kc_get_password :: "utf8 \<Rightarrow> utf8 \<Rightarrow> 'k \<Rightarrow> (keyring_error, utf8) result \<times> 'k"
  kc_delete_credential :: "utf8 \<Rightarrow> utf8 \<Rightarrow> 'k \<Rightarrow> (keyring_error, unit) result \<times> 'k"

record 'k macos_store =
  ms_cache :: "seed option"
  ms_keychain :: 'k

type_synonym ('k, 'a) macos_call = "('k macos_store, keystore_error, 'a) action"

definition map_get_error :: "keyring_error \<Rightarrow> keystore_error" where
  "map_get_error e = (case e of NoEntry \<Rightarrow> KeyNotFound | KeyringFailure text \<Rightarrow> PlatformError text)"

definition on_keychain :: "('k \<Rightarrow> (keyring_error, 'a) result \<times> 'k) \<Rightarrow> ('k, 'a) macos_call" where
  "on_keychain f s = (case f (ms_keychain s) of (r, k) \<Rightarrow> (map_err map_get_error r, s\<lparr> ms_keychain := k \<rparr>))"

definition entry_for_account :: "'k keychain \<Rightarrow> utf8 \<Rightarrow> (keystore_error, unit) result" where
  "entry_for_account kc account =
    (case kc_open kc KEYCHAIN_SERVICE account of Some text \<Rightarrow> Err (PlatformError text) | None \<Rightarrow> Ok ())"

definition get_password :: "'k keychain \<Rightarrow> utf8 \<Rightarrow> ('k, utf8) macos_call" where
  "get_password kc account =
    seq (pure (entry_for_account kc account)) (\<lambda>_. on_keychain (kc_get_password kc KEYCHAIN_SERVICE account))"

definition cache_active_seed :: "seed \<Rightarrow> ('k, unit) macos_call" where
  "cache_active_seed seed = modify (\<lambda>s. s\<lparr> ms_cache := Some seed \<rparr>)"

definition macos_store_seed :: "seed \<Rightarrow> ('k, unit) macos_call" where
  "macos_store_seed seed = cache_active_seed seed"

definition active_seed_account :: "'k keychain \<Rightarrow> ('k, utf8) macos_call" where
  "active_seed_account kc = get_password kc ACTIVE_SEED_ACCOUNT"

definition macos_load_seed_from_account :: "'k keychain \<Rightarrow> utf8 \<Rightarrow> ('k, seed) macos_call" where
  "macos_load_seed_from_account kc account =
    seq (get_password kc account) (\<lambda>encoded.
    seq (pure (decode_hex_32 encoded)) (\<lambda>bytes. pure (Ok (KeySeed bytes))))"

definition macos_load_legacy :: "'k keychain \<Rightarrow> ('k, seed) macos_call" where
  "macos_load_legacy kc =
    seq (get_password kc LEGACY_KEYCHAIN_ACCOUNT) (\<lambda>encoded.
    seq (pure (decode_hex_32 encoded)) (\<lambda>bytes.
    seq (cache_active_seed (KeySeed bytes)) (\<lambda>_. pure (Ok (KeySeed bytes)))))"

definition macos_load_seed :: "'k keychain \<Rightarrow> ('k, seed) macos_call" where
  "macos_load_seed kc =
    seq (inspect (\<lambda>s. Ok (ms_cache s))) (\<lambda>cached.
    case cached of
      Some seed \<Rightarrow> pure (Ok seed)
    | None \<Rightarrow>
        attempt (active_seed_account kc)
          (\<lambda>account.
            if \<not> is_seed_account account
            then pure (Err (PlatformError ''macOS Keychain active seed account is malformed''))
            else attempt (macos_load_seed_from_account kc account)
              (\<lambda>seed. seq (cache_active_seed seed) (\<lambda>_. pure (Ok seed)))
              (\<lambda>e. if e = KeyNotFound then macos_load_legacy kc else pure (Err e)))
          (\<lambda>e. if e = KeyNotFound then macos_load_legacy kc else pure (Err e)))"

definition delete_account_credential :: "'k keychain \<Rightarrow> utf8 \<Rightarrow> ('k, unit) macos_call" where
  "delete_account_credential kc account =
    seq (pure (entry_for_account kc account)) (\<lambda>_.
    seq (attempt (on_keychain (kc_delete_credential kc KEYCHAIN_SERVICE account)) (\<lambda>_. pure (Ok ()))
      (\<lambda>e. if e = KeyNotFound then pure (Ok ()) else pure (Err e))) (\<lambda>_.
    attempt (on_keychain (kc_get_password kc KEYCHAIN_SERVICE account))
      (\<lambda>_. pure (Err (PlatformError ''macOS Keychain credential still exists after deletion'')))
      (\<lambda>e. if e = KeyNotFound then pure (Ok ()) else pure (Err e))))"

definition macos_delete_seed :: "'k keychain \<Rightarrow> ('k, unit) macos_call" where
  "macos_delete_seed kc =
    seq (attempt (active_seed_account kc)
      (\<lambda>account.
        if \<not> is_seed_account account
        then pure (Err (PlatformError ''macOS Keychain active seed account is malformed''))
        else delete_account_credential kc account)
      (\<lambda>e. if e = KeyNotFound then pure (Ok ()) else pure (Err e))) (\<lambda>_.
    seq (delete_account_credential kc ACTIVE_SEED_ACCOUNT) (\<lambda>_.
    seq (delete_account_credential kc LEGACY_KEYCHAIN_ACCOUNT) (\<lambda>_.
      modify (\<lambda>s. s\<lparr> ms_cache := None \<rparr>))))"

definition macos_delete_seed_for :: "(u8 list \<Rightarrow> b32) \<Rightarrow> 'k keychain \<Rightarrow> seed \<Rightarrow> ('k, unit) macos_call" where
  "macos_delete_seed_for H kc seed = delete_account_credential kc (seed_account H seed)"

definition macos_seed_exists :: "'k keychain \<Rightarrow> ('k, bool) macos_call" where
  "macos_seed_exists kc = attempt (macos_load_seed kc) (\<lambda>_. pure (Ok True)) (\<lambda>_. pure (Ok False))"

section \<open>The files of Android\<close>

text \<open>A call of \<open>std::fs\<close> fails because a file is missing or for any other reason.\<close>

datatype file_error = NotFound | FileFailure

definition on_file :: "(fault \<Rightarrow> disk \<Rightarrow> disk) \<Rightarrow> (disk, file_error, 'a) action \<Rightarrow> (disk, file_error, 'a) action" where
  "on_file broken act d =
    (case next_fault d of (Some f, d) \<Rightarrow> (Err FileFailure, broken f d) | (None, d) \<Rightarrow> act d)"

text \<open>\<open>read_to_string\<close> and \<open>trim\<close>; a file that is not UTF-8 is a failure.\<close>

definition read_trimmed :: "path \<Rightarrow> (disk, file_error, utf8) action" where
  "read_trimmed p = on_file (\<lambda>_ d. d)
    (seq (inspect (\<lambda>d. ok_or (dk_files d p) NotFound)) (\<lambda>bs. pure (ok_or (trimmed_text bs) FileFailure)))"

text \<open>\<open>fs::write\<close> truncates the file before it writes; a failure may leave it alone, or a prefix of the content.\<close>

definition write_file :: "path \<Rightarrow> u8 list \<Rightarrow> (disk, file_error, unit) action" where
  "write_file p bs = on_file (\<lambda>f. if survives f p then id else set_file p (Some (take (written f) bs)))
    (modify (set_file p (Some bs)))"

definition remove_path :: "path \<Rightarrow> (disk, file_error, unit) action" where
  "remove_path p = on_file (\<lambda>_ d. d)
    (seq (inspect (\<lambda>d. ok_or (dk_files d p) NotFound)) (\<lambda>_. modify (set_file p None)))"

definition create_directories :: "path \<Rightarrow> (disk, file_error, unit) action" where
  "create_directories p = on_file (\<lambda>_ d. d) (pure (Ok ()))"

text \<open>\<open>Path::join\<close>: an absolute name replaces the directory.\<close>

fun path_components :: "utf8 \<Rightarrow> utf8 \<Rightarrow> path" where
  "path_components part [] = (if part = [] \<or> part = [46] then [] else [part])"
| "path_components part (b # bs) =
    (if b = 47 then (if part = [] \<or> part = [46] then [] else [part]) @ path_components [] bs
     else path_components (part @ [b]) bs)"

definition path_join :: "path \<Rightarrow> utf8 \<Rightarrow> path" where
  "path_join dir name =
    (case name of b # _ \<Rightarrow> (if b = 47 then path_components [] name else dir @ path_components [] name) | [] \<Rightarrow> dir)"

text \<open>The account named in the active file may be empty or \<open>.\<close>, or name a directory above: then \<open>dir.join(account)\<close>
  is the key directory or one above it, which exists, and reading it fails with another error than a missing file.
  The component \<open>..\<close> is not resolved.\<close>

definition read_joined :: "path \<Rightarrow> utf8 \<Rightarrow> (disk, file_error, utf8) action" where
  "read_joined dir name =
    (if under (path_join dir name) dir then on_file (\<lambda>_ d. d) (pure (Err FileFailure))
     else read_trimmed (path_join dir name))"

definition joined_exists :: "path \<Rightarrow> utf8 \<Rightarrow> disk \<Rightarrow> bool" where
  "joined_exists dir name d \<longleftrightarrow> under (path_join dir name) dir \<or> fs_exists (path_join dir name) d"

section \<open>The seed on Android\<close>

text \<open>The helper, reached through JNI: a call returns an error when the Java side cannot be reached.\<close>

record 'k bridge =
  br_store :: "utf8 \<Rightarrow> utf8 \<Rightarrow> 'k \<Rightarrow> (keystore_error, bool) result \<times> 'k"
  br_load :: "utf8 \<Rightarrow> 'k \<Rightarrow> (keystore_error, utf8 option) result \<times> 'k"
  br_delete :: "utf8 \<Rightarrow> 'k \<Rightarrow> (keystore_error, bool) result \<times> 'k"
  br_exists :: "utf8 \<Rightarrow> 'k \<Rightarrow> (keystore_error, bool) result \<times> 'k"

text \<open>\<open>as_files_dir\<close>: whether the path set at start-up is absolute, and its components.\<close>

record 'k android_store =
  as_files_dir :: "(bool \<times> path) option"
  as_disk :: disk
  as_bridge :: 'k

type_synonym ('k, 'a) android_call = "('k android_store, keystore_error, 'a) action"

definition io_error :: "file_error \<Rightarrow> keystore_error" where
  "io_error e = IoError (case e of NotFound \<Rightarrow> ''not found'' | FileFailure \<Rightarrow> ''failed'')"

definition map_io_error :: "file_error \<Rightarrow> keystore_error" where
  "map_io_error e = (case e of NotFound \<Rightarrow> KeyNotFound | FileFailure \<Rightarrow> io_error e)"

definition on_files :: "(disk, file_error, 'a) action \<Rightarrow> ('k android_store, file_error, 'a) action" where
  "on_files f s = (case f (as_disk s) of (r, d) \<Rightarrow> (r, s\<lparr> as_disk := d \<rparr>))"

definition on_bridge :: "('k \<Rightarrow> (keystore_error, 'a) result \<times> 'k) \<Rightarrow> ('k, 'a) android_call" where
  "on_bridge f s = (case f (as_bridge s) of (r, k) \<Rightarrow> (r, s\<lparr> as_bridge := k \<rparr>))"

definition android_keystore_dir :: "bool \<times> path \<Rightarrow> (keystore_error, path) result" where
  "android_keystore_dir files_dir =
    (case files_dir of (is_absolute, path) \<Rightarrow>
      if \<not> is_absolute then Err (PlatformError ''Android app-private files directory must be absolute'')
      else Ok (path_join path (ascii ''hivra-keystore'')))"

definition keystore_dir :: "('k, path) android_call" where
  "keystore_dir =
    seq (inspect (\<lambda>s. ok_or (as_files_dir s)
      (PlatformError ''Android app-private files directory not initialized''))) (\<lambda>files_dir.
      pure (android_keystore_dir files_dir))"

definition android_decode_hex_32 :: "utf8 \<Rightarrow> (keystore_error, b32) result" where
  "android_decode_hex_32 input =
    map_err (\<lambda>e. case e of PlatformError _ \<Rightarrow> PlatformError ''Invalid seed encoding in storage'' | e \<Rightarrow> e)
      (decode_hex_32 input)"

definition remove_file_if_exists :: "path \<Rightarrow> ('k, unit) android_call" where
  "remove_file_if_exists p =
    attempt (on_files (remove_path p)) (\<lambda>_. pure (Ok ()))
      (\<lambda>e. case e of NotFound \<Rightarrow> pure (Ok ()) | FileFailure \<Rightarrow> pure (Err (io_error e)))"

definition android_store_seed :: "(u8 list \<Rightarrow> b32) \<Rightarrow> 'k bridge \<Rightarrow> seed \<Rightarrow> ('k, unit) android_call" where
  "android_store_seed H br seed =
    seq keystore_dir (\<lambda>dir.
    seq (map_error io_error (on_files (create_directories dir))) (\<lambda>_.
    let account = seed_account H seed; encoded = encode_hex (bytes (seed_as_bytes seed)) in
    seq (on_bridge (br_store br account encoded)) (\<lambda>stored.
    if \<not> stored then pure (Err (PlatformError ''Android keystore helper rejected seed write''))
    else map_error io_error (on_files (write_file (path_join dir ACTIVE_SEED_ACCOUNT) account)))))"

text \<open>A seed read from a file of an earlier version is stored anew and the file is removed; both may fail silently.\<close>

definition migrate_file :: "(u8 list \<Rightarrow> b32) \<Rightarrow> 'k bridge \<Rightarrow> path \<Rightarrow> utf8 \<Rightarrow> ('k, seed) android_call" where
  "migrate_file H br dir name =
    seq (map_error map_io_error (on_files (read_joined dir name))) (\<lambda>encoded.
    seq (pure (android_decode_hex_32 encoded)) (\<lambda>bytes.
    let seed = KeySeed bytes; ignore = (\<lambda>m. attempt m (\<lambda>_. pure (Ok ())) (\<lambda>_. pure (Ok ()))) in
    seq (ignore (android_store_seed H br seed)) (\<lambda>_.
    seq (ignore (map_error io_error (on_files (remove_path (path_join dir name))))) (\<lambda>_. pure (Ok seed)))))"

definition android_load_seed_from_account ::
  "(u8 list \<Rightarrow> b32) \<Rightarrow> 'k bridge \<Rightarrow> utf8 \<Rightarrow> ('k, seed) android_call" where
  "android_load_seed_from_account H br account =
    seq (on_bridge (br_load br account)) (\<lambda>blob.
    case blob of
      Some encoded \<Rightarrow>
        seq (pure (android_decode_hex_32 (unwrap_or (trimmed_text encoded) []))) (\<lambda>bytes. pure (Ok (KeySeed bytes)))
    | None \<Rightarrow> seq keystore_dir (\<lambda>dir. migrate_file H br dir account))"

definition android_load_seed :: "(u8 list \<Rightarrow> b32) \<Rightarrow> 'k bridge \<Rightarrow> ('k, seed) android_call" where
  "android_load_seed H br =
    seq keystore_dir (\<lambda>dir.
    let legacy = migrate_file H br dir LEGACY_SEED_FILE in
    attempt (on_files (read_trimmed (path_join dir ACTIVE_SEED_ACCOUNT)))
      (\<lambda>account. attempt (android_load_seed_from_account H br account) (\<lambda>seed. pure (Ok seed))
        (\<lambda>e. if e = KeyNotFound then legacy else pure (Err e)))
      (\<lambda>_. legacy))"

text \<open>\<open>!delete_seed_blob(..)? || seed_blob_exists(..)?\<close>\<close>

definition delete_blob :: "'k bridge \<Rightarrow> utf8 \<Rightarrow> string \<Rightarrow> ('k, unit) android_call" where
  "delete_blob br account complaint =
    seq (on_bridge (br_delete br account)) (\<lambda>deleted.
    if \<not> deleted then pure (Err (PlatformError complaint))
    else seq (on_bridge (br_exists br account)) (\<lambda>found.
      if found then pure (Err (PlatformError complaint)) else pure (Ok ())))"

definition android_delete_seed :: "'k bridge \<Rightarrow> ('k, unit) android_call" where
  "android_delete_seed br =
    seq keystore_dir (\<lambda>dir.
    let active_account_path = path_join dir ACTIVE_SEED_ACCOUNT in
    seq (attempt (on_files (read_trimmed active_account_path)) (\<lambda>account. pure (Ok (Some account)))
      (\<lambda>e. case e of NotFound \<Rightarrow> pure (Ok None) | FileFailure \<Rightarrow> pure (Err (io_error e)))) (\<lambda>active_account.
    seq (case active_account of
           None \<Rightarrow> pure (Ok ())
         | Some account \<Rightarrow>
             if account = [] then pure (Ok ())
             else if \<not> is_seed_account account
             then pure (Err (PlatformError ''Android keystore active seed account is malformed''))
             else seq (delete_blob br account ''Android keystore helper did not delete the active seed'') (\<lambda>_.
               remove_file_if_exists (path_join dir account))) (\<lambda>_.
    seq (remove_file_if_exists active_account_path) (\<lambda>_.
      remove_file_if_exists (path_join dir LEGACY_SEED_FILE)))))"

definition android_delete_seed_for :: "(u8 list \<Rightarrow> b32) \<Rightarrow> 'k bridge \<Rightarrow> seed \<Rightarrow> ('k, unit) android_call" where
  "android_delete_seed_for H br seed =
    seq keystore_dir (\<lambda>dir.
    let account = seed_account H seed; active_account_path = path_join dir ACTIVE_SEED_ACCOUNT in
    seq (delete_blob br account ''Android keystore helper did not delete the requested seed'') (\<lambda>_.
    seq (remove_file_if_exists (path_join dir account)) (\<lambda>_.
    attempt (on_files (read_trimmed active_account_path))
      (\<lambda>active_account. if active_account = account then remove_file_if_exists active_account_path else pure (Ok ()))
      (\<lambda>e. case e of NotFound \<Rightarrow> pure (Ok ()) | FileFailure \<Rightarrow> pure (Err (io_error e))))))"

definition file_there :: "path \<Rightarrow> utf8 \<Rightarrow> ('k, bool) android_call" where
  "file_there dir name = inspect (\<lambda>s. Ok (joined_exists dir name (as_disk s)))"

definition android_seed_exists :: "'k bridge \<Rightarrow> ('k, bool) android_call" where
  "android_seed_exists br =
    attempt keystore_dir
      (\<lambda>dir.
        let legacy = file_there dir LEGACY_SEED_FILE;
            by_file = (\<lambda>account. seq (file_there dir account) (\<lambda>there.
              if there then pure (Ok True) else legacy))
        in attempt (on_files (read_trimmed (path_join dir ACTIVE_SEED_ACCOUNT)))
          (\<lambda>account.
            if account = [] then legacy
            else attempt (on_bridge (br_exists br account))
              (\<lambda>found. if found then pure (Ok True) else by_file account) (\<lambda>_. by_file account))
          (\<lambda>_. legacy))
      (\<lambda>_. pure (Ok False))"

section \<open>The contract of a seed storage\<close>

text \<open>While nothing fails: what is stored is loaded and exists; after a deletion that succeeds nothing is loaded and
  nothing exists. \<open>ready\<close> says of a state that nothing fails.\<close>

locale seed_storage =
  fixes ready :: "'s \<Rightarrow> bool"
    and store :: "seed \<Rightarrow> ('s, keystore_error, unit) action"
    and load :: "('s, keystore_error, seed) action"
    and delete :: "('s, keystore_error, unit) action"
    and exists :: "('s, keystore_error, bool) action"
  assumes store_ready: "ready s \<Longrightarrow> outcome (store seed) s (\<lambda>r s'. r = Ok () \<and> ready s'
      \<and> outcome load s' (\<lambda>r t. r = Ok seed \<and> ready t) \<and> outcome exists s' (\<lambda>r t. r = Ok True \<and> ready t))"
    and delete_ready: "ready s \<Longrightarrow> outcome delete s (\<lambda>r s'. ready s' \<and> (r = Ok () \<longrightarrow>
      outcome load s' (\<lambda>r t. r = Err KeyNotFound \<and> ready t) \<and> outcome exists s' (\<lambda>r t. r = Ok False \<and> ready t)))"
begin

fun store_all :: "seed list \<Rightarrow> ('s, keystore_error, unit) action" where
  "store_all [] = pure (Ok ())"
| "store_all (seed # seeds) = seq (store seed) (\<lambda>_. store_all seeds)"

lemma store_all_ready: "ready s \<Longrightarrow> outcome (store_all seeds) s (\<lambda>r s'. r = Ok () \<and> ready s')"
proof (induction seeds arbitrary: s)
  case (Cons seed seeds)
  show ?case
    unfolding store_all.simps
    by (rule outcome_seqI [OF store_ready [OF Cons.prems]]) (use Cons.IH in auto)
qed (simp add: outcome_pure)

lemma last_store_wins:
  assumes "ready s"
  shows "outcome (store_all (seeds @ [seed])) s (\<lambda>r s'. r = Ok () \<and> outcome load s' (\<lambda>r t. r = Ok seed))"
  using assms
proof (induction seeds arbitrary: s)
  case Nil
  have "outcome (store seed) s (\<lambda>r s'. r = Ok () \<and> outcome load s' (\<lambda>r t. r = Ok seed))"
    by (rule outcome_weaken [OF store_ready [OF Nil]]) (auto elim: outcome_weaken)
  then show ?case unfolding append_Nil store_all.simps by (rule outcome_seqI) (auto simp: outcome_pure)
next
  case (Cons x seeds)
  show ?case
    unfolding append_Cons store_all.simps
    by (rule outcome_seqI [OF store_ready [OF Cons.prems]]) (use Cons.IH in auto)
qed

end

section \<open>The keychain keeps the contract\<close>

text \<open>A keychain that works is a map from accounts to passwords; \<open>view\<close> reads the map.\<close>

definition keychain_ok :: "'k keychain \<Rightarrow> ('k \<Rightarrow> utf8 \<Rightarrow> utf8 option) \<Rightarrow> bool" where
  "keychain_ok kc view \<longleftrightarrow> (\<forall>account. kc_open kc KEYCHAIN_SERVICE account = None)
    \<and> (\<forall>account k. kc_get_password kc KEYCHAIN_SERVICE account k = (ok_or (view k account) NoEntry, k))
    \<and> (\<forall>account k. \<exists>k'. kc_delete_credential kc KEYCHAIN_SERVICE account k
        = (map_err (\<lambda>_. NoEntry) (and_then (ok_or (view k account) ()) (\<lambda>_. Ok ())), k')
        \<and> view k' = (view k)(account := None))"

lemma macos_store: "outcome (macos_store_seed seed) s (\<lambda>r s'. r = Ok () \<and> ms_cache s' = Some seed)"
  by (simp add: macos_store_seed_def cache_active_seed_def outcome_modify)

lemma macos_load_cached: "ms_cache s = Some seed \<Longrightarrow> macos_load_seed kc s = (Ok seed, s)"
  by (simp add: macos_load_seed_def seq_def inspect_def pure_def)

lemma get_password_run:
  "keychain_ok kc view \<Longrightarrow> get_password kc account s = (ok_or (view (ms_keychain s) account) KeyNotFound, s)"
  by (cases "view (ms_keychain s) account")
    (simp_all add: get_password_def entry_for_account_def keychain_ok_def on_keychain_def map_get_error_def)

lemma delete_credential_run:
  assumes "keychain_ok kc view"
  shows "outcome (delete_account_credential kc account) s (\<lambda>r s'. r = Ok () \<and> ms_cache s' = ms_cache s
    \<and> view (ms_keychain s') = (view (ms_keychain s))(account := None))"
proof -
  obtain k' where k': "kc_delete_credential kc KEYCHAIN_SERVICE account (ms_keychain s)
        = (map_err (\<lambda>_. NoEntry) (and_then (ok_or (view (ms_keychain s) account) ()) (\<lambda>_. Ok ())), k')"
      "view k' = (view (ms_keychain s))(account := None)"
    using assms unfolding keychain_ok_def by blast
  have "kc_get_password kc KEYCHAIN_SERVICE account k' = (Err NoEntry, k')" "kc_open kc KEYCHAIN_SERVICE account = None"
    using assms k'(2) by (simp_all add: keychain_ok_def)
  then show ?thesis
    using k'
    by (cases "view (ms_keychain s) account")
      (simp_all add: delete_account_credential_def entry_for_account_def on_keychain_def map_get_error_def outcome_def
        seq_def attempt_def pure_def)
qed

lemma macos_nothing_left:
  assumes "keychain_ok kc view" and "ms_cache s = None" and "view (ms_keychain s) ACTIVE_SEED_ACCOUNT = None"
    and "view (ms_keychain s) LEGACY_KEYCHAIN_ACCOUNT = None"
  shows "macos_load_seed kc s = (Err KeyNotFound, s)"
  using get_password_run [OF assms(1)] assms(2-4)
  by (simp add: macos_load_seed_def active_seed_account_def macos_load_legacy_def seq_def inspect_def attempt_def)

lemma macos_delete:
  assumes "keychain_ok kc view"
  shows "outcome (macos_delete_seed kc) s (\<lambda>r s'. r = Ok () \<longrightarrow> macos_load_seed kc s' = (Err KeyNotFound, s'))"
proof -
  let ?rest = "seq (delete_account_credential kc ACTIVE_SEED_ACCOUNT) (\<lambda>_.
    seq (delete_account_credential kc LEGACY_KEYCHAIN_ACCOUNT) (\<lambda>_. modify (\<lambda>s. s\<lparr> ms_cache := None \<rparr>)))"
  have distinct_accounts: "ACTIVE_SEED_ACCOUNT \<noteq> LEGACY_KEYCHAIN_ACCOUNT"
    by (simp add: ACTIVE_SEED_ACCOUNT_def LEGACY_KEYCHAIN_ACCOUNT_def ascii_def)
  have rest: "outcome ?rest s1 (\<lambda>r s'. r = Ok () \<longrightarrow> macos_load_seed kc s' = (Err KeyNotFound, s'))" for s1
  proof (rule outcome_seqI [OF delete_credential_run [OF assms]], rule outcome_seqI [OF delete_credential_run [OF assms]],
      goal_cases)
    case (1 _ s2 _ s3)
    then show ?case
      using distinct_accounts by (auto simp: outcome_modify intro!: macos_nothing_left [OF assms])
  qed auto
  have "outcome (seq m (\<lambda>_. ?rest)) s (\<lambda>r s'. r = Ok () \<longrightarrow> macos_load_seed kc s' = (Err KeyNotFound, s'))"
    for m :: "('a, unit) macos_call"
  proof -
    have "outcome m s (\<lambda>_ _. True)" by (simp add: outcome_def)
    then show ?thesis by (rule outcome_seqI) (simp_all add: rest)
  qed
  then show ?thesis unfolding macos_delete_seed_def .
qed

interpretation macos: seed_storage "\<lambda>s. keychain_ok kc view" macos_store_seed "macos_load_seed kc"
    "macos_delete_seed kc" "macos_seed_exists kc" for kc view
proof
  show "outcome (macos_store_seed seed) s (\<lambda>r s'. r = Ok () \<and> keychain_ok kc view
      \<and> outcome (macos_load_seed kc) s' (\<lambda>r t. r = Ok seed \<and> keychain_ok kc view)
      \<and> outcome (macos_seed_exists kc) s' (\<lambda>r t. r = Ok True \<and> keychain_ok kc view))"
    if "keychain_ok kc view" for s seed
    by (rule outcome_weaken [OF macos_store])
      (use that in \<open>simp add: outcome_def macos_load_cached macos_seed_exists_def attempt_def pure_def\<close>)
  show "outcome (macos_delete_seed kc) s (\<lambda>r s'. keychain_ok kc view \<and> (r = Ok () \<longrightarrow>
      outcome (macos_load_seed kc) s' (\<lambda>r t. r = Err KeyNotFound \<and> keychain_ok kc view)
      \<and> outcome (macos_seed_exists kc) s' (\<lambda>r t. r = Ok False \<and> keychain_ok kc view)))"
    if "keychain_ok kc view" for s
    by (rule outcome_weaken [OF macos_delete [OF that]])
      (use that in \<open>simp add: outcome_def macos_seed_exists_def attempt_def pure_def\<close>)
qed

section \<open>The storage of Android keeps the contract\<close>

text \<open>A helper that works is a map from accounts to texts.\<close>

definition bridge_ok :: "'k bridge \<Rightarrow> ('k \<Rightarrow> utf8 \<Rightarrow> utf8 option) \<Rightarrow> bool" where
  "bridge_ok br view \<longleftrightarrow>
    (\<forall>account text k. \<exists>k'. br_store br account text k = (Ok True, k') \<and> view k' = (view k)(account \<mapsto> text))
    \<and> (\<forall>account k. br_load br account k = (Ok (view k account), k))
    \<and> (\<forall>account k. \<exists>k'. br_delete br account k = (Ok True, k') \<and> view k' = (view k)(account := None))
    \<and> (\<forall>account k. br_exists br account k = (Ok (view k account \<noteq> None), k))"

definition no_faults :: "'k android_store \<Rightarrow> bool" where
  "no_faults s \<longleftrightarrow> dk_faults (as_disk s) = [] \<and> (\<exists>path. as_files_dir s = Some (True, path))"

definition seed_dir :: "'k android_store \<Rightarrow> path" where
  "seed_dir s = path_join (snd (the (as_files_dir s))) (ascii ''hivra-keystore'')"

abbreviation seed_file :: "'k android_store \<Rightarrow> utf8 \<Rightarrow> u8 list option" where
  "seed_file s name \<equiv> dk_files (as_disk s) (path_join (seed_dir s) name)"

definition update_file :: "path \<Rightarrow> u8 list option \<Rightarrow> 'k android_store \<Rightarrow> 'k android_store" where
  "update_file p content s = s\<lparr> as_disk := set_file p content (as_disk s) \<rparr>"

lemma update_file_facts [simp]:
  "no_faults (update_file p content s) = no_faults s" "seed_dir (update_file p content s) = seed_dir s"
  "dk_files (as_disk (update_file p content s)) = (dk_files (as_disk s))(p := content)"
  "as_bridge (update_file p content s) = as_bridge s"
  by (simp_all add: update_file_def no_faults_def seed_dir_def set_file_def)

lemma bridge_facts [simp]:
  "no_faults (s\<lparr> as_bridge := k \<rparr>) = no_faults s" "seed_dir (s\<lparr> as_bridge := k \<rparr>) = seed_dir s"
  by (simp_all add: no_faults_def seed_dir_def)

lemma keystore_dir_run: "no_faults s \<Longrightarrow> keystore_dir s = (Ok (seed_dir s), s)"
  by (auto simp: no_faults_def keystore_dir_def seed_dir_def android_keystore_dir_def seq_def inspect_def pure_def)

lemma file_runs:
  assumes "no_faults s"
  shows "on_files (read_trimmed p) s = ((case dk_files (as_disk s) p of None \<Rightarrow> Err NotFound
      | Some bs \<Rightarrow> ok_or (trimmed_text bs) FileFailure), s)"
    and "on_files (write_file p bs) s = (Ok (), update_file p (Some bs) s)"
    and "on_files (remove_path p) s = (if dk_files (as_disk s) p = None then (Err NotFound, s)
      else (Ok (), update_file p None s))"
    and "on_files (create_directories p) s = (Ok (), s)"
  using assms
  by (auto simp: no_faults_def on_files_def on_file_def next_fault_def read_trimmed_def write_file_def remove_path_def
      create_directories_def update_file_def seq_def inspect_def modify_def pure_def split: option.split)

lemma remove_if_exists_run: "no_faults s \<Longrightarrow> remove_file_if_exists p s = (Ok (), update_file p None s)"
  by (simp add: remove_file_if_exists_def attempt_def file_runs pure_def update_file_def set_file_def fun_upd_idem)

lemma hex_text: "is_ascii_hexdigit b \<Longrightarrow> b < 0x80 \<and> [b] \<notin> white_space"
  by (auto simp: is_ascii_hexdigit_def white_space_def word_le_nat_alt word_less_nat_alt)

lemma encoded_is_hex: "list_all is_ascii_hexdigit (encode_hex bs)"
proof -
  have "list_all is_ascii_hexdigit HEX" by (simp add: HEX_def ascii_def is_ascii_hexdigit_def)
  then have "is_ascii_hexdigit (HEX ! i)" if "i < 16" for i
    using that by (simp add: list_all_length HEX_def ascii_def)
  then show ?thesis using byte_nibbles_small by (auto simp: encode_hex_def list_all_iff)
qed

lemma hex_trimmed: "trimmed_text (encode_hex bs) = Some (encode_hex bs)"
  by (rule ascii_text_trimmed) (use encoded_is_hex [of bs] hex_text in \<open>auto simp: list_all_iff\<close>)

lemma account_trimmed:
  assumes "is_seed_account account"
  shows "trimmed_text account = Some account"
proof (rule ascii_text_trimmed)
  define digest where "digest = drop (length SEED_ACCOUNT_PREFIX) account"
  have account: "account = SEED_ACCOUNT_PREFIX @ digest"
    using assms append_take_drop_id [of "length SEED_ACCOUNT_PREFIX" account]
    by (simp add: is_seed_account_def digest_def)
  have "list_all (\<lambda>b. b < 0x80 \<and> [b] \<notin> white_space) SEED_ACCOUNT_PREFIX"
    by (simp add: SEED_ACCOUNT_PREFIX_def ascii_def white_space_def)
  moreover have "list_all (\<lambda>b. b < 0x80 \<and> [b] \<notin> white_space) digest"
    using assms hex_text by (auto simp: is_seed_account_def digest_def list_all_iff)
  ultimately show "list_all (\<lambda>b. b < 0x80 \<and> [b] \<notin> white_space) account" by (simp add: account)
qed

lemma decode_encoded: "android_decode_hex_32 (encode_hex (bytes b)) = Ok b"
  using hex_seed_codec_exact by (simp add: android_decode_hex_32_def)

lemma file_names_differ:
  "path_join dir ACTIVE_SEED_ACCOUNT \<noteq> path_join dir LEGACY_SEED_FILE"
  by (simp add: path_join_def ACTIVE_SEED_ACCOUNT_def LEGACY_SEED_FILE_def ascii_def)

lemma legacy_file_below [simp]:
  "\<not> under (path_join dir LEGACY_SEED_FILE) dir"
  "read_joined dir LEGACY_SEED_FILE = read_trimmed (path_join dir LEGACY_SEED_FILE)"
  "joined_exists dir LEGACY_SEED_FILE = fs_exists (path_join dir LEGACY_SEED_FILE)"
proof -
  show below: "\<not> under (path_join dir LEGACY_SEED_FILE) dir"
    by (auto simp: under_def path_join_def LEGACY_SEED_FILE_def ascii_def dest: arg_cong [of _ _ length])
  then show "read_joined dir LEGACY_SEED_FILE = read_trimmed (path_join dir LEGACY_SEED_FILE)"
    "joined_exists dir LEGACY_SEED_FILE = fs_exists (path_join dir LEGACY_SEED_FILE)"
    by (simp_all add: read_joined_def joined_exists_def fun_eq_iff)
qed

lemma store_run:
  assumes "no_faults s" and "br_store br (seed_account H seed) (encode_hex (bytes (seed_as_bytes seed))) (as_bridge s) = (Ok True, k)"
  shows "android_store_seed H br seed s =
    (Ok (), update_file (path_join (seed_dir s) ACTIVE_SEED_ACCOUNT) (Some (seed_account H seed)) (s\<lparr> as_bridge := k \<rparr>))"
  using assms
  by (simp add: android_store_seed_def seq_def map_error_def keystore_dir_run file_runs on_bridge_def Let_def)

lemma load_account_run:
  assumes "no_faults s" and "bridge_ok br view" and "seed_file s ACTIVE_SEED_ACCOUNT = Some (seed_account H seed)"
    and "view (as_bridge s) (seed_account H seed) = Some (encode_hex (bytes (seed_as_bytes seed)))"
  shows "android_load_seed H br s = (Ok seed, s)" and "android_seed_exists br s = (Ok True, s)"
proof -
  have trim: "trimmed_text (seed_account H seed) = Some (seed_account H seed)"
    by (rule account_trimmed [OF seed_account_accepted])
  have br: "br_load br (seed_account H seed) (as_bridge s) = (Ok (Some (encode_hex (bytes (seed_as_bytes seed)))), as_bridge s)"
    "br_exists br (seed_account H seed) (as_bridge s) = (Ok True, as_bridge s)"
    using assms(2,4) by (simp_all add: bridge_ok_def)
  show "android_load_seed H br s = (Ok seed, s)"
    using assms(1,3)
    by (simp add: android_load_seed_def android_load_seed_from_account_def seq_def attempt_def keystore_dir_run file_runs
        on_bridge_def br trim hex_trimmed decode_encoded pure_def Let_def unwrap_or_def)
  have "seed_account H seed \<noteq> []" by (simp add: seed_account_def SEED_ACCOUNT_PREFIX_def ascii_def)
  then show "android_seed_exists br s = (Ok True, s)"
    using assms(1,3)
    by (simp add: android_seed_exists_def attempt_def keystore_dir_run file_runs on_bridge_def br trim pure_def Let_def)
qed

lemma nothing_left_run:
  assumes "no_faults s" and "seed_file s ACTIVE_SEED_ACCOUNT = None" and "seed_file s LEGACY_SEED_FILE = None"
  shows "android_load_seed H br s = (Err KeyNotFound, s)" and "android_seed_exists br s = (Ok False, s)"
  using assms
  by (simp_all add: android_load_seed_def android_seed_exists_def migrate_file_def seq_def attempt_def map_error_def
      keystore_dir_run file_runs map_io_error_def file_there_def fs_exists_def inspect_def pure_def Let_def)

definition android_ready :: "'k bridge \<Rightarrow> ('k \<Rightarrow> utf8 \<Rightarrow> utf8 option) \<Rightarrow> 'k android_store \<Rightarrow> bool" where
  "android_ready br view s \<longleftrightarrow> bridge_ok br view \<and> no_faults s"

lemma android_store_ready:
  assumes "android_ready br view s"
  shows "\<exists>s'. android_store_seed H br seed s = (Ok (), s') \<and> android_ready br view s'
    \<and> android_load_seed H br s' = (Ok seed, s') \<and> android_seed_exists br s' = (Ok True, s')"
proof -
  let ?text = "encode_hex (bytes (seed_as_bytes seed))" and ?account = "seed_account H seed"
  have faults: "no_faults s" and br: "bridge_ok br view" using assms by (simp_all add: android_ready_def)
  obtain k where k: "br_store br ?account ?text (as_bridge s) = (Ok True, k)"
    "view k = (view (as_bridge s))(?account \<mapsto> ?text)"
    using br unfolding bridge_ok_def by blast
  let ?s = "update_file (path_join (seed_dir s) ACTIVE_SEED_ACCOUNT) (Some ?account) (s\<lparr> as_bridge := k \<rparr>)"
  have "android_load_seed H br ?s = (Ok seed, ?s)" "android_seed_exists br ?s = (Ok True, ?s)"
    by (rule load_account_run [where H = H and seed = seed, OF _ br]; simp add: faults k(2))+
  then show ?thesis using store_run [where s = s and br = br, OF faults k(1)] faults br by (simp add: android_ready_def)
qed

lemma remove_both_run:
  assumes "no_faults s"
  shows "seq (remove_file_if_exists (path_join (seed_dir s) ACTIVE_SEED_ACCOUNT)) (\<lambda>_.
      remove_file_if_exists (path_join (seed_dir s) LEGACY_SEED_FILE)) s =
    (Ok (), update_file (path_join (seed_dir s) LEGACY_SEED_FILE) None
      (update_file (path_join (seed_dir s) ACTIVE_SEED_ACCOUNT) None s))"
  using assms by (simp add: seq_def remove_if_exists_run)

lemma delete_blob_run:
  assumes "bridge_ok br view"
  obtains k where "delete_blob br account complaint s = (Ok (), s\<lparr> as_bridge := k \<rparr>)"
proof -
  obtain k where "br_delete br account (as_bridge s) = (Ok True, k)" "view k = (view (as_bridge s))(account := None)"
    using assms unfolding bridge_ok_def by blast
  moreover from this have "br_exists br account k = (Ok False, k)" using assms by (simp add: bridge_ok_def)
  ultimately show ?thesis by (intro that) (simp add: delete_blob_def seq_def on_bridge_def pure_def)
qed

text \<open>A deletion that succeeds removes both files.\<close>

definition both_gone :: "('k android_store \<Rightarrow> bool) \<Rightarrow> (keystore_error, unit) result \<times> 'k android_store \<Rightarrow> bool" where
  "both_gone ready = (\<lambda>(r, s'). ready s' \<and> (r = Ok () \<longrightarrow>
    seed_file s' ACTIVE_SEED_ACCOUNT = None \<and> seed_file s' LEGACY_SEED_FILE = None))"

lemma android_delete_gone:
  assumes "android_ready br view s"
  shows "both_gone (android_ready br view) (android_delete_seed br s)"
proof -
  have faults: "no_faults s" and br: "bridge_ok br view" using assms by (simp_all add: android_ready_def)
  let ?active = "path_join (seed_dir s) ACTIVE_SEED_ACCOUNT" and ?legacy = "path_join (seed_dir s) LEGACY_SEED_FILE"
  let ?rest = "seq (remove_file_if_exists ?active) (\<lambda>_. remove_file_if_exists ?legacy)"
  have gone: "both_gone (android_ready br view) (?rest s1)" if "no_faults s1" "seed_dir s1 = seed_dir s" for s1
    unfolding remove_both_run [OF that(1), unfolded that(2)] using that br
    by (simp add: both_gone_def android_ready_def file_names_differ)
  note start = android_delete_seed_def seq_def attempt_def keystore_dir_run [OF faults] file_runs [OF faults] Let_def pure_def
  show ?thesis
  proof (cases "seed_file s ACTIVE_SEED_ACCOUNT")
    case None
    then show ?thesis using gone [OF faults refl] by (simp add: start)
  next
    case (Some bs)
    show ?thesis
    proof (cases "trimmed_text bs")
      case None
      then show ?thesis using Some assms by (simp add: start both_gone_def)
    next
      case account: (Some account)
      obtain k where k: "delete_blob br account ''Android keystore helper did not delete the active seed'' s
          = (Ok (), s\<lparr> as_bridge := k \<rparr>)" by (rule delete_blob_run [OF br])
      let ?s = "update_file (path_join (seed_dir s) account) None (s\<lparr> as_bridge := k \<rparr>)"
      have "both_gone (android_ready br view) (?rest ?s)" by (rule gone) (simp_all add: faults)
      moreover have "both_gone (android_ready br view) (?rest s)" by (rule gone [OF faults refl])
      moreover have "both_gone (android_ready br view) (Err e, s)" for e using assms by (simp add: both_gone_def)
      moreover have "remove_file_if_exists (path_join (seed_dir s) account) (s\<lparr> as_bridge := k \<rparr>) = (Ok (), ?s)"
        by (rule remove_if_exists_run) (simp add: faults)
      ultimately show ?thesis using Some account k by (simp add: start)
    qed
  qed
qed

interpretation android: seed_storage "android_ready br view" "android_store_seed H br" "android_load_seed H br"
    "android_delete_seed br" "android_seed_exists br" for H br view
proof
  show "outcome (android_store_seed H br seed) s (\<lambda>r s'. r = Ok () \<and> android_ready br view s'
      \<and> outcome (android_load_seed H br) s' (\<lambda>r t. r = Ok seed \<and> android_ready br view t)
      \<and> outcome (android_seed_exists br) s' (\<lambda>r t. r = Ok True \<and> android_ready br view t))"
    if "android_ready br view s" for s seed
    using android_store_ready [OF that, of H seed] by (auto simp: outcome_def)
  show "outcome (android_delete_seed br) s (\<lambda>r s'. android_ready br view s' \<and> (r = Ok () \<longrightarrow>
      outcome (android_load_seed H br) s' (\<lambda>r t. r = Err KeyNotFound \<and> android_ready br view t)
      \<and> outcome (android_seed_exists br) s' (\<lambda>r t. r = Ok False \<and> android_ready br view t)))"
    if "android_ready br view s" for s
  proof -
    obtain r s' where run: "android_delete_seed br s = (r, s')" by (rule prod.exhaust)
    have gone: "android_ready br view s'" "r = Ok () \<Longrightarrow> seed_file s' ACTIVE_SEED_ACCOUNT = None"
      "r = Ok () \<Longrightarrow> seed_file s' LEGACY_SEED_FILE = None"
      using android_delete_gone [OF that] by (simp_all add: run both_gone_def)
    then have "no_faults s'" by (simp add: android_ready_def)
    with gone show ?thesis by (simp add: outcome_def run nothing_left_run)
  qed
qed

section \<open>The migration of an old seed file\<close>

text \<open>C38: A seed in the file of an earlier version is lost when the helper refuses to store it: loading it succeeds
  and removes the file, and from then on no seed is found.\<close>

theorem refused_migration_loses_seed:
  assumes "no_faults s" and "seed_file s ACTIVE_SEED_ACCOUNT = None" and "seed_file s LEGACY_SEED_FILE = Some (encode_hex (bytes b))"
    and "br_store br (seed_account H (KeySeed b)) (encode_hex (bytes b)) (as_bridge s) = (Ok False, k)"
  shows "\<exists>s'. android_load_seed H br s = (Ok (KeySeed b), s')
    \<and> android_load_seed H br s' = (Err KeyNotFound, s') \<and> android_seed_exists br s' = (Ok False, s')"
proof -
  let ?s = "update_file (path_join (seed_dir s) LEGACY_SEED_FILE) None (s\<lparr> as_bridge := k \<rparr>)"
  have refused: "android_store_seed H br (KeySeed b) s =
    (Err (PlatformError ''Android keystore helper rejected seed write''), s\<lparr> as_bridge := k \<rparr>)"
    using assms(1,4)
    by (simp add: android_store_seed_def seq_def map_error_def keystore_dir_run file_runs on_bridge_def Let_def pure_def)
  have "android_load_seed H br s = (Ok (KeySeed b), ?s)"
    using assms
    by (simp add: android_load_seed_def migrate_file_def seq_def attempt_def map_error_def keystore_dir_run file_runs
        hex_trimmed decode_encoded refused pure_def Let_def)
  moreover have "android_load_seed H br ?s = (Err KeyNotFound, ?s)" "android_seed_exists br ?s = (Ok False, ?s)"
    by (rule nothing_left_run; simp add: assms file_names_differ)+
  ultimately show ?thesis by blast
qed

text \<open>\<open>fs::write\<close> truncates the active account file before it writes it. When the process dies in between, the file is
  empty; \<open>seed_exists\<close> and \<open>delete_seed\<close> treat that as no account, \<open>load_seed\<close> reads the key directory and fails,
  also when the seed is in the file of an earlier version.\<close>

lemma torn_account_blocks_loading:
  assumes "no_faults s" and "seed_file s ACTIVE_SEED_ACCOUNT = Some []" and "seed_file s LEGACY_SEED_FILE = Some bs"
    and "br_load br [] (as_bridge s) = (Ok None, as_bridge s)"
  shows "android_load_seed H br s = (Err (IoError ''failed''), s) \<and> android_seed_exists br s = (Ok True, s)"
proof -
  have trim: "trimmed_text [] = Some []" by code_simp
  have "read_joined (seed_dir s) [] = on_file (\<lambda>_ d. d) (pure (Err FileFailure))"
    by (simp add: read_joined_def path_join_def under_def)
  moreover have "on_files (on_file (\<lambda>_ d. d) (pure (Err FileFailure))) s = (Err FileFailure, s)"
    using assms(1) by (auto simp: on_files_def on_file_def next_fault_def pure_def no_faults_def)
  ultimately have dir: "on_files (read_joined (seed_dir s) []) s = (Err FileFailure, s)" by simp
  show ?thesis
    using assms
    by (simp add: android_load_seed_def android_load_seed_from_account_def android_seed_exists_def migrate_file_def seq_def
        attempt_def map_error_def keystore_dir_run file_runs on_bridge_def trim dir map_io_error_def io_error_def
        file_there_def fs_exists_def inspect_def pure_def Let_def)
qed

definition map_bridge :: "(utf8 \<Rightarrow> utf8 option) bridge" where
  "map_bridge = \<lparr> br_store = (\<lambda>account text k. (Ok True, k(account \<mapsto> text))), br_load = (\<lambda>account k. (Ok (k account), k)),
    br_delete = (\<lambda>account k. (Ok True, k(account := None))), br_exists = (\<lambda>account k. (Ok (k account \<noteq> None), k)) \<rparr>"

definition old_install :: "(utf8 \<Rightarrow> utf8 option) android_store" where
  "old_install = \<lparr> as_files_dir = Some (True, [ascii ''files'']),
    as_disk = \<lparr> dk_files = [path_join [ascii ''files'', ascii ''hivra-keystore''] LEGACY_SEED_FILE
      \<mapsto> encode_hex (bytes (bfill 7 :: b32))], dk_faults = [] \<rparr>, as_bridge = Map.empty \<rparr>"

lemma refused_migration_loses_seed_witness:
  "\<forall>H. \<exists>s'. android_load_seed H (map_bridge\<lparr> br_store := \<lambda>_ _ k. (Ok False, k) \<rparr>) old_install = (Ok (KeySeed (bfill 7)), s')
    \<and> android_load_seed H (map_bridge\<lparr> br_store := \<lambda>_ _ k. (Ok False, k) \<rparr>) s' = (Err KeyNotFound, s')"
proof -
  let ?br = "map_bridge\<lparr> br_store := \<lambda>_ _ k. (Ok False, k) \<rparr>"
  have dir: "seed_dir old_install = [ascii ''files'', ascii ''hivra-keystore'']"
    by (simp add: seed_dir_def old_install_def path_join_def ascii_def)
  have facts: "no_faults old_install" "seed_file old_install ACTIVE_SEED_ACCOUNT = None"
    "seed_file old_install LEGACY_SEED_FILE = Some (encode_hex (bytes (bfill 7 :: b32)))"
    "br_store ?br (seed_account H (KeySeed (bfill 7))) (encode_hex (bytes (bfill 7 :: b32))) (as_bridge old_install)
      = (Ok False, Map.empty)" for H
    unfolding dir by (simp_all add: no_faults_def old_install_def file_names_differ)
  show ?thesis using refused_migration_loses_seed [OF facts] by blast
qed

end
