(* ===== verification/Seed_Calls.thy ===== *)
theory Seed_Calls
  imports Seed_Storage Capsule_Api
begin

text \<open>
  The exported calls on the seed (platform/hivra-ffi/src/seed\_api.rs) over a seed storage
  (platform/hivra-keystore): proved once for every storage that keeps the contract, then for Android and macOS.
\<close>

section \<open>A storage as the calls see it\<close>

definition seed_store_of :: "(seed \<Rightarrow> ('s, keystore_error, unit) action) \<Rightarrow> ('s, keystore_error, unit) action
    \<Rightarrow> (seed \<Rightarrow> ('s, keystore_error, unit) action) \<Rightarrow> ('s, keystore_error, bool) action \<Rightarrow> 's seed_store" where
  "seed_store_of store delete delete_for exists =
    \<lparr> ss_store = (\<lambda>seed w. case store seed w of (r, w') \<Rightarrow> (r = Ok (), w')),
      ss_delete = (\<lambda>w. case delete w of (r, w') \<Rightarrow> (r = Ok (), w')),
      ss_delete_for = (\<lambda>seed w. case delete_for seed w of (r, w') \<Rightarrow> (r = Ok (), w')),
      ss_exists = (\<lambda>w. case exists w of (r, w') \<Rightarrow> (r = Ok True, w')) \<rparr>"

definition seed_source :: "('s, keystore_error, seed) action \<Rightarrow> 's \<Rightarrow> seed option \<times> 's" where
  "seed_source load w = (case load w of (r, w') \<Rightarrow> (ok r, w'))"

context seed_storage
begin

lemma saved_is_loaded:
  assumes "ready (fs_env s)" and "pf_load_seed pf = seed_source load"
  shows "\<exists>s'. hivra_seed_save (seed_store_of store delete delete_for exists) (Some b) s = (Ok 0, s')
    \<and> ready (fs_env s') \<and> fst (hivra_seed_load pf True s') = Ok b
    \<and> fst (hivra_seed_exists (seed_store_of store delete delete_for exists) s') = Ok 1"
proof -
  obtain r w where run: "store (KeySeed b) (fs_env s) = (r, w)" by (rule prod.exhaust)
  have facts: "r = Ok ()" "ready w" "outcome load w (\<lambda>r t. r = Ok (KeySeed b) \<and> ready t)"
    "outcome exists w (\<lambda>r t. r = Ok True \<and> ready t)"
    using outcomeD [OF store_ready [OF assms(1)] run] by simp_all
  obtain w1 where l: "load w = (Ok (KeySeed b), w1)" using facts(3) by (auto simp: outcome_def split: prod.splits)
  obtain w2 where e: "exists w = (Ok True, w2)" using facts(4) by (auto simp: outcome_def split: prod.splits)
  show ?thesis
    using facts(1,2)
    by (simp add: hivra_seed_save_def hivra_seed_load_def hivra_seed_exists_def argument_def succeeded_def out_pointer_def
        load_seed_def with_error_def sample_with_def in_env_def seed_store_of_def seed_source_def assms(2) seq_def pure_def run l e)
qed

lemma deleted_is_gone:
  assumes "ready (fs_env s)" and "pf_load_seed pf = seed_source load"
    and "hivra_seed_delete (seed_store_of store delete delete_for exists) s = (Ok 0, s')"
  shows "fst (hivra_seed_load pf True s') = Err (- 1)
    \<and> fst (hivra_seed_exists (seed_store_of store delete delete_for exists) s') = Ok 0"
proof -
  obtain r w where run: "delete (fs_env s) = (r, w)" by (rule prod.exhaust)
  have s': "r = Ok ()" "s' = s\<lparr> fs_env := w \<rparr>"
    using assms(3)
    by (auto simp: hivra_seed_delete_def succeeded_def sample_with_def in_env_def seed_store_of_def seq_def pure_def run
        split: if_splits)
  have facts: "outcome load w (\<lambda>r t. r = Err KeyNotFound \<and> ready t)" "outcome exists w (\<lambda>r t. r = Ok False \<and> ready t)"
    using outcomeD [OF delete_ready [OF assms(1)] run] s'(1) by simp_all
  obtain w1 where l: "load w = (Err KeyNotFound, w1)" using facts(1) by (auto simp: outcome_def split: prod.splits)
  obtain w2 where e: "exists w = (Ok False, w2)" using facts(2) by (auto simp: outcome_def split: prod.splits)
  show ?thesis
    by (simp add: s' hivra_seed_load_def hivra_seed_exists_def out_pointer_def
        load_seed_def with_error_def sample_with_def in_env_def seed_store_of_def seed_source_def assms(2) seq_def pure_def l e)
qed

end

section \<open>Android and macOS\<close>

abbreviation android_seeds :: "(u8 list \<Rightarrow> b32) \<Rightarrow> 'k bridge \<Rightarrow> 'k android_store seed_store" where
  "android_seeds H br \<equiv> seed_store_of (android_store_seed H br) (android_delete_seed br) (android_delete_seed_for H br)
    (android_seed_exists br)"

abbreviation macos_seeds :: "(u8 list \<Rightarrow> b32) \<Rightarrow> 'k keychain \<Rightarrow> 'k macos_store seed_store" where
  "macos_seeds H kc \<equiv> seed_store_of macos_store_seed (macos_delete_seed kc) (macos_delete_seed_for H kc)
    (macos_seed_exists kc)"

text \<open>C36: A seed that the application saves is the seed it loads afterwards, on Android while the helper and the
  files work, on macOS while the keychain works.\<close>

theorem saved_seed_is_loaded:
  assumes "android_ready br view (fs_env s)" and "pf_load_seed pf = seed_source (android_load_seed H br)"
    and "keychain_ok kc view'" and "pf_load_seed pf' = seed_source (macos_load_seed kc)"
  shows "(\<exists>s'. hivra_seed_save (android_seeds H br) (Some b) s = (Ok 0, s')
      \<and> fst (hivra_seed_load pf True s') = Ok b \<and> fst (hivra_seed_exists (android_seeds H br) s') = Ok 1)
    \<and> (\<exists>t'. hivra_seed_save (macos_seeds H kc) (Some b) t = (Ok 0, t')
      \<and> fst (hivra_seed_load pf' True t') = Ok b \<and> fst (hivra_seed_exists (macos_seeds H kc) t') = Ok 1)"
  using android.saved_is_loaded [OF assms(1,2)] macos.saved_is_loaded [OF assms(3,4)] by blast

text \<open>C37: After the application deleted the seed successfully no seed is loaded and none exists, on Android while
  the helper and the files work, on macOS while the keychain works.\<close>

theorem deleted_seed_is_gone:
  assumes "android_ready br view (fs_env s)" and "pf_load_seed pf = seed_source (android_load_seed H br)"
    and "hivra_seed_delete (android_seeds H br) s = (Ok 0, s')"
    and "keychain_ok kc view'" and "pf_load_seed pf' = seed_source (macos_load_seed kc)"
    and "hivra_seed_delete (macos_seeds H kc) t = (Ok 0, t')"
  shows "fst (hivra_seed_load pf True s') = Err (- 1) \<and> fst (hivra_seed_exists (android_seeds H br) s') = Ok 0
    \<and> fst (hivra_seed_load pf' True t') = Err (- 1) \<and> fst (hivra_seed_exists (macos_seeds H kc) t') = Ok 0"
  using android.deleted_is_gone [OF assms(1-3)] macos.deleted_is_gone [OF assms(4-6)] by blast

definition map_keychain :: "(utf8 \<Rightarrow> utf8 option) keychain" where
  "map_keychain = \<lparr> kc_open = (\<lambda>_ _. None),
    kc_get_password = (\<lambda>_ account k. (ok_or (k account) NoEntry, k)),
    kc_delete_credential = (\<lambda>_ account k.
      (map_err (\<lambda>_. NoEntry) (and_then (ok_or (k account) ()) (\<lambda>_. Ok ())), k(account := None))) \<rparr>"

definition android_process :: "(utf8 \<Rightarrow> utf8 option) android_store ffi_state" where
  "android_process = \<lparr> fs_capsule = None, fs_last_engine_ts = 0, fs_env = old_install \<rparr>"

definition macos_process :: "(utf8 \<Rightarrow> utf8 option) macos_store ffi_state" where
  "macos_process = \<lparr> fs_capsule = None, fs_last_engine_ts = 0,
    fs_env = \<lparr> ms_cache = None, ms_keychain = Map.empty \<rparr> \<rparr>"

definition seed_platform :: "('w \<Rightarrow> seed option \<times> 'w) \<Rightarrow> 'w platform" where
  "seed_platform f = \<lparr> pf_lib = sample_crypto, pf_wall_clock = (\<lambda>w. (Some 5, w)), pf_fill_32 = (\<lambda>w. (bfill 0, w)),
      pf_load_seed = f, pf_parse_ledger = (\<lambda>_. None), pf_ledger_bytes = (\<lambda>_. None), pf_clear_transports = id \<rparr>"

lemma working_samples:
  "android_ready map_bridge id (fs_env android_process)" "keychain_ok map_keychain id"
  "pf_load_seed (seed_platform f) = f"
  by (simp_all add: android_ready_def bridge_ok_def map_bridge_def no_faults_def android_process_def old_install_def
      keychain_ok_def map_keychain_def seed_platform_def)

lemma saved_seed_is_loaded_witness:
  "\<exists>s'. hivra_seed_save (android_seeds length_hash map_bridge) (Some (bfill 3)) android_process = (Ok 0, s')
    \<and> fst (hivra_seed_load (seed_platform (seed_source (android_load_seed length_hash map_bridge))) True s') = Ok (bfill 3)"
  using saved_seed_is_loaded [OF working_samples(1,3,2,3), of length_hash "bfill 3"] by blast

lemma deleted_seed_is_gone_witness:
  "\<exists>t'. hivra_seed_delete (macos_seeds length_hash map_keychain) macos_process = (Ok 0, t')
    \<and> fst (hivra_seed_load (seed_platform (seed_source (macos_load_seed map_keychain))) True t') = Err (- 1)"
proof -
  have android: "\<exists>s'. hivra_seed_delete (android_seeds length_hash map_bridge) android_process = (Ok 0, s')"
    by (simp add: hivra_seed_delete_def succeeded_def sample_with_def in_env_def seed_store_of_def android_process_def
        old_install_def map_bridge_def android_delete_seed_def keystore_dir_def android_keystore_dir_def path_join_def
        ACTIVE_SEED_ACCOUNT_def LEGACY_SEED_FILE_def ascii_def on_files_def read_trimmed_def on_file_def next_fault_def
        remove_file_if_exists_def remove_path_def seq_def attempt_def inspect_def modify_def pure_def Let_def)
  have macos: "\<exists>t'. hivra_seed_delete (macos_seeds length_hash map_keychain) macos_process = (Ok 0, t')"
    by (simp add: hivra_seed_delete_def succeeded_def sample_with_def in_env_def seed_store_of_def macos_process_def
        map_keychain_def macos_delete_seed_def active_seed_account_def get_password_def entry_for_account_def
        delete_account_credential_def on_keychain_def map_get_error_def seq_def attempt_def inspect_def modify_def pure_def)
  from android macos obtain s' t' where
    "hivra_seed_delete (android_seeds length_hash map_bridge) android_process = (Ok 0, s')"
    "hivra_seed_delete (macos_seeds length_hash map_keychain) macos_process = (Ok 0, t')" by blast
  from deleted_seed_is_gone [OF working_samples(1,3) this(1) working_samples(2,3) this(2)] this(2) show ?thesis by blast
qed

end
