(* ===== verification/Plugin_Runtime.thy ===== *)
theory Plugin_Runtime
  imports Utf8 Event
begin

text \<open>
  Plugins: platform/hivra-wasm-runtime/src/lib.rs, which runs one entry point of a WebAssembly module under fixed
  limits, and its exported call platform/hivra-ffi/src/plugin\_runtime\_api.rs. The interpreter is a parameter
  (\<open>wasm_engine\<close>); the record of the calls made into the guest is kept besides its store.
\<close>

section \<open>Limits and errors\<close>

definition ALLOC_EXPORT :: string where "ALLOC_EXPORT = ''hivra_alloc_v1''"
definition DEALLOC_EXPORT :: string where "DEALLOC_EXPORT = ''hivra_dealloc_v1''"
definition MAX_MODULE_BYTES :: nat where "MAX_MODULE_BYTES = 4 * 1024 * 1024"
definition MAX_INPUT_BYTES :: nat where "MAX_INPUT_BYTES = 512 * 1024"
definition MAX_OUTPUT_BYTES :: nat where "MAX_OUTPUT_BYTES = 128 * 1024"
definition MAX_LINEAR_MEMORY_BYTES :: nat where "MAX_LINEAR_MEMORY_BYTES = 128 * 1024 * 1024"
definition FUEL_LIMIT :: u64 where "FUEL_LIMIT = 16000000"

datatype runtime_error =
    ModuleTooLarge
  | InputTooLarge
  | InvalidModule string
  | ImportsNotAllowed
  | InstantiationFailed string
  | ExportMissing string
  | EntryExportMissing
  | SignatureMismatch string
  | FuelSetupFailed string
  | AllocationFailed
  | MemoryAccessFailed string
  | ExecutionFailed string
  | OutputInvalid
  | OutputTooLarge

definition runtime_error_text :: "runtime_error \<Rightarrow> string" where
  "runtime_error_text e =
    (case e of
       ModuleTooLarge \<Rightarrow> ''WASM module exceeds the size limit''
     | InputTooLarge \<Rightarrow> ''WASM input exceeds the size limit''
     | InvalidModule text \<Rightarrow> ''invalid WASM module: '' @ text
     | ImportsNotAllowed \<Rightarrow> ''WASM imports are not allowed''
     | InstantiationFailed text \<Rightarrow> ''WASM instantiation failed: '' @ text
     | ExportMissing name \<Rightarrow> ''required WASM export missing: '' @ name
     | EntryExportMissing \<Rightarrow> ''configured WASM entry export missing''
     | SignatureMismatch name \<Rightarrow> ''WASM export signature mismatch: '' @ name
     | FuelSetupFailed text \<Rightarrow> ''WASM fuel setup failed: '' @ text
     | AllocationFailed \<Rightarrow> ''WASM allocation failed''
     | MemoryAccessFailed text \<Rightarrow> ''WASM memory access failed: '' @ text
     | ExecutionFailed text \<Rightarrow> ''WASM execution failed: '' @ text
     | OutputInvalid \<Rightarrow> ''WASM output pointer or length is invalid''
     | OutputTooLarge \<Rightarrow> ''WASM output exceeds the size limit'')"

section \<open>The interpreter\<close>

datatype wasm_signature = TakesU32GivesU32 | TakesTwoU32 | TakesTwoU32GivesU64

record ('m, 's) wasm_engine =
  we_module :: "u8 list \<Rightarrow> (string, 'm) result"
  we_has_imports :: "'m \<Rightarrow> bool"
  we_new_store :: "nat \<Rightarrow> 'm \<Rightarrow> 's"
  we_set_fuel :: "u64 \<Rightarrow> 's \<Rightarrow> (string, unit) result \<times> 's"
  we_instantiate :: "'m \<Rightarrow> 's \<Rightarrow> (string, unit) result \<times> 's"
  we_has_memory :: "'s \<Rightarrow> bool"
  we_has_function :: "'s \<Rightarrow> string \<Rightarrow> wasm_signature \<Rightarrow> bool"
  we_alloc :: "u32 \<Rightarrow> 's \<Rightarrow> (string, u32) result \<times> 's"
  we_dealloc :: "u32 \<Rightarrow> u32 \<Rightarrow> 's \<Rightarrow> (string, unit) result \<times> 's"
  we_entry :: "string \<Rightarrow> u32 \<Rightarrow> u32 \<Rightarrow> 's \<Rightarrow> (string, u64) result \<times> 's"
  we_write :: "nat \<Rightarrow> u8 list \<Rightarrow> 's \<Rightarrow> (string, unit) result \<times> 's"
  we_read :: "nat \<Rightarrow> nat \<Rightarrow> 's \<Rightarrow> (string, u8 list) result"

text \<open>The exchanges between the host and the guest, with what they gave.\<close>

datatype guest_call =
    AllocCall u32 "(string, u32) result"
  | WriteCall u32 "u8 list" "(string, unit) result"
  | EntryCall u32 u32 "(string, u64) result"
  | ReadCall u32 u32 "(string, u8 list) result"
  | DeallocCall u32 u32

record 's guest =
  gu_store :: 's
  gu_calls :: "guest_call list"

type_synonym ('s, 'a) guest_action = "('s guest, runtime_error, 'a) action"

definition on_store :: "('s \<Rightarrow> (string, 'a) result \<times> 's) \<Rightarrow> (string \<Rightarrow> runtime_error) \<Rightarrow> ('s, 'a) guest_action" where
  "on_store f wrap g = (case f (gu_store g) of (r, s) \<Rightarrow> (map_err wrap r, g\<lparr> gu_store := s \<rparr>))"

definition call_guest ::
  "((string, 'a) result \<Rightarrow> guest_call) \<Rightarrow> ('s \<Rightarrow> (string, 'a) result \<times> 's) \<Rightarrow> (string \<Rightarrow> runtime_error)
    \<Rightarrow> ('s, 'a) guest_action" where
  "call_guest c f wrap g =
    (case f (gu_store g) of (r, s) \<Rightarrow> (map_err wrap r, g\<lparr> gu_store := s, gu_calls := gu_calls g @ [c r] \<rparr>))"

definition require :: "('s \<Rightarrow> bool) \<Rightarrow> runtime_error \<Rightarrow> ('s, unit) guest_action" where
  "require P e = inspect (\<lambda>g. if P (gu_store g) then Ok () else Err e)"

text \<open>\<open>let _ = dealloc.call(..)\<close>\<close>

definition dealloc :: "('m, 's) wasm_engine \<Rightarrow> u32 \<Rightarrow> u32 \<Rightarrow> ('s, unit) guest_action" where
  "dealloc we ptr len = attempt (call_guest (\<lambda>_. DeallocCall ptr len) (we_dealloc we ptr len) ExecutionFailed)
    (\<lambda>_. pure (Ok ())) (\<lambda>_. pure (Ok ()))"

section \<open>One invocation\<close>

definition instantiate :: "('m, 's) wasm_engine \<Rightarrow> 'm \<Rightarrow> string \<Rightarrow> ('s, unit) guest_action" where
  "instantiate we module entry_export =
    seq (on_store (we_set_fuel we FUEL_LIMIT) FuelSetupFailed) (\<lambda>_.
    seq (on_store (we_instantiate we module) InstantiationFailed) (\<lambda>_.
    seq (require (we_has_memory we) (ExportMissing ''memory'')) (\<lambda>_.
    seq (require (\<lambda>s. we_has_function we s ALLOC_EXPORT TakesU32GivesU32) (SignatureMismatch ALLOC_EXPORT)) (\<lambda>_.
    seq (require (\<lambda>s. we_has_function we s DEALLOC_EXPORT TakesTwoU32) (SignatureMismatch DEALLOC_EXPORT)) (\<lambda>_.
      require (\<lambda>s. we_has_function we s entry_export TakesTwoU32GivesU64) EntryExportMissing)))))"

definition take_output :: "('m, 's) wasm_engine \<Rightarrow> u64 \<Rightarrow> ('s, u8 list) guest_action" where
  "take_output we packed =
    (let output_ptr = ucast (drop_bit 32 packed) :: u32; output_len = ucast packed :: u32 in
     if output_ptr = 0 \<or> output_len = 0 then pure (Err OutputInvalid)
     else if unat output_len > MAX_OUTPUT_BYTES then seq (dealloc we output_ptr output_len) (\<lambda>_. pure (Err OutputTooLarge))
     else
       attempt (call_guest (ReadCall output_ptr output_len) (\<lambda>s. (we_read we (unat output_ptr) (unat output_len) s, s))
           MemoryAccessFailed)
         (\<lambda>output. seq (dealloc we output_ptr output_len) (\<lambda>_. pure (Ok output)))
         (\<lambda>e. seq (dealloc we output_ptr output_len) (\<lambda>_. pure (Err e))))"

definition call_entry :: "('m, 's) wasm_engine \<Rightarrow> string \<Rightarrow> u8 list \<Rightarrow> ('s, u8 list) guest_action" where
  "call_entry we entry_export input_json =
    (let input_len = of_nat (length input_json) :: u32 in
     seq (call_guest (AllocCall input_len) (we_alloc we input_len) ExecutionFailed) (\<lambda>input_ptr.
     if input_ptr = 0 then pure (Err AllocationFailed)
     else
       seq (call_guest (WriteCall input_ptr input_json) (we_write we (unat input_ptr) input_json) MemoryAccessFailed) (\<lambda>_.
       attempt (call_guest (EntryCall input_ptr input_len) (we_entry we entry_export input_ptr input_len) ExecutionFailed)
         (\<lambda>packed. seq (dealloc we input_ptr input_len) (\<lambda>_. take_output we packed))
         (\<lambda>e. seq (dealloc we input_ptr input_len) (\<lambda>_. pure (Err e))))))"

definition run_module ::
  "('m, 's) wasm_engine \<Rightarrow> 'm \<Rightarrow> string \<Rightarrow> u8 list \<Rightarrow> (runtime_error, u8 list) result \<times> guest_call list" where
  "run_module we module entry_export input_json =
    (case seq (instantiate we module entry_export) (\<lambda>_. call_entry we entry_export input_json)
        \<lparr> gu_store = we_new_store we MAX_LINEAR_MEMORY_BYTES module, gu_calls = [] \<rparr> of
       (r, g) \<Rightarrow> (r, gu_calls g))"

text \<open>The result, and the calls made into the guest.\<close>

definition invoke_json ::
  "('m, 's) wasm_engine \<Rightarrow> u8 list \<Rightarrow> string \<Rightarrow> u8 list \<Rightarrow> (runtime_error, u8 list) result \<times> guest_call list" where
  "invoke_json we module_bytes entry_export input_json =
    (if length module_bytes > MAX_MODULE_BYTES then (Err ModuleTooLarge, [])
     else if input_json = [] \<or> length input_json > MAX_INPUT_BYTES then (Err InputTooLarge, [])
     else
       case we_module we module_bytes of
         Err text \<Rightarrow> (Err (InvalidModule text), [])
       | Panic \<Rightarrow> (Panic, [])
       | Ok module \<Rightarrow>
           if we_has_imports we module then (Err ImportsNotAllowed, [])
           else run_module we module entry_export input_json)"

section \<open>The exported call\<close>

text \<open>The code and the output; \<open>U\<close> is the number of bytes of a \<open>usize\<close>. Slices come with their length as \<open>u64\<close>;
  the C string is its bytes.\<close>

definition INVALID_ARGUMENT :: int where "INVALID_ARGUMENT = - 1"
definition RUNTIME_ERROR :: int where "RUNTIME_ERROR = - 2"

definition fits_usize :: "nat \<Rightarrow> u64 \<Rightarrow> bool" where
  "fits_usize U n \<longleftrightarrow> unat n < 256 ^ U"

definition hivra_wasm_invoke_json ::
  "nat \<Rightarrow> ('m, 's) wasm_engine \<Rightarrow> u8 list option \<Rightarrow> u64 \<Rightarrow> u8 list option \<Rightarrow> u8 list option \<Rightarrow> u64 \<Rightarrow> bool
    \<Rightarrow> int \<times> u8 list option" where
  "hivra_wasm_invoke_json U we module_ptr module_len entry_export input_ptr input_len out_json =
    (case (module_ptr, entry_export, input_ptr) of
       (Some module, Some entry, Some input) \<Rightarrow>
         if module_len = 0 \<or> input_len = 0 \<or> \<not> out_json then (INVALID_ARGUMENT, None)
         else if \<not> fits_usize U module_len \<or> \<not> fits_usize U input_len then (INVALID_ARGUMENT, None)
         else
           (case trimmed_text entry of
              None \<Rightarrow> (INVALID_ARGUMENT, None)
            | Some name \<Rightarrow>
                if name = [] then (INVALID_ARGUMENT, None)
                else
                  (case fst (invoke_json we (take (unat module_len) module) (map (\<lambda>b. char_of (unat b)) name)
                        (take (unat input_len) input)) of
                     Ok output \<Rightarrow> if 0 \<in> set output then (RUNTIME_ERROR, None) else (0, Some output)
                   | _ \<Rightarrow> (RUNTIME_ERROR, None)))
     | _ \<Rightarrow> (INVALID_ARGUMENT, None))"

section \<open>The protocol with the guest\<close>

text \<open>The runs of the protocol for an input, and what they answer. Nothing happens before the module is instantiated.
  The host then asks for a buffer, writes the input into it, and calls the entry point with it; from then on the
  input buffer is given back in every case, before the output is looked at. What the entry point returns is an
  address \<open>q\<close> in the upper and a length \<open>m\<close> in the lower 32 bits: without an output buffer there is nothing more;
  otherwise it is read unless it is too large, and given back, as that address and that length, exactly once.\<close>

inductive guest_protocol :: "u8 list \<Rightarrow> guest_call list \<Rightarrow> (runtime_error, u8 list) result \<Rightarrow> bool"
  for input :: "u8 list" where
  refused: "guest_protocol input [] (Err e)"
| alloc_failed: "n = of_nat (length input) \<Longrightarrow>
    guest_protocol input [AllocCall n (Err t)] (Err (ExecutionFailed t))"
| null_buffer: "n = of_nat (length input) \<Longrightarrow> guest_protocol input [AllocCall n (Ok 0)] (Err AllocationFailed)"
| write_failed: "n = of_nat (length input) \<Longrightarrow> p \<noteq> 0 \<Longrightarrow>
    guest_protocol input [AllocCall n (Ok p), WriteCall p input (Err t)] (Err (MemoryAccessFailed t))"
| trapped: "n = of_nat (length input) \<Longrightarrow> p \<noteq> 0 \<Longrightarrow>
    guest_protocol input [AllocCall n (Ok p), WriteCall p input (Ok ()), EntryCall p n (Err t), DeallocCall p n]
      (Err (ExecutionFailed t))"
| no_output: "n = of_nat (length input) \<Longrightarrow> p \<noteq> 0 \<Longrightarrow> unat packed = unat (q :: u32) * 2 ^ 32 + unat (m :: u32) \<Longrightarrow>
    q = 0 \<or> m = 0 \<Longrightarrow>
    guest_protocol input [AllocCall n (Ok p), WriteCall p input (Ok ()), EntryCall p n (Ok packed), DeallocCall p n]
      (Err OutputInvalid)"
| too_large: "n = of_nat (length input) \<Longrightarrow> p \<noteq> 0 \<Longrightarrow> unat packed = unat q * 2 ^ 32 + unat m \<Longrightarrow>
    q \<noteq> 0 \<Longrightarrow> MAX_OUTPUT_BYTES < unat m \<Longrightarrow>
    guest_protocol input [AllocCall n (Ok p), WriteCall p input (Ok ()), EntryCall p n (Ok packed), DeallocCall p n,
      DeallocCall q m] (Err OutputTooLarge)"
| unreadable: "n = of_nat (length input) \<Longrightarrow> p \<noteq> 0 \<Longrightarrow> unat packed = unat q * 2 ^ 32 + unat m \<Longrightarrow>
    q \<noteq> 0 \<Longrightarrow> 0 < unat m \<Longrightarrow> unat m \<le> MAX_OUTPUT_BYTES \<Longrightarrow>
    guest_protocol input [AllocCall n (Ok p), WriteCall p input (Ok ()), EntryCall p n (Ok packed), DeallocCall p n,
      ReadCall q m (Err t), DeallocCall q m] (Err (MemoryAccessFailed t))"
| taken: "n = of_nat (length input) \<Longrightarrow> p \<noteq> 0 \<Longrightarrow> unat packed = unat q * 2 ^ 32 + unat m \<Longrightarrow>
    q \<noteq> 0 \<Longrightarrow> 0 < unat m \<Longrightarrow> unat m \<le> MAX_OUTPUT_BYTES \<Longrightarrow> length out = unat m \<Longrightarrow>
    guest_protocol input [AllocCall n (Ok p), WriteCall p input (Ok ()), EntryCall p n (Ok packed), DeallocCall p n,
      ReadCall q m (Ok out), DeallocCall q m] (Ok out)"

text \<open>What is known of the interpreter: it does not panic, and it reads as many bytes as it is asked for.\<close>

definition engine_ok :: "('m, 's) wasm_engine \<Rightarrow> bool" where
  "engine_ok we \<longleftrightarrow> (\<forall>bs. we_module we bs \<noteq> Panic) \<and> (\<forall>n s. fst (we_set_fuel we n s) \<noteq> Panic)
    \<and> (\<forall>m s. fst (we_instantiate we m s) \<noteq> Panic) \<and> (\<forall>n s. fst (we_alloc we n s) \<noteq> Panic)
    \<and> (\<forall>p n s. fst (we_dealloc we p n s) \<noteq> Panic) \<and> (\<forall>x p n s. fst (we_entry we x p n s) \<noteq> Panic)
    \<and> (\<forall>p bs s. fst (we_write we p bs s) \<noteq> Panic)
    \<and> (\<forall>p n s. we_read we p n s \<noteq> Panic \<and> (\<forall>bs. we_read we p n s = Ok bs \<longrightarrow> length bs = n))"

lemma on_store_outcome:
  "(\<And>s. fst (f s) \<noteq> Panic) \<Longrightarrow> outcome (on_store f wrap) g (\<lambda>r g'. r \<noteq> Panic \<and> gu_calls g' = gu_calls g)"
  by (auto simp: outcome_def on_store_def split: prod.split) (metis fst_conv map_err.elims)

lemma call_guest_outcome:
  "(\<And>s. fst (f s) \<noteq> Panic) \<Longrightarrow>
    outcome (call_guest c f wrap) g (\<lambda>r g'. \<exists>x. x \<noteq> Panic \<and> r = map_err wrap x \<and> gu_calls g' = gu_calls g @ [c x])"
  by (auto simp: outcome_def call_guest_def split: prod.split) (metis fst_conv)

lemma Panic_map_err: "Panic = map_err f x \<longleftrightarrow> x = Panic"
  by (cases x) simp_all

lemma dealloc_outcome:
  assumes "engine_ok we"
  shows "outcome (dealloc we p n) g (\<lambda>r g'. r = Ok () \<and> gu_calls g' = gu_calls g @ [DeallocCall p n])"
  unfolding dealloc_def
  by (rule outcome_attemptI [OF call_guest_outcome])
    (use assms in \<open>auto simp: engine_ok_def outcome_pure Panic_map_err\<close>)

lemma require_outcome: "outcome (require P e) g (\<lambda>r g'. r \<noteq> Panic \<and> g' = g)"
  by (simp add: require_def outcome_inspect)

lemma instantiate_outcome:
  assumes "engine_ok we"
  shows "outcome (instantiate we module entry_export) g (\<lambda>r g'. r \<noteq> Panic \<and> gu_calls g' = gu_calls g)"
proof -
  have fuel: "fst (we_set_fuel we n s) \<noteq> Panic" "fst (we_instantiate we m s) \<noteq> Panic" for n m s
    using assms by (simp_all add: engine_ok_def)
  let ?Q = "\<lambda>r g'. r \<noteq> Panic \<and> gu_calls g' = gu_calls g"
  have then_require: "outcome (seq (require P e) (\<lambda>_. m)) g' ?Q"
    if "gu_calls g' = gu_calls g" and "outcome m g' ?Q" for P e m g'
    by (rule outcome_seqI [OF require_outcome]) (use that in auto)
  have last_require: "outcome (require P e) g' ?Q" if "gu_calls g' = gu_calls g" for P e g'
    by (rule outcome_weaken [OF require_outcome]) (use that in auto)
  show ?thesis
    unfolding instantiate_def
    by (rule outcome_seqI [OF on_store_outcome], rule fuel, rule outcome_seqI [OF on_store_outcome], rule fuel)
      (auto intro!: then_require last_require)
qed

lemma unat_halves: "unat packed = unat (ucast (drop_bit 32 packed) :: u32) * 2 ^ 32 + unat (ucast packed :: u32)"
  for packed :: u64
proof -
  have "unat packed = unat packed div 2 ^ 32 * 2 ^ 32 + unat packed mod 2 ^ 32" by simp
  moreover have "unat (ucast (drop_bit 32 packed) :: u32) = unat packed div 2 ^ 32"
  proof -
    have "unat packed < 2 ^ 64" using unsigned_less [of packed] by simp
    then have "unat packed div 2 ^ 32 < 2 ^ 32" by (simp add: less_mult_imp_div_less)
    then show ?thesis
      by (simp add: unsigned_ucast_eq drop_bit_eq_div take_bit_eq_mod unat_div_distrib)
  qed
  moreover have "unat (ucast packed :: u32) = unat packed mod 2 ^ 32"
    by (simp add: unsigned_ucast_eq take_bit_eq_mod)
  ultimately show ?thesis by simp
qed

lemma take_output_outcome:
  assumes "engine_ok we" and p: "p \<noteq> 0" and n: "n = of_nat (length input)"
    and calls: "gu_calls g = [AllocCall n (Ok p), WriteCall p input (Ok ()), EntryCall p n (Ok packed), DeallocCall p n]"
  shows "outcome (take_output we packed) g (\<lambda>r g'. guest_protocol input (gu_calls g') r)"
proof -
  let ?q = "ucast (drop_bit 32 packed) :: u32" and ?m = "ucast packed :: u32"
  have read: "we_read we a b s \<noteq> Panic" "we_read we a b s = Ok bs \<Longrightarrow> length bs = b" for a b s bs
    using assms(1) by (simp_all add: engine_ok_def)
  note halves = unat_halves [of packed]
  show ?thesis
    unfolding take_output_def Let_def
  proof (intro outcome_if, goal_cases)
    case 1
    then show ?case
      using guest_protocol.no_output [OF n p halves] by (simp add: outcome_pure calls)
  next
    case 2
    show ?case
      by (rule outcome_seqI [OF dealloc_outcome [OF assms(1)]])
        (use guest_protocol.too_large [OF n p halves] 2 in \<open>auto simp: outcome_pure calls\<close>)
  next
    case 3
    then have q: "?q \<noteq> 0" and m: "0 < unat ?m" "unat ?m \<le> MAX_OUTPUT_BYTES" by (auto simp: unat_gt_0)
    have run: "outcome (call_guest (ReadCall ?q ?m) (\<lambda>s. (we_read we (unat ?q) (unat ?m) s, s)) MemoryAccessFailed) g
      (\<lambda>r g'. r \<noteq> Panic \<and> (\<forall>out. r = Ok out \<longrightarrow> length out = unat ?m \<and> gu_calls g' = gu_calls g @ [ReadCall ?q ?m (Ok out)])
        \<and> (\<forall>e. r = Err e \<longrightarrow> (\<exists>t. e = MemoryAccessFailed t \<and> gu_calls g' = gu_calls g @ [ReadCall ?q ?m (Err t)])))"
      using read [of "unat ?q" "unat ?m" "gu_store g"]
      by (cases "we_read we (unat ?q) (unat ?m) (gu_store g)") (auto simp: outcome_def call_guest_def)
    show ?case
    proof (rule outcome_attemptI [OF run], goal_cases)
      case (1 out g1)
      then show ?case
        using guest_protocol.taken [OF n p halves q m, of out]
        by (intro outcome_seqI [OF dealloc_outcome [OF assms(1)]]) (auto simp: outcome_pure calls)
    next
      case (2 e g1)
      then obtain t where "e = MemoryAccessFailed t" "gu_calls g1 = gu_calls g @ [ReadCall ?q ?m (result.Err t)]" by auto
      then show ?case
        using guest_protocol.unreadable [OF n p halves q m, of t]
        by (intro outcome_seqI [OF dealloc_outcome [OF assms(1)]]) (auto simp: outcome_pure calls)
    qed simp
  qed
qed

lemma call_entry_outcome:
  assumes "engine_ok we" and "gu_calls g = []"
  shows "outcome (call_entry we entry_export input) g (\<lambda>r g'. guest_protocol input (gu_calls g') r)"
proof -
  let ?n = "of_nat (length input) :: u32"
  have calm: "fst (we_alloc we n s) \<noteq> Panic" "fst (we_entry we x p n s) \<noteq> Panic" "fst (we_write we a bs s) \<noteq> Panic"
    for n s x p a bs using assms(1) by (simp_all add: engine_ok_def)
  have cases: "outcome (call_guest c f wrap) g1 (\<lambda>r g'. r \<noteq> Panic
      \<and> (\<forall>x. r = Ok x \<longrightarrow> gu_calls g' = gu_calls g1 @ [c (Ok x)])
      \<and> (\<forall>e. r = Err e \<longrightarrow> (\<exists>t. e = wrap t \<and> gu_calls g' = gu_calls g1 @ [c (Err t)])))"
    if "\<And>s. fst (f s) \<noteq> Panic" for c and f :: "'b \<Rightarrow> (string, 'c) result \<times> 'b" and wrap and g1 :: "'b guest"
    by (rule outcome_weaken [OF call_guest_outcome [OF that]]) (auto elim!: map_err.elims)
  show ?thesis
    unfolding call_entry_def Let_def
  proof (rule outcome_seqI [OF cases], rule calm, goal_cases)
    case (1 p g1)
    then have calls: "gu_calls g1 = [AllocCall ?n (Ok p)]" using assms(2) by simp
    show ?case
    proof (rule outcome_if, goal_cases)
      case 1
      then show ?case using guest_protocol.null_buffer [of ?n input] by (simp add: outcome_pure calls)
    next
      case 2
      show ?case
      proof (rule outcome_seqI [OF cases], rule calm, rule outcome_attemptI [OF cases], rule calm, goal_cases)
        case (1 _ g2 packed g3)
        show ?case
          by (rule outcome_seqI [OF dealloc_outcome [OF assms(1)]], rule take_output_outcome [OF assms(1) 2 refl])
            (use 1 calls in auto)
      next
        case (2 _ g2 e g3)
        then obtain t where t: "e = ExecutionFailed t"
          "gu_calls g3 = [AllocCall ?n (Ok p), WriteCall p input (Ok ()), EntryCall p ?n (result.Err t)]"
          using calls by auto
        show ?case
          by (rule outcome_seqI [OF dealloc_outcome [OF assms(1)]])
            (use guest_protocol.trapped [OF refl \<open>p \<noteq> 0\<close>, of input t] in \<open>auto simp: outcome_pure t\<close>)
      next
        case (4 e g2)
        then obtain t where "e = MemoryAccessFailed t" "gu_calls g2 = [AllocCall ?n (Ok p), WriteCall p input (result.Err t)]"
          using calls by auto
        then show ?case using guest_protocol.write_failed [OF refl \<open>p \<noteq> 0\<close>, of input t] by simp
      qed auto
    qed
  next
    case (2 e g1)
    then obtain t where "e = ExecutionFailed t" "gu_calls g1 = [AllocCall ?n (result.Err t)]" using assms(2) by auto
    then show ?case using guest_protocol.alloc_failed [OF refl, of input t] by simp
  qed auto
qed

lemma run_module_protocol:
  assumes "engine_ok we"
  shows "guest_protocol input (snd (run_module we module entry_export input))
    (fst (run_module we module entry_export input))"
proof -
  let ?g = "\<lparr> gu_store = we_new_store we MAX_LINEAR_MEMORY_BYTES module, gu_calls = [] \<rparr>"
  have "outcome (seq (instantiate we module entry_export) (\<lambda>_. call_entry we entry_export input)) ?g
    (\<lambda>r g'. guest_protocol input (gu_calls g') r)"
    by (rule outcome_seqI [OF instantiate_outcome [OF assms]], rule call_entry_outcome [OF assms])
      (auto intro: guest_protocol.refused)
  then show ?thesis by (simp add: outcome_def run_module_def split: prod.splits)
qed

lemma invoke_json_protocol:
  assumes "engine_ok we"
  shows "guest_protocol input (snd (invoke_json we module_bytes entry_export input))
    (fst (invoke_json we module_bytes entry_export input))"
proof (cases "we_module we module_bytes")
  case (Ok module)
  then show ?thesis
    using run_module_protocol [OF assms] by (simp add: invoke_json_def guest_protocol.refused)
qed (use assms in \<open>simp_all add: invoke_json_def guest_protocol.refused engine_ok_def\<close>)

inductive_cases protocol_OkE: "guest_protocol input calls (Ok out)"






lemma exported_output_bounded:
  assumes "engine_ok we" and "hivra_wasm_invoke_json U we module_ptr n entry_export input_ptr m out_json = (code, result)"
  shows "(code = 0 \<longleftrightarrow> result \<noteq> None)
    \<and> (\<forall>out. result = Some out \<longrightarrow> 0 < length out \<and> length out \<le> MAX_OUTPUT_BYTES \<and> 0 \<notin> set out)"
proof -
  have bounds: "0 < length out \<and> length out \<le> MAX_OUTPUT_BYTES" if "fst (invoke_json we bs name input) = Ok out"
    for bs name input out
    using invoke_json_protocol [OF assms(1), of input bs name] unfolding that by (auto elim: protocol_OkE)
  show ?thesis
    using assms(2)
    by (auto simp: hivra_wasm_invoke_json_def INVALID_ARGUMENT_def RUNTIME_ERROR_def Let_def dest: bounds
        split: option.splits if_splits result.splits)
qed

end
