(* ===== verification/Nostr_Crypto.thy ===== *)
theory Nostr_Crypto
  imports Prelude
begin

text \<open>
  adapters/hivra-nostr-crypto/src/lib.rs: the signature provider over secp256k1, whose crate is the parameter
  \<open>secp_lib\<close>. Only digests of 32 bytes are signed and verified.
\<close>

datatype nostr_crypto_error =
    InvalidMessageLength nat
  | InvalidPublicKey
  | InvalidSignature
  | VerifyFailed
  | InvalidSecretKey
  | EcdhFailed

record secp_lib =
  sc_public_valid :: "b32 \<Rightarrow> bool"
  sc_secret_valid :: "b32 \<Rightarrow> bool"
  sc_signature_valid :: "b64 \<Rightarrow> bool"
  sc_verify :: "b64 \<Rightarrow> b32 \<Rightarrow> b32 \<Rightarrow> bool"
  sc_sign :: "b32 \<Rightarrow> b32 \<Rightarrow> b64"
  sc_shared_secret :: "b32 \<Rightarrow> b32 \<Rightarrow> b32"

definition parse_message :: "u8 list \<Rightarrow> nostr_crypto_error + b32" where
  "parse_message msg =
    (if length msg \<noteq> 32 then Inl (InvalidMessageLength (length msg)) else Inr (barray_of msg))"

definition nostr_verify :: "secp_lib \<Rightarrow> u8 list \<Rightarrow> b32 \<Rightarrow> b64 \<Rightarrow> nostr_crypto_error + unit" where
  "nostr_verify lib msg pubkey sig =
    (case parse_message msg of
       Inl e \<Rightarrow> Inl e
     | Inr message \<Rightarrow>
         if \<not> sc_public_valid lib pubkey then Inl InvalidPublicKey
         else if \<not> sc_signature_valid lib sig then Inl InvalidSignature
         else if \<not> sc_verify lib sig message pubkey then Inl VerifyFailed
         else Inr ())"

definition nostr_sign :: "secp_lib \<Rightarrow> u8 list \<Rightarrow> b32 \<Rightarrow> nostr_crypto_error + b64" where
  "nostr_sign lib msg privkey =
    (case parse_message msg of
       Inl e \<Rightarrow> Inl e
     | Inr message \<Rightarrow>
         if \<not> sc_secret_valid lib privkey then Inl InvalidSecretKey else Inr (sc_sign lib message privkey))"

definition nostr_ecdh :: "secp_lib \<Rightarrow> b32 \<Rightarrow> b32 \<Rightarrow> nostr_crypto_error + b32" where
  "nostr_ecdh lib privkey pubkey =
    (if \<not> sc_secret_valid lib privkey then Inl InvalidSecretKey
     else if \<not> sc_public_valid lib pubkey then Inl InvalidPublicKey
     else Inr (sc_shared_secret lib pubkey privkey))"

text \<open>A signature verifies under the key it was made with, when the crate keeps its promise.\<close>

lemma nostr_sign_verifies:
  assumes "\<And>m k. sc_secret_valid lib k \<Longrightarrow> sc_public_valid lib (public k)
      \<and> sc_signature_valid lib (sc_sign lib m k) \<and> sc_verify lib (sc_sign lib m k) m (public k)"
    and "nostr_sign lib msg k = Inr sig"
  shows "nostr_verify lib msg (public k) sig = Inr ()"
  using assms by (auto simp: nostr_sign_def nostr_verify_def split: sum.splits if_splits)

lemma nostr_digests_only:
  "length msg \<noteq> 32 \<Longrightarrow> nostr_sign lib msg k = Inl (InvalidMessageLength (length msg))
    \<and> nostr_verify lib msg p sig = Inl (InvalidMessageLength (length msg))"
  by (simp add: nostr_sign_def nostr_verify_def parse_message_def)

end
