(* ===== verification/Delivery_Selfcheck.thy ===== *)
theory Delivery_Selfcheck
  imports Nostr Capsule_Api
begin

text \<open>
  The delivery self-check (platform/hivra-ffi/src/selfcheck\_api.rs): a session is opened with the key derived from
  the stored seed, and an envelope to itself is encoded and signed by an external signer.
\<close>

definition open_session ::
  "'w nostr_sdk \<Rightarrow> b32 \<Rightarrow> (b32 \<Rightarrow> string set) \<Rightarrow> ('w, 'w nostr) api" where
  "open_session sdk privkey seen s =
    (case nostr_new sdk default_config privkey seen (fs_env s) of (r, w) \<Rightarrow> (map_err (\<lambda>_. - 3) r, s\<lparr> fs_env := w \<rparr>))"

text \<open>The signer of the check: \<open>finalize_async\<close> with the same key.\<close>

definition self_signer :: "'w nostr_sdk \<Rightarrow> b32 \<Rightarrow> u8 list \<times> nostr_tag list \<Rightarrow> ('w, nostr_event) nostr_action" where
  "self_signer sdk privkey = (\<lambda>(content, tags).
    seq (in_session (ns_finalize sdk privkey APP_EVENT_KIND content tags)) (\<lambda>e. pure (ok_or e EncodingFailed)))"

definition self_envelope :: "b32 \<Rightarrow> u64 \<Rightarrow> delivery_envelope" where
  "self_envelope own now = \<lparr> en_schema_version = 1, en_from = own, en_to = own, en_kind = 1, en_payload = [1, 2, 3],
    en_timestamp = now, en_correlation_id = None, en_domain_event = None \<rparr>"

text \<open>\<open>prepare_event\<close> on the session, in the environment the call has reached.\<close>

definition prepare_in_session ::
  "'w nostr_sdk \<Rightarrow> b32 \<Rightarrow> 'w nostr \<Rightarrow> delivery_envelope \<Rightarrow> ('w, nostr_event) api" where
  "prepare_in_session sdk privkey transport message s =
    (case nostr_prepare_event sdk message (self_signer sdk privkey) (transport\<lparr> no_env := fs_env s \<rparr>) of
       (r, t) \<Rightarrow> (map_err (\<lambda>_. - 5) r, s\<lparr> fs_env := no_env t \<rparr>))"

definition hivra_nostr_send_prepared_self_check ::
  "'w platform \<Rightarrow> 'w nostr_sdk \<Rightarrow> (b32 \<Rightarrow> string set) \<Rightarrow> ('w, code) api" where
  "hivra_nostr_send_prepared_self_check pf sdk seen =
    seq (with_error (- 1) (load_seed pf)) (\<lambda>seed.
    seq (with_error (- 2) (pure (derive_nostr_keypair (pf_lib pf) seed))) (\<lambda>privkey.
    seq (open_session sdk privkey seen) (\<lambda>transport.
    if ns_public_key_of sdk privkey = None then pure (Err (- 4))
    else
      seq (sample_with (in_env (pf_wall_clock pf))) (\<lambda>now.
      seq (prepare_in_session sdk privkey transport
            (self_envelope (no_public_key transport) (unwrap_or now 0))) (\<lambda>_. pure (Ok 0))))))"

text \<open>The check of the secret key cannot fail any more when the session is open.\<close>

lemma open_session_key:
  "outcome (open_session sdk privkey seen) s (\<lambda>r s'. r = Err (- 3)
    \<or> (\<exists>t. r = Ok t \<and> ns_public_key_of sdk privkey = Some (no_public_key t)))"
  by (auto simp: outcome_def open_session_def nostr_new_def split: option.splits prod.splits if_splits)

lemma load_seed_outcome: "outcome (with_error e (load_seed pf)) s (\<lambda>r s'. r = Err e \<or> (\<exists>x. r = Ok x))"
  by (auto simp: outcome_def with_error_def load_seed_def sample_with_def in_env_def seq_def pure_def split: prod.splits)

lemma prepare_in_session_outcome:
  "outcome (prepare_in_session sdk privkey t m) s (\<lambda>r s'. r = Err (- 5) \<or> (\<exists>x. r = Ok x))"
proof -
  have signer: "outcome (self_signer sdk privkey p) t (\<lambda>r t'. r \<noteq> Panic)" for p t
    by (cases p; cases "ok_or (fst (ns_finalize sdk privkey APP_EVENT_KIND (fst p) (snd p) (no_env t))) EncodingFailed")
      (auto simp: self_signer_def outcome_def in_session_def seq_def pure_def split: prod.splits)
  have serial: "outcome (serialize_message sdk m) t (\<lambda>r t'. r \<noteq> Panic)" for t
    by (auto simp: serialize_message_def outcome_def in_session_def seq_def pure_def split: prod.splits result.splits)
  have tags: "outcome (seq (pure (message_tags sdk m)) (\<lambda>tags. pure (Ok (content, tags)))) t (\<lambda>r t'. r \<noteq> Panic)"
    for content t by (simp add: outcome_def seq_def pure_def message_tags_def)
  have builder: "outcome (event_builder_for_message sdk m) t (\<lambda>r t'. r \<noteq> Panic)" for t
    unfolding event_builder_for_message_def by (rule outcome_seqI [OF serial]) (simp_all add: tags)
  have prepared: "outcome (nostr_prepare_event sdk m (self_signer sdk privkey)) t (\<lambda>r t'. r \<noteq> Panic)" for t
    unfolding nostr_prepare_event_def by (rule outcome_seqI [OF builder]) (simp_all add: signer)
  obtain r t' where run: "nostr_prepare_event sdk m (self_signer sdk privkey) (t\<lparr> no_env := fs_env s \<rparr>) = (r, t')"
    by (rule prod.exhaust)
  have "r \<noteq> Panic" using outcomeD [OF prepared run] .
  then show ?thesis by (cases r) (simp_all add: prepare_in_session_def outcome_def run)
qed

lemma self_check_codes:
  "outcome (hivra_nostr_send_prepared_self_check pf sdk seen) s (\<lambda>r s'. r \<in> {Ok 0, Err (- 1), Err (- 2), Err (- 3), Err (- 5)})"
  unfolding hivra_nostr_send_prepared_self_check_def
proof (rule outcome_seqI [OF load_seed_outcome], goal_cases)
  case (1 seed s1)
  have key: "outcome (with_error (- 2) (pure (derive_nostr_keypair (pf_lib pf) seed))) s1
      (\<lambda>r s'. r = Err (- 2) \<or> (\<exists>x. r = Ok x))"
    by (cases "hkdf_expand (pf_lib pf) (bytes (seed_as_bytes seed)) (ascii ''HIVRA_NOSTR_KEY_v1'')")
      (simp_all add: outcome_with_error outcome_pure derive_nostr_keypair_def derive_key_with_label_def)
  show ?case
  proof (rule outcome_seqI [OF key], rule outcome_seqI [OF open_session_key], rule outcome_if, goal_cases)
    case (2 privkey s2 t s3)
    have clock: "outcome (sample_with (in_env (pf_wall_clock pf))) s3 (\<lambda>r s'. \<exists>x. r = Ok x)"
      by (auto simp: outcome_def sample_with_def split: prod.splits)
    show ?case
      by (rule outcome_seqI [OF clock], rule outcome_seqI [OF prepare_in_session_outcome]) (auto simp: outcome_pure)
  qed auto
qed auto

end
