(* ===== verification/Chat_Durable.thy ===== *)
theory Chat_Durable
  imports Ingress_Batch
begin

text \<open>
  The chat handoff survives a restart (platform/hivra-ffi/src/chat\_api.rs): a message that was taken is in the file
  as a message or as one that was displaced, and a call that fails leaves the file as it was.
\<close>

section \<open>Writing\<close>

definition handoff_file :: "path \<Rightarrow> utf8 \<Rightarrow> path" where
  "handoff_file root capsule_id = chat_dir root capsule_id @ [CHAT_HANDOFF_FILE]"

lemma handoff_file_not_temp: "chat_temp (handoff_file root i) \<noteq> handoff_file root j"
proof
  assume "chat_temp (handoff_file root i) = handoff_file root j"
  then have "last (chat_temp (handoff_file root i)) = last (handoff_file root j)" by simp
  then show False
    by (simp add: chat_temp_def handoff_file_def CHAT_HANDOFF_FILE_def CHAT_HANDOFF_TEMP_FILE_def ascii_def)
qed

lemma disk_step:
  assumes "quarantine_view p w1 = v" and "\<And>d. outcome m d (\<lambda>r d'. dk_files d' p = dk_files d p)"
  shows "outcome (on_chat_disk message m) w1 (\<lambda>r w2. quarantine_view p w2 = v)"
proof -
  have "spares p (on_chat_disk message m)" by (rule fs_spares [OF assms(2)])
  then show ?thesis using assms(1) by (cases v) (simp add: preserves_def)
qed

lemma quarantine_view_root: "quarantine_view p w1 = quarantine_view p w \<Longrightarrow>
  dk_files (qw_disk w1) p = dk_files (qw_disk w) p \<and> qw_root w1 = qw_root w"
  by (simp add: quarantine_view_def)

text \<open>The file after a write: the new content, or what it was.\<close>

definition written_chat :: "chat_lib \<Rightarrow> chat_snapshot \<Rightarrow> seed \<Rightarrow> path \<Rightarrow> quarantine_world
    \<Rightarrow> (string, unit) result \<Rightarrow> quarantine_world \<Rightarrow> bool" where
  "written_chat cl sn seed p w r w' \<longleftrightarrow> qw_root w' = qw_root w \<and>
    (if r = Ok () then \<exists>plaintext nonce sealed. cl_put cl sn = Some plaintext
        \<and> seal_chat_handoff_snapshot (cl_crypto cl) nonce seed
            (chat_handoff_aad (ch_capsule_id sn) (ch_network sn) (ch_transport_endpoint sn)) plaintext = Ok sealed
        \<and> dk_files (qw_disk w') p = Some sealed
     else dk_files (qw_disk w') p = dk_files (qw_disk w) p)"

lemma written_chat_stop:
  "quarantine_view p w' = quarantine_view p w \<Longrightarrow> written_chat cl sn seed p w (Err e) w'"
  "quarantine_view p w' = quarantine_view p w \<Longrightarrow> written_chat cl sn seed p w Panic w'"
  by (auto simp: written_chat_def dest: quarantine_view_root)

lemma finish_outcome:
  assumes temp: "chat_temp p \<noteq> p" and same: "quarantine_view p w1 = quarantine_view p w"
    and put: "cl_put cl sn = Some plaintext"
    and seal: "seal_chat_handoff_snapshot (cl_crypto cl) nonce seed
            (chat_handoff_aad (ch_capsule_id sn) (ch_network sn) (ch_transport_endpoint sn)) plaintext = Ok sealed"
  shows "outcome (seq (on_chat_disk ''write failed'' (fs_write_all (chat_temp p) sealed)) (\<lambda>_.
      seq (on_chat_disk ''sync failed'' (fs_sync_all (chat_temp p))) (\<lambda>_.
        on_chat_disk ''rename failed'' (fs_rename (chat_temp p) p)))) w1 (written_chat cl sn seed p w)"
proof -
  let ?R = "\<lambda>w2. quarantine_view p w2 = quarantine_view p w \<and> dk_files (qw_disk w2) (chat_temp p) = Some sealed"
  have stored: "outcome (on_chat_disk ''write failed'' (fs_write_all (chat_temp p) sealed)) w1
    (\<lambda>r w2. quarantine_view p w2 = quarantine_view p w \<and> (\<forall>x. r = Ok x \<longrightarrow> ?R w2))"
  proof (rule outcome_weaken [OF outcome_conj [OF disk_step [OF same fs_calls_spare(6)]]])
    show "outcome (on_chat_disk ''write failed'' (fs_write_all (chat_temp p) sealed)) w1
      (\<lambda>r w2. r = Ok () \<longrightarrow> dk_files (qw_disk w2) (chat_temp p) = Some sealed)"
      unfolding on_chat_disk_def outcome_with_error outcome_on_disk
      by (rule outcome_weaken [OF write_all_outcome]) (auto elim!: map_err.elims)
  qed (use temp in auto)
  have synced: "outcome (on_chat_disk ''sync failed'' (fs_sync_all (chat_temp p))) w2 (\<lambda>r w3. ?R w3)" if "?R w2" for w2
    unfolding on_chat_disk_def outcome_with_error outcome_on_disk
    by (rule outcome_weaken [OF sync_all_outcome]) (use that in \<open>simp add: quarantine_view_def\<close>)
  have renamed: "outcome (on_chat_disk ''rename failed'' (fs_rename (chat_temp p) p)) w3 (written_chat cl sn seed p w)"
    if "?R w3" for w3
    unfolding on_chat_disk_def outcome_with_error outcome_on_disk
  proof (rule outcome_weaken [OF rename_outcome], goal_cases)
    case (1 r d)
    then show ?case
      using that put seal temp by (cases r) (auto simp: written_chat_def quarantine_view_def)
  qed
  show ?thesis
  proof (rule outcome_seqI [OF stored], rule outcome_seqI [OF synced], goal_cases)
    case (2 _ w2 _ w3)
    then show ?case by (intro renamed) auto
  qed (auto intro: written_chat_stop)
qed

lemma write_chat_outcome:
  assumes root: "qw_root w = Some root" and p: "p = handoff_file root (ch_capsule_id sn)"
  shows "outcome (write_chat_handoff cl sn seed) w (written_chat cl sn seed p w)"
proof -
  have temp: "chat_temp p \<noteq> p" unfolding p by (rule handoff_file_not_temp)
  have path: "chat_handoff_path (ch_capsule_id sn) w = (Ok p, w)"
    by (simp add: chat_handoff_path_def application_storage_root_def seq_def inspect_def pure_def root p handoff_file_def)
  let ?S = "\<lambda>w1. quarantine_view p w1 = quarantine_view p w"
  let ?aad = "chat_handoff_aad (ch_capsule_id sn) (ch_network sn) (ch_transport_endpoint sn)"
  have create: "outcome (on_chat_disk ''temp open failed'' (fs_create_new (chat_temp p))) w1 (\<lambda>r w2. ?S w2)" if "?S w1" for w1
    by (rule disk_step [OF that fs_calls_spare(5)]) (use temp in auto)
  have cleanup: "outcome (if exists then on_chat_disk ''temp cleanup failed'' (fs_remove_file (chat_temp p)) else pure (Ok ()))
      w1 (\<lambda>r w2. ?S w2)" if "?S w1" for exists w1
    by (rule outcome_if) (use that temp in \<open>auto simp: outcome_pure intro!: disk_step fs_calls_spare(4)\<close>)
  have draw: "outcome (draw_chat_nonce cl) w1 (\<lambda>r w2. ?S w2 \<and> (\<exists>nonce. r = Ok nonce))" if "?S w1" for w1
    using that by (simp add: outcome_def draw_chat_nonce_def quarantine_view_def)
  have sealing: "outcome (seq (pure (map_err (\<lambda>_. ''encryption failed'')
        (seal_chat_handoff_snapshot (cl_crypto cl) nonce seed ?aad plaintext))) (\<lambda>sealed.
      seq (inspect (\<lambda>w. Ok (fs_exists (chat_temp p) (qw_disk w)))) (\<lambda>exists.
      seq (if exists then on_chat_disk ''temp cleanup failed'' (fs_remove_file (chat_temp p)) else pure (Ok ())) (\<lambda>_.
      seq (on_chat_disk ''temp open failed'' (fs_create_new (chat_temp p))) (\<lambda>_.
      seq (on_chat_disk ''write failed'' (fs_write_all (chat_temp p) sealed)) (\<lambda>_.
      seq (on_chat_disk ''sync failed'' (fs_sync_all (chat_temp p))) (\<lambda>_.
        on_chat_disk ''rename failed'' (fs_rename (chat_temp p) p)))))))) w1 (written_chat cl sn seed p w)"
    if put: "cl_put cl sn = Some plaintext" and s: "?S w1" for plaintext nonce w1
  proof (rule outcome_checked)
    fix sealed assume "map_err (\<lambda>_. ''encryption failed'') (seal_chat_handoff_snapshot (cl_crypto cl) nonce seed ?aad plaintext) = Ok sealed"
    then have seal: "seal_chat_handoff_snapshot (cl_crypto cl) nonce seed ?aad plaintext = Ok sealed" by simp
    show "outcome (seq (inspect (\<lambda>w. Ok (fs_exists (chat_temp p) (qw_disk w)))) (\<lambda>exists.
      seq (if exists then on_chat_disk ''temp cleanup failed'' (fs_remove_file (chat_temp p)) else pure (Ok ())) (\<lambda>_.
      seq (on_chat_disk ''temp open failed'' (fs_create_new (chat_temp p))) (\<lambda>_.
      seq (on_chat_disk ''write failed'' (fs_write_all (chat_temp p) sealed)) (\<lambda>_.
      seq (on_chat_disk ''sync failed'' (fs_sync_all (chat_temp p))) (\<lambda>_.
        on_chat_disk ''rename failed'' (fs_rename (chat_temp p) p))))))) w1 (written_chat cl sn seed p w)"
      by (rule outcome_inspected, rule outcome_seqI [OF cleanup [OF s]], rule outcome_seqI [OF create], assumption,
          rule finish_outcome [OF temp _ put seal], assumption) (auto intro: written_chat_stop)
  qed (use s in \<open>auto intro: written_chat_stop\<close>)
  have codec: "outcome (seq (pure (ok_or (cl_put cl sn) ''serialize failed'')) (\<lambda>plaintext.
      if length plaintext > CHAT_HANDOFF_MAX_PLAINTEXT_BYTES then pure (Err ''snapshot capacity exhausted'')
      else seq (draw_chat_nonce cl) (\<lambda>nonce. f plaintext nonce))) w1 (written_chat cl sn seed p w)"
    if "\<And>plaintext nonce w1. cl_put cl sn = Some plaintext \<Longrightarrow> ?S w1 \<Longrightarrow> outcome (f plaintext nonce) w1 (written_chat cl sn seed p w)"
      and s: "?S w1" for f w1
    by (rule outcome_checked, rule outcome_if)
      (use s that(1) in \<open>auto simp: outcome_pure intro!: written_chat_stop outcome_seqI [OF draw]\<close>)
  show ?thesis
    unfolding write_chat_handoff_def outcome_def seq_run [of "chat_handoff_path (ch_capsule_id sn)", OF path]
    unfolding outcome_def [symmetric]
    by (rule outcome_seqI [OF disk_step [OF refl fs_calls_spare(2)]], rule codec, rule sealing)
      (auto intro: written_chat_stop)
qed

section \<open>Reading\<close>

text \<open>What the content of the file is read as.\<close>

definition read_chat ::
  "chat_lib \<Rightarrow> capsule_state \<Rightarrow> b32 \<Rightarrow> seed \<Rightarrow> u8 list option \<Rightarrow> (string, chat_snapshot) result" where
  "read_chat cl capsule local seed content =
    (case content of
       None \<Rightarrow> Ok (empty_handoff capsule local)
     | Some sealed \<Rightarrow>
         and_then (map_err (\<lambda>_. ''authentication failed'') (open_chat_handoff_snapshot (cl_crypto cl) seed
           (chat_handoff_aad (encode_hex (bytes (cs_public_key capsule))) (cs_network capsule)
             (encode_hex (bytes local))) sealed)) (\<lambda>plaintext.
         and_then (ok_or (cl_get cl plaintext) ''snapshot corrupt'') (\<lambda>snapshot.
           if \<not> handoff_accepted capsule local snapshot then Err ''scope or bounds mismatch'' else Ok snapshot)))"

definition chat_file :: "path \<Rightarrow> capsule_state \<Rightarrow> path" where
  "chat_file root capsule = handoff_file root (encode_hex (bytes (cs_public_key capsule)))"

lemma chat_path_run:
  "qw_root w = Some root \<Longrightarrow>
    chat_handoff_path (encode_hex (bytes (cs_public_key capsule))) w = (Ok (chat_file root capsule), w)"
  by (simp add: chat_handoff_path_def application_storage_root_def seq_def inspect_def pure_def chat_file_def handoff_file_def)

lemma read_outcome:
  "outcome (on_chat_disk e (fs_read p)) w
    (\<lambda>r w'. quarantine_view p w' = quarantine_view p w \<and> (\<forall>bs. r = Ok bs \<longrightarrow> dk_files (qw_disk w) p = Some bs))"
  unfolding on_chat_disk_def outcome_with_error outcome_on_disk
  by (cases "dk_files (qw_disk w) p")
    (auto simp: fs_read_def outcome_fs_call outcome_simps quarantine_view_def split: prod.split option.split)

lemma load_chat_outcome:
  assumes root: "qw_root w = Some root"
  shows "outcome (load_chat_handoff cl capsule local seed) w
    (\<lambda>r w'. quarantine_view (chat_file root capsule) w' = quarantine_view (chat_file root capsule) w
      \<and> (\<forall>sn. r = Ok sn \<longrightarrow> read_chat cl capsule local seed (dk_files (qw_disk w) (chat_file root capsule)) = Ok sn))"
  (is "outcome _ _ ?Q")
proof -
  let ?p = "chat_file root capsule"
  show ?thesis
    unfolding load_chat_handoff_def Let_def outcome_def seq_run [of "chat_handoff_path _", OF chat_path_run [OF root]]
    unfolding outcome_def [symmetric]
  proof (rule outcome_inspected, rule outcome_if)
    assume "\<not> fs_exists ?p (qw_disk w)"
    then show "outcome (pure (Ok (empty_handoff capsule local))) w ?Q"
      by (simp add: outcome_pure read_chat_def fs_exists_def)
  next
    show "outcome (seq (on_chat_disk ''read failed'' (fs_read ?p)) (\<lambda>sealed.
      seq (pure (map_err (\<lambda>_. ''authentication failed'') (open_chat_handoff_snapshot (cl_crypto cl) seed
        (chat_handoff_aad (encode_hex (bytes (cs_public_key capsule))) (cs_network capsule) (encode_hex (bytes local)))
        sealed))) (\<lambda>plaintext.
      seq (pure (ok_or (cl_get cl plaintext) ''snapshot corrupt'')) (\<lambda>snapshot.
        pure (if \<not> handoff_accepted capsule local snapshot then Err ''scope or bounds mismatch'' else Ok snapshot))))) w ?Q"
      by (rule outcome_seqI [OF read_outcome], rule outcome_checked, rule outcome_checked)
        (auto simp: outcome_pure read_chat_def)
  qed
qed

lemma read_chat_accepted: "read_chat cl capsule local seed content = Ok sn \<Longrightarrow> handoff_accepted capsule local sn"
  by (auto simp: read_chat_def handoff_accepted_def empty_handoff_def split: option.splits if_splits
      elim!: and_then.elims)

text \<open>What a restarted process reads.\<close>

definition chat_after_restart ::
  "chat_lib \<Rightarrow> capsule_state \<Rightarrow> b32 \<Rightarrow> seed \<Rightarrow> quarantine_world \<Rightarrow> (string, chat_snapshot) result" where
  "chat_after_restart cl capsule local seed w = fst (load_chat_handoff cl capsule local seed (restart w))"

lemma load_chat_run:
  assumes root: "qw_root w = Some root" and calm: "dk_faults (qw_disk w) = []"
  shows "load_chat_handoff cl capsule local seed w
    = (read_chat cl capsule local seed (dk_files (qw_disk w) (chat_file root capsule)), w)"
proof -
  note path = seq_run [of "chat_handoff_path _", OF chat_path_run [OF root]]
  show ?thesis
    unfolding load_chat_handoff_def Let_def path
    by (cases "dk_files (qw_disk w) (chat_file root capsule)")
      (auto simp: seq_def inspect_def pure_def fs_exists_def on_chat_disk_def with_error_def on_disk_def
        fs_read_def no_faults [OF calm] read_chat_def split: result.split)
qed

lemma chat_after_restart_eq:
  assumes root: "qw_root w = Some root"
  shows "chat_after_restart cl capsule local seed w
    = read_chat cl capsule local seed (dk_files (qw_disk w) (chat_file root capsule))"
  using load_chat_run [of "restart w" root] root by (simp add: chat_after_restart_def restart_def)

section \<open>Eviction\<close>

lemma evict_over_capacity_induct:
  assumes "I sn" and step: "\<And>s. I s \<Longrightarrow> ch_records s \<noteq> [] \<Longrightarrow> I (evict_first s)"
  shows "I (evict_over_capacity sn) \<and> length (ch_records (evict_over_capacity sn)) \<le> CHAT_INBOX_CAPACITY"
  using assms(1)
proof (induction sn rule: evict_over_capacity.induct)
  case (1 sn)
  show ?case
  proof (cases "length (ch_records sn) > CHAT_INBOX_CAPACITY")
    case True
    then have "ch_records sn \<noteq> []" by (cases "ch_records sn") auto
    with step "1.prems" have "I (evict_first sn)" .
    then show ?thesis using "1.IH" True by (simp add: evict_over_capacity.simps [of sn])
  qed (use "1.prems" in \<open>simp add: evict_over_capacity.simps [of sn]\<close>)
qed

lemma evict_over_size_induct:
  assumes "I sn" and step: "\<And>s. I s \<Longrightarrow> ch_records s \<noteq> [] \<Longrightarrow> I (evict_first s)"
    and "evict_over_size cl sn = Ok sn'"
  shows "I sn' \<and> length (ch_records sn') \<le> length (ch_records sn)"
  using assms(1,3)
proof (induction cl sn rule: evict_over_size.induct)
  case (1 cl sn)
  show ?case
  proof (cases "unwrap_or (cl_size cl sn) (- 1) > of_nat CHAT_HANDOFF_MAX_PLAINTEXT_BYTES")
    case True
    then have more: "\<not> length (ch_records sn) \<le> 1" using "1.prems"(2) by (auto simp: evict_over_size.simps [of cl sn])
    then have "ch_records sn \<noteq> []" by (cases "ch_records sn") auto
    with step "1.prems"(1) have "I (evict_first sn)" .
    moreover have "evict_over_size cl (evict_first sn) = Ok sn'"
      using "1.prems"(2) True more by (simp add: evict_over_size.simps [of cl sn])
    ultimately show ?thesis using "1.IH" [OF True more] by fastforce
  qed (use "1.prems" in \<open>simp add: evict_over_size.simps [of cl sn]\<close>)
qed

text \<open>What evicting keeps: the scope, the bound of the tombstones, no record that was not there, and an identifier
  \<open>i\<close> is a record that has no tombstone or is among the tombstones of the evictions so far.\<close>

definition evicting :: "chat_snapshot \<Rightarrow> utf8 \<Rightarrow> chat_snapshot \<Rightarrow> bool" where
  "evicting sn0 i sn \<longleftrightarrow>
    sn\<lparr> ch_records := [], ch_tombstones := [] \<rparr> = sn0\<lparr> ch_records := [], ch_tombstones := [] \<rparr>
    \<and> length (ch_tombstones sn) \<le> CHAT_TOMBSTONE_CAPACITY
    \<and> (\<exists>k. ch_records sn = drop k (ch_records sn0))
    \<and> length (ch_records sn) \<le> 513
    \<and> (i \<in> cm_event_id ` set (ch_records sn) \<and> i \<notin> set (ch_tombstones sn)
       \<or> i \<in> set (take (513 - length (ch_records sn)) (rev (ch_tombstones sn))))"

lemma rev_newest: "rev (drop (length xs - n) xs) = take n (rev xs)"
  by (simp add: take_rev)

lemma evict_first_tombstones:
  "rev (ch_tombstones (evict_first sn)) = take CHAT_TOMBSTONE_CAPACITY
    (let i = cm_event_id (hd (ch_records sn)); ts = rev (ch_tombstones sn) in if i \<in> set ts then ts else i # ts)"
  by (simp add: evict_first_def append_chat_tombstones_def Let_def rev_newest)

lemma evicting_step:
  assumes "evicting sn0 i sn" and some: "ch_records sn \<noteq> []"
  shows "evicting sn0 i (evict_first sn)"
proof -
  obtain m rest where records: "ch_records sn = m # rest" using some by (cases "ch_records sn") auto
  let ?ts = "rev (ch_tombstones sn)" and ?n = "513 - length (ch_records sn)" and ?ts' = "rev (ch_tombstones (evict_first sn))"
  have n: "513 - length rest = Suc ?n" and n_le: "Suc ?n \<le> CHAT_TOMBSTONE_CAPACITY" and room: "length (ch_records sn) \<le> 513"
    using assms(1) by (auto simp: evicting_def records CHAT_TOMBSTONE_CAPACITY_def)
  have bound: "length ?ts' \<le> CHAT_TOMBSTONE_CAPACITY" by (simp add: evict_first_tombstones)
  have ts': "take (Suc ?n) ?ts' = take (Suc ?n) (if cm_event_id m \<in> set ?ts then ?ts else cm_event_id m # ?ts)"
    using n_le by (simp add: evict_first_tombstones records Let_def min_absorb1)
  have sub: "set ?ts' \<subseteq> insert (cm_event_id m) (set ?ts)"
    by (auto simp: evict_first_tombstones records Let_def dest: in_set_takeD split: if_splits)
  have keep: "i \<in> set (take (Suc ?n) ?ts')" if "i \<in> set (take ?n ?ts)"
    using that set_take_subset_set_take [of ?n "Suc ?n" ?ts] by (auto simp: ts')
  have fresh: "i \<in> set (take (Suc ?n) ?ts')" if "i = cm_event_id m" "i \<notin> set ?ts"
    using that by (simp add: ts')
  have "i \<in> cm_event_id ` set rest \<and> i \<notin> set ?ts' \<or> i \<in> set (take (Suc ?n) ?ts')"
    using assms(1) keep fresh sub unfolding evicting_def records by auto
  moreover have "\<exists>k. rest = drop k (ch_records sn0)"
  proof -
    obtain k where "m # rest = drop k (ch_records sn0)" using assms(1) by (auto simp: evicting_def records)
    then have "rest = drop (Suc k) (ch_records sn0)" by (metis drop_Suc list.sel(3) tl_drop)
    then show ?thesis ..
  qed
  moreover have "evict_first sn\<lparr> ch_records := [], ch_tombstones := [] \<rparr> = sn\<lparr> ch_records := [], ch_tombstones := [] \<rparr>"
    by (simp add: evict_first_def append_chat_tombstones_def Let_def)
  ultimately show ?thesis
    using assms(1) bound room n by (auto simp: evicting_def records)
qed

section \<open>Taking a message\<close>

text \<open>The snapshot with the new message in its place.\<close>

definition with_message :: "chat_message \<Rightarrow> chat_snapshot \<Rightarrow> chat_snapshot" where
  "with_message m sn = sn\<lparr> ch_records := sort_key (\<lambda>x. (cm_timestamp_ms x, cm_event_id x)) (ch_records sn @ [m]) \<rparr>"

definition chat_known :: "chat_snapshot \<Rightarrow> utf8 set" where
  "chat_known sn = set (ch_tombstones sn) \<union> cm_event_id ` set (ch_records sn)"

lemma evicted_known:
  assumes accepted: "handoff_accepted capsule local sn" and size: "evict_over_size cl (evict_over_capacity (with_message m sn)) = Ok sn'"
    and i: "i \<in> insert (cm_event_id m) (cm_event_id ` set (ch_records sn))" "i \<notin> set (ch_tombstones sn)"
  shows "handoff_accepted capsule local sn' \<and> i \<in> chat_known sn' \<and> (\<exists>k. ch_records sn' = drop k (ch_records (with_message m sn)))"
proof -
  let ?I = "evicting (with_message m sn) i"
  have "?I (with_message m sn)"
    using accepted i by (auto simp: evicting_def with_message_def handoff_accepted_def CHAT_INBOX_CAPACITY_def intro: exI [of _ 0])
  from evict_over_capacity_induct [of ?I, OF this evicting_step]
  have cap: "?I (evict_over_capacity (with_message m sn))"
    "length (ch_records (evict_over_capacity (with_message m sn))) \<le> CHAT_INBOX_CAPACITY" by blast+
  from evict_over_size_induct [of ?I, OF cap(1) evicting_step size]
  have I: "?I sn'" and len: "length (ch_records sn') \<le> CHAT_INBOX_CAPACITY" using cap(2) by auto
  have scope: "ch_schema_version sn' = ch_schema_version sn \<and> ch_capsule_id sn' = ch_capsule_id sn
      \<and> ch_network sn' = ch_network sn \<and> ch_transport_endpoint sn' = ch_transport_endpoint sn"
    using I by (cases sn, cases sn') (simp add: evicting_def with_message_def)
  have "i \<in> chat_known sn'"
    using I by (auto simp: evicting_def chat_known_def dest: in_set_takeD)
  with scope I len accepted show ?thesis by (auto simp: handoff_accepted_def evicting_def)
qed

text \<open>A call that takes a message either fails and leaves the file, or finds the message known, or leaves the
  snapshot it computed in the file.\<close>

definition chat_laws :: "chat_lib \<Rightarrow> bool" where
  "chat_laws cl \<longleftrightarrow> aead_correct (cl_crypto cl)
    \<and> (\<forall>sn plaintext. cl_put cl sn = Some plaintext \<longrightarrow> cl_get cl plaintext = Some sn)"

lemma sealed_chat_opens:
  "aead_correct lib \<Longrightarrow> seal_chat_handoff_snapshot lib nonce seed a p = Ok s \<Longrightarrow>
    open_chat_handoff_snapshot lib seed a s = Ok p"
  unfolding seal_chat_handoff_snapshot_def open_chat_handoff_snapshot_def by (rule sealed_opens)

lemma written_chat_read:
  assumes laws: "chat_laws cl" and written: "written_chat cl sn seed p w r w'" and ok: "r = Ok ()"
    and accepted: "handoff_accepted capsule local sn"
  shows "read_chat cl capsule local seed (dk_files (qw_disk w') p) = Ok sn"
proof -
  obtain plaintext nonce sealed where put: "cl_put cl sn = Some plaintext"
    and seal: "seal_chat_handoff_snapshot (cl_crypto cl) nonce seed
      (chat_handoff_aad (ch_capsule_id sn) (ch_network sn) (ch_transport_endpoint sn)) plaintext = Ok sealed"
    and content: "dk_files (qw_disk w') p = Some sealed"
    using written ok by (auto simp: written_chat_def)
  have "open_chat_handoff_snapshot (cl_crypto cl) seed
      (chat_handoff_aad (ch_capsule_id sn) (ch_network sn) (ch_transport_endpoint sn)) sealed = Ok plaintext"
    using laws seal by (intro sealed_chat_opens) (auto simp: chat_laws_def)
  then show ?thesis
    using accepted put laws content by (auto simp: read_chat_def chat_laws_def handoff_accepted_def)
qed

definition message_taken ::
  "chat_lib \<Rightarrow> capsule_state \<Rightarrow> b32 \<Rightarrow> seed \<Rightarrow> chat_message \<Rightarrow> quarantine_world \<Rightarrow> quarantine_world \<Rightarrow> bool" where
  "message_taken cl capsule local seed m w w' \<longleftrightarrow>
    (\<exists>sn sn'. chat_after_restart cl capsule local seed w = Ok sn \<and> chat_after_restart cl capsule local seed w' = Ok sn'
      \<and> (if cm_event_id m \<in> chat_known sn then sn' = sn
         else evict_over_size cl (evict_over_capacity (with_message m sn)) = Ok sn'))"

lemma persist_chat_outcome:
  assumes laws: "chat_laws cl" and root: "qw_root w = Some root"
  shows "outcome (persist_chat_handoff cl capsule local seed m) w (\<lambda>r w'.
    if r = Ok () then message_taken cl capsule local seed m w w'
    else chat_after_restart cl capsule local seed w' = chat_after_restart cl capsule local seed w)"
  (is "outcome _ _ ?Q")
proof -
  let ?p = "chat_file root capsule" and ?read = "\<lambda>w. read_chat cl capsule local seed (dk_files (qw_disk w) (chat_file root capsule))"
  have after: "chat_after_restart cl capsule local seed w1 = ?read w1" if "qw_root w1 = Some root" for w1
    by (rule chat_after_restart_eq [OF that])
  note before = after [OF root]
  have stop: "\<not> r = Ok () \<Longrightarrow> quarantine_view ?p w1 = quarantine_view ?p w \<Longrightarrow> ?Q r w1" for r w1
    using quarantine_view_root [of ?p w1 w] root by (simp add: before after)
  show ?thesis
    unfolding persist_chat_handoff_def
  proof (rule outcome_seqI [OF load_chat_outcome [OF root]], rule outcome_if)
    fix sn w1
    assume loaded: "quarantine_view ?p w1 = quarantine_view ?p w \<and> (\<forall>sn'. Ok sn = Ok sn' \<longrightarrow> ?read w = Ok sn')"
    have same: "dk_files (qw_disk w1) ?p = dk_files (qw_disk w) ?p" "qw_root w1 = Some root"
      using quarantine_view_root [OF conjunct1 [OF loaded]] root by simp_all
    have sn: "?read w = Ok sn" using loaded by blast
    then have accepted: "handoff_accepted capsule local sn" by (rule read_chat_accepted)
    let ?known = "cm_event_id m \<in> set (ch_tombstones sn) \<or> cm_event_id m \<in> cm_event_id ` set (ch_records sn)"
    show "outcome (pure (Ok ())) w1 ?Q" if ?known
      using that sn same by (simp add: outcome_pure message_taken_def before after chat_known_def)
    show "outcome (let sn = sn\<lparr> ch_records := sort_key (\<lambda>m. (cm_timestamp_ms m, cm_event_id m)) (ch_records sn @ [m]) \<rparr>
       in seq (pure (evict_over_size cl (evict_over_capacity sn))) (\<lambda>sn. write_chat_handoff cl sn seed)) w1 ?Q" if "\<not> ?known"
      unfolding Let_def with_message_def [symmetric]
    proof (rule outcome_checked)
      fix sn' assume size: "evict_over_size cl (evict_over_capacity (with_message m sn)) = Ok sn'"
      have accepted': "handoff_accepted capsule local sn'"
        using evicted_known [OF accepted size, of "cm_event_id m"] that by simp
      then have path: "?p = handoff_file root (ch_capsule_id sn')"
        by (simp add: handoff_accepted_def chat_file_def)
      show "outcome (write_chat_handoff cl sn' seed) w1 ?Q"
      proof (rule outcome_weaken [OF write_chat_outcome [OF same(2) path]])
        fix r w' assume W: "written_chat cl sn' seed ?p w1 r w'"
        then have root': "qw_root w' = Some root" using same(2) by (simp add: written_chat_def)
        show "?Q r w'"
        proof (cases "r = Ok ()")
          case True
          have "?read w' = Ok sn'" by (rule written_chat_read [OF laws W True accepted'])
          then show ?thesis
            using True that sn size by (simp add: message_taken_def before after root' chat_known_def)
        next
          case False
          then have "dk_files (qw_disk w') ?p = dk_files (qw_disk w1) ?p" using W by (simp add: written_chat_def)
          then show ?thesis using False by (simp add: before after root' same(1))
        qed
      qed
    qed (use loaded stop in auto)
  qed (use stop in auto)
qed

lemma message_taken_known:
  assumes "message_taken cl capsule local seed m w w'" and root: "qw_root w = Some root"
  shows "\<exists>sn sn'. chat_after_restart cl capsule local seed w = Ok sn \<and> chat_after_restart cl capsule local seed w' = Ok sn'
    \<and> insert (cm_event_id m) (cm_event_id ` set (ch_records sn)) - set (ch_tombstones sn) \<subseteq> chat_known sn'
    \<and> cm_event_id m \<in> chat_known sn'"
proof -
  obtain sn sn' where sn: "chat_after_restart cl capsule local seed w = Ok sn"
    and sn': "chat_after_restart cl capsule local seed w' = Ok sn'"
    and cases: "if cm_event_id m \<in> chat_known sn then sn' = sn
      else evict_over_size cl (evict_over_capacity (with_message m sn)) = Ok sn'"
    using assms(1) by (auto simp: message_taken_def)
  have accepted: "handoff_accepted capsule local sn"
    using sn read_chat_accepted by (simp add: chat_after_restart_eq [OF root])
  show ?thesis
  proof (cases "cm_event_id m \<in> chat_known sn")
    case True
    then show ?thesis using sn sn' cases by (auto simp: chat_known_def)
  next
    case False
    then have "evict_over_size cl (evict_over_capacity (with_message m sn)) = Ok sn'" using cases by simp
    note kept = evicted_known [OF accepted this]
    have "cm_event_id m \<notin> set (ch_tombstones sn)" using False by (simp add: chat_known_def)
    then show ?thesis using sn sn' kept by blast
  qed
qed

text \<open>A codec of two snapshots, for the witnesses.\<close>

definition two_chats :: "chat_snapshot \<Rightarrow> chat_snapshot \<Rightarrow> chat_lib" where
  "two_chats sn sn' = \<lparr> cl_crypto = sample_crypto, cl_nonce = (\<lambda>n. bfill (of_nat n)),
    cl_put = (\<lambda>x. if x = sn' then Some [2] else if x = sn then Some [1] else None),
    cl_get = (\<lambda>bs. if bs = [2] then Some sn' else if bs = [1] then Some sn else None), cl_size = (\<lambda>x. Some 0) \<rparr>"

lemma two_chats_laws: "chat_laws (two_chats sn sn')"
  by (simp add: chat_laws_def two_chats_def sample_crypto_ideal)

lemma sample_seals: "\<exists>s. seal_chat_handoff_snapshot sample_crypto nonce (KeySeed (bfill 9)) a p = Ok s"
  by (auto simp: seal_chat_handoff_snapshot_def seal_with_label_Ok derive_key_with_label_def sample_crypto_def)

lemma two_chats_written:
  assumes "qw_root w = Some root" and "dk_faults (qw_disk w) = []"
    and "dk_files (qw_disk w) (chat_temp (handoff_file root (ch_capsule_id sn'))) = None"
  shows "\<exists>w'. write_chat_handoff (two_chats sn sn') sn' (KeySeed (bfill 9)) w = (Ok (), w')"
proof -
  obtain s where "seal_chat_handoff_snapshot sample_crypto (bfill (of_nat (qw_draws w))) (KeySeed (bfill 9))
      (chat_handoff_aad (ch_capsule_id sn') (ch_network sn') (ch_transport_endpoint sn')) [2] = Ok s"
    using sample_seals by blast
  then show ?thesis
    using assms
    by (simp add: write_chat_handoff_def chat_handoff_path_def application_storage_root_def seq_def inspect_def pure_def
        handoff_file_def on_chat_disk_def with_error_def on_disk_def no_faults fs_create_dir_all_def two_chats_def
        CHAT_HANDOFF_MAX_PLAINTEXT_BYTES_def draw_chat_nonce_def fs_exists_def fs_create_new_def fs_write_all_def
        fs_sync_all_def fs_rename_def modify_def set_file_def)
qed

definition sample_chat_capsule :: capsule_state where
  "sample_chat_capsule = \<lparr> cs_public_key = bfill 7, cs_capsule_type = 0, cs_network = 1, cs_slots = [],
    cs_ledger_hash = 0, cs_ledger_head_commitment = None, cs_relationships_count = 0, cs_version = 0,
    cs_starter_kinds = [] \<rparr>"

lemma two_chats_persisted:
  assumes root: "qw_root w = Some root" and calm: "dk_faults (qw_disk w) = []"
    and temp: "\<And>i. dk_files (qw_disk w) (chat_temp (handoff_file root i)) = None"
    and read: "read_chat (two_chats sn sn') capsule local (KeySeed (bfill 9)) (dk_files (qw_disk w) (chat_file root capsule)) = Ok sn"
    and new: "cm_event_id m \<notin> chat_known sn" and sn': "evict_over_capacity (with_message m sn) = sn'"
  shows "\<exists>w'. persist_chat_handoff (two_chats sn sn') capsule local (KeySeed (bfill 9)) m w = (Ok (), w')"
proof -
  have "evict_over_size (two_chats sn sn') sn' = Ok sn'"
    by (subst evict_over_size.simps) (simp add: two_chats_def unwrap_or_def)
  moreover have "load_chat_handoff (two_chats sn sn') capsule local (KeySeed (bfill 9)) w = (Ok sn, w)"
    unfolding load_chat_run [OF root calm] read ..
  ultimately show ?thesis
    using two_chats_written [OF root calm temp, where sn = sn and sn' = sn'] new
    by (simp add: persist_chat_handoff_def seq_run chat_known_def
        with_message_def [symmetric] sn')
qed

text \<open>C15: A chat envelope for this capsule is either consumed, and then after a restart its identifier is that of a
  message in the handoff file or of a tombstone, as is every identifier of a message that was there and had no
  tombstone; or it is left to be retried, at whichever file operation the handoff failed, and then the file reads
  as before.\<close>

theorem consumed_chat_survives_restart:
  assumes "chat_laws cl" and "qw_root w = Some root"
    and "en_kind message = CAPSULE_CHAT_KIND" and "en_to message = local" and "en_from message \<noteq> local"
    and "trimmed_text (en_payload message) = Some payload_json" and "payload_json \<noteq> []"
    and run: "queue_incoming_chat_if_match cl message item_id local capsule seed w = (d, w')"
  shows "d = RouteConsumed \<and> (\<exists>sn sn'. chat_after_restart cl capsule local seed w = Ok sn
      \<and> chat_after_restart cl capsule local seed w' = Ok sn' \<and> item_id \<in> chat_known sn'
      \<and> cm_event_id ` set (ch_records sn) - set (ch_tombstones sn) \<subseteq> chat_known sn')
    \<or> d = RouteRetry \<and> chat_after_restart cl capsule local seed w' = chat_after_restart cl capsule local seed w"
proof -
  let ?m = "\<lparr> cm_event_id = item_id, cm_from_hex = encode_hex (bytes (en_from message)),
    cm_to_hex = encode_hex (bytes (en_to message)), cm_payload_json = payload_json, cm_timestamp_ms = en_timestamp message \<rparr>"
  obtain r where call: "persist_chat_handoff cl capsule local seed ?m w = (r, w')"
    and d: "d = (if r = Ok () then RouteConsumed else RouteRetry)"
    using run assms(3-7) by (auto simp: queue_incoming_chat_if_match_def split: prod.splits result.splits)
  from outcomeD [OF persist_chat_outcome [OF assms(1,2)] call] d show ?thesis
    using message_taken_known [OF _ assms(2), of cl capsule local seed ?m w'] by (auto split: if_splits)
qed

lemma sorted_before:
  fixes k :: "'a \<Rightarrow> 'b :: linorder"
  shows "(\<And>x. x \<in> set xs \<Longrightarrow> k m < k x) \<Longrightarrow> sort_key k (xs @ [m]) = m # sort_key k xs"
proof (induction xs)
  case (Cons x xs)
  then have "sort_key k (xs @ [m]) = m # sort_key k xs" and "\<not> k x \<le> k m" by (simp_all add: not_le)
  then show ?case by simp
qed simp

text \<open>C16: In a full inbox a new message whose timestamp is smaller than those of the messages there is displaced by
  the very call that takes it: the call succeeds, and after a restart the message is not there and its identifier
  is a tombstone, so that it is not taken again.\<close>

theorem full_inbox_displaces_older_message:
  assumes "chat_laws cl" and root: "qw_root w = Some root"
    and sn: "chat_after_restart cl capsule local seed w = Ok sn"
    and full: "length (ch_records sn) = CHAT_INBOX_CAPACITY" and new: "cm_event_id m \<notin> chat_known sn"
    and older: "\<And>x. x \<in> set (ch_records sn) \<Longrightarrow> cm_timestamp_ms m < cm_timestamp_ms x"
    and run: "persist_chat_handoff cl capsule local seed m w = (Ok (), w')"
  shows "\<exists>sn'. chat_after_restart cl capsule local seed w' = Ok sn' \<and> set (ch_records sn') \<subseteq> set (ch_records sn)
    \<and> cm_event_id m \<in> set (ch_tombstones sn')"
proof -
  from outcomeD [OF persist_chat_outcome [OF assms(1,2)] run] obtain sn' where
    sn': "chat_after_restart cl capsule local seed w' = Ok sn'"
    and size: "evict_over_size cl (evict_over_capacity (with_message m sn)) = Ok sn'"
    using sn new by (auto simp: message_taken_def)
  have records: "ch_records (with_message m sn) = m # sort_key (\<lambda>x. (cm_timestamp_ms x, cm_event_id x)) (ch_records sn)"
    using older unfolding with_message_def by (subst sorted_before) (auto simp: less_prod_def)
  then have first: "evict_over_capacity (with_message m sn) = evict_first (with_message m sn)"
    using full by (simp add: evict_over_capacity.simps [of "with_message m sn"] evict_over_capacity.simps [of "evict_first _"])
  let ?I = "\<lambda>s. set (ch_records s) \<subseteq> set (ch_records sn)"
  have "?I sn'"
    using evict_over_size_induct [of ?I, OF _ _ size] by (auto simp: first records dest: list.set_sel(2))
  moreover have "cm_event_id m \<in> chat_known sn'"
    using evicted_known [OF _ size, of capsule local "cm_event_id m"] new sn read_chat_accepted
    by (auto simp: chat_after_restart_eq [OF root] chat_known_def)
  moreover have "cm_event_id m \<notin> cm_event_id ` set (ch_records sn)" using new by (simp add: chat_known_def)
  ultimately show ?thesis using sn' by (auto simp: chat_known_def)
qed

definition sample_chat_message :: chat_message where
  "sample_chat_message = \<lparr> cm_event_id = [1], cm_from_hex = encode_hex (bytes (bfill 3 :: b32)),
    cm_to_hex = encode_hex (bytes (bfill 2 :: b32)), cm_payload_json = [123, 125], cm_timestamp_ms = 5 \<rparr>"

definition sample_chat_envelope :: delivery_envelope where
  "sample_chat_envelope = \<lparr> en_schema_version = 1, en_from = bfill 3, en_to = bfill 2, en_kind = CAPSULE_CHAT_KIND,
    en_payload = [123, 125], en_timestamp = 5, en_correlation_id = None, en_domain_event = None \<rparr>"

lemma bfill_apart: "(bfill 3 :: b32) \<noteq> bfill 2"
  by simp

theorem consumed_chat_survives_restart_witness:
  "\<exists>cl w' sn'. queue_incoming_chat_if_match cl sample_chat_envelope [1] (bfill 2) sample_chat_capsule (KeySeed (bfill 9))
      sample_world = (RouteConsumed, w')
    \<and> chat_after_restart cl sample_chat_capsule (bfill 2) (KeySeed (bfill 9)) w' = Ok sn' \<and> [1] \<in> chat_known sn'"
proof -
  let ?sn = "empty_handoff sample_chat_capsule (bfill 2)"
  let ?cl = "two_chats ?sn (with_message sample_chat_message ?sn)"
  have "evict_over_capacity (with_message sample_chat_message ?sn) = with_message sample_chat_message ?sn"
    by (subst evict_over_capacity.simps) (simp add: with_message_def empty_handoff_def CHAT_INBOX_CAPACITY_def)
  from two_chats_persisted [where root = "[]" and w = sample_world and capsule = sample_chat_capsule and local = "bfill 2", OF _ _ _ _ _ this]
  obtain w' where call: "persist_chat_handoff ?cl sample_chat_capsule (bfill 2) (KeySeed (bfill 9)) sample_chat_message
      sample_world = (Ok (), w')"
    by (auto simp: sample_world_def read_chat_def chat_known_def empty_handoff_def)
  have trimmed: "trimmed_text [123, 125] = Some [123, 125]" by code_simp
  have run: "queue_incoming_chat_if_match ?cl sample_chat_envelope [1] (bfill 2) sample_chat_capsule (KeySeed (bfill 9))
      sample_world = (RouteConsumed, w')"
    using call bfill_apart by (simp add: queue_incoming_chat_if_match_def sample_chat_envelope_def trimmed sample_chat_message_def)
  from consumed_chat_survives_restart [OF two_chats_laws _ _ _ _ _ _ this] bfill_apart run trimmed show ?thesis
    by (fastforce simp: sample_world_def sample_chat_envelope_def)
qed

text \<open>A full inbox.\<close>

definition full_chat :: chat_snapshot where
  "full_chat = (empty_handoff sample_chat_capsule (bfill 2))
    \<lparr> ch_records := map (\<lambda>n. sample_chat_message\<lparr> cm_event_id := [2], cm_timestamp_ms := 6 \<rparr>) [0..<512] \<rparr>"

theorem full_inbox_displaces_older_message_witness:
  "\<exists>cl w w' sn'. chat_after_restart cl sample_chat_capsule (bfill 2) (KeySeed (bfill 9)) w = Ok full_chat
    \<and> persist_chat_handoff cl sample_chat_capsule (bfill 2) (KeySeed (bfill 9)) sample_chat_message w = (Ok (), w')
    \<and> chat_after_restart cl sample_chat_capsule (bfill 2) (KeySeed (bfill 9)) w' = Ok sn'
    \<and> set (ch_records sn') \<subseteq> set (ch_records full_chat) \<and> [1] \<in> set (ch_tombstones sn')"
proof -
  let ?cl = "two_chats full_chat (evict_over_capacity (with_message sample_chat_message full_chat))"
  obtain s where seal: "seal_chat_handoff_snapshot sample_crypto (bfill 0) (KeySeed (bfill 9))
      (chat_handoff_aad (ch_capsule_id full_chat) (ch_network full_chat) (ch_transport_endpoint full_chat)) [1] = Ok s"
    using sample_seals by blast
  let ?p = "chat_file [] sample_chat_capsule"
  let ?w = "sample_world\<lparr> qw_disk := \<lparr> dk_files = (\<lambda>p. None)(?p := Some s), dk_faults = [] \<rparr> \<rparr>"
  have accepted: "handoff_accepted sample_chat_capsule (bfill 2) full_chat"
    by (simp add: handoff_accepted_def full_chat_def empty_handoff_def CHAT_INBOX_CAPACITY_def CHAT_TOMBSTONE_CAPACITY_def)
  have read: "read_chat ?cl sample_chat_capsule (bfill 2) (KeySeed (bfill 9)) (dk_files (qw_disk ?w) ?p) = Ok full_chat"
    using sealed_chat_opens [OF sample_crypto_ideal seal] accepted
    by (simp add: read_chat_def two_chats_def full_chat_def empty_handoff_def)
  have new: "cm_event_id sample_chat_message \<notin> chat_known full_chat"
    by (auto simp: chat_known_def full_chat_def empty_handoff_def sample_chat_message_def)
  from two_chats_persisted [where root = "[]" and w = ?w, OF _ _ _ read new refl]
  obtain w' where call: "persist_chat_handoff ?cl sample_chat_capsule (bfill 2) (KeySeed (bfill 9)) sample_chat_message
      ?w = (Ok (), w')"
    by (auto simp: sample_world_def chat_file_def handoff_file_not_temp)
  have sn: "chat_after_restart ?cl sample_chat_capsule (bfill 2) (KeySeed (bfill 9)) ?w = Ok full_chat"
    using read by (simp add: chat_after_restart_eq sample_world_def)
  from full_inbox_displaces_older_message [OF two_chats_laws _ sn _ new _ call] sn call show ?thesis
    by (fastforce simp: sample_world_def full_chat_def sample_chat_message_def CHAT_INBOX_CAPACITY_def)
qed

end
