(* ===== verification/Storage_Calls.thy ===== *)
theory Storage_Calls
  imports Chat_Durable Capsule_Api Seed_Storage
begin

text \<open>
  The exported calls that set the storage root and delete the quarantine of a capsule
  (platform/hivra-ffi/src/inbound\_quarantine.rs), and the reach of the deletion.
\<close>

text \<open>A C string is its bytes; \<open>None\<close> is the null pointer.\<close>

definition hivra_set_application_storage_root :: "utf8 option \<Rightarrow> (quarantine_world, code, unit) action" where
  "hivra_set_application_storage_root path =
    (case path of
       None \<Rightarrow> pure (Err (- 1))
     | Some raw \<Rightarrow>
         if utf8_chars raw = None then pure (Err (- 2))
         else with_error (- 3) (set_application_storage_root (take 1 raw = [47]) (path_components [] raw)))"

definition hivra_delete_inbound_quarantine :: "b32 option \<Rightarrow> (quarantine_world, code, unit) action" where
  "hivra_delete_inbound_quarantine capsule_id_ptr =
    (case capsule_id_ptr of
       None \<Rightarrow> pure (Err (- 1))
     | Some capsule_id \<Rightarrow> with_error (- 2) (delete_capsule_quarantine (encode_hex (bytes capsule_id))))"

lemma refused_root_is_kept:
  "hivra_set_application_storage_root path w = (r, w') \<Longrightarrow> r \<noteq> Ok () \<Longrightarrow> w' = w"
  by (auto simp: hivra_set_application_storage_root_def set_application_storage_root_def with_error_def pure_def
      modify_def split: option.splits if_splits prod.splits)

definition quarantine_dir :: "path \<Rightarrow> utf8 \<Rightarrow> path" where
  "quarantine_dir root i = root @ [ascii ''capsules'', i, ascii ''transport_quarantine'']"

lemma remove_dir_all_outcome:
  "outcome (fs_remove_dir_all p) d (\<lambda>r d'. (\<forall>q. \<not> under p q \<longrightarrow> dk_files d' q = dk_files d q)
    \<and> (r = Ok () \<longrightarrow> (\<forall>q. under p q \<longrightarrow> dk_files d' q = None)))"
  unfolding fs_remove_dir_all_def outcome_fs_call outcome_modify
  by (cases "next_fault d", cases "fst (next_fault d)") auto

lemma deletion_outcome:
  assumes root: "qw_root w = Some root"
  shows "outcome (delete_capsule_quarantine i) w (\<lambda>r w'. qw_root w' = Some root
    \<and> (\<forall>q. \<not> under (quarantine_dir root i) q \<longrightarrow> dk_files (qw_disk w') q = dk_files (qw_disk w) q)
    \<and> (r = Ok () \<longrightarrow> (\<forall>q. under (quarantine_dir root i) q \<longrightarrow> dk_files (qw_disk w') q = None)))"
  (is "outcome _ _ ?Q")
proof -
  let ?p = "quarantine_dir root i"
  have root_run: "application_storage_root w = (Ok root, w)"
    by (simp add: application_storage_root_def inspect_def root)
  have remove: "outcome (on_disk (fs_remove_dir_all ?p)) w ?Q"
    unfolding outcome_on_disk by (rule outcome_weaken [OF remove_dir_all_outcome], rename_tac r d, case_tac r) (simp_all add: root)
  show ?thesis
    unfolding delete_capsule_quarantine_def Let_def quarantine_dir_def [symmetric]
  proof (rule outcome_checked)
    show "outcome (seq application_storage_root (\<lambda>root. seq (inspect (\<lambda>w. Ok (\<exists>q. under (quarantine_dir root i) q \<and> fs_exists q (qw_disk w))))
        (\<lambda>exists. if exists then on_disk (fs_remove_dir_all (quarantine_dir root i)) else pure (Ok ())))) w ?Q"
      unfolding outcome_def seq_run [of application_storage_root, OF root_run]
      unfolding outcome_def [symmetric]
      by (rule outcome_inspected, rule outcome_if, rule remove) (auto simp: outcome_pure root fs_exists_def)
  qed (simp_all add: root)
qed

lemma quarantine_dirs_apart:
  "i \<noteq> j \<Longrightarrow> \<not> under (quarantine_dir root i) (root @ ascii ''capsules'' # j # rest)"
  "k \<noteq> ascii ''transport_quarantine'' \<Longrightarrow> \<not> under (quarantine_dir root i) (root @ ascii ''capsules'' # j # k # rest)"
  by (auto simp: under_def quarantine_dir_def)

text \<open>Deleting the quarantine of a capsule empties it when the call succeeds, and whether or not it succeeds the
  quarantines of the other capsules and every chat handoff read, after a restart, as before.\<close>

lemma quarantine_deletion_is_confined:
  assumes root: "qw_root w = Some root" and run: "hivra_delete_inbound_quarantine (Some capsule_id) w = (r, w')"
    and path: "rp_snapshot_path repo = scope_dir root (rp_scope repo) @ [SNAPSHOT_FILE]"
    and scope: "validate_scope (rp_scope repo) = Ok ()"
  shows "chat_after_restart cl capsule local seed w' = chat_after_restart cl capsule local seed w
    \<and> (if qs_capsule_id (rp_scope repo) = encode_hex (bytes capsule_id)
       then r = Ok () \<longrightarrow> reopened lib repo w' = and_then (validate_snapshot lib (empty_snapshot (rp_scope repo)) (rp_scope repo))
         (\<lambda>_. Ok (empty_snapshot (rp_scope repo)))
       else reopened lib repo w' = reopened lib repo w)"
proof -
  let ?i = "encode_hex (bytes capsule_id)" and ?p = "rp_snapshot_path repo"
  obtain r' where call: "delete_capsule_quarantine ?i w = (r', w')" and r: "r = map_err (\<lambda>_. - 2) r'"
    using run by (auto simp: hivra_delete_inbound_quarantine_def with_error_def split: prod.splits)
  note deleted = outcomeD [OF deletion_outcome [OF root] call]
  have root': "qw_root w' = Some root" using deleted by simp
  have "\<not> under (quarantine_dir root ?i) (chat_file root capsule)"
    using quarantine_dirs_apart(2) [of "ascii ''capability_state''"]
    by (simp add: chat_file_def handoff_file_def chat_dir_def ascii_def)
  then have "chat_after_restart cl capsule local seed w' = chat_after_restart cl capsule local seed w"
    using deleted by (simp add: chat_after_restart_eq [OF root] chat_after_restart_eq [OF root'])
  moreover have "reopened lib repo w' = reopened lib repo w" if "qs_capsule_id (rp_scope repo) \<noteq> ?i"
  proof -
    have "\<not> under (quarantine_dir root ?i) ?p" using that quarantine_dirs_apart(1) by (simp add: path scope_dir_def)
    then show ?thesis using deleted by (simp add: reopened_eq [OF root path] reopened_eq [OF root' path])
  qed
  moreover have "reopened lib repo w' = and_then (validate_snapshot lib (empty_snapshot (rp_scope repo)) (rp_scope repo))
      (\<lambda>_. Ok (empty_snapshot (rp_scope repo)))" if "qs_capsule_id (rp_scope repo) = ?i" and "r = Ok ()"
  proof -
    have "under (quarantine_dir root ?i) ?p" using that by (simp add: path scope_dir_def under_def quarantine_dir_def)
    then have "dk_files (qw_disk w') ?p = None" using deleted r that(2) by (cases r') auto
    then show ?thesis by (simp add: reopened_eq [OF root' path] scope read_content_def)
  qed
  ultimately show ?thesis by simp
qed

end
