(* ===== verification/Spec2Isabelle.thy ===== *)
theory Spec2Isabelle
  imports Ledger_History Replay_Boundaries Starter_Capsule History Pair Engine Engine_Clock Transport
    Keystore Ledger_Json Ingress_Batch Delivery_Queues Acceptance Quarantine_Items Nostr_Session Seed_Calls
    Plugin_Runtime Nostr_Crypto Delivery_Selfcheck Storage_Calls
begin

text \<open>
  A verification library for the Rust core of Hivra, an application in which every user owns a capsule: a seed, a
  root key, five starters, and an append-only ledger of signed events from which everything else is projected.
  Capsules invite each other by sending copies of events through untrusted relays.

  \<^bold>\<open>The program and its parts.\<close>
  The application calls exported functions (platform/hivra-ffi). They keep one process-wide runtime: the active
  capsule with its ledger, a clock, a cached transport, the quarantine of deliveries that cannot be admitted yet, and
  the inboxes of chat messages and attestations. Events are prepared and signed by the engine
  (engine/hivra-engine) over the key storage (platform/hivra-keystore) and recorded by the ledger (core/hivra-core).
  Deliveries arrive in batches from the Nostr adapter (adapters/hivra-transport); the receiver decides every item
  (append, ignore, quarantine, retry) and hands the decisions back, and only then does the adapter move its cursors.
  All queries (slots, invitations, relationships, history, pairs, retry queues) are folds over the recorded events.

  \<^bold>\<open>Conventions.\<close>
  A struct is a \<open>record\<close> and an enum a \<open>datatype\<close>; an integer is a word of its width, with
  \<open>saturating_\<close> operations as \<open>sat_add\<close>, \<open>sat_sub\<close> and \<open>sat_mul\<close>; a byte array of fixed length is a \<open>barray\<close>. A
  fallible function returns \<open>result\<close>: \<open>Ok\<close>, \<open>Err\<close> or \<open>Panic\<close>, the last for \<open>unwrap\<close>, \<open>expect\<close> and indexing out of
  range. Code with effects is an \<open>action\<close>: a function from a state to a result and the state it leaves, composed by
  \<open>seq\<close>, \<open>attempt\<close> and \<open>with_error\<close>; what an early return or a failed call leaves behind is therefore part of the
  model. \<open>outcome m s Q\<close> says what running \<open>m\<close> from \<open>s\<close> gives, \<open>preserves I m\<close> that it keeps an invariant.

  \<^bold>\<open>Theories and the code they model\<close> (paths under src/).
  \<^item> \<open>Prelude\<close>: results, byte arrays (with \<open>equal\<close> and \<open>linorder\<close> instances), saturating arithmetic, list lemmas;
    \<open>Utf8\<close>: well-formed UTF-8; \<open>Actions\<close>: the calculus of actions.
  \<^item> \<open>Primitives\<close>, \<open>Event\<close>, \<open>Payloads\<close>: core/hivra-core primitives.rs, event.rs, event\_payloads.rs. The locale
    \<open>payload_codec\<close> states what a codec promises and is interpreted on all nine payloads.
  \<^item> \<open>Ledger_V5\<close>, \<open>Ledger\<close>: ledger\_v5.rs, ledger.rs (both appends, both verifications, migration);
    \<open>Ledger_History\<close>: reachable ledgers, the locale \<open>journal\<close> interpreted on the v4 and the v5 append, and the
    uniqueness of the history behind a head commitment, the legacy events of a migrated ledger included.
  \<^item> \<open>Slot\<close>, \<open>Invitation\<close>, \<open>Relationship\<close>, \<open>Starter_Capsule\<close>, \<open>History\<close>, \<open>Pair\<close>: the projections slot.rs,
    invitation.rs, relationship.rs, starter.rs, capsule.rs, history.rs and pair.rs. The locale
    \<open>keyed_projection\<close> (theory \<open>Keyed_Projection\<close>) is the discipline of a vector of records updated by key; the
    invitation and the relationship projection are interpretations of it. \<open>Replay_Boundaries\<close> collects what the
    projections make of histories out of order.
  \<^item> \<open>Engine\<close>: engine/hivra-engine/src/lib.rs; \<open>Engine_Clock\<close>: the clock of runtime\_support.rs as a step relation of
    interleaved compare-exchange loops; \<open>Keystore\<close>: platform/hivra-keystore and adapters/hivra-ed25519-crypto;
    \<open>Seed_Storage\<close>, \<open>Seed_Calls\<close>: the stores of macOS and Android (macos/mod.rs, android/mod.rs), both
    interpretations of the locale \<open>seed_storage\<close>, and the exported calls over them; \<open>Nostr_Crypto\<close>:
    adapters/hivra-nostr-crypto.
  \<^item> \<open>Runtime\<close>, \<open>Runtime_Birth\<close>, \<open>Ledger_Json\<close>: runtime\_support.rs (creation, import, appends, queries; the JSON
    documents of a ledger, whose replay checksum is a text outside and a number inside).
  \<^item> \<open>Invitation_Support\<close>, \<open>Retry_Queue\<close>, \<open>Delivery_Queues\<close>, \<open>Delivery_Gate\<close>, \<open>Acceptance\<close>: invitation\_support.rs
    (readers of offers, retry queues, the gate for delivered events, the effects of accepting and rejecting). The
    locale \<open>retry_queue\<close> is interpreted on the queues of offers and of breaks.
  \<^item> \<open>Invitation_Api\<close>, \<open>Outbox\<close>, \<open>Ingress\<close>, \<open>Ingress_Route\<close>, \<open>Ingress_Batch\<close>, \<open>Calm\<close>: invitation\_api.rs and
    relationship\_api.rs (local decisions, sending, receiving a batch, the answer to every item).
  \<^item> \<open>Disk\<close>, \<open>Quarantine\<close>, \<open>Quarantine_Store\<close>, \<open>Quarantine_Items\<close>, \<open>Sender_Policy\<close>, \<open>Rate_Limit\<close>:
    inbound\_quarantine.rs. \<open>Disk\<close> is a file system whose every call may fail under a schedule of faults.
  \<^item> \<open>Chat_Handoff\<close>, \<open>Attestation_Inbox\<close>, \<open>Host\<close>, \<open>Capsule_Api\<close>, \<open>Api_Ledger\<close>, \<open>Host_Calls\<close>: chat\_api.rs,
    consensus\_attestation\_api.rs, delivery\_receipts\_api.rs, transport\_cache.rs, seed\_api.rs, capsule\_api.rs,
    ledger\_api.rs, selfcheck\_api.rs, and runs of arbitrary exported calls. \<open>Chat_Durable\<close>: what of the chat handoff
    survives a restart, and what its window displaces; \<open>Storage_Calls\<close>: the storage root and the
    deletion of a quarantine, and what the deletion does not reach.
  \<^item> \<open>Transport\<close>: adapters/hivra-transport/src/lib.rs; \<open>Nostr\<close>: its nostr/mod.rs; \<open>Nostr_Delivery\<close>: the runs of a
    session (\<open>session_run\<close>) and their invariant; \<open>Nostr_Session\<close>: what a session promises;
    \<open>Delivery_Selfcheck\<close>: the prepared-send check of selfcheck\_api.rs.
  \<^item> \<open>Plugin_Runtime\<close>: platform/hivra-wasm-runtime and plugin\_runtime\_api.rs.

  \<^bold>\<open>What is shown.\<close>
  \<^item> Ledger: what verifies is exactly what the appends build, for v4 and for v5 ledgers of the fresh form (no legacy
    events and the initial checksum); one head commitment has one history, as far as the legacy prefix of a migrated
    ledger is the one its anchor commits to; an exported ledger is read back and is taken again if it has its birth;
    after any sequence of exported calls and deliveries, failures included, the active ledger verifies in full and
    only grows between creations, imports and resets.
  \<^item> Payloads and keys: writers and readers are inverse, the decoders of event\_payloads.rs never panic, and the
    labels of the key roles and the data of the records keep sealed records of different roles apart.
  \<^item> Projections: slots implement a bounded set, invitations and relationships one automaton per key, answers are
    final; the history view is ordered and complete; the acceptance plan is sound and refused for its reasons only.
  \<^item> Delivery: the gate admits exactly the admissible events, a redelivery appends nothing, every item of a batch is
    answered and no slice of the router panics, a quarantined item is on disk and comes back, a consumed item stays finished, a sender
    is permitted a bounded rate as long as the clock does not go back, the retry queues hold exactly what is unanswered.
  \<^item> Transport: no event a relay returned is lost, the receiver's decisions are always accepted by the adapter, only
    authenticated envelopes are handed out, and what one session encodes another decodes.
  \<^item> Platform: a saved seed is the seed loaded, a deleted one is gone, on both systems; a plugin is run within its
    limits, its input buffer is given back once the entry point ran (not when writing the input failed), and the
    output buffer it returned is given back exactly once, whatever the host makes of its length.

  \<^bold>\<open>Parameters.\<close> Code that is not Rust code of the repository is an argument of the definitions that use it: \<open>H\<close> is SHA-256 and
  \<open>U\<close> the number of bytes of a \<open>usize\<close>; \<open>crypto_lib\<close> holds HKDF, AES-GCM, Ed25519 and BIP-39; \<open>platform\<close> the key
  store, the clock, random bytes and a reader of ledgers, which \<open>Ledger_Json\<close> defines over \<open>serde_json\<close>, the crates
  serde and serde\_json; \<open>quarantine_lib\<close> and \<open>chat_lib\<close> the wincode codecs and
  nonces; \<open>transport_ops\<close> the adapter as the host calls it; \<open>nostr_sdk\<close> the Nostr SDK, with the clock and the relays;
  \<open>N\<close> the derivation of the Nostr key; \<open>keychain\<close> is the key store of macOS and \<open>bridge\<close> that of Android behind
  the helper HivraKeystoreBridge.kt, which is Kotlin code under src/flutter; \<open>secp_lib\<close> the
  secp256k1 crate; \<open>wasm_engine\<close> the WebAssembly interpreter. Hypotheses on them are documented behaviour (a hash without collision among
  the two histories compared, a cipher that opens what it sealed under the same key and data, a codec that reads what it wrote, relays keyed by
  address, a keychain that is a map), stated as named predicates (\<open>sdk_ok\<close>, \<open>sdk_codecs\<close> and their like), and each theorem with such a
  hypothesis is applied to a concrete instance.

  \<^bold>\<open>Loops.\<close> Loops over lists and clocks are structural recursions or folds, so no fuel is used, except in the
  compare-exchange loop of the clock, which is a step relation because other threads run in between, and in the
  polling loops on relay connections, which belong to \<open>nostr_sdk\<close>.

  \<^bold>\<open>Not modelled.\<close> The JSON codecs of the crates (what the code itself does to the document of a ledger is in
  \<open>Ledger_Json\<close>), the wincode codecs, logs, diagnostic and error texts, raw pointers and string release of the C
  interface (ffi\_support.rs, lib.rs, capsule\_host.rs; a null pointer is an absent argument); locks, since every
  exported call runs under its mutex, so that calls are atomic and only their order varies; the threads of the
  Nostr runtime; the variants for wasm32 and for tests. The start-up of the helper on Android and its JNI
  calls are behind \<open>bridge\<close>. The readers of recorded events in invitation\_support.rs slice behind checks of the
  length and are total functions here, so nothing is stated about panics in them. The Flutter user interface is left out: it is code in another language that reaches the
  core only through the exported functions.
\<close>

end
